(* ===== verification/Prelude.thy ===== *)
theory Prelude
  imports Complex_Main
begin

text \<open>
  Shared ground of the development: the state-and-exception computations in which every
  service method of \<^verbatim>\<open>apps/api/app/services\<close> is written, the list tables that stand for
  database tables (rows looked up by key, replaced in place, appended), and the lemmas
  about both that the component theories rely on.

  A computation takes the state and returns an error or a value \<^emph>\<open>together with\<close> the state
  it has reached: a Python exception does not undo what was flushed before it. Undoing is
  what a database transaction does; it is modelled where the transaction is
  (\<open>Service_State\<close>).
\<close>

named_theorems run_simps \<open>unfolding of the computation combinators\<close>

type_synonym ('s, 'e, 'a) comp = "'s \<Rightarrow> ('e + 'a) \<times> 's"

definition ret :: "'a \<Rightarrow> ('s, 'e, 'a) comp" where
  "ret x s = (Inr x, s)"

definition raise :: "'e \<Rightarrow> ('s, 'e, 'a) comp" where
  "raise e s = (Inl e, s)"

definition bnd :: "('s, 'e, 'a) comp \<Rightarrow> ('a \<Rightarrow> ('s, 'e, 'b) comp) \<Rightarrow> ('s, 'e, 'b) comp" where
  "bnd m f s = (case m s of (Inl e, s') \<Rightarrow> (Inl e, s') | (Inr x, s') \<Rightarrow> f x s')"

definition thn :: "('s, 'e, unit) comp \<Rightarrow> ('s, 'e, 'b) comp \<Rightarrow> ('s, 'e, 'b) comp" where
  "thn m n = bnd m (\<lambda>_. n)"

definition guard :: "bool \<Rightarrow> 'e \<Rightarrow> ('s, 'e, unit) comp" where
  "guard b e = (if b then ret () else raise e)"

definition gets :: "('s \<Rightarrow> 'a) \<Rightarrow> ('s, 'e, 'a) comp" where
  "gets f s = (Inr (f s), s)"

definition modify :: "('s \<Rightarrow> 's) \<Rightarrow> ('s, 'e, unit) comp" where
  "modify f s = (Inr (), f s)"

definition lift :: "'e + 'a \<Rightarrow> ('s, 'e, 'a) comp" where
  "lift r s = (r, s)"

text \<open>\<open>require e o\<close> raises \<open>e\<close> when a lookup found nothing.\<close>

definition require :: "'e \<Rightarrow> 'a option \<Rightarrow> ('s, 'e, 'a) comp" where
  "require e r = (case r of None \<Rightarrow> raise e | Some x \<Rightarrow> ret x)"

text \<open>\<open>try: m except h\<close>: the handler runs in the state the exception left behind.\<close>

definition except :: "('s, 'e, 'a) comp \<Rightarrow> ('e \<Rightarrow> ('s, 'e, 'a) comp) \<Rightarrow> ('s, 'e, 'a) comp" where
  "except m h s = (case m s of (Inl e, s') \<Rightarrow> h e s' | (Inr x, s') \<Rightarrow> (Inr x, s'))"

definition whenever :: "bool \<Rightarrow> ('s, 'e, unit) comp \<Rightarrow> ('s, 'e, unit) comp" where
  "whenever b m = (if b then m else ret ())"

subsection \<open>How a computation ends\<close>

lemma ret_run [simp, run_simps]: "ret x s = (r, s') \<longleftrightarrow> r = Inr x \<and> s' = s"
  by (auto simp: ret_def)

lemma raise_run [simp, run_simps]: "raise e s = (r, s') \<longleftrightarrow> r = Inl e \<and> s' = s"
  by (auto simp: raise_def)

lemma gets_run [simp, run_simps]: "gets f s = (r, s') \<longleftrightarrow> r = Inr (f s) \<and> s' = s"
  by (auto simp: gets_def)

lemma modify_run [simp, run_simps]: "modify f s = (r, s') \<longleftrightarrow> r = Inr () \<and> s' = f s"
  by (auto simp: modify_def)

lemma lift_run [simp, run_simps]: "lift q s = (r, s') \<longleftrightarrow> r = q \<and> s' = s"
  by (auto simp: lift_def)

lemma bnd_Inr [run_simps]:
  "bnd m f s = (Inr y, t) \<longleftrightarrow> (\<exists>x s'. m s = (Inr x, s') \<and> f x s' = (Inr y, t))"
  by (auto simp: bnd_def split: prod.splits sum.splits)

lemma bnd_Inl [run_simps]:
  "bnd m f s = (Inl e, t) \<longleftrightarrow>
     m s = (Inl e, t) \<or> (\<exists>x s'. m s = (Inr x, s') \<and> f x s' = (Inl e, t))"
  by (auto simp: bnd_def split: prod.splits sum.splits)

lemma thn_Inr [run_simps]:
  "thn m n s = (Inr y, t) \<longleftrightarrow> (\<exists>s'. m s = (Inr (), s') \<and> n s' = (Inr y, t))"
  by (auto simp: thn_def bnd_Inr)

lemma thn_Inl [run_simps]:
  "thn m n s = (Inl e, t) \<longleftrightarrow>
     m s = (Inl e, t) \<or> (\<exists>s'. m s = (Inr (), s') \<and> n s' = (Inl e, t))"
  by (auto simp: thn_def bnd_Inl)

lemma guard_Inr [simp, run_simps]: "guard b e s = (Inr x, s') \<longleftrightarrow> b \<and> s' = s"
  by (auto simp: guard_def ret_def raise_def)

lemma guard_Inl [simp, run_simps]: "guard b e s = (Inl e', s') \<longleftrightarrow> \<not> b \<and> e' = e \<and> s' = s"
  by (auto simp: guard_def ret_def raise_def)

lemma guard_run:
  "guard b e s = (r, s') \<longleftrightarrow> s' = s \<and> r = (if b then Inr () else Inl e)"
  by (auto simp: guard_def ret_def raise_def)

lemma require_Inr [simp, run_simps]: "require e q s = (Inr x, t) \<longleftrightarrow> q = Some x \<and> t = s"
  by (auto simp: require_def split: option.splits)

lemma require_Inl [simp, run_simps]: "require e q s = (Inl e', t) \<longleftrightarrow> q = None \<and> e' = e \<and> t = s"
  by (auto simp: require_def split: option.splits)

lemma except_Inr [run_simps]:
  "except m h s = (Inr x, t) \<longleftrightarrow>
     m s = (Inr x, t) \<or> (\<exists>e s'. m s = (Inl e, s') \<and> h e s' = (Inr x, t))"
  by (auto simp: except_def split: prod.splits sum.splits)

lemma except_Inl [run_simps]:
  "except m h s = (Inl e', t) \<longleftrightarrow> (\<exists>e s'. m s = (Inl e, s') \<and> h e s' = (Inl e', t))"
  by (auto simp: except_def split: prod.splits sum.splits)

text \<open>Stepping forward through a computation whose first part is known.\<close>

lemma bnd_run [simp]: "m s = (Inr x, s') \<Longrightarrow> bnd m f s = f x s'"
  by (simp add: bnd_def)

lemma bnd_stop [simp]: "m s = (Inl e, s') \<Longrightarrow> bnd m f s = (Inl e, s')"
  by (simp add: bnd_def)

lemma thn_run [simp]: "m s = (Inr (), s') \<Longrightarrow> thn m n s = n s'"
  by (simp add: thn_def)

lemma thn_stop [simp]: "m s = (Inl e, s') \<Longrightarrow> thn m n s = (Inl e, s')"
  by (simp add: thn_def)

lemmas comp_defs = ret_def raise_def bnd_def thn_def guard_def gets_def modify_def lift_def
  require_def except_def whenever_def

subsection \<open>Facts every outcome keeps\<close>

text \<open>
  \<open>keeps R m\<close>: whatever way \<open>m\<close> ends, the state before and the state after are related by
  \<open>R\<close>. With \<open>R\<close> reflexive and transitive the property composes.
\<close>

definition keeps :: "('s \<Rightarrow> 's \<Rightarrow> bool) \<Rightarrow> ('s, 'e, 'a) comp \<Rightarrow> bool" where
  "keeps R m \<longleftrightarrow> (\<forall>s r s'. m s = (r, s') \<longrightarrow> R s s')"

named_theorems keeps_intros \<open>compositional rules of keeps\<close>

lemma keepsI: "(\<And>s r s'. m s = (r, s') \<Longrightarrow> R s s') \<Longrightarrow> keeps R m"
  by (auto simp: keeps_def)

lemma keepsD: "keeps R m \<Longrightarrow> m s = (r, s') \<Longrightarrow> R s s'"
  by (auto simp: keeps_def)

locale stable_relation =
  fixes R :: "'s \<Rightarrow> 's \<Rightarrow> bool"
  assumes refl [simp, intro]: "R s s"
    and trans: "R s t \<Longrightarrow> R t u \<Longrightarrow> R s u"
begin

lemma keeps_ret: "keeps R (ret x)"
  by (auto intro!: keepsI simp: ret_def)

lemma keeps_raise: "keeps R (raise e)"
  by (auto intro!: keepsI simp: raise_def)

lemma keeps_gets: "keeps R (gets f)"
  by (auto intro!: keepsI simp: gets_def)

lemma keeps_guard: "keeps R (guard b e)"
  by (auto intro!: keepsI simp: guard_def ret_def raise_def split: if_splits)

lemma keeps_lift: "keeps R (lift q)"
  by (auto intro!: keepsI)

lemma keeps_require: "keeps R (require e q)"
  by (auto intro!: keepsI simp: require_def ret_def raise_def split: option.splits)

lemma keeps_bnd: "keeps R m \<Longrightarrow> (\<And>x. keeps R (f x)) \<Longrightarrow> keeps R (bnd m f)"
proof (rule keepsI)
  fix s r s'
  assume m: "keeps R m" and f: "\<And>x. keeps R (f x)" and run: "bnd m f s = (r, s')"
  obtain q u where q: "m s = (q, u)" by (cases "m s")
  with m have "R s u" by (rule keepsD)
  with f q run show "R s s'"
    by (cases q) (auto simp: bnd_def intro: trans keepsD)
qed

lemma keeps_thn: "keeps R m \<Longrightarrow> keeps R n \<Longrightarrow> keeps R (thn m n)"
  by (simp add: thn_def keeps_bnd)

lemma keeps_except: "keeps R m \<Longrightarrow> (\<And>e. keeps R (h e)) \<Longrightarrow> keeps R (except m h)"
proof (rule keepsI)
  fix s r s'
  assume m: "keeps R m" and h: "\<And>e. keeps R (h e)" and run: "except m h s = (r, s')"
  obtain q u where q: "m s = (q, u)" by (cases "m s")
  with m have "R s u" by (rule keepsD)
  with h q run show "R s s'"
    by (cases q) (auto simp: except_def intro: trans keepsD)
qed

lemma keeps_whenever: "keeps R m \<Longrightarrow> keeps R (whenever b m)"
  by (simp add: whenever_def keeps_ret)

lemma keeps_if: "(b \<Longrightarrow> keeps R m) \<Longrightarrow> (\<not> b \<Longrightarrow> keeps R n) \<Longrightarrow> keeps R (if b then m else n)"
  by simp

lemma keeps_modify: "(\<And>s. R s (f s)) \<Longrightarrow> keeps R (modify f)"
  by (auto intro!: keepsI)

lemmas keeps_rules = keeps_ret keeps_raise keeps_gets keeps_guard keeps_lift keeps_require
  keeps_bnd keeps_thn keeps_except keeps_whenever

end

subsection \<open>What success guarantees\<close>

text \<open>
  \<open>triple P m Q\<close>: when \<open>m\<close> starts in a state with \<open>P\<close> and ends without an exception, its value and
  final state satisfy \<open>Q\<close>. The rules follow the combinators, so a service method is verified along
  its own text.
\<close>

definition triple :: "('s \<Rightarrow> bool) \<Rightarrow> ('s, 'e, 'a) comp \<Rightarrow> ('a \<Rightarrow> 's \<Rightarrow> bool) \<Rightarrow> bool" where
  "triple P m Q \<longleftrightarrow> (\<forall>s x s'. P s \<longrightarrow> m s = (Inr x, s') \<longrightarrow> Q x s')"

lemma tripleI: "(\<And>s x s'. P s \<Longrightarrow> m s = (Inr x, s') \<Longrightarrow> Q x s') \<Longrightarrow> triple P m Q"
  by (auto simp: triple_def)

lemma tripleD: "triple P m Q \<Longrightarrow> P s \<Longrightarrow> m s = (Inr x, s') \<Longrightarrow> Q x s'"
  by (auto simp: triple_def)

lemma triple_bnd: "triple P m R \<Longrightarrow> (\<And>x. triple (R x) (f x) Q) \<Longrightarrow> triple P (bnd m f) Q"
  by (auto simp: triple_def bnd_Inr)

lemma triple_thn: "triple P m (\<lambda>_. R) \<Longrightarrow> triple R n Q \<Longrightarrow> triple P (thn m n) Q"
  by (simp add: thn_def triple_bnd)

lemma triple_ret: "(\<And>s. P s \<Longrightarrow> Q x s) \<Longrightarrow> triple P (ret x) Q"
  by (auto simp: triple_def)

lemma triple_raise: "triple P (raise e) Q"
  by (auto simp: triple_def)

lemma triple_guard: "triple P (guard b e) (\<lambda>_ s. P s \<and> b)"
  by (auto simp: triple_def split: if_splits)

lemma triple_gets: "triple P (gets f) (\<lambda>x s. P s \<and> x = f s)"
  by (auto simp: triple_def)

lemma triple_gets_any: "(\<And>x. triple P (f x) Q) \<Longrightarrow> triple P (bnd (gets g) f) Q"
  by (auto simp: triple_def run_simps)

lemma triple_require: "triple P (require e q) (\<lambda>x s. P s \<and> q = Some x)"
  by (auto simp: triple_def)

lemma triple_pre: "triple P m Q \<Longrightarrow> (\<And>s. P' s \<Longrightarrow> P s) \<Longrightarrow> triple P' m Q"
  by (auto simp: triple_def)

lemma triple_post: "triple P m Q \<Longrightarrow> (\<And>x s. Q x s \<Longrightarrow> Q' x s) \<Longrightarrow> triple P m Q'"
  by (auto simp: triple_def)

lemma triple_pure: "(b \<Longrightarrow> triple P m Q) \<Longrightarrow> triple (\<lambda>s. P s \<and> b) m Q"
  by (auto simp: triple_def)

lemma triple_pure': "(b \<Longrightarrow> triple P m Q) \<Longrightarrow> triple (\<lambda>s. b \<and> P s) m Q"
  by (auto simp: triple_def)

subsection \<open>Tables\<close>

text \<open>
  A table is the list of its rows in insertion order. \<open>row_find\<close> is the SELECT by primary
  key, \<open>row_put\<close> the UPDATE of the row with that key; INSERT appends.
\<close>

definition row_find :: "('r \<Rightarrow> nat) \<Rightarrow> nat \<Rightarrow> 'r list \<Rightarrow> 'r option" where
  "row_find key k rows = find (\<lambda>r. key r = k) rows"

definition row_put :: "('r \<Rightarrow> nat) \<Rightarrow> 'r \<Rightarrow> 'r list \<Rightarrow> 'r list" where
  "row_put key r rows = map (\<lambda>x. if key x = key r then r else x) rows"

lemma row_find_Some: "row_find key k rows = Some r \<Longrightarrow> r \<in> set rows \<and> key r = k"
  by (auto simp: row_find_def find_Some_iff)

lemma row_find_None: "row_find key k rows = None \<longleftrightarrow> k \<notin> key ` set rows"
  by (auto simp: row_find_def find_None_iff)

lemma find_append:
  "find P (xs @ ys) = (case find P xs of None \<Rightarrow> find P ys | Some x \<Rightarrow> Some x)"
  by (induction xs) auto

lemma row_put_keys [simp]: "map key (row_put key r rows) = map key rows"
  by (auto simp: row_put_def)

lemma row_put_length [simp]: "length (row_put key r rows) = length rows"
  by (simp add: row_put_def)

lemma row_put_set: "x \<in> set (row_put key r rows) \<Longrightarrow> x = r \<or> x \<in> set rows"
  by (auto simp: row_put_def split: if_splits)

lemma row_put_absent [simp]: "key r \<notin> key ` set rows \<Longrightarrow> row_put key r rows = rows"
  by (induction rows) (auto simp: row_put_def)

lemma row_put_map:
  "(\<And>x. x \<in> set rows \<Longrightarrow> key x = key r \<Longrightarrow> g x = g r) \<Longrightarrow> map g (row_put key r rows) = map g rows"
  by (auto simp: row_put_def)

lemma row_put_put:
  "key r = key r' \<Longrightarrow> row_put key r (row_put key r' rows) = row_put key r rows"
  by (auto simp: row_put_def)

lemma row_find_unique:
  "distinct (map key rows) \<Longrightarrow> row_find key k rows = Some r \<Longrightarrow> x \<in> set rows \<Longrightarrow> key x = k \<Longrightarrow> x = r"
  using row_find_Some [of key k rows r] by (auto simp: distinct_map inj_on_def)

lemma row_put_set_iff:
  "row_find key (key r) rows = Some x \<Longrightarrow>
     y \<in> set (row_put key r rows) \<longleftrightarrow> y = r \<or> (y \<in> set rows \<and> key y \<noteq> key r)"
  using row_find_Some [of key "key r" rows x] by (auto simp: row_put_def)

lemma row_put_Nil [simp]: "row_put key r [] = []"
  by (simp add: row_put_def)

lemma row_put_Cons:
  "row_put key r (x # xs) = (if key x = key r then r else x) # row_put key r xs"
  by (simp add: row_put_def)

lemma row_find_put_other:
  "k \<noteq> key r \<Longrightarrow> row_find key k (row_put key r rows) = row_find key k rows"
  by (induction rows) (auto simp: row_put_def row_find_def)

lemma row_find_distinct:
  "distinct (map key rows) \<Longrightarrow> r \<in> set rows \<Longrightarrow> row_find key (key r) rows = Some r"
  by (induction rows) (auto simp: row_find_def)

lemma row_find_put_same:
  "row_find key (key r) rows = Some x \<Longrightarrow> row_find key (key r) (row_put key r rows) = Some r"
  by (induction rows) (auto simp: row_put_def row_find_def split: if_splits)

text \<open>A sum over the rows of a table moves by exactly the difference of the one changed row.\<close>

lemma sum_list_row_put:
  fixes f :: "'r \<Rightarrow> rat"
  assumes "distinct (map key rows)" and "row_find key (key r) rows = Some x"
  shows "sum_list (map f (row_put key r rows)) = sum_list (map f rows) - f x + f r"
  using assms
proof (induction rows)
  case (Cons a rows)
  show ?case
  proof (cases "key a = key r")
    case True
    with Cons.prems have "x = a" "key r \<notin> key ` set rows"
      by (auto simp: row_find_def)
    with True show ?thesis by (simp add: row_put_Cons)
  next
    case False
    with Cons show ?thesis by (simp add: row_put_Cons row_find_def)
  qed
qed (simp add: row_find_def)

end
