(* ===== verification/Enums.thy ===== *)
theory Enums
  imports Py_Text
begin

text \<open>
  The status and type vocabularies of \<^verbatim>\<open>apps/api/app/core/enums.py\<close>: one datatype per
  StrEnum, with the members in the source's order (each prefixed, since many enums share
  member names), \<open><enum>_value\<close> for the string a member is stored as, and the sets of
  members the module declares (terminal statuses, mobile-money destinations).
\<close>

datatype subscription_status =
    Sub_PENDING | Sub_ACTIVE | Sub_EXPIRED | Sub_SUSPENDED | Sub_CANCELLED | Sub_QUOTA_EXCEEDED

fun subscription_status_value :: "subscription_status \<Rightarrow> string" where
  "subscription_status_value Sub_PENDING = ''PENDING''"
| "subscription_status_value Sub_ACTIVE = ''ACTIVE''"
| "subscription_status_value Sub_EXPIRED = ''EXPIRED''"
| "subscription_status_value Sub_SUSPENDED = ''SUSPENDED''"
| "subscription_status_value Sub_CANCELLED = ''CANCELLED''"
| "subscription_status_value Sub_QUOTA_EXCEEDED = ''QUOTA_EXCEEDED''"

datatype voucher_status =
    V_UNUSED | V_USED | V_EXPIRED | V_VOID

fun voucher_status_value :: "voucher_status \<Rightarrow> string" where
  "voucher_status_value V_UNUSED = ''UNUSED''"
| "voucher_status_value V_USED = ''USED''"
| "voucher_status_value V_EXPIRED = ''EXPIRED''"
| "voucher_status_value V_VOID = ''VOID''"

datatype package_activation_type =
    Pat_IMMEDIATE | Pat_FIRST_USE

fun package_activation_type_value :: "package_activation_type \<Rightarrow> string" where
  "package_activation_type_value Pat_IMMEDIATE = ''immediate''"
| "package_activation_type_value Pat_FIRST_USE = ''first_use''"

datatype package_status =
    P_DRAFT | P_ACTIVE | P_ARCHIVED

fun package_status_value :: "package_status \<Rightarrow> string" where
  "package_status_value P_DRAFT = ''draft''"
| "package_status_value P_ACTIVE = ''active''"
| "package_status_value P_ARCHIVED = ''archived''"

datatype ledger_entry_type =
    L_COLLECTION | L_TENANT_SHARE | L_PLATFORM_FEE | L_REFUND | L_REVERSAL | L_DISBURSEMENT
    | L_DISBURSEMENT_REVERSAL | L_ADJUSTMENT

fun ledger_entry_type_value :: "ledger_entry_type \<Rightarrow> string" where
  "ledger_entry_type_value L_COLLECTION = ''COLLECTION''"
| "ledger_entry_type_value L_TENANT_SHARE = ''TENANT_SHARE''"
| "ledger_entry_type_value L_PLATFORM_FEE = ''PLATFORM_FEE''"
| "ledger_entry_type_value L_REFUND = ''REFUND''"
| "ledger_entry_type_value L_REVERSAL = ''REVERSAL''"
| "ledger_entry_type_value L_DISBURSEMENT = ''DISBURSEMENT''"
| "ledger_entry_type_value L_DISBURSEMENT_REVERSAL = ''DISBURSEMENT_REVERSAL''"
| "ledger_entry_type_value L_ADJUSTMENT = ''ADJUSTMENT''"

datatype ledger_direction =
    D_CREDIT | D_DEBIT

fun ledger_direction_value :: "ledger_direction \<Rightarrow> string" where
  "ledger_direction_value D_CREDIT = ''credit''"
| "ledger_direction_value D_DEBIT = ''debit''"

datatype wallet_bucket =
    B_AVAILABLE | B_PENDING | B_RESERVED | B_FROZEN | B_TOTAL_DISBURSED

fun wallet_bucket_value :: "wallet_bucket \<Rightarrow> string" where
  "wallet_bucket_value B_AVAILABLE = ''available''"
| "wallet_bucket_value B_PENDING = ''pending''"
| "wallet_bucket_value B_RESERVED = ''reserved''"
| "wallet_bucket_value B_FROZEN = ''frozen''"
| "wallet_bucket_value B_TOTAL_DISBURSED = ''total_disbursed''"

datatype settlement_mode =
    M_DIRECT_MERCHANT_SETTLEMENT | M_PLATFORM_MANAGED_WALLET

fun settlement_mode_value :: "settlement_mode \<Rightarrow> string" where
  "settlement_mode_value M_DIRECT_MERCHANT_SETTLEMENT = ''direct_merchant_settlement''"
| "settlement_mode_value M_PLATFORM_MANAGED_WALLET = ''platform_managed_wallet''"

datatype withdrawal_status =
    W_DRAFT | W_PENDING_APPROVAL | W_APPROVED | W_PROCESSING | W_AMBIGUOUS | W_SUCCESS
    | W_FAILED | W_REJECTED | W_CANCELLED | W_REVERSED

fun withdrawal_status_value :: "withdrawal_status \<Rightarrow> string" where
  "withdrawal_status_value W_DRAFT = ''DRAFT''"
| "withdrawal_status_value W_PENDING_APPROVAL = ''PENDING_APPROVAL''"
| "withdrawal_status_value W_APPROVED = ''APPROVED''"
| "withdrawal_status_value W_PROCESSING = ''PROCESSING''"
| "withdrawal_status_value W_AMBIGUOUS = ''AMBIGUOUS''"
| "withdrawal_status_value W_SUCCESS = ''SUCCESS''"
| "withdrawal_status_value W_FAILED = ''FAILED''"
| "withdrawal_status_value W_REJECTED = ''REJECTED''"
| "withdrawal_status_value W_CANCELLED = ''CANCELLED''"
| "withdrawal_status_value W_REVERSED = ''REVERSED''"

datatype transaction_type =
    TT_COLLECTION | TT_CAPTIVE_PORTAL

fun transaction_type_value :: "transaction_type \<Rightarrow> string" where
  "transaction_type_value TT_COLLECTION = ''COLLECTION''"
| "transaction_type_value TT_CAPTIVE_PORTAL = ''CAPTIVE_PORTAL''"

datatype payment_provider =
    PP_SELCOM_COLLECTION

fun payment_provider_value :: "payment_provider \<Rightarrow> string" where
  "payment_provider_value PP_SELCOM_COLLECTION = ''SELCOM_COLLECTION''"

datatype activation_status =
    A_PENDING | A_ACTIVATING | A_ACTIVE | A_FAILED | A_REQUIRES_REVIEW

fun activation_status_value :: "activation_status \<Rightarrow> string" where
  "activation_status_value A_PENDING = ''PENDING''"
| "activation_status_value A_ACTIVATING = ''ACTIVATING''"
| "activation_status_value A_ACTIVE = ''ACTIVE''"
| "activation_status_value A_FAILED = ''FAILED''"
| "activation_status_value A_REQUIRES_REVIEW = ''REQUIRES_REVIEW''"

datatype collection_status =
    C_CREATED | C_STK_SENT | C_PENDING | C_INPROGRESS | C_COMPLETED | C_FAILED | C_CANCELLED
    | C_USERCANCELLED | C_DECLINED | C_REJECTED | C_AMBIGUOUS | C_EXPIRED | C_REQUIRES_REVIEW

fun collection_status_value :: "collection_status \<Rightarrow> string" where
  "collection_status_value C_CREATED = ''CREATED''"
| "collection_status_value C_STK_SENT = ''STK_SENT''"
| "collection_status_value C_PENDING = ''PENDING''"
| "collection_status_value C_INPROGRESS = ''INPROGRESS''"
| "collection_status_value C_COMPLETED = ''COMPLETED''"
| "collection_status_value C_FAILED = ''FAILED''"
| "collection_status_value C_CANCELLED = ''CANCELLED''"
| "collection_status_value C_USERCANCELLED = ''USERCANCELLED''"
| "collection_status_value C_DECLINED = ''DECLINED''"
| "collection_status_value C_REJECTED = ''REJECTED''"
| "collection_status_value C_AMBIGUOUS = ''AMBIGUOUS''"
| "collection_status_value C_EXPIRED = ''EXPIRED''"
| "collection_status_value C_REQUIRES_REVIEW = ''REQUIRES_REVIEW''"

datatype provider_amount_match =
    Match_PRINCIPAL_EXACT | Match_PRINCIPAL_PLUS_STORED_PROVIDER_CHARGE

fun provider_amount_match_value :: "provider_amount_match \<Rightarrow> string" where
  "provider_amount_match_value Match_PRINCIPAL_EXACT = ''PRINCIPAL_EXACT''"
| "provider_amount_match_value Match_PRINCIPAL_PLUS_STORED_PROVIDER_CHARGE = ''PRINCIPAL_PLUS_STORED_PROVIDER_CHARGE''"

datatype destination_code =
    Fi_SELCOM | Fi_AIRTELMONEY | Fi_HALOPESA | Fi_MIXXBYYAS | Fi_TTCLPESA | Fi_MPESA | Fi_ABSA
    | Fi_BANCABC | Fi_ACB | Fi_AMANA | Fi_AZANIA | Fi_BOA | Fi_BOBTZ | Fi_BOI | Fi_BOT
    | Fi_CANARA | Fi_CITI | Fi_CRDB | Fi_DCB | Fi_DTB | Fi_ECOBANK | Fi_EQUITY | Fi_EXIM
    | Fi_FINCA | Fi_GTBANK | Fi_HABIB | Fi_IMBANK | Fi_ICB | Fi_KCB | Fi_LETSHEGO | Fi_MAENDELEO
    | Fi_MKOMBOZI | Fi_MUCOBA | Fi_MWALIMU | Fi_MWANGA | Fi_NBC | Fi_NCBA | Fi_NMB | Fi_PBZ
    | Fi_STANBIC | Fi_SCB | Fi_TCB | Fi_UCHUMI | Fi_UBA

fun destination_code_value :: "destination_code \<Rightarrow> string" where
  "destination_code_value Fi_SELCOM = ''SELCOM''"
| "destination_code_value Fi_AIRTELMONEY = ''AIRTELMONEY''"
| "destination_code_value Fi_HALOPESA = ''HALOPESA''"
| "destination_code_value Fi_MIXXBYYAS = ''MIXXBYYAS''"
| "destination_code_value Fi_TTCLPESA = ''TTCLPESA''"
| "destination_code_value Fi_MPESA = ''MPESA''"
| "destination_code_value Fi_ABSA = ''ABSA''"
| "destination_code_value Fi_BANCABC = ''BANCABC''"
| "destination_code_value Fi_ACB = ''ACB''"
| "destination_code_value Fi_AMANA = ''AMANA''"
| "destination_code_value Fi_AZANIA = ''AZANIA''"
| "destination_code_value Fi_BOA = ''BOA''"
| "destination_code_value Fi_BOBTZ = ''BOBTZ''"
| "destination_code_value Fi_BOI = ''BOI''"
| "destination_code_value Fi_BOT = ''BOT''"
| "destination_code_value Fi_CANARA = ''CANARA''"
| "destination_code_value Fi_CITI = ''CITI''"
| "destination_code_value Fi_CRDB = ''CRDB''"
| "destination_code_value Fi_DCB = ''DCB''"
| "destination_code_value Fi_DTB = ''DTB''"
| "destination_code_value Fi_ECOBANK = ''ECOBANK''"
| "destination_code_value Fi_EQUITY = ''EQUITY''"
| "destination_code_value Fi_EXIM = ''EXIM''"
| "destination_code_value Fi_FINCA = ''FINCA''"
| "destination_code_value Fi_GTBANK = ''GTBANK''"
| "destination_code_value Fi_HABIB = ''HABIB''"
| "destination_code_value Fi_IMBANK = ''IMBANK''"
| "destination_code_value Fi_ICB = ''ICB''"
| "destination_code_value Fi_KCB = ''KCB''"
| "destination_code_value Fi_LETSHEGO = ''LETSHEGO''"
| "destination_code_value Fi_MAENDELEO = ''MAENDELEO''"
| "destination_code_value Fi_MKOMBOZI = ''MKOMBOZI''"
| "destination_code_value Fi_MUCOBA = ''MUCOBA''"
| "destination_code_value Fi_MWALIMU = ''MWALIMU''"
| "destination_code_value Fi_MWANGA = ''MWANGA''"
| "destination_code_value Fi_NBC = ''NBC''"
| "destination_code_value Fi_NCBA = ''NCBA''"
| "destination_code_value Fi_NMB = ''NMB''"
| "destination_code_value Fi_PBZ = ''PBZ''"
| "destination_code_value Fi_STANBIC = ''STANBIC''"
| "destination_code_value Fi_SCB = ''SCB''"
| "destination_code_value Fi_TCB = ''TCB''"
| "destination_code_value Fi_UCHUMI = ''UCHUMI''"
| "destination_code_value Fi_UBA = ''UBA''"

datatype tenant_status =
    Tn_PENDING_VERIFICATION | Tn_ACTIVE | Tn_MORE_INFORMATION_REQUIRED | Tn_REJECTED
    | Tn_SUSPENDED

fun tenant_status_value :: "tenant_status \<Rightarrow> string" where
  "tenant_status_value Tn_PENDING_VERIFICATION = ''PENDING_VERIFICATION''"
| "tenant_status_value Tn_ACTIVE = ''ACTIVE''"
| "tenant_status_value Tn_MORE_INFORMATION_REQUIRED = ''MORE_INFORMATION_REQUIRED''"
| "tenant_status_value Tn_REJECTED = ''REJECTED''"
| "tenant_status_value Tn_SUSPENDED = ''SUSPENDED''"

datatype verification_status =
    Vf_PENDING_VERIFICATION | Vf_APPROVED | Vf_MORE_INFORMATION_REQUIRED | Vf_REJECTED

fun verification_status_value :: "verification_status \<Rightarrow> string" where
  "verification_status_value Vf_PENDING_VERIFICATION = ''PENDING_VERIFICATION''"
| "verification_status_value Vf_APPROVED = ''APPROVED''"
| "verification_status_value Vf_MORE_INFORMATION_REQUIRED = ''MORE_INFORMATION_REQUIRED''"
| "verification_status_value Vf_REJECTED = ''REJECTED''"

datatype business_type =
    Bt_ISP | Bt_WISP | Bt_HOTSPOT_OPERATOR | Bt_APARTMENT_WIFI | Bt_HOTEL_WIFI | Bt_CAMPUS_WIFI
    | Bt_RESTAURANT_CAFE_WIFI | Bt_PROPERTY_MANAGER | Bt_PUBLIC_WIFI_OPERATOR | Bt_OTHER

fun business_type_value :: "business_type \<Rightarrow> string" where
  "business_type_value Bt_ISP = ''ISP''"
| "business_type_value Bt_WISP = ''WISP''"
| "business_type_value Bt_HOTSPOT_OPERATOR = ''Hotspot Operator''"
| "business_type_value Bt_APARTMENT_WIFI = ''Apartment WiFi''"
| "business_type_value Bt_HOTEL_WIFI = ''Hotel WiFi''"
| "business_type_value Bt_CAMPUS_WIFI = ''Campus WiFi''"
| "business_type_value Bt_RESTAURANT_CAFE_WIFI = ''Restaurant / Cafe WiFi''"
| "business_type_value Bt_PROPERTY_MANAGER = ''Property Manager''"
| "business_type_value Bt_PUBLIC_WIFI_OPERATOR = ''Public WiFi Operator''"
| "business_type_value Bt_OTHER = ''Other''"

text \<open>The roles of \<^verbatim>\<open>core/roles.py\<close>.\<close>

datatype role =
    SUPER_ADMIN | TENANT_OWNER | TENANT_ADMIN | ACCOUNTANT | NETWORK_TECHNICIAN | CUSTOMER_CARE
    | CASHIER | CUSTOMER

datatype email_event_type =
    Em_VERIFY_EMAIL | Em_NEW_TENANT_ADMIN_ALERT | Em_TENANT_APPROVED | Em_TENANT_REJECTED
    | Em_MORE_INFORMATION_REQUIRED | Em_TENANT_SUSPENDED | Em_TENANT_REACTIVATED
    | Em_WITHDRAWAL_OTP

fun email_event_type_value :: "email_event_type \<Rightarrow> string" where
  "email_event_type_value Em_VERIFY_EMAIL = ''VERIFY_EMAIL''"
| "email_event_type_value Em_NEW_TENANT_ADMIN_ALERT = ''NEW_TENANT_ADMIN_ALERT''"
| "email_event_type_value Em_TENANT_APPROVED = ''TENANT_APPROVED''"
| "email_event_type_value Em_TENANT_REJECTED = ''TENANT_REJECTED''"
| "email_event_type_value Em_MORE_INFORMATION_REQUIRED = ''MORE_INFORMATION_REQUIRED''"
| "email_event_type_value Em_TENANT_SUSPENDED = ''TENANT_SUSPENDED''"
| "email_event_type_value Em_TENANT_REACTIVATED = ''TENANT_REACTIVATED''"
| "email_event_type_value Em_WITHDRAWAL_OTP = ''WITHDRAWAL_OTP''"

datatype email_event_status =
    Es_SENT | Es_FAILED

fun email_event_status_value :: "email_event_status \<Rightarrow> string" where
  "email_event_status_value Es_SENT = ''SENT''"
| "email_event_status_value Es_FAILED = ''FAILED''"

subsection \<open>The sets of members the module declares\<close>

definition COLLECTION_TERMINAL_STATUSES :: "collection_status list" where
  "COLLECTION_TERMINAL_STATUSES =
     [C_COMPLETED, C_FAILED, C_CANCELLED, C_USERCANCELLED, C_DECLINED, C_REJECTED, C_EXPIRED]"

definition WITHDRAWAL_TERMINAL_STATUSES :: "withdrawal_status list" where
  "WITHDRAWAL_TERMINAL_STATUSES = [W_SUCCESS, W_FAILED, W_REJECTED, W_CANCELLED, W_REVERSED]"

definition MOBILE_MONEY_DESTINATION_CODES :: "destination_code list" where
  "MOBILE_MONEY_DESTINATION_CODES =
     [Fi_AIRTELMONEY, Fi_HALOPESA, Fi_MIXXBYYAS, Fi_TTCLPESA, Fi_MPESA]"

definition collection_terminal :: "collection_status \<Rightarrow> bool" where
  "collection_terminal st \<longleftrightarrow> st \<in> set COLLECTION_TERMINAL_STATUSES"

lemma collection_terminal_simps [simp]:
  "collection_terminal C_COMPLETED" "collection_terminal C_FAILED"
  "collection_terminal C_CANCELLED" "collection_terminal C_USERCANCELLED"
  "collection_terminal C_DECLINED" "collection_terminal C_REJECTED"
  "collection_terminal C_EXPIRED"
  "\<not> collection_terminal C_CREATED" "\<not> collection_terminal C_STK_SENT"
  "\<not> collection_terminal C_PENDING" "\<not> collection_terminal C_INPROGRESS"
  "\<not> collection_terminal C_AMBIGUOUS" "\<not> collection_terminal C_REQUIRES_REVIEW"
  by (simp_all add: collection_terminal_def COLLECTION_TERMINAL_STATUSES_def)

end
