(* ===== verification/Money.thy ===== *)
theory Money
  imports Prelude
begin

text \<open>
  Money: \<^verbatim>\<open>apps/api/app/core/money.py\<close> and the NUMERIC columns it is stored in
  (\<^verbatim>\<open>apps/api/app/models/finance.py\<close>). A Python \<open>Decimal\<close> is a rational; \<open>+\<close>, \<open>-\<close>, \<open>*\<close> and
  division by 100 are exact here, as they are in the code for amounts within the default
  28-digit context. What is \<^emph>\<open>not\<close> exact is storing: a \<open>NUMERIC(14,2)\<close> column rounds the
  value it is given to two places, half away from zero, and refuses values of $10^{12}$
  and more. The same rounding is \<open>Decimal.quantize(0.01, ROUND_HALF_UP)\<close>.
\<close>

definition round_half_up2 :: "rat \<Rightarrow> rat" where
  "round_half_up2 x =
     (if 0 \<le> x then of_int \<lfloor>x * 100 + 1 / 2\<rfloor> / 100 else - (of_int \<lfloor>- x * 100 + 1 / 2\<rfloor> / 100))"

definition quantize_tzs :: "rat \<Rightarrow> rat" where
  "quantize_tzs value = round_half_up2 value"

text \<open>Writing to a \<open>NUMERIC(p,2)\<close> column: \<open>None\<close> is Postgres' numeric field overflow.\<close>

definition numeric_column :: "rat \<Rightarrow> rat \<Rightarrow> rat option" where
  "numeric_column limit x =
     (let y = round_half_up2 x in if \<bar>y\<bar> < limit then Some y else None)"

definition numeric_14_2 :: "rat \<Rightarrow> rat option" where
  "numeric_14_2 = numeric_column 1000000000000"

definition numeric_5_2 :: "rat \<Rightarrow> rat option" where
  "numeric_5_2 = numeric_column 1000"

text \<open>The amounts a two-place column holds without rounding.\<close>

definition two_places :: "rat \<Rightarrow> bool" where
  "two_places x \<longleftrightarrow> round_half_up2 x = x"

subsection \<open>Rounding\<close>

lemma floor_half [simp]: "\<lfloor>1 / 2 :: rat\<rfloor> = 0"
  by (rule floor_unique) auto

lemma two_places_iff: "two_places x \<longleftrightarrow> (\<exists>n::int. x = of_int n / 100)"
proof
  assume "two_places x"
  then have x: "round_half_up2 x = x" by (simp add: two_places_def)
  show "\<exists>n::int. x = of_int n / 100"
  proof (cases "0 \<le> x")
    case True
    with x show ?thesis by (metis round_half_up2_def)
  next
    case False
    with x have "x = of_int (- \<lfloor>- x * 100 + 1 / 2\<rfloor>) / 100"
      by (simp add: round_half_up2_def)
    then show ?thesis by blast
  qed
next
  assume "\<exists>n::int. x = of_int n / 100"
  then obtain n :: int where n: "x = of_int n / 100" by blast
  show "two_places x"
    by (simp add: two_places_def round_half_up2_def n)
qed

lemma two_places_round [simp]: "two_places (round_half_up2 x)"
proof (cases "0 \<le> x")
  case True
  then show ?thesis by (auto simp: two_places_iff round_half_up2_def)
next
  case False
  then have "round_half_up2 x = of_int (- \<lfloor>- x * 100 + 1 / 2\<rfloor>) / 100"
    by (simp add: round_half_up2_def)
  then show ?thesis unfolding two_places_iff by blast
qed

lemma round_two_places [simp]: "two_places x \<Longrightarrow> round_half_up2 x = x"
  by (simp add: two_places_def)

lemma two_places_0 [simp]: "two_places 0"
  by (simp add: two_places_def round_half_up2_def)

lemma two_places_of_int [simp]: "two_places (of_int n)"
  unfolding two_places_iff by (rule exI [of _ "100 * n"]) simp

lemma two_places_numeral [simp]: "two_places 1" "two_places (numeral n)"
  using two_places_of_int [of 1] two_places_of_int [of "numeral n"] by simp_all

lemma two_places_add [intro, simp]: "two_places x \<Longrightarrow> two_places y \<Longrightarrow> two_places (x + y)"
proof (unfold two_places_iff, elim exE)
  fix m n :: int
  assume "x = of_int m / 100" "y = of_int n / 100"
  then have "x + y = of_int (m + n) / 100" by (simp add: add_divide_distrib)
  then show "\<exists>k::int. x + y = of_int k / 100" by blast
qed

lemma two_places_minus [intro, simp]: "two_places x \<Longrightarrow> two_places (- x)"
proof (unfold two_places_iff, elim exE)
  fix m :: int
  assume "x = of_int m / 100"
  then have "- x = of_int (- m) / 100" by simp
  then show "\<exists>k::int. - x = of_int k / 100" by blast
qed

lemma two_places_diff [intro, simp]: "two_places x \<Longrightarrow> two_places y \<Longrightarrow> two_places (x - y)"
  using two_places_add [of x "- y"] by simp

lemma two_places_sum_list: "\<forall>x \<in> set xs. two_places x \<Longrightarrow> two_places (sum_list xs)"
  by (induction xs) auto

lemma round_nonneg: "0 \<le> x \<Longrightarrow> 0 \<le> round_half_up2 x"
  by (simp add: round_half_up2_def)

lemma round_error:
  assumes "0 \<le> x"
  shows "\<bar>round_half_up2 x - x\<bar> \<le> 1 / 200"
proof -
  have "of_int \<lfloor>x * 100 + 1 / 2\<rfloor> \<le> x * 100 + 1 / 2"
    and "x * 100 + 1 / 2 < of_int \<lfloor>x * 100 + 1 / 2\<rfloor> + 1"
    by linarith+
  then show ?thesis
    using assms by (simp add: round_half_up2_def abs_if field_simps)
qed

lemma round_mono_nonneg: "0 \<le> x \<Longrightarrow> x \<le> y \<Longrightarrow> round_half_up2 x \<le> round_half_up2 y"
  by (simp add: round_half_up2_def divide_right_mono floor_mono)

lemma round_le_two_places: "0 \<le> x \<Longrightarrow> x \<le> y \<Longrightarrow> two_places y \<Longrightarrow> round_half_up2 x \<le> y"
  using round_mono_nonneg [of x y] by simp

lemma numeric_column_Some:
  "numeric_column l x = Some y \<Longrightarrow> y = round_half_up2 x \<and> two_places y"
  by (auto simp: numeric_column_def Let_def split: if_splits)

lemma numeric_14_2_Some: "numeric_14_2 x = Some y \<Longrightarrow> y = round_half_up2 x \<and> two_places y"
  unfolding numeric_14_2_def by (rule numeric_column_Some)

lemma numeric_14_2_exact: "numeric_14_2 x = Some y \<Longrightarrow> two_places x \<Longrightarrow> y = x"
  by (auto dest: numeric_14_2_Some)

lemma numeric_14_2_nonneg: "numeric_14_2 x = Some y \<Longrightarrow> 0 \<le> x \<Longrightarrow> 0 \<le> y"
  by (auto dest: numeric_14_2_Some simp: round_nonneg)

subsection \<open>Splitting an amount by a percentage\<close>

definition percent_fee :: "rat \<Rightarrow> rat \<Rightarrow> rat" where
  "percent_fee gross rate = quantize_tzs (gross * rate / 100)"

lemma percent_fee_bounds:
  assumes "0 \<le> gross" "two_places gross" "0 \<le> rate" "rate \<le> 100"
  shows "0 \<le> percent_fee gross rate" "percent_fee gross rate \<le> gross"
proof -
  have "0 \<le> gross * rate / 100" using assms by simp
  then show "0 \<le> percent_fee gross rate"
    by (simp add: percent_fee_def quantize_tzs_def round_nonneg)
  have "gross * rate / 100 \<le> gross"
    using assms mult_left_mono [of rate 100 gross] by simp
  then show "percent_fee gross rate \<le> gross"
    using assms by (simp add: percent_fee_def quantize_tzs_def round_le_two_places)
qed

end
