(* ===== verification/Phone.thy ===== *)
theory Phone
  imports Py_Text
begin

text \<open>
  Tanzania mobile numbers, \<^verbatim>\<open>apps/api/app/core/phone.py\<close>, and the two masking helpers used
  wherever a number leaves the tenant's own view. A \<open>None\<close> result is the ValueError.
\<close>

text \<open>The characters removed by \<^verbatim>\<open>re.sub(r"[\s\-()]", "", raw.strip())\<close>.\<close>

definition phone_noise :: "char \<Rightarrow> bool" where
  "phone_noise c \<longleftrightarrow> is_space c \<or> c = CHR ''-'' \<or> c = CHR ''('' \<or> c = CHR '')''"

definition clean_phone :: "string \<Rightarrow> string" where
  "clean_phone raw = filter (\<lambda>c. \<not> phone_noise c) (strip raw)"

text \<open>The subscriber number both patterns capture: \<^verbatim>\<open>[67]\d{8}\<close>.\<close>

definition subscriber :: "string \<Rightarrow> bool" where
  "subscriber s \<longleftrightarrow>
     length s = 9 \<and> (hd s = CHR ''6'' \<or> hd s = CHR ''7'') \<and> (\<forall>c \<in> set s. is_digit c)"

definition match_local :: "string \<Rightarrow> string option" where
  "match_local s = (if starts_with ''0'' s \<and> subscriber (drop 1 s) then Some (drop 1 s) else None)"

definition match_international :: "string \<Rightarrow> string option" where
  "match_international s =
     (let t = (if starts_with ''+'' s then drop 1 s else s)
      in if starts_with ''255'' t \<and> subscriber (drop 3 t) then Some (drop 3 t) else None)"

definition normalize_tz_phone :: "string \<Rightarrow> string option" where
  "normalize_tz_phone raw =
     (let cleaned = clean_phone raw
      in case match_local cleaned of
           Some m \<Rightarrow> Some (''255'' @ m)
         | None \<Rightarrow> (case match_international cleaned of
             Some m \<Rightarrow> Some (''255'' @ m)
           | None \<Rightarrow> None))"

definition is_valid_tz_phone :: "string \<Rightarrow> bool" where
  "is_valid_tz_phone raw \<longleftrightarrow> normalize_tz_phone raw \<noteq> None"

definition stars :: "nat \<Rightarrow> string" where
  "stars n = replicate n (CHR ''*'')"

definition mask_msisdn :: "string \<Rightarrow> string" where
  "mask_msisdn phone =
     (if length phone < 7 then stars (length phone)
      else take 4 phone @ stars (length phone - 7) @ drop (length phone - 3) phone)"

subsection \<open>Normal form\<close>

lemma normalize_shape: "normalize_tz_phone raw = Some p \<Longrightarrow> \<exists>m. p = ''255'' @ m \<and> subscriber m"
  by (auto simp: normalize_tz_phone_def match_local_def match_international_def Let_def
      split: option.splits if_splits)

lemma subscriber_not_noise: "subscriber m \<Longrightarrow> \<forall>c \<in> set m. \<not> phone_noise c"
  by (auto simp: subscriber_def phone_noise_def digit_not_space is_digit_def code_def)

lemma canonical_clean:
  assumes "subscriber m"
  shows "clean_phone (''255'' @ m) = ''255'' @ m" "clean_phone (''+255'' @ m) = ''+255'' @ m"
    "clean_phone (''0'' @ m) = ''0'' @ m"
proof -
  have noise: "\<forall>c \<in> set (''+2550'' @ m). \<not> phone_noise c"
    using subscriber_not_noise [OF assms] by (auto simp: phone_noise_def is_space_def code_def)
  have clean: "clean_phone s = s" if "set s \<subseteq> set (''+2550'' @ m)" for s
  proof -
    have "\<forall>c \<in> set s. \<not> phone_noise c" using noise that by blast
    then show ?thesis
      by (simp add: clean_phone_def strip_none phone_noise_def filter_id_conv)
  qed
  show "clean_phone (''255'' @ m) = ''255'' @ m" by (rule clean) auto
  show "clean_phone (''+255'' @ m) = ''+255'' @ m" by (rule clean) auto
  show "clean_phone (''0'' @ m) = ''0'' @ m" by (rule clean) auto
qed

lemma normalize_forms:
  assumes "subscriber m"
  shows "normalize_tz_phone (''0'' @ m) = Some (''255'' @ m)"
    "normalize_tz_phone (''255'' @ m) = Some (''255'' @ m)"
    "normalize_tz_phone (''+255'' @ m) = Some (''255'' @ m)"
  using assms canonical_clean [OF assms]
  by (auto simp: normalize_tz_phone_def match_local_def match_international_def starts_with_def
      Let_def)

lemma normalize_idempotent: "normalize_tz_phone raw = Some p \<Longrightarrow> normalize_tz_phone p = Some p"
  using normalize_shape normalize_forms(2) by fastforce

lemma mask_msisdn_length: "length (mask_msisdn p) = length p"
  by (auto simp: mask_msisdn_def stars_def)

end
