(* ===== verification/Service_State.thy ===== *)
theory Service_State
  imports Enums Money Phone
begin

text \<open>
  What the API services work on: the error hierarchy of \<^verbatim>\<open>app/core/errors.py\<close>, the rows of the
  tables they touch (\<^verbatim>\<open>app/models/finance.py\<close>, \<^verbatim>\<open>network.py\<close>, \<^verbatim>\<open>tenancy.py\<close>, \<^verbatim>\<open>onboarding.py\<close>,
  \<^verbatim>\<open>audit.py\<close>), the settings they read (\<^verbatim>\<open>app/core/config.py\<close>), what they obtain from outside
  the repository's code (clock, randomness, cryptography, provider and mail replies), and the
  database transaction every request runs in.

  A UUID is a natural number drawn from the counter \<open>next_id\<close>, so new identifiers are
  fresh, as uuid4 values are for all practical purposes. A timestamp is a number of
  microseconds; one request reads the clock once. A \<open>VARCHAR\<close>/\<open>TEXT\<close> column is a \<open>string\<close>,
  a nullable column an \<open>option\<close>.
\<close>

type_synonym uuid = nat
type_synonym time = int

definition seconds :: "int \<Rightarrow> time" where
  "seconds n = n * 1000000"

definition minutes :: "int \<Rightarrow> time" where
  "minutes n = seconds (60 * n)"

subsection \<open>Errors\<close>

text \<open>
  One constructor per exception class; the text is the leading phrase of the source's
  message (interpolated values are left out of it). \<open>DbError\<close> is an exception of the
  database driver (numeric overflow, NOT NULL, UNIQUE), \<open>UnhandledError\<close> any other exception no
  service catches.
\<close>

datatype err =
    NotFoundError string
  | ConflictError string
  | DomainValidationError string
  | RateLimitedError int
  | RuntimeError string
  | SelcomBusinessError string
  | SelcomCollectionError string
  | SelcomPaymentFlowMismatchError
  | CaptiveSessionError string
  | ActivationFailedError string
  | HttpError nat string
  | DbError
  | UnhandledError string

text \<open>The envelope code and HTTP status the handlers of \<^verbatim>\<open>register_exception_handlers\<close> give.\<close>

fun http_code :: "nat \<Rightarrow> string" where
  "http_code n =
     (if n = 400 then ''bad_request'' else if n = 401 then ''unauthorized''
      else if n = 403 then ''forbidden'' else if n = 404 then ''not_found''
      else if n = 409 then ''conflict'' else if n = 422 then ''validation_error''
      else if n = 429 then ''rate_limited'' else ''http_error'')"

fun error_response :: "err \<Rightarrow> string \<times> nat" where
  "error_response (NotFoundError m) = (''not_found'', 404)"
| "error_response (ConflictError m) = (''conflict'', 409)"
| "error_response (DomainValidationError m) = (''validation_error'', 422)"
| "error_response (RateLimitedError n) = (''rate_limited'', 429)"
| "error_response (HttpError n m) = (http_code n, n)"
| "error_response _ = (''internal_error'', 500)"

subsection \<open>Finance rows\<close>

record wallet =
  wal_id :: uuid
  wal_tenant :: uuid
  wal_currency :: string
  available_balance_tzs :: rat
  pending_balance_tzs :: rat
  reserved_balance_tzs :: rat
  frozen_balance_tzs :: rat
  total_disbursed_tzs :: rat

record ledger_entry =
  le_id :: uuid
  le_tenant :: uuid
  le_wallet :: uuid
  le_type :: ledger_entry_type
  le_direction :: ledger_direction
  le_bucket :: "wallet_bucket option"
  le_amount :: rat
  le_balance_after :: "rat option"
  le_reference_type :: "string option"
  le_reference :: "uuid option"
  le_description :: "string option"
  le_actor :: "uuid option"
  le_created_at :: time

record commercial_terms =
  ct_id :: uuid
  ct_tenant :: uuid
  commission_rate_percent :: rat
  ct_is_active :: bool
  ct_notes :: "string option"
  ct_created_by :: "uuid option"

record settlement_log =
  sl_id :: uuid
  sl_tenant :: uuid
  sl_batch_reference :: string
  sl_transaction_count :: nat
  sl_gross :: rat
  sl_fee :: rat
  sl_net :: rat
  sl_status :: string

record settlement_config =
  sc_id :: uuid
  sc_tenant :: uuid
  sc_mode :: settlement_mode
  sc_is_active :: bool
  sc_notes :: "string option"
  sc_created_by :: "uuid option"

record destination =
  dst_id :: uuid
  dst_tenant :: uuid
  dst_label :: string
  dst_channel :: string
  dst_code :: "destination_code option"
  dst_account_name :: "string option"
  dst_account_number :: "string option"
  dst_is_default :: bool

record withdrawal =
  wd_id :: uuid
  wd_tenant :: uuid
  wd_wallet :: uuid
  wd_destination :: uuid
  wd_amount :: rat
  wd_currency :: string
  wd_status :: withdrawal_status
  idempotency_key :: string
  wd_provider_reference :: "string option"
  failure_reason :: "string option"
  submitted_at :: "time option"
  wd_completed_at :: "time option"
  approval_required :: bool
  verified_recipient_name :: "string option"
  provider_charge :: "rat option"
  wd_result_code :: "string option"
  wd_provider_message :: "string option"
  requested_by :: "uuid option"
  reviewed_by :: "uuid option"
  reviewed_at :: "time option"
  review_notes :: "string option"
  two_factor_code_hash :: "string option"
  two_factor_expires_at :: "time option"
  two_factor_attempts :: nat
  two_factor_confirmed_at :: "time option"
  otp_last_sent_at :: "time option"
  otp_send_count :: nat
  otp_sent_to_email :: "string option"
  wd_created_at :: time

record withdrawal_event =
  we_tenant :: uuid
  we_withdrawal :: uuid
  we_from :: "withdrawal_status option"
  we_to :: withdrawal_status
  we_actor :: "uuid option"
  we_reason :: "string option"
  we_created_at :: time

record transaction =
  tx_id :: uuid
  tx_tenant :: uuid
  tx_customer :: "uuid option"
  tx_subscription :: "uuid option"
  tx_type :: "transaction_type option"
  tx_reference :: string
  tx_provider_reference :: "string option"
  collection_transid :: "string option"
  payer_phone :: "string option"
  tx_channel :: "string option"
  tx_amount :: rat
  tx_currency :: string
  tx_status :: collection_status
  tx_resultcode :: "string option"
  tx_message :: "string option"
  stk_requested_at :: "time option"
  tx_completed_at :: "time option"
  tx_failed_at :: "time option"
  tx_provider :: "payment_provider option"
  tx_package :: "uuid option"
  tx_router :: "uuid option"
  device_mac :: "string option"
  tx_captive_session :: "uuid option"
  activation_status :: "activation_status option"
  tx_activated_at :: "time option"
  tx_created_at :: time

record payment_webhook =
  wh_id :: uuid
  wh_tenant :: "uuid option"
  wh_provider :: string
  wh_verified :: bool
  wh_processed :: bool

subsection \<open>Network, customer and tenant rows\<close>

record package =
  pk_id :: uuid
  pk_tenant :: uuid
  pk_name :: string
  pk_description :: "string option"
  price_tzs :: rat
  duration_minutes :: "nat option"
  bytes_limit :: "nat option"
  download_speed_kbps :: "nat option"
  upload_speed_kbps :: "nat option"
  device_limit :: nat
  simultaneous_sessions :: nat
  pk_activation_type :: package_activation_type
  pk_status :: package_status

record customer =
  cu_id :: uuid
  cu_tenant :: uuid
  cu_number :: nat
  cu_first_name :: "string option"
  cu_last_name :: "string option"
  cu_phone :: string
  cu_email :: "string option"
  cu_username :: "string option"
  cu_notes :: "string option"

record subscription =
  sub_id :: uuid
  sub_tenant :: uuid
  sub_customer :: uuid
  sub_package :: uuid
  sub_voucher :: "uuid option"
  sub_status :: subscription_status
  sub_activated_at :: "time option"
  sub_expires_at :: "time option"

record voucher_batch =
  vb_id :: uuid
  vb_tenant :: uuid
  vb_package :: uuid
  vb_quantity :: nat
  vb_prefix :: "string option"
  vb_created_by :: "uuid option"

record voucher =
  vo_id :: uuid
  vo_tenant :: uuid
  vo_batch :: uuid
  vo_code :: string
  vo_status :: voucher_status
  redeemed_by_customer :: "uuid option"
  redeemed_subscription :: "uuid option"
  redeemed_at :: "time option"

record captive_session =
  cs_id :: uuid
  cs_tenant :: uuid
  cs_router :: uuid
  cs_mac_address :: "string option"
  cs_nonce :: uuid
  consumed_at :: "time option"
  cs_expires_at :: time

record location =
  lc_id :: uuid
  lc_tenant :: uuid
  lc_name :: string
  lc_region :: "string option"
  lc_city :: "string option"
  lc_address :: "string option"
  lc_status :: string

text \<open>A connectivity session as RADIUS accounting reports it; no service writes this table.\<close>

record user_session =
  us_id :: uuid
  us_tenant :: uuid
  us_status :: string
  us_started_at :: "time option"
  us_created_at :: time

record router_row =
  rt_id :: uuid
  rt_tenant :: uuid
  rt_name :: string
  rt_location :: "uuid option"
  rt_model :: "string option"
  rt_management_ip :: "string option"
  rt_mac_address :: "string option"
  rt_status :: string
  rt_last_seen_at :: "time option"
  provisioning_status :: string
  hotspot_network_cidr :: "string option"
  hotspot_gateway_ip :: "string option"
  hotspot_dns_servers :: "string option"
  wireguard_public_key :: "string option"
  wireguard_tunnel_ip :: "string option"
  wireguard_private_key_encrypted :: "string option"
  radius_secret_encrypted :: "string option"

text \<open>What a business says of itself when it registers; columns of the tenant no code branches on.\<close>

record business_details =
  bd_legal_name :: "string option"
  bd_type :: business_type
  bd_email :: string
  bd_phone :: string
  bd_tin :: "string option"
  bd_license_number :: "string option"
  bd_region :: "string option"
  bd_district :: "string option"
  bd_ward :: "string option"
  bd_street_area :: "string option"
  bd_address :: string
  bd_contact_name :: "string option"
  bd_contact_position :: "string option"
  bd_contact_phone :: "string option"
  bd_contact_email :: "string option"

record tenant =
  tn_id :: uuid
  tn_name :: string
  tn_slug :: string
  tn_details :: "business_details option"
  tn_status :: tenant_status
  accepted_terms_at :: "time option"
  accepted_privacy_at :: "time option"
  tn_logo_url :: "string option"
  tn_brand_color :: "string option"
  tn_created_at :: time

record profile =
  pr_id :: uuid
  pr_tenant :: "uuid option"
  pr_email :: "string option"
  pr_full_name :: "string option"
  pr_first_name :: "string option"
  pr_last_name :: "string option"
  pr_phone :: "string option"
  pr_status :: string

record profile_role =
  pro_profile :: uuid
  pro_role :: role
  pro_tenant :: "uuid option"

record feature_flags =
  ff_tenant :: uuid
  collection_enabled :: bool
  payout_enabled :: bool

record verification =
  vf_tenant :: uuid
  vf_status :: verification_status
  vf_submitted_at :: "time option"
  email_verified_at :: "time option"
  vf_reviewed_at :: "time option"
  vf_reviewed_by :: "uuid option"
  approved_at :: "time option"
  rejected_at :: "time option"
  rejection_reason :: "string option"
  more_information_message :: "string option"

text \<open>An account at Supabase Auth, the owner of identities, and whether its e-mail address is confirmed.\<close>

record auth_user =
  su_id :: uuid
  su_email :: string
  su_confirmed :: bool

record email_event =
  ee_tenant :: "uuid option"
  ee_recipient :: string
  ee_type :: email_event_type
  ee_message_id :: "string option"
  ee_status :: email_event_status
  ee_sent_at :: "time option"
  ee_failed_at :: "time option"
  ee_error :: "string option"

text \<open>Audit metadata is a JSON object: its values are texts, amounts, numbers, flags or null.\<close>

datatype meta = MStr string | MAmount rat | MInt int | MBool bool | MId uuid | MNull

record audit_log =
  au_tenant :: "uuid option"
  au_actor :: "uuid option"
  au_action :: string
  au_target_type :: "string option"
  au_target :: "uuid option"
  au_metadata :: "(string \<times> meta) list"
  au_created_at :: time

subsection \<open>Settings\<close>

record settings =
  radius_database_configured :: bool
  network_agent_configured :: bool
  super_admin_review_email :: "string option"
  secrets_encryption_key :: string
  captive_intent_configured :: bool
  captive_intent_ttl_seconds :: int
  captive_rate_limit_per_session :: int
  captive_rate_limit_per_phone :: int
  captive_rate_limit_per_router :: int
  captive_rate_limit_window_seconds :: int
  selcom_disbursement_enabled :: bool
  selcom_business_environment :: string
  selcom_business_base_url :: "string option"
  selcom_business_api_key :: "string option"
  selcom_business_private_key_pem :: "string option option"
  selcom_production_payouts_enabled :: bool
  selcom_withdrawal_approval_threshold_tzs :: rat
  withdrawal_min_amount_tzs :: "rat option"
  withdrawal_max_single_amount_tzs :: "rat option"
  withdrawal_daily_limit_tzs :: "rat option"
  withdrawal_daily_count_limit :: "int option"
  withdrawal_processing_alert_minutes :: int
  withdrawal_ambiguous_alert_minutes :: int
  withdrawal_stale_alert_cooldown_minutes :: int
  otp_verification_secret :: "string option"
  withdrawal_otp_ttl_seconds :: int
  withdrawal_otp_max_attempts :: nat
  withdrawal_otp_resend_cooldown_seconds :: int
  withdrawal_otp_max_sends :: nat
  selcom_collection_base_url :: "string option"
  selcom_collection_api_key :: "string option"
  selcom_collection_api_secret :: "string option"
  selcom_collection_private_key_pem :: "string option option"
  selcom_collection_digest_method :: "string option"
  selcom_collection_vendor :: "string option"
  selcom_collection_enabled :: bool
  selcom_collection_production_enabled :: bool
  selcom_collection_pending_review_minutes :: int
  wireguard_server_public_key :: "string option"
  wireguard_server_endpoint :: "string option"
  wireguard_server_subnet :: string
  public_captive_portal_domain :: "string option"
  public_api_domain :: "string option"

text \<open>
  \<open>selcom_business_private_key_pem\<close> is the result of \<^verbatim>\<open>_decode_private_key\<close> on the configured
  base64: \<open>None\<close> when decoding raises, \<open>Some None\<close> when the variable is unset. The same holds for
  the Collection key.
\<close>

subsection \<open>What one request obtains from outside\<close>

text \<open>
  The outcome of one provider call as its caller can tell them apart: a parsed reply, an HTTP
  failure with unknown outcome, an error response, or a reply the response model rejects (a
  pydantic or Decimal exception, which is \<^emph>\<open>not\<close> one of the integration's own errors).
\<close>

datatype 'a reply = Reply 'a | TransportFailure string | ApiFailure string | Malformed string

record lookup_data =
  lk_account_name :: "string option"
  lk_operator :: "string option"
  lk_total_charges :: "rat option"

record process_data =
  pd_trans_id :: "string option"
  pd_receipt :: "string option"
  pd_amount :: "rat option"
  pd_currency :: "string option"

record process_response =
  ps_resultcode :: "string option"
  ps_message :: "string option"
  ps_data :: "process_data option"

record query_data =
  qd_trans_id :: "string option"
  qd_status :: "string option"
  qd_amount :: "rat option"
  qd_currency :: "string option"
  qd_receipt :: "string option"

record query_response =
  qr_resultcode :: "string option"
  qr_message :: "string option"
  qr_data :: "query_data option"

record order_status_data =
  os_order_id :: "string option"
  os_amount :: "rat option"
  os_payment_status :: "string option"
  os_transid :: "string option"
  os_channel :: "string option"
  os_reference :: "string option"
  os_currency :: "string option"

record order_status_response =
  os_resultcode :: "string option"
  os_data :: "order_status_data list"

record wallet_payment_response =
  wp_resultcode :: "string option"
  wp_message :: "string option"

record mail_result =
  mail_sent :: bool
  mail_message_id :: "string option"
  mail_error :: "string option"

text \<open>
  How a request to the RADIUS side ends: carried out and confirmed, never carried out, or carried
  out with the confirmation lost.
\<close>

datatype channel = Up | Down | AnswerLost

text \<open>
  How a call to the Supabase Auth API ends: answered, answered with an error and its message, or
  without an answer (an \<^verbatim>\<open>httpx\<close> exception), in which case it may have been carried out.
\<close>

datatype auth_answer = Answered | Refused string | NoAnswer bool

record io =
  now :: time
  random_otp :: nat
  hmac_sha256 :: "string \<Rightarrow> string \<Rightarrow> string"
  decimal_text :: "rat \<Rightarrow> string"
  mail :: mail_result
  lookup_reply :: "lookup_data option reply"
  process_reply :: "process_response reply"
  query_reply :: "query_response reply"
  create_order_reply :: "unit reply"
  wallet_payment_reply :: "wallet_payment_response reply"
  order_status_reply :: "order_status_response reply"
  group_channel :: channel
  user_channel :: channel
  redis_reachable :: bool
  resolve_token :: "string \<Rightarrow> uuid option"
  admin_mail :: mail_result
  create_user_answer :: auth_answer
  delete_user_answer :: auth_answer
  link_answer :: auth_answer
  get_user_answer :: auth_answer
  slug_suffix :: string
  wireguard_keys :: "string \<times> string"
  radius_secret :: string
  encrypt_secret :: "string \<Rightarrow> string"

text \<open>
  \<open>decimal_text\<close> is \<open>str\<close> of a Decimal, whose trailing zeros a rational does not carry, and
  \<open>resolve_token\<close> the decryption of a Fernet token with its time-to-live check.
\<close>

subsection \<open>The state\<close>

text \<open>A request sent to a provider, with the fields that identify and value it.\<close>

datatype provider_call =
    AccountLookup destination_code string string rat
  | TransactionProcess string destination_code string string rat
  | TransactionQuery string
  | CreateOrder string string string string rat
  | WalletPayment string string string
  | OrderStatus string

text \<open>FreeRADIUS' own tables: rows are (name, attribute, value) or (user, group).\<close>

record radius_db =
  radcheck :: "(string \<times> string \<times> string) list"
  radusergroup :: "(string \<times> string) list"
  radgroupreply :: "(string \<times> string \<times> string) list"
  radgroupcheck :: "(string \<times> string \<times> string) list"

record db =
  wallets :: "wallet list"
  ledger_entries :: "ledger_entry list"
  settlement_logs :: "settlement_log list"
  terms_rows :: "commercial_terms list"
  config_rows :: "settlement_config list"
  destinations :: "destination list"
  withdrawals :: "withdrawal list"
  withdrawal_events :: "withdrawal_event list"
  transactions :: "transaction list"
  webhook_rows :: "payment_webhook list"
  packages :: "package list"
  customers :: "customer list"
  subscriptions :: "subscription list"
  voucher_batches :: "voucher_batch list"
  vouchers :: "voucher list"
  captive_sessions :: "captive_session list"
  locations :: "location list"
  routers :: "router_row list"
  user_sessions :: "user_session list"
  tenants :: "tenant list"
  profiles :: "profile list"
  seeded_roles :: "role list"
  profile_roles :: "profile_role list"
  tenant_settings_rows :: "uuid list"
  flags_rows :: "feature_flags list"
  verification_rows :: "verification list"
  audit_logs :: "audit_log list"
  email_events :: "email_event list"
  next_id :: uuid
  provider_calls :: "provider_call list"
  radius :: radius_db
  counters :: "string \<rightharpoonup> nat"
  auth_users :: "auth_user list"

type_synonym 'a op = "(db, err, 'a) comp"

text \<open>
  The last five fields are not in the database: identifiers already handed out, requests
  already sent, FreeRADIUS' tables, the Redis counters and Supabase's accounts survive a rollback.
\<close>

definition rollback :: "db \<Rightarrow> db \<Rightarrow> db" where
  "rollback s s' = s\<lparr>next_id := next_id s', provider_calls := provider_calls s',
     radius := radius s', counters := counters s', auth_users := auth_users s'\<rparr>"

text \<open>
  A route handler: the service method, then \<^verbatim>\<open>db.commit()\<close>. An exception leaves the session
  uncommitted, so its database work is undone.
\<close>

definition commit :: "'a op \<Rightarrow> db \<Rightarrow> (err + 'a) \<times> db" where
  "commit m s = (case m s of (Inl e, s') \<Rightarrow> (Inl e, rollback s s') | (Inr x, s') \<Rightarrow> (Inr x, s'))"

definition fresh :: "uuid op" where
  "fresh s = (Inr (next_id s), s\<lparr>next_id := next_id s + 1\<rparr>)"

text \<open>The text of an identifier (\<^verbatim>\<open>str(uuid)\<close>, \<^verbatim>\<open>uuid4().hex\<close>): distinct for distinct identifiers.\<close>

definition id_text :: "uuid \<Rightarrow> string" where
  "id_text i = nat_str i"

lemma id_text_inject [simp]: "id_text i = id_text j \<longleftrightarrow> i = j"
  by (metis id_text_def digits_value_nat_str)

definition record_call :: "provider_call \<Rightarrow> unit op" where
  "record_call c = modify (\<lambda>s. s\<lparr>provider_calls := provider_calls s @ [c]\<rparr>)"

text \<open>Writing a Decimal to a \<open>NUMERIC(14,2)\<close> or \<open>NUMERIC(5,2)\<close> column.\<close>

definition store :: "rat \<Rightarrow> rat op" where
  "store x = require DbError (numeric_14_2 x)"

definition store_rate :: "rat \<Rightarrow> rat op" where
  "store_rate x = require DbError (numeric_5_2 x)"

definition store_option :: "rat option \<Rightarrow> rat option op" where
  "store_option x =
     (case x of None \<Rightarrow> ret None | Some y \<Rightarrow> bnd (store y) (\<lambda>z. ret (Some z)))"

text \<open>
  \<^verbatim>\<open>BaseRepository.get_by_id\<close> and \<^verbatim>\<open>get_by_id_for_update\<close>: the row with the key, restricted to a
  tenant when one is given.
\<close>

definition get_by_id ::
    "('r \<Rightarrow> uuid) \<Rightarrow> ('r \<Rightarrow> uuid) \<Rightarrow> uuid option \<Rightarrow> uuid \<Rightarrow> 'r list \<Rightarrow> 'r option" where
  "get_by_id key owner tenant k rows =
     (case row_find key k rows of
        None \<Rightarrow> None
      | Some r \<Rightarrow> (case tenant of
            None \<Rightarrow> Some r
          | Some t \<Rightarrow> if owner r = t then Some r else None))"

lemma get_by_id_Some:
  "get_by_id key owner tenant k rows = Some r \<longleftrightarrow>
     row_find key k rows = Some r \<and> (\<forall>t. tenant = Some t \<longrightarrow> owner r = t)"
  by (auto simp: get_by_id_def split: option.splits if_splits)

text \<open>The audit trail, \<^verbatim>\<open>app/services/audit.py\<close>: append only.\<close>

definition write_audit_log ::
    "io \<Rightarrow> uuid option \<Rightarrow> uuid option \<Rightarrow> string \<Rightarrow> string option \<Rightarrow> uuid option \<Rightarrow>
     (string \<times> meta) list \<Rightarrow> unit op" where
  "write_audit_log w tenant actor action target_type target metadata =
     modify (\<lambda>s. s\<lparr>audit_logs := audit_logs s @
       [\<lparr>au_tenant = tenant, au_actor = actor, au_action = action,
         au_target_type = target_type, au_target = target, au_metadata = metadata,
         au_created_at = now w\<rparr>]\<rparr>)"

lemma fresh_run [simp, run_simps]:
  "fresh s = (r, s') \<longleftrightarrow> r = Inr (next_id s) \<and> s' = s\<lparr>next_id := next_id s + 1\<rparr>"
  by (auto simp: fresh_def)

lemma record_call_run [simp, run_simps]:
  "record_call c s = (r, s') \<longleftrightarrow>
     r = Inr () \<and> s' = s\<lparr>provider_calls := provider_calls s @ [c]\<rparr>"
  by (simp add: record_call_def)

lemma store_Inr [simp, run_simps]: "store x s = (Inr y, s') \<longleftrightarrow> numeric_14_2 x = Some y \<and> s' = s"
  by (simp add: store_def)

lemma store_Inl [simp, run_simps]:
  "store x s = (Inl e, s') \<longleftrightarrow> numeric_14_2 x = None \<and> e = DbError \<and> s' = s"
  by (simp add: store_def)

lemma store_state: "store x s = (r, s') \<Longrightarrow> s' = s"
  by (cases r) auto

lemma store_option_state: "store_option x s = (r, s') \<Longrightarrow> s' = s"
  by (cases r; cases x) (auto simp: store_option_def run_simps)

lemma write_audit_log_run [run_simps]:
  "write_audit_log w t a act tt tg md s = (r, s') \<longleftrightarrow>
     r = Inr () \<and> s' = s\<lparr>audit_logs := audit_logs s @
       [\<lparr>au_tenant = t, au_actor = a, au_action = act, au_target_type = tt, au_target = tg,
         au_metadata = md, au_created_at = now w\<rparr>]\<rparr>"
  by (simp add: write_audit_log_def)

lemma commit_Inr: "commit m s = (Inr x, s') \<longleftrightarrow> m s = (Inr x, s')"
  by (auto simp: commit_def split: prod.splits sum.splits)

lemma commit_Inl: "commit m s = (Inl e, s') \<longleftrightarrow> (\<exists>u. m s = (Inl e, u) \<and> s' = rollback s u)"
  by (auto simp: commit_def split: prod.splits sum.splits)

text \<open>
  Every operation only ever moves the counter of identifiers up.
\<close>

definition ids_grow :: "db \<Rightarrow> db \<Rightarrow> bool" where
  "ids_grow s s' \<longleftrightarrow> next_id s \<le> next_id s'"

interpretation ids_grow: stable_relation ids_grow
  by unfold_locales (auto simp: ids_grow_def)

lemma ids_audit: "keeps ids_grow (write_audit_log w t a act tt tg md)"
  by (rule keepsI) (simp add: ids_grow_def run_simps)

lemma ids_fresh: "keeps ids_grow fresh"
  by (rule keepsI) (simp add: ids_grow_def)

lemma ids_store: "keeps ids_grow (store v)" "keeps ids_grow (store_option u)"
  by (rule keepsI, auto simp: ids_grow_def dest: store_state store_option_state)+

lemma ids_modify: "(\<And>s. next_id (f s) = next_id s) \<Longrightarrow> keeps ids_grow (modify f)"
  by (rule ids_grow.keeps_modify) (simp add: ids_grow_def)

lemmas ids_rules = ids_grow.keeps_rules ids_audit ids_fresh ids_store

text \<open>A committed or rolled back request: what it did not finish it did not do.\<close>

lemma commit_cases:
  assumes "commit m s = (r, s')"
  obtains x where "m s = (Inr x, s')" "r = Inr x"
  | e u where "m s = (Inl e, u)" "r = Inl e" "s' = rollback s u"
  using assms by (auto simp: commit_def split: prod.splits sum.splits)

lemma commit_invariant:
  assumes run: "commit m s = (r, s')" and grow: "keeps ids_grow m" and inv: "I s"
    and ok: "\<And>x u. m s = (Inr x, u) \<Longrightarrow> I u"
    and stable: "\<And>u. next_id s \<le> next_id u \<Longrightarrow> I (rollback s u)"
  shows "I s'"
  using run
proof (cases rule: commit_cases)
  case (2 e u)
  with grow have "next_id s \<le> next_id u" by (auto simp: ids_grow_def dest: keepsD)
  with 2 stable show ?thesis by simp
qed (use ok in blast)

end
