(* ===== verification/Samples.thy ===== *)
theory Samples
  imports Service_State
begin

text \<open>
  Concrete inputs for the examples of the component theories: the database right after its
  migrations, the default settings of \<^verbatim>\<open>app/core/config.py\<close>, and one instance of what a request
  obtains from outside.
\<close>

definition empty_db :: db where
  "empty_db =
     \<lparr>wallets = [], ledger_entries = [], settlement_logs = [], terms_rows = [], config_rows = [],
      destinations = [], withdrawals = [], withdrawal_events = [], transactions = [],
      webhook_rows = [], packages = [], customers = [], subscriptions = [], voucher_batches = [],
      vouchers = [], captive_sessions = [], locations = [], routers = [], user_sessions = [], tenants = [], profiles = [],
      seeded_roles = [SUPER_ADMIN, TENANT_OWNER, TENANT_ADMIN, ACCOUNTANT, NETWORK_TECHNICIAN, CUSTOMER_CARE,
        CASHIER, CUSTOMER], profile_roles = [], tenant_settings_rows = [],
      flags_rows = [], verification_rows = [], audit_logs = [], email_events = [], next_id = 100,
      provider_calls = [],
      radius = \<lparr>radcheck = [], radusergroup = [], radgroupreply = [], radgroupcheck = []\<rparr>,
      counters = Map.empty, auth_users = []\<rparr>"

definition router_at :: "uuid \<Rightarrow> uuid \<Rightarrow> router_row" where
  "router_at i tenant = \<lparr>rt_id = i, rt_tenant = tenant, rt_name = ''r'', rt_location = None, rt_model = None,
     rt_management_ip = None, rt_mac_address = None, rt_status = ''unknown'', rt_last_seen_at = None,
     provisioning_status = ''in_progress'', hotspot_network_cidr = None, hotspot_gateway_ip = None,
     hotspot_dns_servers = None, wireguard_public_key = None, wireguard_tunnel_ip = None,
     wireguard_private_key_encrypted = None, radius_secret_encrypted = None\<rparr>"

definition sample_io :: io where
  "sample_io =
     \<lparr>now = seconds 1000000, random_otp = 42,
      hmac_sha256 = (\<lambda>key msg. key @ ''/'' @ msg),
      decimal_text = (\<lambda>x. int_str \<lfloor>x\<rfloor>),
      mail = \<lparr>mail_sent = True, mail_message_id = Some ''m-1'', mail_error = None\<rparr>,
      lookup_reply = Reply (Some \<lparr>lk_account_name = Some ''Asha Juma'', lk_operator = Some ''MPESA'',
        lk_total_charges = Some 100\<rparr>),
      process_reply = Reply \<lparr>ps_resultcode = Some ''000'', ps_message = Some ''Success'', ps_data = None\<rparr>,
      query_reply = TransportFailure ''timeout'',
      create_order_reply = Reply (),
      wallet_payment_reply = Reply \<lparr>wp_resultcode = Some ''111'', wp_message = None\<rparr>,
      order_status_reply = TransportFailure ''timeout'',
      group_channel = Up, user_channel = Up, redis_reachable = True, resolve_token = (\<lambda>_. None),
      admin_mail = \<lparr>mail_sent = True, mail_message_id = Some ''m-2'', mail_error = None\<rparr>,
      create_user_answer = Answered, delete_user_answer = Answered, link_answer = Answered,
      get_user_answer = Answered, slug_suffix = ''a1b2c3'', wireguard_keys = (''priv'', ''pub''),
      radius_secret = ''secret'', encrypt_secret = (\<lambda>t. ''gAAAA'' @ t)\<rparr>"

text \<open>A tenant's wallet holding 100.00 that can be withdrawn, and terms of 2.5 percent.\<close>

definition funded_wallet :: wallet where
  "funded_wallet = \<lparr>wal_id = 1, wal_tenant = 7, wal_currency = ''TZS'',
     available_balance_tzs = 100, pending_balance_tzs = 30, reserved_balance_tzs = 0,
     frozen_balance_tzs = 0, total_disbursed_tzs = 0\<rparr>"

definition sample_terms :: commercial_terms where
  "sample_terms = \<lparr>ct_id = 2, ct_tenant = 7, commission_rate_percent = 5 / 2, ct_is_active = True,
     ct_notes = None, ct_created_by = None\<rparr>"

definition funded_db :: db where
  "funded_db = empty_db\<lparr>wallets := [funded_wallet], terms_rows := [sample_terms]\<rparr>"

text \<open>A tenant that may withdraw: settings, destination, configuration, flag, verified e-mail.\<close>

definition payout_cfg :: settings where
  "payout_cfg = \<lparr>radius_database_configured = False, network_agent_configured = False,
     super_admin_review_email = None, secrets_encryption_key = ''k'', captive_intent_configured = True,
     captive_intent_ttl_seconds = 300, captive_rate_limit_per_session = 5,
     captive_rate_limit_per_phone = 5, captive_rate_limit_per_router = 60,
     captive_rate_limit_window_seconds = 600, selcom_disbursement_enabled = True,
     selcom_business_environment = ''sandbox'',
     selcom_business_base_url = Some ''https://sandbox.selcom.business/v1'',
     selcom_business_api_key = Some ''key'', selcom_business_private_key_pem = Some (Some ''pem''),
     selcom_production_payouts_enabled = False, selcom_withdrawal_approval_threshold_tzs = 1000,
     withdrawal_min_amount_tzs = None, withdrawal_max_single_amount_tzs = None,
     withdrawal_daily_limit_tzs = None, withdrawal_daily_count_limit = None,
     withdrawal_processing_alert_minutes = 30, withdrawal_ambiguous_alert_minutes = 30,
     withdrawal_stale_alert_cooldown_minutes = 60, otp_verification_secret = Some ''s'',
     withdrawal_otp_ttl_seconds = 600, withdrawal_otp_max_attempts = 5,
     withdrawal_otp_resend_cooldown_seconds = 60, withdrawal_otp_max_sends = 5,
     selcom_collection_base_url = None, selcom_collection_api_key = None,
     selcom_collection_api_secret = None, selcom_collection_private_key_pem = Some None,
     selcom_collection_digest_method = None, selcom_collection_vendor = None,
     selcom_collection_enabled = False, selcom_collection_production_enabled = False,
     selcom_collection_pending_review_minutes = 30,
     wireguard_server_public_key = Some ''srv'', wireguard_server_endpoint = Some ''vpn.example:51820'',
     wireguard_server_subnet = ''10.90.0.0/24'', public_captive_portal_domain = Some ''portal.example'',
     public_api_domain = None\<rparr>"

definition payout_db :: db where
  "payout_db = funded_db\<lparr>
     destinations := [\<lparr>dst_id = 11, dst_tenant = 7, dst_label = ''main'', dst_channel = ''mobile_money'',
       dst_code = Some Fi_MPESA, dst_account_name = None, dst_account_number = Some ''255754123456'',
       dst_is_default = True\<rparr>],
     config_rows := [\<lparr>sc_id = 12, sc_tenant = 7, sc_mode = M_PLATFORM_MANAGED_WALLET,
       sc_is_active = True, sc_notes = None, sc_created_by = None\<rparr>],
     flags_rows := [\<lparr>ff_tenant = 7, collection_enabled = True, payout_enabled = True\<rparr>],
     profiles := [\<lparr>pr_id = 3, pr_tenant = Some 7, pr_email = Some ''a@b.tz'', pr_full_name = Some ''Asha Juma'',
       pr_first_name = Some ''Asha'', pr_last_name = Some ''Juma'', pr_phone = None, pr_status = ''active''\<rparr>],
     verification_rows := [\<lparr>vf_tenant = 7, vf_status = Vf_APPROVED, vf_submitted_at = Some 0, email_verified_at = Some 0,
       vf_reviewed_at = Some 0, vf_reviewed_by = Some 1, approved_at = Some 0, rejected_at = None,
       rejection_reason = None, more_information_message = None\<rparr>]\<rparr>"

end
