(* ===== verification/Tenant_Finance.thy ===== *)
theory Tenant_Finance
  imports Samples
begin

text \<open>
  The two versioned per-tenant configurations, \<^verbatim>\<open>app/services/commercial_terms.py\<close> (the
  platform's commission rate) and \<^verbatim>\<open>app/services/settlement_config.py\<close> (who holds the tenant's
  funds). Both are changed by retiring the active row and inserting a new one; the locale
  \<open>versioned_history\<close> states that shared contract once and is interpreted for both tables.
\<close>

subsection \<open>Superseding the active row\<close>

definition supersede ::
    "('r \<Rightarrow> uuid) \<Rightarrow> ('r \<Rightarrow> 'r) \<Rightarrow> 'r option \<Rightarrow> 'r \<Rightarrow> 'r list \<Rightarrow> 'r list" where
  "supersede key retire current new rows =
     (case current of None \<Rightarrow> rows | Some c \<Rightarrow> row_put key (retire c) rows) @ [new]"

definition active_row ::
    "('r \<Rightarrow> uuid) \<Rightarrow> ('r \<Rightarrow> bool) \<Rightarrow> uuid \<Rightarrow> 'r list \<Rightarrow> 'r option" where
  "active_row owner active t rows = find (\<lambda>r. owner r = t \<and> active r) rows"

definition one_active :: "('r \<Rightarrow> uuid) \<Rightarrow> ('r \<Rightarrow> bool) \<Rightarrow> 'r list \<Rightarrow> bool" where
  "one_active owner active rows \<longleftrightarrow>
     (\<forall>t. length (filter (\<lambda>r. owner r = t \<and> active r) rows) \<le> 1)"

lemma row_put_filter_id:
  "(\<And>x. x \<in> set rows \<Longrightarrow> key x = key r \<Longrightarrow> P x = P r) \<Longrightarrow>
   map key (filter P (row_put key r rows)) = map key (filter P rows)"
  by (induction rows) (auto simp: row_put_Cons)

locale versioned_history =
  fixes key owner :: "'r \<Rightarrow> uuid" and active :: "'r \<Rightarrow> bool" and retire :: "'r \<Rightarrow> 'r"
  assumes retire_key [simp]: "key (retire r) = key r"
    and retire_owner [simp]: "owner (retire r) = owner r"
    and retire_inactive [simp]: "\<not> active (retire r)"
begin

lemma retired_filter:
  assumes "distinct (map key rows)" "active_row owner active t rows = Some c"
  shows "filter (\<lambda>r. owner r = t' \<and> active r) (row_put key (retire c) rows) =
    remove1 c (filter (\<lambda>r. owner r = t' \<and> active r) rows)"
  using assms
proof (induction rows)
  case (Cons a rows)
  show ?case
  proof (cases "owner a = t \<and> active a")
    case True
    with Cons.prems have "c = a" "key a \<notin> key ` set rows"
      by (auto simp: active_row_def)
    then show ?thesis by (auto simp: row_put_Cons)
  next
    case False
    with Cons.prems have rest: "active_row owner active t rows = Some c"
      by (auto simp: active_row_def)
    then have c: "c \<in> set rows" "owner c = t" "active c"
      by (auto simp: active_row_def find_Some_iff)
    with False have "c \<noteq> a" by auto
    moreover from c Cons.prems(1) have "key a \<noteq> key c" by auto
    ultimately show ?thesis
      using Cons.IH [OF _ rest] Cons.prems(1) by (auto simp: row_put_Cons)
  qed
qed (simp add: active_row_def)

text \<open>At most one row per tenant is active before and after, and it is then the new one.\<close>

lemma supersede_one_active:
  assumes one: "one_active owner active rows" and dist: "distinct (map key rows)"
    and cur: "current = active_row owner active t rows" and new: "owner new = t"
  shows "one_active owner active (supersede key retire current new rows)"
proof (unfold one_active_def, intro allI)
  fix t'
  have le: "length (filter (\<lambda>r. owner r = t' \<and> active r) rows) \<le> 1"
    using one by (simp add: one_active_def)
  show "length (filter (\<lambda>r. owner r = t' \<and> active r) (supersede key retire current new rows)) \<le> 1"
  proof (cases current)
    case None
    with cur have "find (\<lambda>r. owner r = t \<and> active r) rows = None"
      by (simp add: active_row_def)
    then have "filter (\<lambda>r. owner r = t \<and> active r) rows = []"
      by (auto simp: find_None_iff filter_empty_conv)
    with None le new show ?thesis by (auto simp: supersede_def)
  next
    case (Some c)
    with cur have "find (\<lambda>r. owner r = t \<and> active r) rows = Some c"
      by (simp add: active_row_def)
    then have c: "c \<in> set rows" "owner c = t" "active c"
      by (auto simp: find_Some_iff)
    have "length (filter (\<lambda>r. owner r = t \<and> active r) (row_put key (retire c) rows)) = 0"
      using one c retired_filter [OF dist, of t c t] cur Some
      by (auto simp: one_active_def length_remove1 le_Suc_eq)
    moreover have "length (filter (\<lambda>r. owner r = t' \<and> active r) (row_put key (retire c) rows)) \<le> 1"
      using le retired_filter [OF dist, of t c t'] cur Some by (auto simp: length_remove1)
    ultimately show ?thesis
      using Some new by (auto simp: supersede_def)
  qed
qed

lemma supersede_active_row:
  assumes one: "one_active owner active rows" and dist: "distinct (map key rows)"
    and cur: "current = active_row owner active t rows" and new: "owner new = t" "active new"
  shows "active_row owner active t (supersede key retire current new rows) = Some new"
proof -
  let ?rows = "supersede key retire current new rows"
  have "one_active owner active ?rows"
    using supersede_one_active assms by blast
  then have "length (filter (\<lambda>r. owner r = t \<and> active r) ?rows) \<le> 1"
    by (simp add: one_active_def)
  moreover have "new \<in> set (filter (\<lambda>r. owner r = t \<and> active r) ?rows)"
    using new by (simp add: supersede_def)
  ultimately have "filter (\<lambda>r. owner r = t \<and> active r) ?rows = [new]"
    by (cases "filter (\<lambda>r. owner r = t \<and> active r) ?rows") auto
  moreover have "find P xs = (case filter P xs of [] \<Rightarrow> None | x # _ \<Rightarrow> Some x)" for P and xs :: "'r list"
    by (induction xs) auto
  ultimately show ?thesis
    by (simp add: active_row_def)
qed

text \<open>History is kept: no row disappears, and no row but the retired one changes.\<close>

lemma supersede_history:
  "map key (supersede key retire current new rows) = map key rows @ [key new]"
  "r \<in> set rows \<Longrightarrow> (\<forall>c. current = Some c \<longrightarrow> key r \<noteq> key c) \<Longrightarrow>
     r \<in> set (supersede key retire current new rows)"
  by (auto simp: supersede_def row_put_def split: option.splits)

lemma supersede_other_tenant:
  assumes "distinct (map key rows)" "current = active_row owner active t rows" "owner new = t"
    "t' \<noteq> t"
  shows "active_row owner active t' (supersede key retire current new rows) =
    active_row owner active t' rows"
proof -
  have find_filter: "find P xs = (case filter P xs of [] \<Rightarrow> None | x # _ \<Rightarrow> Some x)"
    for P and xs :: "'r list"
    by (induction xs) auto
  show ?thesis
  proof (cases current)
    case (Some c)
    with assms(2) have "find (\<lambda>r. owner r = t \<and> active r) rows = Some c"
      by (simp add: active_row_def)
    then have "owner c = t" by (auto simp: find_Some_iff)
    then have "c \<notin> set (filter (\<lambda>r. owner r = t' \<and> active r) rows)" using assms(4) by auto
    then show ?thesis
      using retired_filter [OF assms(1), of t c t'] Some assms
      by (auto simp: active_row_def supersede_def find_filter remove1_idem)
  qed (use assms in \<open>auto simp: active_row_def supersede_def find_filter\<close>)
qed

end

subsection \<open>Commercial terms\<close>

definition retire_terms :: "commercial_terms \<Rightarrow> commercial_terms" where
  "retire_terms r = r\<lparr>ct_is_active := False\<rparr>"

definition get_active_terms :: "uuid \<Rightarrow> db \<Rightarrow> commercial_terms option" where
  "get_active_terms t s = active_row ct_tenant ct_is_active t (terms_rows s)"

definition require_active_terms :: "uuid \<Rightarrow> commercial_terms op" where
  "require_active_terms t =
     bnd (gets (get_active_terms t)) (\<lambda>r.
     require (DomainValidationError ''No active commercial terms are configured for this tenant'') r)"

definition set_commission_rate ::
    "io \<Rightarrow> uuid \<Rightarrow> rat \<Rightarrow> uuid option \<Rightarrow> string option \<Rightarrow> commercial_terms op" where
  "set_commission_rate w tenant rate actor notes =
     thn (guard (\<not> (rate < 0 \<or> rate > 100))
            (DomainValidationError ''commission_rate_percent must be between 0 and 100''))
     (bnd (gets (get_active_terms tenant)) (\<lambda>current.
      bnd fresh (\<lambda>i.
      bnd (store_rate rate) (\<lambda>stored.
      let created = \<lparr>ct_id = i, ct_tenant = tenant, commission_rate_percent = stored,
            ct_is_active = True, ct_notes = notes, ct_created_by = actor\<rparr>
      in thn (modify (\<lambda>s. s\<lparr>terms_rows :=
                supersede ct_id retire_terms current created (terms_rows s)\<rparr>))
        (thn (write_audit_log w (Some tenant) actor ''commercial_terms.rate_changed''
                (Some ''tenant_commercial_terms'') (Some i)
                [(''commission_rate_percent'', MAmount rate),
                 (''previous_rate_percent'',
                    case current of None \<Rightarrow> MNull
                    | Some c \<Rightarrow> MAmount (commission_rate_percent c))])
         (ret created))))))"

interpretation terms_history: versioned_history ct_id ct_tenant ct_is_active retire_terms
  by unfold_locales (auto simp: retire_terms_def)

subsection \<open>Settlement mode\<close>

definition retire_config :: "settlement_config \<Rightarrow> settlement_config" where
  "retire_config r = r\<lparr>sc_is_active := False\<rparr>"

definition get_active_config :: "uuid \<Rightarrow> db \<Rightarrow> settlement_config option" where
  "get_active_config t s = active_row sc_tenant sc_is_active t (config_rows s)"

definition get_mode :: "uuid \<Rightarrow> db \<Rightarrow> settlement_mode" where
  "get_mode t s =
     (case get_active_config t s of
        None \<Rightarrow> M_DIRECT_MERCHANT_SETTLEMENT
      | Some c \<Rightarrow> sc_mode c)"

definition set_mode ::
    "io \<Rightarrow> uuid \<Rightarrow> settlement_mode \<Rightarrow> uuid option \<Rightarrow> string option \<Rightarrow> settlement_config op" where
  "set_mode w tenant mode actor notes =
     bnd (gets (get_active_config tenant)) (\<lambda>current.
     thn (guard (\<not> (\<exists>c \<in> set_option current. sc_mode c = mode))
            (DomainValidationError ''Tenant is already in this mode''))
     (bnd fresh (\<lambda>i.
      let created = \<lparr>sc_id = i, sc_tenant = tenant, sc_mode = mode, sc_is_active = True,
            sc_notes = notes, sc_created_by = actor\<rparr>
      in thn (modify (\<lambda>s. s\<lparr>config_rows :=
                supersede sc_id retire_config current created (config_rows s)\<rparr>))
        (thn (write_audit_log w (Some tenant) actor ''settlement_config.mode_changed''
                (Some ''tenant_settlement_config'') (Some i)
                [(''mode'', MStr (settlement_mode_value mode)),
                 (''previous_mode'',
                    case current of None \<Rightarrow> MNull
                    | Some c \<Rightarrow> MStr (settlement_mode_value (sc_mode c)))])
         (ret created)))))"

interpretation config_history: versioned_history sc_id sc_tenant sc_is_active retire_config
  by unfold_locales (auto simp: retire_config_def)

subsection \<open>What the two operations do to their table\<close>

lemma set_commission_rate_Inr:
  "set_commission_rate w t rate a n s = (Inr c, s') \<longleftrightarrow>
     0 \<le> rate \<and> rate \<le> 100 \<and>
     (\<exists>stored. numeric_5_2 rate = Some stored \<and>
       c = \<lparr>ct_id = next_id s, ct_tenant = t, commission_rate_percent = stored,
            ct_is_active = True, ct_notes = n, ct_created_by = a\<rparr> \<and>
       s' = s\<lparr>next_id := next_id s + 1,
          terms_rows := supersede ct_id retire_terms (get_active_terms t s) c (terms_rows s),
          audit_logs := audit_logs s @
            [\<lparr>au_tenant = Some t, au_actor = a, au_action = ''commercial_terms.rate_changed'',
              au_target_type = Some ''tenant_commercial_terms'', au_target = Some (next_id s),
              au_metadata = [(''commission_rate_percent'', MAmount rate),
                 (''previous_rate_percent'',
                    case get_active_terms t s of None \<Rightarrow> MNull
                    | Some c \<Rightarrow> MAmount (commission_rate_percent c))],
              au_created_at = now w\<rparr>]\<rparr>)"
  by (auto simp: set_commission_rate_def run_simps Let_def store_rate_def)

lemma set_mode_Inr:
  "set_mode w t m a n s = (Inr c, s') \<longleftrightarrow>
     (\<forall>d. get_active_config t s = Some d \<longrightarrow> sc_mode d \<noteq> m) \<and>
     c = \<lparr>sc_id = next_id s, sc_tenant = t, sc_mode = m, sc_is_active = True,
          sc_notes = n, sc_created_by = a\<rparr> \<and>
     s' = s\<lparr>next_id := next_id s + 1,
        config_rows := supersede sc_id retire_config (get_active_config t s) c (config_rows s),
        audit_logs := audit_logs s @
          [\<lparr>au_tenant = Some t, au_actor = a, au_action = ''settlement_config.mode_changed'',
            au_target_type = Some ''tenant_settlement_config'', au_target = Some (next_id s),
            au_metadata = [(''mode'', MStr (settlement_mode_value m)),
               (''previous_mode'',
                  case get_active_config t s of None \<Rightarrow> MNull
                  | Some c \<Rightarrow> MStr (settlement_mode_value (sc_mode c)))],
            au_created_at = now w\<rparr>]\<rparr>"
  by (auto simp: set_mode_def run_simps Let_def)

subsection \<open>Properties\<close>

text \<open>Setting a commission rate versions the tenant's commercial terms: the rate lies between 0
  and 100, the new row is the tenant's only active one and the one every later split uses, no other
  tenant's terms change, and every row but the retired one is still there as it was.\<close>

theorem commission_rate_versioned:
  assumes "one_active ct_tenant ct_is_active (terms_rows s)" "distinct (map ct_id (terms_rows s))"
    and "set_commission_rate w t rate a n s = (Inr c, s')"
  shows "0 \<le> rate \<and> rate \<le> 100 \<and> commission_rate_percent c = round_half_up2 rate \<and>
    get_active_terms t s' = Some c \<and>
    one_active ct_tenant ct_is_active (terms_rows s') \<and>
    (\<forall>t'. t' \<noteq> t \<longrightarrow> get_active_terms t' s' = get_active_terms t' s) \<and>
    (\<forall>r \<in> set (terms_rows s).
      (\<forall>c. get_active_terms t s = Some c \<longrightarrow> ct_id r \<noteq> ct_id c) \<longrightarrow> r \<in> set (terms_rows s'))"
proof -
  from assms(3) have rate: "0 \<le> rate" "rate \<le> 100" and c: "ct_tenant c = t" "ct_is_active c"
    and stored: "commission_rate_percent c = round_half_up2 rate"
    and rows: "terms_rows s' =
      supersede ct_id retire_terms (active_row ct_tenant ct_is_active t (terms_rows s)) c (terms_rows s)"
    by (auto simp: set_commission_rate_Inr get_active_terms_def numeric_5_2_def
        dest: numeric_column_Some)
  note hist = terms_history.supersede_one_active [OF assms(1,2) refl c(1)]
    terms_history.supersede_active_row [OF assms(1,2) refl c]
    terms_history.supersede_other_tenant [OF assms(2) refl c(1)]
    terms_history.supersede_history(2) [of _ "terms_rows s" "active_row ct_tenant ct_is_active t (terms_rows s)" c]
  show ?thesis using rate stored hist by (simp add: rows get_active_terms_def)
qed

theorem commission_rate_versioned_witness:
  "\<exists>c s'. set_commission_rate sample_io 7 3 None None funded_db = (Inr c, s') \<and>
     get_active_terms 7 s' = Some c \<and> commission_rate_percent c = 3"
proof -
  have "numeric_5_2 3 = Some 3" by (simp add: numeric_5_2_def numeric_column_def)
  then obtain c s' where run: "set_commission_rate sample_io 7 3 None None funded_db = (Inr c, s')"
    by (simp add: set_commission_rate_Inr)
  moreover have "one_active ct_tenant ct_is_active (terms_rows funded_db)"
    "distinct (map ct_id (terms_rows funded_db))"
    by (simp_all add: one_active_def funded_db_def)
  ultimately show ?thesis
    using commission_rate_versioned [of funded_db sample_io 7 3 None None c s'] by auto
qed

text \<open>Changing who holds a tenant's funds versions the settlement configuration: the new mode is
  in force at once and for that tenant only, one row per tenant is active, repeating the mode in
  force is refused, and a tenant that never had a configuration is in direct settlement.\<close>

theorem settlement_mode_versioned:
  assumes "one_active sc_tenant sc_is_active (config_rows s)" "distinct (map sc_id (config_rows s))"
    and "set_mode w t m a n s = (Inr c, s')"
  shows "get_mode t s' = m \<and> get_active_config t s' = Some c \<and>
    (get_active_config t s = None \<longrightarrow> get_mode t s = M_DIRECT_MERCHANT_SETTLEMENT) \<and>
    (get_active_config t s \<noteq> None \<longrightarrow> get_mode t s \<noteq> m) \<and>
    one_active sc_tenant sc_is_active (config_rows s') \<and>
    (\<forall>t'. t' \<noteq> t \<longrightarrow> get_mode t' s' = get_mode t' s)"
proof -
  from assms(3) have c: "sc_tenant c = t" "sc_is_active c" "sc_mode c = m"
    and old: "\<forall>d. get_active_config t s = Some d \<longrightarrow> sc_mode d \<noteq> m"
    and rows: "config_rows s' =
      supersede sc_id retire_config (active_row sc_tenant sc_is_active t (config_rows s)) c (config_rows s)"
    by (auto simp: set_mode_Inr get_active_config_def)
  note hist = config_history.supersede_one_active [OF assms(1,2) refl c(1)]
    config_history.supersede_active_row [OF assms(1,2) refl c(1,2)]
    config_history.supersede_other_tenant [OF assms(2) refl c(1)]
  show ?thesis
    using hist c old by (auto simp: rows get_mode_def get_active_config_def split: option.splits)
qed

theorem settlement_mode_versioned_witness:
  "\<exists>c s'. set_mode sample_io 7 M_PLATFORM_MANAGED_WALLET None None funded_db = (Inr c, s') \<and>
     get_mode 7 s' = M_PLATFORM_MANAGED_WALLET \<and> get_mode 8 s' = M_DIRECT_MERCHANT_SETTLEMENT"
proof -
  have none: "config_rows funded_db = []" by (simp add: funded_db_def empty_db_def)
  then obtain c s' where run: "set_mode sample_io 7 M_PLATFORM_MANAGED_WALLET None None funded_db = (Inr c, s')"
    by (simp add: set_mode_Inr get_active_config_def active_row_def)
  with none settlement_mode_versioned [OF _ _ run] show ?thesis
    by (auto simp: one_active_def get_mode_def [of 8 funded_db] get_active_config_def active_row_def)
qed

end
