(* ===== verification/Wallet.thy ===== *)
theory Wallet
  imports Tenant_Finance Samples
begin

text \<open>
  The wallet accounting of \<^verbatim>\<open>app/services/wallet.py\<close>: five buckets per tenant, every change of
  a bucket made by \<open>move_bucket\<close>, the ledger entries that justify it. Each service method is
  one definition with the same guards in the same order. The locale \<open>bucket_transfer\<close> is
  what the payout service relies on: an operation that moves an amount from one bucket to
  another; it is interpreted for the five operations that promise it.
\<close>

subsection \<open>Buckets\<close>

fun bucket :: "wallet_bucket \<Rightarrow> wallet \<Rightarrow> rat" where
  "bucket B_AVAILABLE w = available_balance_tzs w"
| "bucket B_PENDING w = pending_balance_tzs w"
| "bucket B_RESERVED w = reserved_balance_tzs w"
| "bucket B_FROZEN w = frozen_balance_tzs w"
| "bucket B_TOTAL_DISBURSED w = total_disbursed_tzs w"

fun set_bucket :: "wallet_bucket \<Rightarrow> rat \<Rightarrow> wallet \<Rightarrow> wallet" where
  "set_bucket B_AVAILABLE x w = w\<lparr>available_balance_tzs := x\<rparr>"
| "set_bucket B_PENDING x w = w\<lparr>pending_balance_tzs := x\<rparr>"
| "set_bucket B_RESERVED x w = w\<lparr>reserved_balance_tzs := x\<rparr>"
| "set_bucket B_FROZEN x w = w\<lparr>frozen_balance_tzs := x\<rparr>"
| "set_bucket B_TOTAL_DISBURSED x w = w\<lparr>total_disbursed_tzs := x\<rparr>"

lemma bucket_set_bucket [simp]:
  "bucket b (set_bucket b' x w) = (if b = b' then x else bucket b w)"
  by (cases b; cases b') auto

lemma set_bucket_keys [simp]:
  "wal_id (set_bucket b x w) = wal_id w" "wal_tenant (set_bucket b x w) = wal_tenant w"
  by (cases b; simp)+

definition wallet_of :: "uuid \<Rightarrow> db \<Rightarrow> wallet option" where
  "wallet_of t s = find (\<lambda>w. wal_tenant w = t) (wallets s)"

definition new_wallet :: "uuid \<Rightarrow> uuid \<Rightarrow> wallet" where
  "new_wallet i t = \<lparr>wal_id = i, wal_tenant = t, wal_currency = ''TZS'',
     available_balance_tzs = 0, pending_balance_tzs = 0, reserved_balance_tzs = 0,
     frozen_balance_tzs = 0, total_disbursed_tzs = 0\<rparr>"

definition get_or_create_wallet :: "uuid \<Rightarrow> wallet op" where
  "get_or_create_wallet tenant =
     bnd (gets (wallet_of tenant)) (\<lambda>found.
     case found of
       Some w \<Rightarrow> ret w
     | None \<Rightarrow> bnd fresh (\<lambda>i.
         thn (modify (\<lambda>s. s\<lparr>wallets := wallets s @ [new_wallet i tenant]\<rparr>))
           (ret (new_wallet i tenant))))"

definition locked_wallet :: "uuid \<Rightarrow> wallet op" where
  "locked_wallet tenant =
     bnd (get_or_create_wallet tenant) (\<lambda>w.
     bnd (gets (\<lambda>s. get_by_id wal_id wal_tenant (Some tenant) (wal_id w) (wallets s)))
       (require (RuntimeError ''Wallet vanished between create and lock'')))"

text \<open>
  \<open>move_bucket\<close> returns the new value it computed and the refreshed row, whose column holds
  that value as the database stored it.
\<close>

definition put_wallet :: "wallet \<Rightarrow> db \<Rightarrow> db" where
  "put_wallet w s = s\<lparr>wallets := row_put wal_id w (wallets s)\<rparr>"

definition move_bucket :: "wallet \<Rightarrow> wallet_bucket \<Rightarrow> rat \<Rightarrow> (rat \<times> wallet) op" where
  "move_bucket w b delta =
     (let new_value = bucket b w + delta in
      thn (guard (\<not> new_value < 0)
             (DomainValidationError ''This operation would take a balance below zero''))
      (bnd (store new_value) (\<lambda>stored.
       thn (modify (put_wallet (set_bucket b stored w)))
         (ret (new_value, set_bucket b stored w)))))"

text \<open>\<^verbatim>\<open>self.ledger_repo.create(...)\<close>.\<close>

definition create_entry ::
    "io \<Rightarrow> wallet \<Rightarrow> ledger_entry_type \<Rightarrow> ledger_direction \<Rightarrow> wallet_bucket option \<Rightarrow> rat \<Rightarrow>
     rat option \<Rightarrow> string option \<Rightarrow> uuid option \<Rightarrow> string option \<Rightarrow> uuid option \<Rightarrow>
     ledger_entry op" where
  "create_entry w wal ty dir b amount balance_after ref_type ref descr actor =
     bnd (store amount) (\<lambda>a.
     bnd (store_option balance_after) (\<lambda>ba.
     bnd fresh (\<lambda>i.
     let e = \<lparr>le_id = i, le_tenant = wal_tenant wal, le_wallet = wal_id wal, le_type = ty,
           le_direction = dir, le_bucket = b, le_amount = a, le_balance_after = ba,
           le_reference_type = ref_type, le_reference = ref, le_description = descr,
           le_actor = actor, le_created_at = now w\<rparr>
     in thn (modify (\<lambda>s. s\<lparr>ledger_entries := ledger_entries s @ [e]\<rparr>)) (ret e))))"

subsection \<open>The operations\<close>

record collection_result =
  cr_wallet :: wallet
  cr_collection_entry :: ledger_entry
  cr_platform_fee_entry :: ledger_entry
  cr_tenant_share_entry :: ledger_entry
  cr_platform_fee :: rat
  cr_tenant_share :: rat

definition process_collection ::
    "io \<Rightarrow> uuid \<Rightarrow> rat \<Rightarrow> string \<Rightarrow> uuid option \<Rightarrow> string option \<Rightarrow> collection_result op" where
  "process_collection w tenant gross ref_type ref descr =
     thn (guard (\<not> gross \<le> 0) (DomainValidationError ''gross_amount must be positive''))
     (bnd (require_active_terms tenant) (\<lambda>terms.
      let rate = commission_rate_percent terms;
          fee = percent_fee gross rate;
          share = gross - fee
      in
      bnd (locked_wallet tenant) (\<lambda>wal.
      bnd (move_bucket wal B_PENDING share) (\<lambda>(new_pending, wal').
      bnd (create_entry w wal' L_COLLECTION D_CREDIT None gross None (Some ref_type) ref descr
             None) (\<lambda>e1.
      bnd (create_entry w wal' L_PLATFORM_FEE D_DEBIT None fee None (Some ref_type) ref
             (Some ''Platform commission'') None) (\<lambda>e2.
      bnd (create_entry w wal' L_TENANT_SHARE D_CREDIT (Some B_PENDING) share (Some new_pending)
             (Some ref_type) ref descr None) (\<lambda>e3.
      ret \<lparr>cr_wallet = wal', cr_collection_entry = e1, cr_platform_fee_entry = e2,
        cr_tenant_share_entry = e3, cr_platform_fee = fee, cr_tenant_share = share\<rparr>)))))))"

definition create_adjustment ::
    "io \<Rightarrow> uuid \<Rightarrow> wallet_bucket \<Rightarrow> ledger_direction \<Rightarrow> rat \<Rightarrow> string \<Rightarrow> uuid \<Rightarrow>
     string option \<Rightarrow> uuid option \<Rightarrow> ledger_entry op" where
  "create_adjustment w tenant b dir amount reason actor ref_type ref =
     thn (guard (\<not> amount \<le> 0) (DomainValidationError ''adjustment amount must be positive''))
     (thn (guard (reason \<noteq> [] \<and> strip reason \<noteq> [])
             (DomainValidationError ''An adjustment requires a non-empty reason''))
      (bnd (locked_wallet tenant) (\<lambda>wal.
       let delta = (if dir = D_CREDIT then amount else - amount) in
       bnd (move_bucket wal b delta) (\<lambda>(new_balance, wal').
       create_entry w wal' L_ADJUSTMENT dir (Some b) amount (Some new_balance) ref_type ref
         (Some reason) (Some actor)))))"

definition settle_pending ::
    "uuid \<Rightarrow> rat option \<Rightarrow> string \<Rightarrow> settlement_log op" where
  "settle_pending tenant amount batch_reference =
     bnd (locked_wallet tenant) (\<lambda>wal.
     let pending = pending_balance_tzs wal;
         settle = (case amount of None \<Rightarrow> pending | Some a \<Rightarrow> a)
     in
     thn (guard (\<not> settle \<le> 0)
            (DomainValidationError ''settle_pending amount must be positive''))
     (thn (guard (\<not> settle > pending)
             (DomainValidationError ''Cannot settle more than the current pending balance''))
      (bnd (move_bucket wal B_PENDING (- settle)) (\<lambda>(_, wal1).
       bnd (move_bucket wal1 B_AVAILABLE settle) (\<lambda>(_, wal2).
       bnd (store settle) (\<lambda>stored.
       bnd fresh (\<lambda>i.
       let row = \<lparr>sl_id = i, sl_tenant = tenant, sl_batch_reference = batch_reference,
             sl_transaction_count = 1, sl_gross = stored, sl_fee = 0, sl_net = stored,
             sl_status = ''settled''\<rparr>
       in thn (modify (\<lambda>s. s\<lparr>settlement_logs := settlement_logs s @ [row]\<rparr>)) (ret row))))))))"

definition reserve_for_withdrawal :: "uuid \<Rightarrow> rat \<Rightarrow> wallet op" where
  "reserve_for_withdrawal tenant amount =
     thn (guard (\<not> amount \<le> 0) (DomainValidationError ''reserve amount must be positive''))
     (bnd (locked_wallet tenant) (\<lambda>wal.
      bnd (move_bucket wal B_AVAILABLE (- amount)) (\<lambda>(_, wal1).
      bnd (move_bucket wal1 B_RESERVED amount) (\<lambda>(_, wal2).
      ret wal2))))"

definition release_reservation :: "uuid \<Rightarrow> rat \<Rightarrow> wallet op" where
  "release_reservation tenant amount =
     thn (guard (\<not> amount \<le> 0) (DomainValidationError ''release amount must be positive''))
     (bnd (locked_wallet tenant) (\<lambda>wal.
      bnd (move_bucket wal B_RESERVED (- amount)) (\<lambda>(_, wal1).
      bnd (move_bucket wal1 B_AVAILABLE amount) (\<lambda>(_, wal2).
      ret wal2))))"

definition complete_disbursement ::
    "io \<Rightarrow> uuid \<Rightarrow> rat \<Rightarrow> string \<Rightarrow> uuid option \<Rightarrow> string option \<Rightarrow> ledger_entry op" where
  "complete_disbursement w tenant amount ref_type ref descr =
     thn (guard (\<not> amount \<le> 0) (DomainValidationError ''disbursement amount must be positive''))
     (bnd (locked_wallet tenant) (\<lambda>wal.
      bnd (move_bucket wal B_RESERVED (- amount)) (\<lambda>(_, wal1).
      bnd (move_bucket wal1 B_TOTAL_DISBURSED amount) (\<lambda>(new_total, wal2).
      create_entry w wal2 L_DISBURSEMENT D_CREDIT (Some B_TOTAL_DISBURSED) amount (Some new_total)
        (Some ref_type) ref descr None))))"

definition reverse_disbursement ::
    "io \<Rightarrow> uuid \<Rightarrow> rat \<Rightarrow> string \<Rightarrow> uuid option \<Rightarrow> string option \<Rightarrow> ledger_entry op" where
  "reverse_disbursement w tenant amount ref_type ref descr =
     thn (guard (\<not> amount \<le> 0) (DomainValidationError ''reversal amount must be positive''))
     (bnd (locked_wallet tenant) (\<lambda>wal.
      bnd (move_bucket wal B_TOTAL_DISBURSED (- amount)) (\<lambda>(_, wal1).
      bnd (move_bucket wal1 B_AVAILABLE amount) (\<lambda>(new_available, wal2).
      create_entry w wal2 L_DISBURSEMENT_REVERSAL D_CREDIT (Some B_AVAILABLE) amount
        (Some new_available) (Some ref_type) ref descr None))))"

definition record_refund ::
    "io \<Rightarrow> uuid \<Rightarrow> rat \<Rightarrow> string \<Rightarrow> uuid option \<Rightarrow> string option \<Rightarrow> ledger_entry op" where
  "record_refund w tenant amount ref_type ref descr =
     thn (guard (\<not> amount \<le> 0) (DomainValidationError ''refund amount must be positive''))
     (bnd (locked_wallet tenant) (\<lambda>wal.
      bnd (move_bucket wal B_AVAILABLE (- amount)) (\<lambda>(new_available, wal1).
      create_entry w wal1 L_REFUND D_DEBIT (Some B_AVAILABLE) amount (Some new_available)
        (Some ref_type) ref descr None)))"

definition record_reversal ::
    "io \<Rightarrow> uuid \<Rightarrow> rat \<Rightarrow> string \<Rightarrow> uuid option \<Rightarrow> string option \<Rightarrow> ledger_entry op" where
  "record_reversal w tenant amount ref_type ref descr =
     thn (guard (\<not> amount \<le> 0) (DomainValidationError ''reversal amount must be positive''))
     (bnd (locked_wallet tenant) (\<lambda>wal.
      bnd (move_bucket wal B_PENDING (- amount)) (\<lambda>(new_pending, wal1).
      create_entry w wal1 L_REVERSAL D_DEBIT (Some B_PENDING) amount (Some new_pending)
        (Some ref_type) ref descr None)))"

subsection \<open>Well-formed wallets and their balances\<close>

text \<open>
  \<open>balance b t s\<close> is the abstract view the other components need: what tenant \<open>t\<close> has in
  bucket \<open>b\<close>, nothing when it has no wallet yet.
\<close>

definition balance :: "wallet_bucket \<Rightarrow> uuid \<Rightarrow> db \<Rightarrow> rat" where
  "balance b t s = (case wallet_of t s of None \<Rightarrow> 0 | Some w \<Rightarrow> bucket b w)"

definition column_value :: "rat \<Rightarrow> bool" where
  "column_value x \<longleftrightarrow> 0 \<le> x \<and> x < 1000000000000 \<and> two_places x"

definition wallets_ok :: "db \<Rightarrow> bool" where
  "wallets_ok s \<longleftrightarrow>
     distinct (map wal_id (wallets s)) \<and> distinct (map wal_tenant (wallets s)) \<and>
     (\<forall>w \<in> set (wallets s). wal_id w < next_id s \<and> (\<forall>b. column_value (bucket b w)))"

text \<open>What no wallet operation touches.\<close>

definition wallet_frame :: "db \<Rightarrow> db \<Rightarrow> bool" where
  "wallet_frame s s' \<longleftrightarrow>
     (\<exists>ws es ls n. s' = s\<lparr>wallets := ws, ledger_entries := ledger_entries s @ es,
        settlement_logs := ls, next_id := next_id s + n\<rparr>)"

lemma wallet_frameI:
  "s' = s\<lparr>wallets := ws, ledger_entries := ledger_entries s @ es, settlement_logs := ls,
     next_id := next_id s + n\<rparr> \<Longrightarrow> wallet_frame s s'"
  by (auto simp: wallet_frame_def)

interpretation wallet_frame: stable_relation wallet_frame
proof
  show "wallet_frame s s" for s
    by (rule wallet_frameI [where ws = "wallets s" and es = "[]" and ls = "settlement_logs s"
      and n = 0]) simp
  show "wallet_frame s t \<Longrightarrow> wallet_frame t u \<Longrightarrow> wallet_frame s u" for s t u
    unfolding wallet_frame_def by (elim exE) (simp, metis append_assoc add.assoc)
qed

lemma wallet_of_Some: "wallet_of t s = Some w \<Longrightarrow> w \<in> set (wallets s) \<and> wal_tenant w = t"
  by (auto simp: wallet_of_def find_Some_iff)

lemma wallet_of_None: "wallet_of t s = None \<longleftrightarrow> t \<notin> wal_tenant ` set (wallets s)"
  by (auto simp: wallet_of_def find_None_iff)

lemma column_value_0 [simp]: "column_value 0"
  by (simp add: column_value_def)

lemma numeric_14_2_column: "numeric_14_2 x = Some y \<Longrightarrow> 0 \<le> x \<Longrightarrow> column_value y"
  by (auto simp: column_value_def numeric_14_2_def numeric_column_def Let_def round_nonneg
      split: if_splits)

lemma balance_column: "wallets_ok s \<Longrightarrow> column_value (balance b t s)"
  by (auto simp: balance_def wallets_ok_def dest!: wallet_of_Some split: option.splits)

lemma balance_bounds:
  assumes "wallets_ok s"
  shows "0 \<le> balance b t s" "balance b t s < 1000000000000" "two_places (balance b t s)"
  using balance_column [OF assms, of b t] by (simp_all add: column_value_def)

lemma balance_cong: "wallets s' = wallets s \<Longrightarrow> balance b t s' = balance b t s"
  by (simp add: balance_def wallet_of_def)

lemma wallets_ok_cong: "wallets s' = wallets s \<Longrightarrow> next_id s \<le> next_id s' \<Longrightarrow> wallets_ok s \<Longrightarrow> wallets_ok s'"
  by (fastforce simp: wallets_ok_def)

subsection \<open>Locking the wallet\<close>

text \<open>The row every operation works on, and the state in which it exists.\<close>

definition wallet_row :: "uuid \<Rightarrow> db \<Rightarrow> wallet" where
  "wallet_row t s = (case wallet_of t s of None \<Rightarrow> new_wallet (next_id s) t | Some w \<Rightarrow> w)"

definition with_wallet :: "uuid \<Rightarrow> db \<Rightarrow> db" where
  "with_wallet t s =
     (case wallet_of t s of
        None \<Rightarrow> s\<lparr>wallets := wallets s @ [new_wallet (next_id s) t], next_id := next_id s + 1\<rparr>
      | Some w \<Rightarrow> s)"

lemma new_wallet_simps [simp]:
  "wal_id (new_wallet i t) = i" "wal_tenant (new_wallet i t) = t" "bucket b (new_wallet i t) = 0"
  by (cases b; simp add: new_wallet_def)+

lemma get_or_create_wallet_run [simp]:
  "get_or_create_wallet t s = (Inr (wallet_row t s), with_wallet t s)"
  by (simp add: get_or_create_wallet_def wallet_row_def with_wallet_def comp_defs fresh_def
      split: option.splits)

lemma wallet_of_with_wallet: "wallet_of t' (with_wallet t s) =
    (if t' = t then Some (wallet_row t s) else wallet_of t' s)"
  by (auto simp: wallet_row_def with_wallet_def wallet_of_def find_append split: option.splits)

lemma balance_with_wallet [simp]: "balance b t' (with_wallet t s) = balance b t' s"
  by (simp add: balance_def wallet_of_with_wallet wallet_row_def split: option.splits)

lemma balance_row: "balance b t s = bucket b (wallet_row t s)"
  by (simp add: balance_def wallet_row_def split: option.splits)

lemma with_wallet_ok: "wallets_ok s \<Longrightarrow> wallets_ok (with_wallet t s)"
  by (fastforce simp: wallets_ok_def with_wallet_def wallet_of_None split: option.splits)

lemma with_wallet_frame: "wallet_frame s (with_wallet t s)"
proof (cases "wallet_of t s")
  case None
  then show ?thesis
    by (intro wallet_frameI [where ws = "wallets s @ [new_wallet (next_id s) t]" and es = "[]"
          and ls = "settlement_logs s" and n = 1]) (simp add: with_wallet_def)
qed (simp add: with_wallet_def)

lemma wallet_row_tenant [simp]: "wal_tenant (wallet_row t s) = t"
  by (auto simp: wallet_row_def dest: wallet_of_Some split: option.splits)

lemma locked_wallet_run:
  assumes "wallets_ok s"
  shows "locked_wallet t s = (Inr (wallet_row t s), with_wallet t s)"
proof -
  have "wallet_row t s \<in> set (wallets (with_wallet t s))"
    using wallet_of_with_wallet [of t t s] by (auto dest: wallet_of_Some)
  moreover have "distinct (map wal_id (wallets (with_wallet t s)))"
    using with_wallet_ok [OF assms] by (simp add: wallets_ok_def)
  ultimately have "get_by_id wal_id wal_tenant (Some t) (wal_id (wallet_row t s))
      (wallets (with_wallet t s)) = Some (wallet_row t s)"
    by (simp add: get_by_id_def row_find_distinct)
  then show ?thesis
    by (simp add: locked_wallet_def comp_defs)
qed

lemma locked_wallet_frame: "keeps wallet_frame (locked_wallet t)"
  unfolding locked_wallet_def
  by (intro wallet_frame.keeps_rules keepsI) (auto simp: with_wallet_frame)

subsection \<open>One move\<close>

lemma move_bucket_Inr [run_simps]:
  "move_bucket w b d s = (Inr (v, w'), s') \<longleftrightarrow>
     v = bucket b w + d \<and> 0 \<le> v \<and>
     (\<exists>stored. numeric_14_2 v = Some stored \<and> w' = set_bucket b stored w \<and> s' = put_wallet w' s)"
  by (auto simp: move_bucket_def Let_def run_simps)

lemma move_bucket_frame: "keeps wallet_frame (move_bucket w b d)"
proof -
  have put: "wallet_frame s (put_wallet x s)" for x s
    by (rule wallet_frameI [where ws = "row_put wal_id x (wallets s)" and es = "[]"
          and ls = "settlement_logs s" and n = 0]) (simp add: put_wallet_def)
  show ?thesis
    unfolding move_bucket_def Let_def store_def
    by (intro wallet_frame.keeps_rules wallet_frame.keeps_modify put)
qed

lemma fresh_frame: "keeps wallet_frame fresh"
proof (rule keepsI)
  fix s s' and r :: "err + uuid"
  assume "fresh s = (r, s')"
  then show "wallet_frame s s'"
    by (intro wallet_frameI [where ws = "wallets s" and es = "[]"
          and ls = "settlement_logs s" and n = 1]) simp
qed

lemma create_entry_frame: "keeps wallet_frame (create_entry w wal ty dir b a ba rt r d ac)"
proof -
  have entry: "wallet_frame s (s\<lparr>ledger_entries := ledger_entries s @ [e]\<rparr>)" for e s
    by (rule wallet_frameI [where ws = "wallets s" and es = "[e]"
          and ls = "settlement_logs s" and n = 0]) simp
  from fresh_frame show ?thesis
    unfolding create_entry_def Let_def store_def store_option_def
    by (cases ba) (auto intro!: wallet_frame.keeps_rules wallet_frame.keeps_modify entry)
qed

text \<open>
  \<open>wallet_state t w s\<close>: in state \<open>s\<close> the wallets are well formed and \<open>w\<close> is the current row of
  tenant \<open>t\<close>. Every operation runs through such states.
\<close>

definition wallet_state :: "uuid \<Rightarrow> wallet \<Rightarrow> db \<Rightarrow> bool" where
  "wallet_state t w s \<longleftrightarrow> wallets_ok s \<and> wallet_of t s = Some w"

lemma put_wallet_state:
  assumes st: "wallet_state t w s" and keys: "wal_id w' = wal_id w" "wal_tenant w' = wal_tenant w"
    and good: "\<forall>b. column_value (bucket b w')"
  shows "wallet_state t w' (put_wallet w' s)"
    and "t' \<noteq> t \<Longrightarrow> wallet_of t' (put_wallet w' s) = wallet_of t' s"
proof -
  have ok: "wallets_ok s" and w: "w \<in> set (wallets s)" "wal_tenant w = t"
    and found: "find (\<lambda>w. wal_tenant w = t) (wallets s) = Some w"
    using st wallet_of_Some [of t s w] by (auto simp: wallet_state_def wallet_of_def)
  have same: "wal_id x = wal_id w' \<longleftrightarrow> wal_tenant x = t" if "x \<in> set (wallets s)" for x
    using that w ok keys by (metis (no_types, lifting) distinct_map inj_onD wallets_ok_def)
  have put: "row_put wal_id w' (wallets s) = row_put wal_tenant w' (wallets s)"
    using same w keys by (auto simp: row_put_def)
  have "wallets_ok (put_wallet w' s)"
    unfolding wallets_ok_def
  proof (intro conjI)
    show "distinct (map wal_id (wallets (put_wallet w' s)))"
      using ok by (simp add: put_wallet_def wallets_ok_def)
    show "distinct (map wal_tenant (wallets (put_wallet w' s)))"
      using ok put by (simp add: put_wallet_def wallets_ok_def)
    show "\<forall>x\<in>set (wallets (put_wallet w' s)). wal_id x < next_id (put_wallet w' s) \<and>
        (\<forall>b. column_value (bucket b x))"
      using ok w good keys by (auto simp: put_wallet_def wallets_ok_def dest!: row_put_set)
  qed
  moreover have "wallet_of t (put_wallet w' s) = Some w'"
    using row_find_put_same [of wal_tenant w' "wallets s" w] found w keys put
    by (simp add: wallet_of_def put_wallet_def row_find_def)
  ultimately show "wallet_state t w' (put_wallet w' s)" by (simp add: wallet_state_def)
  show "wallet_of t' (put_wallet w' s) = wallet_of t' s" if "t' \<noteq> t"
    using row_find_put_other [of t' wal_tenant w' "wallets s"] that w keys put
    by (simp add: wallet_of_def put_wallet_def row_find_def)
qed

lemma move_bucket_state:
  assumes st: "wallet_state t w s" and run: "move_bucket w b d s = (Inr (v, w'), s')"
  shows "wallet_state t w' s'" and "t' \<noteq> t \<Longrightarrow> wallet_of t' s' = wallet_of t' s"
    and "v = bucket b w + d" and "0 \<le> v"
    and "two_places d \<Longrightarrow> w' = set_bucket b v w"
proof -
  from run obtain stored where v: "v = bucket b w + d" "0 \<le> v" "numeric_14_2 v = Some stored"
    and w': "w' = set_bucket b stored w" and s': "s' = put_wallet w' s"
    by (auto simp: run_simps)
  from st have w: "\<forall>b. column_value (bucket b w)"
    by (auto simp: wallet_state_def wallets_ok_def dest!: wallet_of_Some)
  moreover have "column_value stored"
    using v numeric_14_2_column by blast
  ultimately have "\<forall>b. column_value (bucket b w')" by (simp add: w')
  note put = put_wallet_state [OF st _ _ this, folded s']
  show "wallet_state t w' s'" by (rule put(1)) (simp_all add: w')
  show "t' \<noteq> t \<Longrightarrow> wallet_of t' s' = wallet_of t' s" by (rule put(2)) (simp_all add: w')
  show "v = bucket b w + d" "0 \<le> v" by (fact v)+
  show "two_places d \<Longrightarrow> w' = set_bucket b v w"
    using w v numeric_14_2_exact [of v stored] by (simp add: w' column_value_def)
qed

lemma move_bucket_succeeds:
  assumes "wallet_state t w s" "two_places d" "0 \<le> bucket b w + d" "bucket b w + d < 1000000000000"
  shows "\<exists>s'. move_bucket w b d s = (Inr (bucket b w + d, set_bucket b (bucket b w + d) w), s')"
proof -
  from assms(1) have "two_places (bucket b w)"
    by (auto simp: wallet_state_def wallets_ok_def column_value_def dest!: wallet_of_Some)
  with assms have "numeric_14_2 (bucket b w + d) = Some (bucket b w + d)"
    by (simp add: numeric_14_2_def numeric_column_def)
  with assms show ?thesis by (simp add: run_simps)
qed

text \<open>A ledger entry is appended as given, its amounts as the columns hold them.\<close>

lemma create_entry_Inr:
  "create_entry w wal ty dir b a ba rt rf d ac s = (Inr e, s') \<longleftrightarrow>
     (\<exists>a' ba'. numeric_14_2 a = Some a' \<and>
        (case ba of None \<Rightarrow> ba' = None | Some x \<Rightarrow> ba' \<noteq> None \<and> numeric_14_2 x = ba') \<and>
        e = \<lparr>le_id = next_id s, le_tenant = wal_tenant wal, le_wallet = wal_id wal, le_type = ty,
           le_direction = dir, le_bucket = b, le_amount = a', le_balance_after = ba',
           le_reference_type = rt, le_reference = rf, le_description = d,
           le_actor = ac, le_created_at = now w\<rparr> \<and>
        s' = s\<lparr>next_id := next_id s + 1, ledger_entries := ledger_entries s @ [e]\<rparr>)"
  by (cases ba) (auto simp: create_entry_def Let_def run_simps store_option_def)

lemma create_entry_state:
  "create_entry w wal ty dir b a ba rt rf d ac s = (Inr e, s') \<Longrightarrow> wallet_state t x s \<Longrightarrow>
     wallet_state t x s' \<and> wallets s' = wallets s"
  by (auto simp: create_entry_Inr wallet_state_def wallet_of_def
      intro: wallets_ok_cong [of _ s] split: option.splits)

lemma create_entry_exact:
  assumes "create_entry w wal ty dir b a ba rt rf d ac s = (Inr e, s')"
  shows "two_places a \<Longrightarrow> le_amount e = a"
    and "ba = Some v \<Longrightarrow> two_places v \<Longrightarrow> le_balance_after e = Some v"
  using assms by (auto simp: create_entry_Inr dest: numeric_14_2_exact)

subsection \<open>Two moves: a transfer between buckets\<close>

definition transfer :: "uuid \<Rightarrow> wallet_bucket \<Rightarrow> wallet_bucket \<Rightarrow> rat \<Rightarrow> (rat \<times> wallet) op" where
  "transfer t src dst a =
     bnd (locked_wallet t) (\<lambda>wal.
     bnd (move_bucket wal src (- a)) (\<lambda>(_, wal1). move_bucket wal1 dst a))"

text \<open>The abstract effect: \<open>a\<close> leaves \<open>src\<close> and arrives in \<open>dst\<close>; no other balance moves.\<close>

definition moved :: "wallet_bucket \<Rightarrow> wallet_bucket \<Rightarrow> uuid \<Rightarrow> rat \<Rightarrow> db \<Rightarrow> db \<Rightarrow> bool" where
  "moved src dst t a s s' \<longleftrightarrow>
     a \<le> balance src t s \<and>
     (\<forall>b t'. balance b t' s' = balance b t' s - (if t' = t \<and> b = src then a else 0)
        + (if t' = t \<and> b = dst then a else 0))"

lemma with_wallet_state: "wallets_ok s \<Longrightarrow> wallet_state t (wallet_row t s) (with_wallet t s)"
  by (simp add: wallet_state_def with_wallet_ok wallet_of_with_wallet)

lemma transfer_state:
  assumes ok: "wallets_ok s" and run: "transfer t src dst a s = (Inr (v, w'), s')"
  shows "wallet_state t w' s'"
    and "two_places a \<Longrightarrow> src \<noteq> dst \<Longrightarrow> moved src dst t a s s' \<and> v = balance dst t s'"
proof -
  let ?w = "wallet_row t s"
  note st0 = with_wallet_state [OF ok, of t]
  from run locked_wallet_run [OF ok, of t] obtain v1 w1 s1
    where m1: "move_bucket ?w src (- a) (with_wallet t s) = (Inr (v1, w1), s1)"
      and m2: "move_bucket w1 dst a s1 = (Inr (v, w'), s')"
    by (auto simp: transfer_def run_simps)
  note step1 = move_bucket_state [OF st0 m1]
  note step2 = move_bucket_state [OF step1(1) m2]
  show "wallet_state t w' s'" by (rule step2(1))
  assume a: "two_places a" "src \<noteq> dst"
  have w1: "w1 = set_bucket src (bucket src ?w - a) ?w"
    using step1(3,5) a by simp
  have w': "w' = set_bucket dst (bucket dst ?w + a) w1"
    using step2(3,5) a by (simp add: w1)
  have "balance b t' s' = balance b t' s - (if t' = t \<and> b = src then a else 0)
      + (if t' = t \<and> b = dst then a else 0)" for b t'
  proof (cases "t' = t")
    case True
    have "balance b t s' = bucket b w'"
      using step2(1) by (simp add: wallet_state_def balance_def)
    then show ?thesis using True a by (simp add: w' w1 balance_row)
  next
    case False
    then have "wallet_of t' s' = wallet_of t' (with_wallet t s)"
      using step1(2) step2(2) by simp
    then have "balance b t' s' = balance b t' (with_wallet t s)"
      by (simp only: balance_def)
    with False show ?thesis by simp
  qed
  moreover have "a \<le> balance src t s" using step1(3,4) by (simp add: balance_row)
  moreover have "v = balance dst t s'"
    using step2(1,3) a by (simp add: wallet_state_def balance_def w' w1)
  ultimately show "moved src dst t a s s' \<and> v = balance dst t s'" by (simp add: moved_def)
qed

lemma transfer_succeeds:
  assumes ok: "wallets_ok s" and a: "two_places a" "src \<noteq> dst" "0 \<le> a" "a \<le> balance src t s"
    and room: "balance dst t s + a < 1000000000000"
  shows "\<exists>v w' s'. transfer t src dst a s = (Inr (v, w'), s')"
proof -
  let ?w = "wallet_row t s"
  note st0 = with_wallet_state [OF ok, of t]
  obtain s1 where m1: "move_bucket ?w src (- a) (with_wallet t s) =
      (Inr (bucket src ?w - a, set_bucket src (bucket src ?w - a) ?w), s1)"
    using move_bucket_succeeds [OF st0, of "- a" src] a balance_bounds [OF ok, of src t]
    by (auto simp: balance_row)
  have "0 \<le> bucket dst ?w" using balance_bounds [OF ok, of dst t] by (simp add: balance_row)
  then obtain s2 where "move_bucket (set_bucket src (bucket src ?w - a) ?w) dst a s1 =
      (Inr (bucket dst ?w + a, set_bucket dst (bucket dst ?w + a) (set_bucket src (bucket src ?w - a) ?w)), s2)"
    using move_bucket_succeeds [OF move_bucket_state(1) [OF st0 m1], of a dst] a room
    by (auto simp: balance_row)
  with m1 locked_wallet_run [OF ok, of t] show ?thesis
    by (simp add: transfer_def)
qed

lemma transfer_frame: "keeps wallet_frame (transfer t src dst a)"
  unfolding transfer_def
  by (auto intro!: wallet_frame.keeps_rules locked_wallet_frame move_bucket_frame
      split: prod.splits)

subsection \<open>The contract of a transfer operation\<close>

locale bucket_transfer =
  fixes run :: "uuid \<Rightarrow> rat \<Rightarrow> 'a op" and src dst :: wallet_bucket
  assumes distinct: "src \<noteq> dst"
    and run_frame: "keeps wallet_frame (run t a)"
    and run_ok: "wallets_ok s \<Longrightarrow> run t a s = (Inr x, s') \<Longrightarrow> wallets_ok s' \<and> 0 < a"
    and run_moved: "wallets_ok s \<Longrightarrow> run t a s = (Inr x, s') \<Longrightarrow> two_places a \<Longrightarrow> moved src dst t a s s'"
    and run_succeeds: "wallets_ok s \<Longrightarrow> two_places a \<Longrightarrow> 0 < a \<Longrightarrow> a \<le> balance src t s \<Longrightarrow>
      balance dst t s + a < 1000000000000 \<Longrightarrow>
      \<exists>x s'. run t a s = (Inr x, s')"
begin

lemma balances:
  assumes "wallets_ok s" "two_places a" "run t a s = (Inr x, s')"
  shows "balance src t s' = balance src t s - a" "balance dst t s' = balance dst t s + a"
    and "b \<noteq> src \<Longrightarrow> b \<noteq> dst \<Longrightarrow> balance b t s' = balance b t s"
    and "t' \<noteq> t \<Longrightarrow> balance b t' s' = balance b t' s"
  using run_moved [OF assms(1,3,2)] distinct by (auto simp: moved_def)

lemma covered:
  assumes "wallets_ok s" "two_places a" "run t a s = (Inr x, s')"
  shows "0 < a" "a \<le> balance src t s"
  using run_moved [OF assms(1,3,2)] run_ok [OF assms(1,3)] by (auto simp: moved_def)

text \<open>What is moved is neither created nor lost.\<close>

lemma conserved:
  assumes "wallets_ok s" "two_places a" "run t a s = (Inr x, s')"
  shows "(\<Sum>b \<leftarrow> [B_AVAILABLE, B_PENDING, B_RESERVED, B_FROZEN, B_TOTAL_DISBURSED]. balance b t' s') =
    (\<Sum>b \<leftarrow> [B_AVAILABLE, B_PENDING, B_RESERVED, B_FROZEN, B_TOTAL_DISBURSED]. balance b t' s)"
  using run_moved [OF assms(1,3,2)] distinct by (cases src; cases dst) (simp_all add: moved_def)

end

text \<open>An operation that is a positive transfer followed by bookkeeping meets the contract.\<close>

lemma bucket_transferI:
  fixes run :: "uuid \<Rightarrow> rat \<Rightarrow> 'a op"
  assumes shape: "\<And>t a s x s'. wallets_ok s \<Longrightarrow> run t a s = (Inr x, s') \<longleftrightarrow>
      0 < a \<and> (\<exists>v w u. transfer t src dst a s = (Inr (v, w), u) \<and> k t a v w u = (Inr x, s'))"
    and books: "\<And>t a v w u x s'. k t a v w u = (Inr x, s') \<Longrightarrow>
      wallets s' = wallets u \<and> next_id u \<le> next_id s'"
    and books_run: "\<And>t a v w u. two_places a \<Longrightarrow> two_places v \<Longrightarrow> 0 < a \<Longrightarrow> a < 1000000000000 \<Longrightarrow>
      0 \<le> v \<Longrightarrow> v < 1000000000000 \<Longrightarrow> \<exists>x s'. k t a v w u = (Inr x, s')"
    and frame: "\<And>t a. keeps wallet_frame (run t a)"
    and distinct: "src \<noteq> dst"
  shows "bucket_transfer run src dst"
proof
  show "src \<noteq> dst" by (fact distinct)
  show "keeps wallet_frame (run t a)" for t a by (fact frame)
next
  fix t a s x s' assume ok: "wallets_ok s" and run: "run t a s = (Inr x, s')"
  from run shape [OF ok] obtain v w u where a: "0 < a"
    and tr: "transfer t src dst a s = (Inr (v, w), u)" and k: "k t a v w u = (Inr x, s')"
    by blast
  from tr have "wallets_ok u" using transfer_state(1) [OF ok tr] by (simp add: wallet_state_def)
  then show "wallets_ok s' \<and> 0 < a" using a books [OF k] wallets_ok_cong by blast
  assume "two_places a"
  then show "moved src dst t a s s'"
    using transfer_state(2) [OF ok tr] distinct books [OF k]
    by (simp add: moved_def balance_cong [of s' u])
next
  fix t a s assume ok: "wallets_ok s" and a: "two_places a" "0 < a" "a \<le> balance src t s"
    and room: "balance dst t s + a < 1000000000000"
  then obtain v w u where tr: "transfer t src dst a s = (Inr (v, w), u)"
    using transfer_succeeds [of s a src dst t] distinct by auto
  note eff = transfer_state(2) [OF ok tr a(1) distinct]
  have "v = balance dst t s + a" using eff distinct by (simp add: moved_def)
  moreover note balance_bounds [OF ok, of dst t] balance_bounds [OF ok, of src t]
  ultimately obtain x s' where "k t a v w u = (Inr x, s')"
    using books_run [of a v t w u] a room by fastforce
  then show "\<exists>x s'. run t a s = (Inr x, s')" using shape [OF ok] a tr by blast
qed

lemma transfer_bnd:
  "bnd (locked_wallet t) (\<lambda>wal. bnd (move_bucket wal src (- a)) (\<lambda>(z, w1).
     bnd (move_bucket w1 dst a) (\<lambda>(v, w2). k v w2))) =
   bnd (transfer t src dst a) (\<lambda>(v, w2). k v w2)"
  by (auto simp: transfer_def bnd_def fun_eq_iff split: prod.splits sum.splits)

lemma create_entry_books:
  "create_entry w wal ty dir b a ba rt rf d ac u = (Inr e, s') \<Longrightarrow>
     wallets s' = wallets u \<and> next_id u \<le> next_id s'"
  by (auto simp: create_entry_Inr)

lemma create_entry_succeeds:
  assumes "two_places a" "\<bar>a\<bar> < 1000000000000" "two_places v" "\<bar>v\<bar> < 1000000000000"
  shows "\<exists>e s'. create_entry w wal ty dir b a (Some v) rt rf d ac u = (Inr e, s')"
  using assms by (auto simp: create_entry_Inr numeric_14_2_def numeric_column_def)

lemmas transfer_frames = wallet_frame.keeps_rules transfer_frame create_entry_frame
  locked_wallet_frame move_bucket_frame

interpretation reserve: bucket_transfer reserve_for_withdrawal B_AVAILABLE B_RESERVED
  by (rule bucket_transferI [where k = "\<lambda>_ _ _ w. ret w"])
    (auto simp: reserve_for_withdrawal_def transfer_bnd run_simps
      intro!: transfer_frames split: prod.splits)

interpretation release: bucket_transfer release_reservation B_RESERVED B_AVAILABLE
  by (rule bucket_transferI [where k = "\<lambda>_ _ _ w. ret w"])
    (auto simp: release_reservation_def transfer_bnd run_simps
      intro!: transfer_frames split: prod.splits)

interpretation disburse: bucket_transfer
  "\<lambda>t a. complete_disbursement w t a rt rf d" B_RESERVED B_TOTAL_DISBURSED
  by (rule bucket_transferI [where k = "\<lambda>t a v wal. create_entry w wal L_DISBURSEMENT D_CREDIT
        (Some B_TOTAL_DISBURSED) a (Some v) (Some rt) rf d None"])
    (auto simp: complete_disbursement_def transfer_bnd run_simps dest: create_entry_books
      intro!: transfer_frames create_entry_succeeds split: prod.splits)

interpretation undisburse: bucket_transfer
  "\<lambda>t a. reverse_disbursement w t a rt rf d" B_TOTAL_DISBURSED B_AVAILABLE
  by (rule bucket_transferI [where k = "\<lambda>t a v wal. create_entry w wal L_DISBURSEMENT_REVERSAL
        D_CREDIT (Some B_AVAILABLE) a (Some v) (Some rt) rf d None"])
    (auto simp: reverse_disbursement_def transfer_bnd run_simps dest: create_entry_books
      intro!: transfer_frames create_entry_succeeds split: prod.splits)

text \<open>
  \<open>settle_pending\<close> checks the amount after it has locked the wallet; the wallet is the same row
  either way.
\<close>

definition settlement_row :: "uuid \<Rightarrow> string \<Rightarrow> rat \<Rightarrow> settlement_log op" where
  "settlement_row t batch a =
     bnd (store a) (\<lambda>stored. bnd fresh (\<lambda>i.
     let row = \<lparr>sl_id = i, sl_tenant = t, sl_batch_reference = batch, sl_transaction_count = 1,
           sl_gross = stored, sl_fee = 0, sl_net = stored, sl_status = ''settled''\<rparr>
     in thn (modify (\<lambda>s. s\<lparr>settlement_logs := settlement_logs s @ [row]\<rparr>)) (ret row)))"

lemma settlement_row_Inr:
  "settlement_row t batch a s = (Inr r, s') \<longleftrightarrow>
     (\<exists>stored. numeric_14_2 a = Some stored \<and>
        r = \<lparr>sl_id = next_id s, sl_tenant = t, sl_batch_reference = batch, sl_transaction_count = 1,
           sl_gross = stored, sl_fee = 0, sl_net = stored, sl_status = ''settled''\<rparr> \<and>
        s' = s\<lparr>next_id := next_id s + 1, settlement_logs := settlement_logs s @ [r]\<rparr>)"
  by (auto simp: settlement_row_def Let_def run_simps)

lemma settle_pending_shape:
  assumes ok: "wallets_ok s"
  shows "settle_pending t amount batch s = (Inr r, s') \<longleftrightarrow>
    (\<exists>a. a = (case amount of None \<Rightarrow> balance B_PENDING t s | Some x \<Rightarrow> x) \<and> 0 < a \<and>
       (\<exists>v w u. transfer t B_PENDING B_AVAILABLE a s = (Inr (v, w), u) \<and>
          settlement_row t batch a u = (Inr r, s')))"
  using locked_wallet_run [OF ok, of t]
  by (cases amount) (auto simp: settle_pending_def transfer_def settlement_row_def run_simps
      balance_row Let_def not_less not_le)

lemma settlement_row_frame: "keeps wallet_frame (settlement_row t batch a)"
proof -
  have row: "wallet_frame s (s\<lparr>settlement_logs := settlement_logs s @ [r]\<rparr>)" for r s
    by (rule wallet_frameI [where ws = "wallets s" and es = "[]"
          and ls = "settlement_logs s @ [r]" and n = 0]) simp
  from fresh_frame show ?thesis
    unfolding settlement_row_def Let_def store_def
    by (auto intro!: wallet_frame.keeps_rules wallet_frame.keeps_modify row)
qed

lemma settle_pending_frame: "keeps wallet_frame (settle_pending t amount batch)"
proof -
  have "settle_pending t amount batch =
      bnd (locked_wallet t) (\<lambda>wal.
        let a = (case amount of None \<Rightarrow> pending_balance_tzs wal | Some x \<Rightarrow> x) in
        thn (guard (\<not> a \<le> 0) (DomainValidationError ''settle_pending amount must be positive''))
        (thn (guard (\<not> a > pending_balance_tzs wal)
               (DomainValidationError ''Cannot settle more than the current pending balance''))
        (bnd (move_bucket wal B_PENDING (- a)) (\<lambda>(_, wal1).
         bnd (move_bucket wal1 B_AVAILABLE a) (\<lambda>(_, wal2). settlement_row t batch a)))))"
    by (simp add: settle_pending_def settlement_row_def Let_def)
  then show ?thesis
    by (auto simp: Let_def intro!: transfer_frames settlement_row_frame split: prod.splits)
qed

interpretation settle: bucket_transfer
  "\<lambda>t a. settle_pending t (Some a) batch" B_PENDING B_AVAILABLE
  by (rule bucket_transferI [where k = "\<lambda>t a v wal. settlement_row t batch a"])
    (auto simp: settle_pending_shape settlement_row_Inr settle_pending_frame
      numeric_14_2_def numeric_column_def)

subsection \<open>Operations that undo each other\<close>

locale inverse_transfers =
  fwd: bucket_transfer fwd src dst + bwd: bucket_transfer bwd dst src
  for fwd :: "uuid \<Rightarrow> rat \<Rightarrow> 'a op" and bwd :: "uuid \<Rightarrow> rat \<Rightarrow> 'b op" and src dst
begin

lemma round_trip:
  assumes ok: "wallets_ok s" and a: "two_places a" and run: "fwd t a s = (Inr x, s')"
  shows "\<exists>y s''. bwd t a s' = (Inr y, s'') \<and> (\<forall>b t'. balance b t' s'' = balance b t' s)"
proof -
  note eff = fwd.balances [OF ok a run]
  have ok': "wallets_ok s'" using fwd.run_ok [OF ok run] by simp
  have "a \<le> balance dst t s'"
    using eff balance_bounds [OF ok, of dst t] by simp
  moreover have "balance src t s' + a < 1000000000000"
    using eff balance_bounds [OF ok, of src t] by simp
  ultimately obtain y s'' where bwd: "bwd t a s' = (Inr y, s'')"
    using bwd.run_succeeds [OF ok' a, of t] fwd.covered [OF ok a run] by blast
  have "balance b t' s'' = balance b t' s" for b t'
    using fwd.run_moved [OF ok run a] bwd.run_moved [OF ok' bwd a]
    by (simp add: moved_def)
  with bwd show ?thesis by blast
qed

end

interpretation hold: inverse_transfers
  reserve_for_withdrawal release_reservation B_AVAILABLE B_RESERVED
  by unfold_locales

subsection \<open>One move, and the entry that records it\<close>

lemma single_move:
  assumes ok: "wallets_ok s" and run: "move_bucket (wallet_row t s) b d (with_wallet t s) = (Inr (v, w'), s')"
  shows "wallet_state t w' s'" "v = balance b t s + d" "0 \<le> v"
    and "two_places d \<Longrightarrow>
      balance b' t' s' = balance b' t' s + (if t' = t \<and> b' = b then d else 0)"
proof -
  note step = move_bucket_state [OF with_wallet_state [OF ok] run]
  show "wallet_state t w' s'" "v = balance b t s + d" "0 \<le> v"
    using step by (simp_all add: balance_row)
  assume d: "two_places d"
  show "balance b' t' s' = balance b' t' s + (if t' = t \<and> b' = b then d else 0)"
  proof (cases "t' = t")
    case True
    have "balance b' t s' = bucket b' w'"
      using step(1) by (simp add: wallet_state_def balance_def)
    with True step d show ?thesis by (simp add: balance_row [of _ t s])
  next
    case False
    then have "balance b' t' s' = balance b' t' (with_wallet t s)"
      using step(2) [of t'] by (simp add: balance_def)
    with False show ?thesis by simp
  qed
qed

lemma adjust_shapes:
  assumes ok: "wallets_ok s"
  shows "create_adjustment w t b dir a reason actor rt rf s = (Inr e, s') \<longleftrightarrow>
      0 < a \<and> strip reason \<noteq> [] \<and> (\<exists>v w' u.
        move_bucket (wallet_row t s) b (if dir = D_CREDIT then a else - a) (with_wallet t s)
          = (Inr (v, w'), u) \<and>
        create_entry w w' L_ADJUSTMENT dir (Some b) a (Some v) rt rf (Some reason) (Some actor) u
          = (Inr e, s'))"
    and "record_refund w t a rt2 rf d s = (Inr e, s') \<longleftrightarrow>
      0 < a \<and> (\<exists>v w' u.
        move_bucket (wallet_row t s) B_AVAILABLE (- a) (with_wallet t s) = (Inr (v, w'), u) \<and>
        create_entry w w' L_REFUND D_DEBIT (Some B_AVAILABLE) a (Some v) (Some rt2) rf d None u
          = (Inr e, s'))"
    and "record_reversal w t a rt2 rf d s = (Inr e, s') \<longleftrightarrow>
      0 < a \<and> (\<exists>v w' u.
        move_bucket (wallet_row t s) B_PENDING (- a) (with_wallet t s) = (Inr (v, w'), u) \<and>
        create_entry w w' L_REVERSAL D_DEBIT (Some B_PENDING) a (Some v) (Some rt2) rf d None u
          = (Inr e, s'))"
  using locked_wallet_run [OF ok, of t]
  by (auto simp: create_adjustment_def record_refund_def record_reversal_def run_simps Let_def
      not_le strip_def lstrip_def rstrip_def)

text \<open>
  The entry of a one-bucket operation states the balance it leads to. The column of the entry
  holds the rounded value, which is the value itself for amounts of two places.
\<close>

lemma single_move_entry:
  assumes ok: "wallets_ok s"
    and run: "move_bucket (wallet_row t s) b d (with_wallet t s) = (Inr (v, w'), u)"
    and entry: "create_entry w w' ty dir (Some b) a (Some v) rt rf descr ac u = (Inr e, s')"
  shows "wallets_ok s'" "\<exists>es. ledger_entries s' = ledger_entries s @ [e] \<and> es = [e]"
    and "two_places d \<Longrightarrow> le_balance_after e = Some (balance b t s')"
    and "two_places d \<Longrightarrow> balance b' t' s' = balance b' t' s + (if t' = t \<and> b' = b then d else 0)"
    and "0 \<le> balance b t s + d" "le_tenant e = t" "le_bucket e = Some b"
    and "two_places a \<Longrightarrow> le_amount e = a"
proof -
  note step = single_move [OF ok run]
  from create_entry_state [OF entry step(1)]
  have same: "wallets s' = wallets u" and "wallets_ok s'" by (simp_all add: wallet_state_def)
  then show "wallets_ok s'" by simp
  have "ledger_entries u = ledger_entries s"
    using run by (auto simp: run_simps put_wallet_def with_wallet_def split: option.splits)
  then show "\<exists>es. ledger_entries s' = ledger_entries s @ [e] \<and> es = [e]"
    using entry by (auto simp: create_entry_Inr)
  have bal: "balance b' t' s' = balance b' t' u" for b' t'
    by (rule balance_cong) (fact same)
  show "two_places d \<Longrightarrow> balance b' t' s' = balance b' t' s + (if t' = t \<and> b' = b then d else 0)"
    using step(4) by (simp add: bal)
  show "0 \<le> balance b t s + d" using step by simp
  show "two_places d \<Longrightarrow> le_balance_after e = Some (balance b t s')"
    using step(2) step(4) [of b t] balance_bounds(3) [OF ok, of b t] entry
      numeric_14_2_exact [of v] by (auto simp: create_entry_Inr bal)
  show "le_tenant e = t" "le_bucket e = Some b"
    using entry run by (auto simp: create_entry_Inr run_simps)
  show "two_places a \<Longrightarrow> le_amount e = a"
    using entry numeric_14_2_exact [of a] by (auto simp: create_entry_Inr)
qed

lemma single_move_frames:
  "keeps wallet_frame (create_adjustment w t b dir a reason actor rt rf)"
  "keeps wallet_frame (record_refund w t a rt2 rf d)"
  "keeps wallet_frame (record_reversal w t a rt2 rf d)"
  unfolding create_adjustment_def record_refund_def record_reversal_def Let_def
  by (auto intro!: transfer_frames split: prod.splits)

subsection \<open>Collections\<close>

lemma process_collection_shape:
  assumes ok: "wallets_ok s"
  shows "process_collection w t gross rt rf d s = (Inr r, s') \<longleftrightarrow>
    0 < gross \<and> (\<exists>terms v w' u e1 e2 e3 u1 u2.
      get_active_terms t s = Some terms \<and>
      move_bucket (wallet_row t s) B_PENDING
        (gross - percent_fee gross (commission_rate_percent terms)) (with_wallet t s)
        = (Inr (v, w'), u) \<and>
      create_entry w w' L_COLLECTION D_CREDIT None gross None (Some rt) rf d None u = (Inr e1, u1) \<and>
      create_entry w w' L_PLATFORM_FEE D_DEBIT None
        (percent_fee gross (commission_rate_percent terms)) None (Some rt) rf
        (Some ''Platform commission'') None u1 = (Inr e2, u2) \<and>
      create_entry w w' L_TENANT_SHARE D_CREDIT (Some B_PENDING)
        (gross - percent_fee gross (commission_rate_percent terms)) (Some v) (Some rt) rf d None u2
        = (Inr e3, s') \<and>
      r = \<lparr>cr_wallet = w', cr_collection_entry = e1, cr_platform_fee_entry = e2,
        cr_tenant_share_entry = e3,
        cr_platform_fee = percent_fee gross (commission_rate_percent terms),
        cr_tenant_share = gross - percent_fee gross (commission_rate_percent terms)\<rparr>)"
  using locked_wallet_run [OF ok, of t]
  by (auto simp: process_collection_def run_simps Let_def not_le require_active_terms_def)

lemma process_collection_frame: "keeps wallet_frame (process_collection w t gross rt rf d)"
  unfolding process_collection_def Let_def require_active_terms_def
  by (auto intro!: transfer_frames split: prod.splits)

lemma process_collection_effect:
  assumes ok: "wallets_ok s" and run: "process_collection w t gross rt rf d s = (Inr r, s')"
  shows "wallets_ok s'"
    and "two_places gross \<Longrightarrow> balance b t' s' =
      balance b t' s + (if t' = t \<and> b = B_PENDING then cr_tenant_share r else 0)"
    and "cr_platform_fee r + cr_tenant_share r = gross" "0 < gross"
    and "\<exists>terms. get_active_terms t s = Some terms \<and>
      cr_platform_fee r = percent_fee gross (commission_rate_percent terms)"
    and "ledger_entries s' = ledger_entries s @
      [cr_collection_entry r, cr_platform_fee_entry r, cr_tenant_share_entry r]"
    and "two_places gross \<Longrightarrow> le_amount (cr_tenant_share_entry r) = cr_tenant_share r \<and>
      le_amount (cr_platform_fee_entry r) = cr_platform_fee r \<and>
      le_amount (cr_collection_entry r) = gross \<and>
      le_balance_after (cr_tenant_share_entry r) = Some (balance B_PENDING t s')"
proof -
  from run [unfolded process_collection_shape [OF ok]]
  obtain terms v w' u e1 e2 e3 u1 u2 where g: "0 < gross" and terms: "get_active_terms t s = Some terms"
    and mv: "move_bucket (wallet_row t s) B_PENDING
        (gross - percent_fee gross (commission_rate_percent terms)) (with_wallet t s) = (Inr (v, w'), u)"
    and e1: "create_entry w w' L_COLLECTION D_CREDIT None gross None (Some rt) rf d None u = (Inr e1, u1)"
    and e2: "create_entry w w' L_PLATFORM_FEE D_DEBIT None
        (percent_fee gross (commission_rate_percent terms)) None (Some rt) rf
        (Some ''Platform commission'') None u1 = (Inr e2, u2)"
    and e3: "create_entry w w' L_TENANT_SHARE D_CREDIT (Some B_PENDING)
        (gross - percent_fee gross (commission_rate_percent terms)) (Some v) (Some rt) rf d None u2
        = (Inr e3, s')"
    and r: "r = \<lparr>cr_wallet = w', cr_collection_entry = e1, cr_platform_fee_entry = e2,
        cr_tenant_share_entry = e3,
        cr_platform_fee = percent_fee gross (commission_rate_percent terms),
        cr_tenant_share = gross - percent_fee gross (commission_rate_percent terms)\<rparr>"
    by blast
  note step = single_move [OF ok mv]
  note s1 = create_entry_state [OF e1 step(1)]
  note s2 = create_entry_state [OF e2 conjunct1 [OF s1]]
  note s3 = create_entry_state [OF e3 conjunct1 [OF s2]]
  have same: "wallets s' = wallets u" using s1 s2 s3 by simp
  show "wallets_ok s'" using s3 by (simp add: wallet_state_def)
  have fee2: "two_places (percent_fee gross (commission_rate_percent terms))"
    by (simp add: percent_fee_def quantize_tzs_def)
  have bal: "balance b t' s' = balance b t' u" for b t'
    by (rule balance_cong) (fact same)
  show "two_places gross \<Longrightarrow> balance b t' s' =
      balance b t' s + (if t' = t \<and> b = B_PENDING then cr_tenant_share r else 0)"
    using step(4) fee2 by (simp add: bal r)
  show "cr_platform_fee r + cr_tenant_share r = gross" "0 < gross" using g by (simp_all add: r)
  show "\<exists>terms. get_active_terms t s = Some terms \<and>
      cr_platform_fee r = percent_fee gross (commission_rate_percent terms)"
    using terms by (simp add: r)
  have "ledger_entries u = ledger_entries s"
    using mv by (auto simp: run_simps put_wallet_def with_wallet_def split: option.splits)
  then show "ledger_entries s' = ledger_entries s @
      [cr_collection_entry r, cr_platform_fee_entry r, cr_tenant_share_entry r]"
    using e1 e2 e3 by (auto simp: create_entry_Inr r)
  assume "two_places gross"
  then show "le_amount (cr_tenant_share_entry r) = cr_tenant_share r \<and>
      le_amount (cr_platform_fee_entry r) = cr_platform_fee r \<and>
      le_amount (cr_collection_entry r) = gross \<and>
      le_balance_after (cr_tenant_share_entry r) = Some (balance B_PENDING t s')"
    using create_entry_exact [OF e1] create_entry_exact [OF e2] create_entry_exact [OF e3]
      fee2 step(2) step(4) [of B_PENDING t] balance_bounds(3) [OF ok, of B_PENDING t]
    by (simp add: r bal)
qed

subsection \<open>When the operations succeed\<close>

lemma transfer_ledger:
  "wallets_ok s \<Longrightarrow> transfer t src dst a s = (Inr x, u) \<Longrightarrow> ledger_entries u = ledger_entries s"
  by (cases x) (auto simp: transfer_def run_simps locked_wallet_run put_wallet_def with_wallet_def
      split: option.splits)

lemma single_move_succeeds:
  assumes ok: "wallets_ok s" and d: "two_places d" "0 \<le> balance b t s + d" "balance b t s + d < 1000000000000"
    and a: "two_places a" "\<bar>a\<bar> < 1000000000000"
  shows "\<exists>v w' u e s'. move_bucket (wallet_row t s) b d (with_wallet t s) = (Inr (v, w'), u) \<and>
    create_entry w w' ty dir (Some b) a (Some v) rt rf descr ac u = (Inr e, s')"
proof -
  obtain u where mv: "move_bucket (wallet_row t s) b d (with_wallet t s) = (Inr (balance b t s + d,
      set_bucket b (balance b t s + d) (wallet_row t s)), u)"
    using move_bucket_succeeds [OF with_wallet_state [OF ok] d(1)] d by (auto simp: balance_row)
  moreover have "two_places (balance b t s + d)" using d balance_bounds [OF ok, of b t] by simp
  ultimately show ?thesis
    using create_entry_succeeds [of a "balance b t s + d"] d a by fastforce
qed

lemma create_adjustment_succeeds:
  assumes "wallets_ok s" "two_places a" "0 < a" "a < 1000000000000" "strip reason \<noteq> []"
    and "0 \<le> balance b t s + (if dir = D_CREDIT then a else - a)"
    and "balance b t s + (if dir = D_CREDIT then a else - a) < 1000000000000"
  shows "\<exists>e s'. create_adjustment w t b dir a reason actor rt rf s = (Inr e, s')"
  using single_move_succeeds [OF assms(1) _ assms(6,7,2)] assms(2-5)
  by (fastforce simp: adjust_shapes(1) [OF assms(1)])

lemma process_collection_succeeds:
  assumes ok: "wallets_ok s" and g: "two_places gross" "0 < gross"
    and terms: "get_active_terms t s = Some terms"
    and rate: "0 \<le> commission_rate_percent terms" "commission_rate_percent terms \<le> 100"
    and room: "gross < 1000000000000" "balance B_PENDING t s + gross < 1000000000000"
  shows "\<exists>r s'. process_collection w t gross rt rf d s = (Inr r, s')"
proof -
  let ?fee = "percent_fee gross (commission_rate_percent terms)"
  let ?v = "balance B_PENDING t s + (gross - ?fee)"
  have fee: "0 \<le> ?fee" "?fee \<le> gross" "two_places ?fee"
    using percent_fee_bounds g rate by (simp_all add: percent_fee_def quantize_tzs_def)
  note bal = balance_bounds [OF ok, of B_PENDING t]
  obtain u where mv: "move_bucket (wallet_row t s) B_PENDING (gross - ?fee) (with_wallet t s) =
      (Inr (?v, set_bucket B_PENDING ?v (wallet_row t s)), u)"
    using move_bucket_succeeds [OF with_wallet_state [OF ok], of "gross - ?fee" B_PENDING t] g fee room bal
    by (auto simp: balance_row)
  have num: "numeric_14_2 x = Some x" if "two_places x" "0 \<le> x" "x < 1000000000000" for x
    using that by (simp add: numeric_14_2_def numeric_column_def)
  have "numeric_14_2 gross = Some gross" "numeric_14_2 ?fee = Some ?fee"
    "numeric_14_2 (gross - ?fee) = Some (gross - ?fee)" "numeric_14_2 ?v = Some ?v"
    using g fee room bal by (auto intro!: num)
  with mv g terms show ?thesis
    by (fastforce simp: process_collection_shape [OF ok] create_entry_Inr)
qed

subsection \<open>Requests on the wallet\<close>

text \<open>One request of each kind, with its transaction.\<close>

inductive wallet_step :: "db \<Rightarrow> db \<Rightarrow> bool" where
  collection: "commit (process_collection w t a rt rf d) s = (r1, s') \<Longrightarrow> wallet_step s s'"
| adjustment: "commit (create_adjustment w t b dir a reason actor rto rf) s = (r2, s') \<Longrightarrow>
    wallet_step s s'"
| settlement: "commit (settle_pending t amount batch) s = (r3, s') \<Longrightarrow> wallet_step s s'"
| reservation: "commit (reserve_for_withdrawal t a) s = (r4, s') \<Longrightarrow> wallet_step s s'"
| release: "commit (release_reservation t a) s = (r5, s') \<Longrightarrow> wallet_step s s'"
| disbursement: "commit (complete_disbursement w t a rt rf d) s = (r6, s') \<Longrightarrow> wallet_step s s'"
| disbursement_reversal: "commit (reverse_disbursement w t a rt rf d) s = (r7, s') \<Longrightarrow>
    wallet_step s s'"
| refund: "commit (record_refund w t a rt rf d) s = (r8, s') \<Longrightarrow> wallet_step s s'"
| reversal: "commit (record_reversal w t a rt rf d) s = (r9, s') \<Longrightarrow> wallet_step s s'"

lemma rollback_fields [simp]:
  "wallets (rollback s u) = wallets s" "ledger_entries (rollback s u) = ledger_entries s"
  "next_id (rollback s u) = next_id u"
  by (simp_all add: rollback_def)

text \<open>Committing an operation that stays in the frame.\<close>

lemma commit_wallet_op:
  assumes run: "commit m s = (r, s')" and frame: "keeps wallet_frame m" and ok: "wallets_ok s"
    and good: "\<And>x u. m s = (Inr x, u) \<Longrightarrow> wallets_ok u"
  shows "wallets_ok s' \<and> (\<exists>es. ledger_entries s' = ledger_entries s @ es)"
proof -
  obtain q u where q: "m s = (q, u)" by (cases "m s")
  with frame have fr: "wallet_frame s u" by (rule keepsD)
  show ?thesis
  proof (cases q)
    case (Inl e)
    then have "s' = rollback s u" using run q by (simp add: commit_def)
    moreover have "next_id s \<le> next_id u" using fr by (auto simp: wallet_frame_def)
    ultimately show ?thesis using ok wallets_ok_cong [of s' s] by simp
  next
    case (Inr x)
    then have "s' = u" using run q by (simp add: commit_def)
    then show ?thesis using good q fr Inr by (auto simp: wallet_frame_def)
  qed
qed

lemma transfer_op_frames:
  "keeps wallet_frame (reserve_for_withdrawal t a)" "keeps wallet_frame (release_reservation t a)"
  "keeps wallet_frame (complete_disbursement w t a rt rf d)"
  "keeps wallet_frame (reverse_disbursement w t a rt rf d)"
  by (rule reserve.run_frame release.run_frame disburse.run_frame undisburse.run_frame)+

lemma settle_pending_ok:
  assumes ok: "wallets_ok s" and run: "settle_pending t amount batch s = (Inr r, u)"
  shows "wallets_ok u"
proof -
  from run [unfolded settle_pending_shape [OF ok]]
  obtain a where "settle_pending t (Some a) batch s = (Inr r, u)"
    unfolding settle_pending_shape [OF ok] option.case by blast
  then show ?thesis using settle.run_ok [OF ok] by blast
qed

lemma wallet_step_preserves:
  "wallet_step s s' \<Longrightarrow> wallets_ok s \<Longrightarrow>
     wallets_ok s' \<and> (\<exists>es. ledger_entries s' = ledger_entries s @ es)"
proof (induction rule: wallet_step.induct)
  case collection
  then show ?case
    by (elim commit_wallet_op [OF _ process_collection_frame]) (auto dest: process_collection_effect(1))
next
  case adjustment
  then show ?case
    by (elim commit_wallet_op [OF _ single_move_frames(1)])
      (auto simp: adjust_shapes intro: single_move_entry(1))
next
  case settlement
  then show ?case
    by (elim commit_wallet_op [OF _ settle_pending_frame]) (auto dest: settle_pending_ok)
next
  case reservation
  then show ?case
    by (elim commit_wallet_op [OF _ transfer_op_frames(1)]) (auto dest: reserve.run_ok)
next
  case release
  then show ?case
    by (elim commit_wallet_op [OF _ transfer_op_frames(2)]) (auto dest: release.run_ok)
next
  case disbursement
  then show ?case
    by (elim commit_wallet_op [OF _ transfer_op_frames(3)]) (auto dest: disburse.run_ok)
next
  case disbursement_reversal
  then show ?case
    by (elim commit_wallet_op [OF _ transfer_op_frames(4)]) (auto dest: undisburse.run_ok)
next
  case refund
  then show ?case
    by (elim commit_wallet_op [OF _ single_move_frames(2)])
      (auto simp: adjust_shapes intro: single_move_entry(1))
next
  case reversal
  then show ?case
    by (elim commit_wallet_op [OF _ single_move_frames(3)])
      (auto simp: adjust_shapes intro: single_move_entry(1))
qed

subsection \<open>Properties\<close>

lemma funded_ok [simp]: "wallets_ok funded_db"
proof -
  have "column_value (bucket b funded_wallet)" for b
    by (cases b) (simp_all add: funded_wallet_def column_value_def)
  then show ?thesis by (simp add: wallets_ok_def funded_db_def empty_db_def) (simp add: funded_wallet_def)
qed

lemma funded_terms: "get_active_terms 7 funded_db = Some sample_terms"
  by (simp add: get_active_terms_def active_row_def funded_db_def sample_terms_def)

lemma funded_balances:
  "balance B_AVAILABLE 7 funded_db = 100" "balance B_PENDING 7 funded_db = 30"
  "balance B_RESERVED 7 funded_db = 0"
  by (simp_all add: balance_def wallet_of_def funded_db_def funded_wallet_def)

text \<open>C10: A completed payment is split without loss: the commission is the gross amount times the
  tenant's active rate rounded to a cent (so off by at most half a cent), it lies between zero and
  the gross amount, commission and share add up to the gross amount, exactly the share is added to
  the tenant's pending balance and no other balance of any tenant moves, and the three ledger
  entries appended state those amounts and the balance reached.\<close>

theorem collection_split:
  assumes "wallets_ok s" "two_places gross" "get_active_terms t s = Some terms"
    and "0 \<le> commission_rate_percent terms" "commission_rate_percent terms \<le> 100"
    and "process_collection w t gross rt rf d s = (Inr r, s')"
  shows "cr_platform_fee r + cr_tenant_share r = gross \<and>
    0 \<le> cr_platform_fee r \<and> cr_platform_fee r \<le> gross \<and>
    \<bar>cr_platform_fee r - gross * commission_rate_percent terms / 100\<bar> \<le> 1 / 200 \<and>
    (\<forall>b t'. balance b t' s' =
      balance b t' s + (if t' = t \<and> b = B_PENDING then cr_tenant_share r else 0)) \<and>
    (\<exists>e1 e2 e3. ledger_entries s' = ledger_entries s @ [e1, e2, e3] \<and>
      le_type e1 = L_COLLECTION \<and> le_amount e1 = gross \<and>
      le_type e2 = L_PLATFORM_FEE \<and> le_amount e2 = cr_platform_fee r \<and>
      le_type e3 = L_TENANT_SHARE \<and> le_amount e3 = cr_tenant_share r \<and>
      le_balance_after e3 = Some (balance B_PENDING t s'))"
proof (intro conjI)
  note eff = process_collection_effect [OF assms(1,6)]
  have fee: "cr_platform_fee r = percent_fee gross (commission_rate_percent terms)"
    using eff(5) assms(3) by simp
  show "cr_platform_fee r + cr_tenant_share r = gross" by (rule eff(3))
  show "0 \<le> cr_platform_fee r" "cr_platform_fee r \<le> gross"
    using percent_fee_bounds [of gross] eff(4) assms(2,4,5) by (simp_all add: fee)
  show "\<bar>cr_platform_fee r - gross * commission_rate_percent terms / 100\<bar> \<le> 1 / 200"
    using round_error [of "gross * commission_rate_percent terms / 100"] eff(4) assms(4)
    by (simp add: fee percent_fee_def quantize_tzs_def)
  show "\<forall>b t'. balance b t' s' =
      balance b t' s + (if t' = t \<and> b = B_PENDING then cr_tenant_share r else 0)"
    using eff(2) [OF assms(2)] by simp
  have "le_type (cr_collection_entry r) = L_COLLECTION \<and>
      le_type (cr_platform_fee_entry r) = L_PLATFORM_FEE \<and>
      le_type (cr_tenant_share_entry r) = L_TENANT_SHARE"
    using assms(6) by (auto simp: process_collection_shape [OF assms(1)] create_entry_Inr)
  with eff(6) eff(7) [OF assms(2)] show "\<exists>e1 e2 e3. ledger_entries s' = ledger_entries s @ [e1, e2, e3] \<and>
      le_type e1 = L_COLLECTION \<and> le_amount e1 = gross \<and>
      le_type e2 = L_PLATFORM_FEE \<and> le_amount e2 = cr_platform_fee r \<and>
      le_type e3 = L_TENANT_SHARE \<and> le_amount e3 = cr_tenant_share r \<and>
      le_balance_after e3 = Some (balance B_PENDING t s')"
    by blast
qed

lemma funded_collection:
  "\<exists>r s'. process_collection sample_io 7 1001 ''transaction'' None None funded_db = (Inr r, s')"
  using funded_balances
  by (intro process_collection_succeeds [OF funded_ok _ _ funded_terms]) (simp_all add: sample_terms_def)

theorem collection_split_witness:
  "\<exists>r s'. process_collection sample_io 7 1001 ''transaction'' None None funded_db = (Inr r, s') \<and>
    cr_platform_fee r + cr_tenant_share r = 1001 \<and>
    \<bar>cr_platform_fee r - 25025 / 1000\<bar> \<le> 1 / 200"
proof -
  obtain r s' where run: "process_collection sample_io 7 1001 ''transaction'' None None funded_db = (Inr r, s')"
    using funded_collection by blast
  have "cr_platform_fee r + cr_tenant_share r = 1001 \<and> \<bar>cr_platform_fee r - 25025 / 1000\<bar> \<le> 1 / 200"
    using collection_split [OF funded_ok _ funded_terms _ _ run] by (simp add: sample_terms_def)
  with run show ?thesis by blast
qed

text \<open>Crediting fails closed: without active commercial terms (or with an amount that is not
  positive) the request ends in the documented error and leaves the database as it was.\<close>

theorem collection_fails_closed:
  assumes "gross \<le> 0 \<or> get_active_terms t s = None"
  shows "commit (process_collection w t gross rt rf d) s =
    (Inl (DomainValidationError (if gross \<le> 0 then ''gross_amount must be positive''
       else ''No active commercial terms are configured for this tenant'')), s)"
  using assms by (auto simp: process_collection_def require_active_terms_def commit_def comp_defs
      rollback_def)

theorem collection_fails_closed_witness:
  "commit (process_collection sample_io 8 50 ''transaction'' None None) funded_db =
    (Inl (DomainValidationError ''No active commercial terms are configured for this tenant''), funded_db)"
  using collection_fails_closed [of 50 8 funded_db sample_io "''transaction''" None None]
  by (simp add: get_active_terms_def active_row_def funded_db_def sample_terms_def)

text \<open>C12: Over any sequence of wallet requests, committed or failed, every bucket of every wallet
  stays a value its column can hold: never negative, below the column's limit, exact to the cent;
  and the ledger is only ever extended.\<close>

theorem wallets_stay_sound:
  assumes "wallet_step\<^sup>*\<^sup>* s s'" "wallets_ok s"
  shows "(\<forall>b t. 0 \<le> balance b t s' \<and> balance b t s' < 1000000000000 \<and> two_places (balance b t s')) \<and>
    wallets_ok s' \<and> (\<exists>es. ledger_entries s' = ledger_entries s @ es)"
proof -
  from assms have "wallets_ok s' \<and> (\<exists>es. ledger_entries s' = ledger_entries s @ es)"
  proof (induction rule: rtranclp_induct)
    case (step u v)
    then show ?case using wallet_step_preserves [of u v] by force
  qed simp
  then show ?thesis using balance_bounds [of s'] by blast
qed

lemma funded_hold: "\<exists>x s'. reserve_for_withdrawal 7 40 funded_db = (Inr x, s')"
  by (rule reserve.run_succeeds) (simp_all add: funded_balances)

theorem wallets_stay_sound_witness:
  "\<exists>s'. wallet_step\<^sup>*\<^sup>* funded_db s' \<and> s' \<noteq> funded_db \<and> 0 \<le> balance B_AVAILABLE 7 s'"
proof -
  obtain x s' where run: "reserve_for_withdrawal 7 40 funded_db = (Inr x, s')"
    using funded_hold by blast
  then have "wallet_step\<^sup>*\<^sup>* funded_db s'"
    by (blast intro: wallet_step.reservation commit_Inr [THEN iffD2])
  moreover have "balance B_AVAILABLE 7 s' = 60"
    using reserve.balances(1) [OF funded_ok _ run] by (simp add: funded_balances)
  ultimately show ?thesis
    using wallets_stay_sound [of funded_db s'] by (auto simp: funded_balances)
qed

text \<open>Holding an amount for a withdrawal and releasing the hold is the identity on every balance:
  whenever the hold succeeds, the amount was available, the release succeeds too, and every bucket
  of every tenant is back where it was.\<close>

theorem reserve_release_identity:
  assumes "wallets_ok s" "two_places a" "reserve_for_withdrawal t a s = (Inr x, s')"
  shows "a \<le> balance B_AVAILABLE t s \<and>
    (\<exists>y s''. release_reservation t a s' = (Inr y, s'') \<and>
      (\<forall>b t'. balance b t' s'' = balance b t' s))"
  using reserve.covered(2) [OF assms] hold.round_trip [OF assms] by auto

theorem reserve_release_identity_witness:
  "\<exists>x s' y s''. reserve_for_withdrawal 7 40 funded_db = (Inr x, s') \<and>
     release_reservation 7 40 s' = (Inr y, s'') \<and> balance B_AVAILABLE 7 s'' = 100"
proof -
  obtain x s' where run: "reserve_for_withdrawal 7 40 funded_db = (Inr x, s')"
    using funded_hold by blast
  then show ?thesis
    using reserve_release_identity [OF funded_ok _ run] by (auto simp: funded_balances)
qed

text \<open>A manual adjustment moves exactly the bucket it names, by exactly the amount, in the
  direction it names, never without a reason that is more than blanks, and appends one entry that
  states the amount and the balance reached.\<close>

theorem adjustment_entry_exact:
  assumes "wallets_ok s" "two_places a"
    and "create_adjustment w t b dir a reason actor rt rf s = (Inr e, s')"
  shows "strip reason \<noteq> [] \<and> 0 < a \<and>
    (\<forall>b' t'. balance b' t' s' = balance b' t' s +
      (if t' = t \<and> b' = b then (if dir = D_CREDIT then a else - a) else 0)) \<and>
    ledger_entries s' = ledger_entries s @ [e] \<and> le_amount e = a \<and>
    le_balance_after e = Some (balance b t s')"
proof -
  from assms(3) [unfolded adjust_shapes(1) [OF assms(1)]] obtain v w' u
    where pos: "0 < a" "strip reason \<noteq> []"
      and mv: "move_bucket (wallet_row t s) b (if dir = D_CREDIT then a else - a) (with_wallet t s)
        = (Inr (v, w'), u)"
      and entry: "create_entry w w' L_ADJUSTMENT dir (Some b) a (Some v) rt rf (Some reason)
        (Some actor) u = (Inr e, s')"
    by blast
  note eff = single_move_entry [OF assms(1) mv entry]
  have d: "two_places (if dir = D_CREDIT then a else - a)" using assms(2) by simp
  show ?thesis using pos eff(2) eff(3) [OF d] eff(4) [OF d] eff(8) [OF assms(2)] by simp
qed

lemma funded_adjustment:
  "\<exists>e s'. create_adjustment sample_io 7 B_AVAILABLE D_DEBIT 40 ''chargeback'' 3 None None funded_db
     = (Inr e, s')"
  by (rule create_adjustment_succeeds [OF funded_ok])
    (simp_all add: funded_balances strip_def lstrip_def rstrip_def is_space_def code_def)

theorem adjustment_entry_exact_witness:
  "\<exists>e s'. create_adjustment sample_io 7 B_AVAILABLE D_DEBIT 40 ''chargeback'' 3 None None funded_db
     = (Inr e, s') \<and> balance B_AVAILABLE 7 s' = 60"
proof -
  obtain e s' where run: "create_adjustment sample_io 7 B_AVAILABLE D_DEBIT 40 ''chargeback'' 3
      None None funded_db = (Inr e, s')"
    using funded_adjustment by blast
  then show ?thesis
    using adjustment_entry_exact [OF funded_ok _ run] by (auto simp: funded_balances)
qed

text \<open>The ledger does not account for every move: settling and holding funds change a tenant's
  available balance and write no ledger entry, so the available column is not the sum of the
  ledger's credits minus debits of that bucket.\<close>

theorem settling_writes_no_entry:
  assumes "wallets_ok s" "two_places a" "settle_pending t (Some a) batch s = (Inr r, s')"
    and "reserve_for_withdrawal t b s = (Inr x, s'')" "two_places b"
  shows "ledger_entries s' = ledger_entries s \<and> 0 < a \<and>
    balance B_AVAILABLE t s' = balance B_AVAILABLE t s + a \<and>
    ledger_entries s'' = ledger_entries s \<and> 0 < b \<and>
    balance B_AVAILABLE t s'' = balance B_AVAILABLE t s - b"
proof -
  from assms(3) [unfolded settle_pending_shape [OF assms(1)]]
  have "ledger_entries s' = ledger_entries s"
    by (auto simp: settlement_row_Inr dest: transfer_ledger [OF assms(1)])
  moreover from assms(4) have "ledger_entries s'' = ledger_entries s"
    by (auto simp: reserve_for_withdrawal_def transfer_bnd run_simps dest: transfer_ledger [OF assms(1)])
  ultimately show ?thesis
    using settle.balances(2) [OF assms(1,2,3)] settle.covered(1) [OF assms(1,2,3)]
      reserve.balances(1) [OF assms(1,5,4)] reserve.covered(1) [OF assms(1,5,4)] by simp
qed

theorem settling_writes_no_entry_witness:
  "\<exists>r s'. settle_pending 7 (Some 10) ''batch'' funded_db = (Inr r, s') \<and>
     ledger_entries s' = [] \<and> balance B_AVAILABLE 7 s' = 110"
proof -
  obtain r s' where "settle_pending 7 (Some 10) ''batch'' funded_db = (Inr r, s')"
    using settle.run_succeeds [OF funded_ok, of 10 7 "''batch''"] by (auto simp: funded_balances)
  moreover obtain x s'' where "reserve_for_withdrawal 7 40 funded_db = (Inr x, s'')"
    using funded_hold by blast
  ultimately show ?thesis
    using settling_writes_no_entry [OF funded_ok, of 10 7 "''batch''" r s' 40 x s'']
    by (auto simp: funded_balances) (simp add: funded_db_def empty_db_def)
qed

lemma ids_frame:
  assumes "keeps wallet_frame m"
  shows "keeps ids_grow m"
proof (rule keepsI)
  fix s r s'
  assume "m s = (r, s')"
  with assms have "wallet_frame s s'" by (rule keepsD)
  then show "ids_grow s s'" by (auto simp: ids_grow_def wallet_frame_def)
qed

end
