(* ===== verification/Two_Factor.thy ===== *)
theory Two_Factor
  imports Samples
begin

text \<open>
  The withdrawal one-time code, \<^verbatim>\<open>app/services/two_factor.py\<close>: only a keyed hash of the otp is
  stored, with an expiry and an attempt counter. HMAC-SHA256 is the parameter \<open>hmac_sha256\<close> of the
  request, the random number its \<open>random_otp\<close>. A withdrawal row that a method updates is returned
  updated; the table holds the same row.
\<close>

definition update_withdrawal :: "(withdrawal \<Rightarrow> withdrawal) \<Rightarrow> withdrawal \<Rightarrow> withdrawal op" where
  "update_withdrawal f x =
     thn (modify (\<lambda>s. s\<lparr>withdrawals := row_put wd_id (f x) (withdrawals s)\<rparr>)) (ret (f x))"

lemma update_withdrawal_run [simp, run_simps]:
  "update_withdrawal f x s = (r, s') \<longleftrightarrow>
     r = Inr (f x) \<and> s' = s\<lparr>withdrawals := row_put wd_id (f x) (withdrawals s)\<rparr>"
  by (auto simp: update_withdrawal_def comp_defs)

definition otp_secret :: "settings \<Rightarrow> string op" where
  "otp_secret cfg =
     (case otp_verification_secret cfg of
        Some (c # cs) \<Rightarrow> ret (c # cs)
      | _ \<Rightarrow> raise (DomainValidationError ''Withdrawal verification is not available right now''))"

definition hash_code :: "io \<Rightarrow> settings \<Rightarrow> uuid \<Rightarrow> string \<Rightarrow> string op" where
  "hash_code w cfg i otp =
     bnd (otp_secret cfg) (\<lambda>secret. ret (hmac_sha256 w secret (id_text i @ '':'' @ otp)))"

text \<open>\<^verbatim>\<open>f"{n:06d}"\<close>.\<close>

definition six_digits :: "nat \<Rightarrow> string" where
  "six_digits n = replicate (6 - length (nat_str n)) (CHR ''0'') @ nat_str n"

definition issue_challenge ::
    "io \<Rightarrow> settings \<Rightarrow> withdrawal \<Rightarrow> string \<Rightarrow> (string \<times> withdrawal) op" where
  "issue_challenge w cfg x sent_to_email =
     (let otp = six_digits (random_otp w) in
      bnd (hash_code w cfg (wd_id x) otp) (\<lambda>h.
      bnd (update_withdrawal (\<lambda>x. x\<lparr>two_factor_code_hash := Some h,
             two_factor_expires_at := Some (now w + seconds (withdrawal_otp_ttl_seconds cfg)),
             two_factor_attempts := 0, two_factor_confirmed_at := None,
             otp_sent_to_email := Some sent_to_email\<rparr>) x) (\<lambda>x'.
      ret (otp, x'))))"

definition is_exhausted :: "io \<Rightarrow> settings \<Rightarrow> withdrawal \<Rightarrow> bool" where
  "is_exhausted w cfg x \<longleftrightarrow>
     two_factor_attempts x \<ge> withdrawal_otp_max_attempts cfg \<or>
     (case two_factor_expires_at x of None \<Rightarrow> True | Some e \<Rightarrow> now w > e)"

definition verify ::
    "io \<Rightarrow> settings \<Rightarrow> withdrawal \<Rightarrow> string \<Rightarrow> string option \<Rightarrow> (bool \<times> withdrawal) op" where
  "verify w cfg x otp current_email =
     (case two_factor_code_hash x of
        None \<Rightarrow> ret (False, x)
      | Some stored \<Rightarrow>
          if is_exhausted w cfg x then ret (False, x)
          else if current_email \<noteq> None \<and> otp_sent_to_email x \<noteq> current_email then ret (False, x)
          else
            bnd (hash_code w cfg (wd_id x) otp) (\<lambda>candidate.
            if candidate = stored then
              bnd (update_withdrawal (\<lambda>x. x\<lparr>two_factor_confirmed_at := Some (now w)\<rparr>) x) (\<lambda>x'.
              ret (True, x'))
            else
              bnd (update_withdrawal (\<lambda>x. x\<lparr>two_factor_attempts := two_factor_attempts x + 1\<rparr>) x)
                (\<lambda>x'. ret (False, x'))))"

subsection \<open>How the two operations end\<close>

lemma otp_secret_Inr [run_simps]:
  "otp_secret cfg s = (Inr k, s') \<longleftrightarrow> s' = s \<and> k \<noteq> [] \<and> otp_verification_secret cfg = Some k"
  by (auto simp: otp_secret_def split: option.splits list.splits)

lemma otp_secret_state: "otp_secret cfg s = (r, s') \<Longrightarrow> s' = s"
  by (auto simp: otp_secret_def split: option.splits list.splits)

lemma hash_code_Inr [run_simps]:
  "hash_code w cfg i otp s = (Inr h, s') \<longleftrightarrow>
     s' = s \<and> (\<exists>k. k \<noteq> [] \<and> otp_verification_secret cfg = Some k \<and>
       h = hmac_sha256 w k (id_text i @ '':'' @ otp))"
  by (auto simp: hash_code_def run_simps)

lemma issue_challenge_Inr [run_simps]:
  "issue_challenge w cfg x email s = (Inr (otp, x'), s') \<longleftrightarrow>
     otp = six_digits (random_otp w) \<and>
     (\<exists>k. k \<noteq> [] \<and> otp_verification_secret cfg = Some k \<and>
       x' = x\<lparr>two_factor_code_hash := Some (hmac_sha256 w k (id_text (wd_id x) @ '':'' @ otp)),
          two_factor_expires_at := Some (now w + seconds (withdrawal_otp_ttl_seconds cfg)),
          two_factor_attempts := 0, two_factor_confirmed_at := None,
          otp_sent_to_email := Some email\<rparr>) \<and>
     s' = s\<lparr>withdrawals := row_put wd_id x' (withdrawals s)\<rparr>"
  by (auto simp: issue_challenge_def Let_def run_simps)

text \<open>A code is accepted only unexhausted, for the address it went to, and when the hash agrees.\<close>

lemma verify_True:
  "verify w cfg x otp email s = (Inr (True, x'), s') \<longleftrightarrow>
     \<not> is_exhausted w cfg x \<and> (\<forall>e. email = Some e \<longrightarrow> otp_sent_to_email x = Some e) \<and>
     (\<exists>k. k \<noteq> [] \<and> otp_verification_secret cfg = Some k \<and>
       two_factor_code_hash x = Some (hmac_sha256 w k (id_text (wd_id x) @ '':'' @ otp))) \<and>
     x' = x\<lparr>two_factor_confirmed_at := Some (now w)\<rparr> \<and>
     s' = s\<lparr>withdrawals := row_put wd_id x' (withdrawals s)\<rparr>"
  by (cases email) (auto simp: verify_def run_simps split: option.splits if_splits)

lemma verify_False:
  assumes "verify w cfg x otp email s = (Inr (False, x'), s')"
  shows "(x' = x \<and> s' = s \<and>
      (two_factor_code_hash x = None \<or> is_exhausted w cfg x \<or>
        (email \<noteq> None \<and> otp_sent_to_email x \<noteq> email))) \<or>
    (x' = x\<lparr>two_factor_attempts := two_factor_attempts x + 1\<rparr> \<and> \<not> is_exhausted w cfg x \<and>
      s' = s\<lparr>withdrawals := row_put wd_id x' (withdrawals s)\<rparr>)"
  using assms by (auto simp: verify_def run_simps split: option.splits if_splits)

text \<open>
  \<open>identity\<close> collects the fields of a withdrawal that no operation ever changes. A verification
  keeps them and the status.
\<close>

definition identity :: "withdrawal \<Rightarrow> uuid \<times> uuid \<times> uuid \<times> uuid \<times> rat \<times> string \<times> string \<times> bool" where
  "identity x = (wd_id x, wd_tenant x, wd_wallet x, wd_destination x, wd_amount x, wd_currency x,
     idempotency_key x, approval_required x)"

lemma identity_updates [simp]:
  "identity (x\<lparr>wd_provider_reference := v0\<rparr>) = identity x"
  "identity (x\<lparr>failure_reason := v1\<rparr>) = identity x"
  "identity (x\<lparr>submitted_at := v2\<rparr>) = identity x"
  "identity (x\<lparr>wd_completed_at := v3\<rparr>) = identity x"
  "identity (x\<lparr>verified_recipient_name := v4\<rparr>) = identity x"
  "identity (x\<lparr>provider_charge := v5\<rparr>) = identity x"
  "identity (x\<lparr>wd_result_code := v6\<rparr>) = identity x"
  "identity (x\<lparr>wd_provider_message := v7\<rparr>) = identity x"
  "identity (x\<lparr>requested_by := v8\<rparr>) = identity x"
  "identity (x\<lparr>reviewed_by := v9\<rparr>) = identity x"
  "identity (x\<lparr>reviewed_at := v10\<rparr>) = identity x"
  "identity (x\<lparr>review_notes := v11\<rparr>) = identity x"
  "identity (x\<lparr>two_factor_code_hash := v12\<rparr>) = identity x"
  "identity (x\<lparr>two_factor_expires_at := v13\<rparr>) = identity x"
  "identity (x\<lparr>two_factor_attempts := v14\<rparr>) = identity x"
  "identity (x\<lparr>two_factor_confirmed_at := v15\<rparr>) = identity x"
  "identity (x\<lparr>otp_last_sent_at := v16\<rparr>) = identity x"
  "identity (x\<lparr>otp_send_count := v17\<rparr>) = identity x"
  "identity (x\<lparr>otp_sent_to_email := v18\<rparr>) = identity x"
  "identity (x\<lparr>wd_status := v19\<rparr>) = identity x"
  by (simp_all add: identity_def)

lemma verify_row:
  assumes "verify w cfg x otp email s = (Inr (b, x'), s')"
  shows "identity x' = identity x" "wd_status x' = wd_status x" "wd_id x' = wd_id x"
    and "s' = s \<and> x' = x \<or> s' = s\<lparr>withdrawals := row_put wd_id x' (withdrawals s)\<rparr>"
proof -
  consider "x' = x" "s' = s" | "x' = x\<lparr>two_factor_attempts := two_factor_attempts x + 1\<rparr>"
      "s' = s\<lparr>withdrawals := row_put wd_id x' (withdrawals s)\<rparr>"
    | "x' = x\<lparr>two_factor_confirmed_at := Some (now w)\<rparr>"
      "s' = s\<lparr>withdrawals := row_put wd_id x' (withdrawals s)\<rparr>"
  proof (cases b)
    case True
    with assms that(3) show ?thesis by (simp add: verify_True)
  next
    case False
    with assms verify_False [of w cfg x otp email s x' s'] that(1,2) show ?thesis by auto
  qed
  note cases = this
  show "identity x' = identity x" "wd_status x' = wd_status x" "wd_id x' = wd_id x"
    by (rule cases; simp add: identity_def)+
  show "s' = s \<and> x' = x \<or> s' = s\<lparr>withdrawals := row_put wd_id x' (withdrawals s)\<rparr>"
    by (rule cases; blast)
qed

subsection \<open>The shape of a code\<close>

lemma nat_str_length: "n < 10 ^ k \<Longrightarrow> 0 < k \<Longrightarrow> length (nat_str n) \<le> k"
proof (induction n arbitrary: k rule: nat_str.induct)
  case (1 n)
  show ?case
  proof (cases "n < 10")
    case True
    with 1 show ?thesis by (simp add: nat_str.simps [of n])
  next
    case False
    obtain j where k: "k = Suc j" using 1(3) by (cases k) auto
    with False 1(2) have "n div 10 < 10 ^ j" "0 < j"
      by (auto simp: less_mult_imp_div_less mult.commute intro!: gr0I)
    with 1(1) [OF False] have "length (nat_str (n div 10)) \<le> j" by blast
    with False k show ?thesis by (simp add: nat_str.simps [of n])
  qed
qed

lemma digits_value_zeros: "digits_value (replicate m (CHR ''0'') @ ds) = digits_value ds"
proof -
  have "foldl (\<lambda>n c. 10 * n + digit_value c) 0 (replicate m (CHR ''0'')) = 0"
    by (induction m) (auto simp: digit_value_def code_def)
  then show ?thesis by (simp add: digits_value_def)
qed

text \<open>Every code is exactly six digits, leading zeros included, and distinct random numbers below
  one million give distinct codes: the whole space of a million codes is used.\<close>

theorem six_digits_exact:
  assumes "n < 1000000" "m < 1000000"
  shows "length (six_digits n) = 6 \<and> (\<forall>c \<in> set (six_digits n). is_digit c) \<and>
    digits_value (six_digits n) = n \<and> (six_digits n = six_digits m \<longrightarrow> n = m)"
proof -
  have "length (nat_str n) \<le> 6"
    using nat_str_length [of n 6] assms by simp
  then have len: "length (six_digits n) = 6" by (simp add: six_digits_def)
  have val: "digits_value (six_digits k) = k" for k
    by (simp add: six_digits_def digits_value_zeros digits_value_nat_str)
  then have inj: "six_digits n = six_digits m \<longrightarrow> n = m"
    by (intro impI) (drule arg_cong [of _ _ digits_value], simp)
  have "is_digit (CHR ''0'')" by (simp add: is_digit_def code_def)
  then have "\<forall>c \<in> set (six_digits n). is_digit c"
    using nat_str_digits [of n] by (auto simp: six_digits_def)
  with len val inj show ?thesis by simp
qed

theorem six_digits_exact_witness:
  "length (six_digits 42) = 6 \<and> digits_value (six_digits 42) = 42 \<and> six_digits 42 = ''000042''"
proof -
  have "six_digits 42 = ''000042''" by code_simp
  then show ?thesis using six_digits_exact [of 42 42] by simp
qed

end
