(* ===== verification/Selcom_Business.thy ===== *)
theory Selcom_Business
  imports Samples
begin

text \<open>
  The disbursement provider's integration, \<^verbatim>\<open>app/integrations/selcom_business\<close>: the reading of a
  result code, the configuration check that stands before every request, the composition of
  URLs and of the signed string, and the three calls. The network is outside: a call records
  the request it sends and ends as the reply of the \<open>io\<close> says. RSA signing is not modelled; what
  it signs is.
\<close>

subsection \<open>Result codes\<close>

datatype selcom_outcome = O_SUCCESS | O_INPROGRESS | O_AMBIGUOUS | O_FAIL

record selcom_result =
  res_outcome :: selcom_outcome
  res_code :: string
  res_message :: "string option"

definition interpret_resultcode :: "string option \<Rightarrow> string option \<Rightarrow> selcom_result" where
  "interpret_resultcode resultcode message =
     (let c = strip (case resultcode of None \<Rightarrow> [] | Some r \<Rightarrow> r) in
      \<lparr>res_outcome =
         (if c = ''000'' then O_SUCCESS
          else if c = ''111'' \<or> c = ''927'' then O_INPROGRESS
          else if c = ''999'' then O_AMBIGUOUS
          else O_FAIL),
       res_code = c, res_message = message\<rparr>)"

subsection \<open>Configuration\<close>

record business_config =
  bc_environment :: string
  bc_base_url :: "string option"
  bc_api_key :: "string option"
  bc_private_key_pem :: "string option"

definition is_configured :: "business_config \<Rightarrow> bool" where
  "is_configured c \<longleftrightarrow>
     truthy (bc_base_url c) \<and> truthy (bc_api_key c) \<and> truthy (bc_private_key_pem c)"

text \<open>
  The host of a URL as \<^verbatim>\<open>urllib.parse.urlparse(url).hostname\<close> reads it: after the scheme and
  \<open>//\<close>, up to the first of \<open>/?#\<close>, without user information and port, in lower case.
\<close>

definition scheme_char :: "char \<Rightarrow> bool" where
  "scheme_char c \<longleftrightarrow> is_digit c \<or> char_lower c \<in> set ''abcdefghijklmnopqrstuvwxyz+-.''"

definition after_scheme :: "string \<Rightarrow> string" where
  "after_scheme u =
     (case partition_on (CHR '':'') u of
        (p, Some rest) \<Rightarrow>
          if p \<noteq> [] \<and> char_lower (hd p) \<in> set ''abcdefghijklmnopqrstuvwxyz'' \<and> list_all scheme_char p
          then rest else u
      | (p, None) \<Rightarrow> u)"

definition url_hostname :: "string \<Rightarrow> string" where
  "url_hostname u =
     (let r = after_scheme u;
          netloc = (if starts_with ''//'' r
                    then takeWhile (\<lambda>c. c \<notin> set ''/?#'') (drop 2 r) else []);
          hostinfo = rev (takeWhile (\<lambda>c. c \<noteq> CHR ''@'') (rev netloc));
          host = (case partition_on (CHR ''['') hostinfo of
                    (_, Some br) \<Rightarrow> takeWhile (\<lambda>c. c \<noteq> CHR '']'') br
                  | (_, None) \<Rightarrow> takeWhile (\<lambda>c. c \<noteq> CHR '':'') hostinfo)
      in lower host)"

fun is_substring :: "string \<Rightarrow> string \<Rightarrow> bool" where
  "is_substring p [] = (p = [])"
| "is_substring p (c # s) = (starts_with p (c # s) \<or> is_substring p s)"

definition base_url_matches_environment :: "business_config \<Rightarrow> bool" where
  "base_url_matches_environment c =
     (if \<not> truthy (bc_base_url c) then True
      else let host = url_hostname (the (bc_base_url c)) in
        if bc_environment c = ''sandbox'' then is_substring ''sandbox'' host
        else host = ''api.selcom.business'')"

text \<open>
  \<open>NotConfigured\<close>, \<open>Misconfigured\<close>, \<open>Transport\<close> and \<open>Api\<close> are the subclasses of
  \<^verbatim>\<open>SelcomBusinessError\<close>; a call gives one of them to its caller as a value, which the caller
  handles or raises on (\<open>uncaught\<close>).
\<close>

datatype business_failure = NotConfigured | Misconfigured | Transport string | Api string

fun failure_text :: "business_failure \<Rightarrow> string" where
  "failure_text NotConfigured = ''Selcom Business API is not configured''"
| "failure_text Misconfigured = ''SELCOM_BUSINESS_BASE_URL does not match''"
| "failure_text (Transport m) = m"
| "failure_text (Api m) = m"

definition uncaught :: "business_failure \<Rightarrow> 'a op" where
  "uncaught f = raise (SelcomBusinessError (failure_text f))"

definition require_configured :: "business_config \<Rightarrow> business_failure option" where
  "require_configured c =
     (if \<not> is_configured c then Some NotConfigured
      else if \<not> base_url_matches_environment c then Some Misconfigured
      else None)"

text \<open>\<^verbatim>\<open>selcom_business_config_from_settings\<close>: an undecodable key raises where it is called.\<close>

definition business_config_from_settings :: "settings \<Rightarrow> business_config op" where
  "business_config_from_settings cfg =
     (case selcom_business_private_key_pem cfg of
        None \<Rightarrow> uncaught NotConfigured
      | Some pem \<Rightarrow> ret \<lparr>bc_environment = selcom_business_environment cfg,
          bc_base_url = selcom_business_base_url cfg, bc_api_key = selcom_business_api_key cfg,
          bc_private_key_pem = pem\<rparr>)"

definition validate_selcom_startup_config :: "settings \<Rightarrow> unit op" where
  "validate_selcom_startup_config cfg =
     bnd (business_config_from_settings cfg) (\<lambda>c.
     if truthy (bc_base_url c) \<and> \<not> base_url_matches_environment c
     then uncaught Misconfigured else ret ())"

subsection \<open>URLs and the signed string\<close>

definition build_url :: "string \<Rightarrow> string \<Rightarrow> string option" where
  "build_url base_url path =
     (if \<not> starts_with ''/v1/'' path then None
      else let normalized = rstrip (\<lambda>c. c = CHR ''/'') base_url in
        Some ((if ends_with ''/v1'' normalized then take (length normalized - 3) normalized
               else normalized) @ path))"

definition canonical_signing_string :: "string \<Rightarrow> (string \<times> string) list \<Rightarrow> string" where
  "canonical_signing_string timestamp fs =
     join ''&'' ((''timestamp='' @ timestamp) # map (\<lambda>(name, v). name @ ''='' @ v) fs)"

definition signed_fields :: "(string \<times> string) list \<Rightarrow> string" where
  "signed_fields fs = join '','' (map fst fs)"

text \<open>The fields of each request, in signing order.\<close>

definition lookup_fields :: "io \<Rightarrow> string \<Rightarrow> string \<Rightarrow> string \<Rightarrow> rat option \<Rightarrow> (string \<times> string) list" where
  "lookup_fields w bank account trans_id amount =
     [(''bank'', bank), (''account'', account), (''transId'', trans_id)] @
     (case amount of None \<Rightarrow> [] | Some a \<Rightarrow> [(''amount'', decimal_text w a)])"

definition process_fields ::
    "io \<Rightarrow> string \<Rightarrow> string \<Rightarrow> string \<Rightarrow> string \<Rightarrow> rat \<Rightarrow> string \<Rightarrow> string option \<Rightarrow>
     (string \<times> string) list" where
  "process_fields w trans_id fi account name amount purpose remarks =
     [(''transId'', trans_id), (''recipientFiCode'', fi), (''recipientAccount'', account),
      (''recipientName'', name), (''amount'', decimal_text w amount), (''purpose'', purpose)] @
     (case remarks of None \<Rightarrow> [] | Some r \<Rightarrow> [(''remarks'', r)])"

definition query_fields :: "string \<Rightarrow> (string \<times> string) list" where
  "query_fields trans_id = [(''transId'', trans_id)]"

subsection \<open>Calls\<close>

definition call ::
    "business_config \<Rightarrow> provider_call \<Rightarrow> 'a reply \<Rightarrow> (business_failure + 'a) op" where
  "call c request answer =
     (case require_configured c of
        Some f \<Rightarrow> ret (Inl f)
      | None \<Rightarrow> thn (record_call request)
          (case answer of
             Reply x \<Rightarrow> ret (Inr x)
           | TransportFailure m \<Rightarrow> ret (Inl (Transport m))
           | ApiFailure m \<Rightarrow> ret (Inl (Api m))
           | Malformed m \<Rightarrow> raise (UnhandledError m)))"

definition account_lookup ::
    "io \<Rightarrow> business_config \<Rightarrow> destination_code \<Rightarrow> string \<Rightarrow> string \<Rightarrow> rat \<Rightarrow>
     (business_failure + lookup_data option) op" where
  "account_lookup w c bank account trans_id amount =
     call c (AccountLookup bank account trans_id amount) (lookup_reply w)"

definition transaction_process ::
    "io \<Rightarrow> business_config \<Rightarrow> string \<Rightarrow> destination_code \<Rightarrow> string \<Rightarrow> string \<Rightarrow> rat \<Rightarrow>
     (business_failure + process_response) op" where
  "transaction_process w c trans_id fi account name amount =
     call c (TransactionProcess trans_id fi account name amount) (process_reply w)"

definition transaction_query ::
    "io \<Rightarrow> business_config \<Rightarrow> string \<Rightarrow> (business_failure + query_response) op" where
  "transaction_query w c trans_id = call c (TransactionQuery trans_id) (query_reply w)"

lemma call_reply:
  "call c q a s = (Inr (Inr x), s') \<longleftrightarrow>
     require_configured c = None \<and> a = Reply x \<and>
     s' = s\<lparr>provider_calls := provider_calls s @ [q]\<rparr>"
  by (auto simp: call_def run_simps split: option.splits reply.splits)

lemma call_failure:
  "call c q a s = (Inr (Inl f), s') \<longleftrightarrow>
     require_configured c = Some f \<and> s' = s \<or>
     require_configured c = None \<and> s' = s\<lparr>provider_calls := provider_calls s @ [q]\<rparr> \<and>
       (case f of Transport m \<Rightarrow> a = TransportFailure m | Api m \<Rightarrow> a = ApiFailure m | _ \<Rightarrow> False)"
  by (auto simp: call_def run_simps split: option.splits reply.splits business_failure.splits)

lemma call_state:
  "call c q a s = (r, s') \<Longrightarrow> s' = s \<or> s' = s\<lparr>provider_calls := provider_calls s @ [q]\<rparr>"
  by (cases r) (auto simp: call_def run_simps split: option.splits reply.splits)

lemmas business_calls = account_lookup_def transaction_process_def transaction_query_def

lemma business_config_Inr:
  "business_config_from_settings cfg s = (Inr c, s') \<Longrightarrow> s' = s"
  by (auto simp: business_config_from_settings_def uncaught_def split: option.splits)

end
