(* ===== verification/Payouts.thy ===== *)
theory Payouts
  imports Wallet Two_Factor Selcom_Business
begin

text \<open>
  The withdrawal lifecycle, \<^verbatim>\<open>app/services/payouts.py\<close>, with the repository queries it uses
  (\<^verbatim>\<open>app/repositories/finance.py\<close>). Every public method of \<^verbatim>\<open>PayoutService\<close> is a definition here:
  reads, destinations, the status transitions with their events and audit records, limits, the
  one-time code, request, confirmation, review, cancellation, reversal, submission to the
  provider and the reconciliation of its results. A method that updates the withdrawal row it was
  handed returns the updated row.
\<close>

subsection \<open>Masking\<close>

definition mask_account :: "string option \<Rightarrow> string option" where
  "mask_account account_number =
     (case account_number of
        None \<Rightarrow> None
      | Some n \<Rightarrow>
          if n = [] then None
          else if length n \<le> 4 then Some (replicate (length n) (CHR ''*''))
          else Some (replicate (length n - 4) (CHR ''*'') @ drop (length n - 4) n))"

definition mask_destination :: "string \<Rightarrow> string option \<Rightarrow> string" where
  "mask_destination channel account_number =
     (case account_number of
        None \<Rightarrow> ''the saved destination''
      | Some n \<Rightarrow>
          if n = [] then ''the saved destination''
          else if channel = ''mobile_money'' \<and> length n > 7
          then take 4 n @ replicate (length n - 7) (CHR ''*'') @ drop (length n - 3) n
          else (case mask_account account_number of
                  Some m \<Rightarrow> m | None \<Rightarrow> ''the saved destination''))"

definition mask_email :: "string \<Rightarrow> string" where
  "mask_email email =
     (case partition_on (CHR ''@'') email of
        (local, None) \<Rightarrow> ''***''
      | (local, Some []) \<Rightarrow> ''***''
      | (local, Some domain) \<Rightarrow>
          (case local of [] \<Rightarrow> ''***@'' @ domain | c # _ \<Rightarrow> c # ''***@'' @ domain))"

definition otp_expired :: "io \<Rightarrow> withdrawal \<Rightarrow> bool" where
  "otp_expired w x = (case two_factor_expires_at x of None \<Rightarrow> True | Some e \<Rightarrow> now w > e)"

subsection \<open>Which provider amounts explain a withdrawal\<close>

definition match_provider_amount :: "rat \<Rightarrow> rat \<Rightarrow> rat option \<Rightarrow> provider_amount_match option" where
  "match_provider_amount provider_amount amount stored_charge =
     (if provider_amount = amount then Some Match_PRINCIPAL_EXACT
      else case stored_charge of
        None \<Rightarrow> None
      | Some c \<Rightarrow> if c \<ge> 0 \<and> provider_amount = amount + c
          then Some Match_PRINCIPAL_PLUS_STORED_PROVIDER_CHARGE else None)"

subsection \<open>Reads\<close>

definition find_withdrawal :: "uuid option \<Rightarrow> uuid \<Rightarrow> withdrawal op" where
  "find_withdrawal tenant i =
     bnd (gets (\<lambda>s. get_by_id wd_id wd_tenant tenant i (withdrawals s)))
       (require (NotFoundError ''Withdrawal not found''))"

definition get_withdrawal :: "uuid \<Rightarrow> uuid \<Rightarrow> withdrawal op" where
  "get_withdrawal tenant i = find_withdrawal (Some tenant) i"

definition get_withdrawal_for_super_admin :: "uuid \<Rightarrow> withdrawal op" where
  "get_withdrawal_for_super_admin i = find_withdrawal None i"

definition list_by_statuses :: "withdrawal_status list \<Rightarrow> db \<Rightarrow> withdrawal list" where
  "list_by_statuses statuses s = filter (\<lambda>x. wd_status x \<in> set statuses) (withdrawals s)"

definition list_pending_super_admin_approval :: "db \<Rightarrow> withdrawal list" where
  "list_pending_super_admin_approval s = list_by_statuses [W_PENDING_APPROVAL] s"

definition list_reconcilable_withdrawals :: "db \<Rightarrow> withdrawal list" where
  "list_reconcilable_withdrawals s = list_by_statuses [W_PROCESSING, W_AMBIGUOUS] s"

definition list_events :: "uuid \<Rightarrow> uuid \<Rightarrow> withdrawal_event list op" where
  "list_events tenant i =
     bnd (get_withdrawal tenant i) (\<lambda>_.
     gets (\<lambda>s. sort_key we_created_at
       (filter (\<lambda>e. we_tenant e = tenant \<and> we_withdrawal e = i) (withdrawal_events s))))"

definition find_destination :: "uuid \<Rightarrow> uuid \<Rightarrow> db \<Rightarrow> destination option" where
  "find_destination tenant i s = get_by_id dst_id dst_tenant (Some tenant) i (destinations s)"

definition find_tenant :: "uuid \<Rightarrow> db \<Rightarrow> tenant option" where
  "find_tenant i s = row_find tn_id i (tenants s)"

definition create_destination ::
    "io \<Rightarrow> uuid \<Rightarrow> uuid \<Rightarrow> string \<Rightarrow> string \<Rightarrow> destination_code \<Rightarrow> string option \<Rightarrow>
     string option \<Rightarrow> bool \<Rightarrow> destination op" where
  "create_destination w tenant actor label channel dcode account_name account_number is_default =
     bnd (if dcode \<in> set MOBILE_MONEY_DESTINATION_CODES then
            (case account_number of
               Some (c # cs) \<Rightarrow>
                 bnd (require (DomainValidationError ''not a valid Tanzanian mobile number'')
                        (normalize_tz_phone (c # cs)))
                   (\<lambda>n. ret (Some n))
             | _ \<Rightarrow> raise (DomainValidationError ''A mobile money destination requires a phone number''))
          else ret account_number) (\<lambda>number.
     bnd fresh (\<lambda>i.
     let d = \<lparr>dst_id = i, dst_tenant = tenant, dst_label = label, dst_channel = channel,
           dst_code = Some dcode, dst_account_name = account_name, dst_account_number = number,
           dst_is_default = is_default\<rparr>
     in thn (modify (\<lambda>s. s\<lparr>destinations := destinations s @ [d]\<rparr>))
       (thn (write_audit_log w (Some tenant) (Some actor) ''withdrawal_destination.created''
               (Some ''withdrawal_destination'') (Some i) [])
        (ret d))))"

subsection \<open>State machine\<close>

definition create_event ::
    "io \<Rightarrow> withdrawal \<Rightarrow> withdrawal_status option \<Rightarrow> withdrawal_status \<Rightarrow> uuid option \<Rightarrow>
     string option \<Rightarrow> unit op" where
  "create_event w x from_status to_status actor reason =
     modify (\<lambda>s. s\<lparr>withdrawal_events := withdrawal_events s @
       [\<lparr>we_tenant = wd_tenant x, we_withdrawal = wd_id x, we_from = from_status,
         we_to = to_status, we_actor = actor, we_reason = reason, we_created_at = now w\<rparr>]\<rparr>)"

definition transition ::
    "io \<Rightarrow> withdrawal \<Rightarrow> withdrawal_status \<Rightarrow> uuid option \<Rightarrow> string option \<Rightarrow>
     (string \<times> meta) list \<Rightarrow> withdrawal op" where
  "transition w x to_status actor reason metadata =
     bnd (update_withdrawal (\<lambda>x. x\<lparr>wd_status := to_status\<rparr>) x) (\<lambda>x'.
     thn (create_event w x' (Some (wd_status x)) to_status actor reason)
     (thn (write_audit_log w (Some (wd_tenant x')) actor
             (''withdrawal.'' @ lower (withdrawal_status_value to_status))
             (Some ''withdrawal'') (Some (wd_id x'))
             ((case reason of Some (c # cs) \<Rightarrow> [(''reason'', MStr (c # cs))] | _ \<Rightarrow> []) @ metadata))
      (ret x')))"

definition fail_withdrawal :: "io \<Rightarrow> withdrawal \<Rightarrow> string \<Rightarrow> uuid option \<Rightarrow> withdrawal op" where
  "fail_withdrawal w x reason actor =
     bnd (release_reservation (wd_tenant x) (wd_amount x)) (\<lambda>_.
     bnd (update_withdrawal (\<lambda>x. x\<lparr>failure_reason := Some reason, wd_completed_at := Some (now w)\<rparr>) x)
       (\<lambda>x'. transition w x' W_FAILED actor (Some reason) []))"

subsection \<open>Limits\<close>

definition day_start :: "time \<Rightarrow> time" where
  "day_start t = t - t mod (seconds 86400)"

definition daily_totals :: "uuid \<Rightarrow> time \<Rightarrow> db \<Rightarrow> rat \<times> int" where
  "daily_totals tenant since s =
     (let rows = filter (\<lambda>x. wd_tenant x = tenant \<and> since \<le> wd_created_at x \<and>
            wd_status x \<notin> {W_CANCELLED, W_REJECTED, W_FAILED}) (withdrawals s)
      in (sum_list (map wd_amount rows), int (length rows)))"

definition enforce_withdrawal_limits :: "io \<Rightarrow> settings \<Rightarrow> uuid \<Rightarrow> rat \<Rightarrow> unit op" where
  "enforce_withdrawal_limits w cfg tenant amount =
     thn (guard (\<not> (\<exists>m \<in> set_option (withdrawal_min_amount_tzs cfg). amount < m))
            (DomainValidationError ''Withdrawal amount is below the minimum''))
     (thn (guard (\<not> (\<exists>m \<in> set_option (withdrawal_max_single_amount_tzs cfg). amount > m))
             (DomainValidationError ''Withdrawal amount exceeds the maximum single withdrawal''))
      (bnd (gets (daily_totals tenant (day_start (now w)))) (\<lambda>(total, count).
       thn (guard (\<not> (\<exists>m \<in> set_option (withdrawal_daily_limit_tzs cfg). total + amount > m))
              (DomainValidationError ''This withdrawal would exceed today's withdrawal limit''))
         (guard (\<not> (\<exists>m \<in> set_option (withdrawal_daily_count_limit cfg). count + 1 > m))
              (DomainValidationError ''This tenant has reached today's limit'')))))"

subsection \<open>One-time code\<close>

definition find_profile :: "uuid \<Rightarrow> uuid \<Rightarrow> db \<Rightarrow> profile option" where
  "find_profile tenant actor s =
     (case row_find pr_id actor (profiles s) of
        Some p \<Rightarrow> if pr_tenant p = Some tenant then Some p else None
      | None \<Rightarrow> None)"

definition resolve_verified_email :: "uuid \<Rightarrow> uuid \<Rightarrow> string op" where
  "resolve_verified_email tenant actor =
     bnd (gets (find_profile tenant actor)) (\<lambda>p.
     bnd (gets (\<lambda>s. find (\<lambda>v. vf_tenant v = tenant) (verification_rows s))) (\<lambda>v.
     case (p, v) of
       (Some p, Some v) \<Rightarrow>
         if truthy (pr_email p) \<and> email_verified_at v \<noteq> None then ret (the (pr_email p))
         else raise (DomainValidationError ''Email verification is required before withdrawals.'')
     | _ \<Rightarrow> raise (DomainValidationError ''Email verification is required before withdrawals.'')))"

definition record_email ::
    "io \<Rightarrow> uuid \<Rightarrow> string \<Rightarrow> email_event_type \<Rightarrow> unit op" where
  "record_email w tenant recipient ty =
     modify (\<lambda>s. s\<lparr>email_events := email_events s @
       [\<lparr>ee_tenant = Some tenant, ee_recipient = recipient, ee_type = ty,
         ee_message_id = mail_message_id (mail w),
         ee_status = (if mail_sent (mail w) then Es_SENT else Es_FAILED),
         ee_sent_at = (if mail_sent (mail w) then Some (now w) else None),
         ee_failed_at = (if mail_sent (mail w) then None else Some (now w)),
         ee_error = mail_error (mail w)\<rparr>]\<rparr>)"

definition issue_and_send_otp ::
    "io \<Rightarrow> settings \<Rightarrow> withdrawal \<Rightarrow> string \<Rightarrow> uuid \<Rightarrow> bool \<Rightarrow> (withdrawal \<times> bool \<times> int) op" where
  "issue_and_send_otp w cfg x email actor resend =
     bnd (issue_challenge w cfg x email) (\<lambda>(_, x1).
     bnd (update_withdrawal (\<lambda>x. x\<lparr>otp_last_sent_at := Some (now w),
            otp_send_count := otp_send_count x + 1\<rparr>) x1) (\<lambda>x2.
     thn (record_email w (wd_tenant x2) email Em_WITHDRAWAL_OTP)
     (thn (write_audit_log w (Some (wd_tenant x2)) (Some actor)
             (if resend then ''withdrawal.otp_resent'' else ''withdrawal.otp_sent'')
             (Some ''withdrawal'') (Some (wd_id x2))
             (if mail_sent (mail w) then [] else [(''delivery_failed'', MBool True)]))
      (ret (x2, mail_sent (mail w), withdrawal_otp_ttl_seconds cfg)))))"

definition resend_otp ::
    "io \<Rightarrow> settings \<Rightarrow> uuid \<Rightarrow> uuid \<Rightarrow> uuid \<Rightarrow> (withdrawal \<times> bool \<times> string \<times> int) op" where
  "resend_otp w cfg tenant i actor =
     bnd (find_withdrawal (Some tenant) i) (\<lambda>x.
     thn (guard (requested_by x = Some actor)
            (DomainValidationError ''Only the requester can resend this withdrawal's verification code''))
     (thn (guard (wd_status x = W_DRAFT)
             (DomainValidationError ''Withdrawal is not awaiting a verification code''))
     (thn (guard (\<not> otp_send_count x \<ge> withdrawal_otp_max_sends cfg)
             (DomainValidationError ''Maximum number of verification code sends reached''))
     (thn (case otp_last_sent_at x of
             None \<Rightarrow> ret ()
           | Some last_sent \<Rightarrow>
               let remaining = (of_int (withdrawal_otp_resend_cooldown_seconds cfg) :: rat)
                     - of_int (now w - last_sent) / 1000000
               in guard (\<not> remaining > 0) (RateLimitedError (\<lfloor>remaining\<rfloor> + 1)))
      (bnd (resolve_verified_email tenant actor) (\<lambda>email.
       bnd (issue_and_send_otp w cfg x email actor True) (\<lambda>(x', sent, expires).
       ret (x', sent, mask_email email, expires))))))))"

subsection \<open>Submission and results\<close>

text \<open>
  \<open>apply_provider_result\<close> is the one place a provider's answer becomes a change of state. The
  provider's own reference, the receipt, falls back to the withdrawal's idempotency key.
\<close>

fun or_else :: "string option \<Rightarrow> string \<Rightarrow> string" where
  "or_else (Some (c # cs)) d = c # cs"
| "or_else _ d = d"

definition note_result ::
    "string \<Rightarrow> string option \<Rightarrow> withdrawal \<Rightarrow> withdrawal op" where
  "note_result result_code message =
     update_withdrawal (\<lambda>x. x\<lparr>wd_result_code := Some result_code, wd_provider_message := message\<rparr>)"

definition apply_provider_result ::
    "io \<Rightarrow> withdrawal \<Rightarrow> string option \<Rightarrow> string option \<Rightarrow> rat option \<Rightarrow> string option \<Rightarrow>
     string option \<Rightarrow> string \<Rightarrow> uuid option \<Rightarrow> withdrawal op" where
  "apply_provider_result w x resultcode message amount currency trans_id reference actor =
     (if wd_status x \<notin> {W_PROCESSING, W_AMBIGUOUS} then ret x
      else let parsed = interpret_resultcode resultcode message; rc = res_code parsed in
      case res_outcome parsed of
        O_SUCCESS \<Rightarrow>
          if trans_id \<noteq> None \<and> trans_id \<noteq> Some (idempotency_key x) then
            bnd (note_result rc (Some ''transId mismatch'') x) (\<lambda>x1.
            transition w x1 W_AMBIGUOUS actor
              (Some ''Provider-reported transId does not match this withdrawal's own'') [])
          else if currency \<noteq> None \<and> currency \<noteq> Some (wd_currency x) then
            bnd (note_result rc (Some ''Currency mismatch'') x) (\<lambda>x1.
            transition w x1 W_AMBIGUOUS actor
              (Some ''Provider-reported currency does not match the withdrawal currency'') [])
          else
            (case (case amount of
                     None \<Rightarrow> Some Match_PRINCIPAL_EXACT
                   | Some a \<Rightarrow> match_provider_amount a (wd_amount x) (provider_charge x)) of
               None \<Rightarrow>
                 bnd (note_result rc (Some ''Amount mismatch'') x) (\<lambda>x1.
                 transition w x1 W_AMBIGUOUS actor
                   (Some ''Provider-reported amount does not match the withdrawal amount'') [])
             | Some m \<Rightarrow>
                 bnd (complete_disbursement w (wd_tenant x) (wd_amount x) ''withdrawal''
                        (Some (wd_id x)) (Some (''Selcom disbursement '' @ reference))) (\<lambda>_.
                 bnd (update_withdrawal (\<lambda>x. x\<lparr>wd_provider_reference := Some reference,
                        wd_result_code := Some rc, wd_provider_message := message,
                        wd_completed_at := Some (now w)\<rparr>) x) (\<lambda>x1.
                 transition w x1 W_SUCCESS actor message
                   [(''amount_match'', MStr (provider_amount_match_value m))])))
      | O_INPROGRESS \<Rightarrow> note_result rc message x
      | O_AMBIGUOUS \<Rightarrow>
          bnd (note_result rc message x) (\<lambda>x1.
          transition w x1 W_AMBIGUOUS actor
            (Some (or_else message ''Selcom resultcode 999'')) [])
      | O_FAIL \<Rightarrow>
          bnd (note_result rc message x) (\<lambda>x1.
          fail_withdrawal w x1 (or_else message ''Selcom reported failure'') actor))"

definition query_resultcode :: "query_response \<Rightarrow> string option" where
  "query_resultcode q =
     (let status = (case qr_data q of None \<Rightarrow> [] | Some d \<Rightarrow> or_else (qd_status d) []) in
      if truthy (qr_resultcode q) then qr_resultcode q
      else if status = ''COMPLETED'' then Some ''000''
      else if status = ''ACCEPTED'' then Some ''111''
      else if status = ''FAILED'' then Some ''900''
      else qr_resultcode q)"

definition reconcile_locked :: "io \<Rightarrow> settings \<Rightarrow> withdrawal \<Rightarrow> uuid option \<Rightarrow> withdrawal op" where
  "reconcile_locked w cfg x actor =
     bnd (business_config_from_settings cfg) (\<lambda>c.
     bnd (transaction_query w c (idempotency_key x)) (\<lambda>r.
     case r of
       Inl _ \<Rightarrow> ret x
     | Inr q \<Rightarrow>
         let d = qr_data q in
         apply_provider_result w x (query_resultcode q) (qr_message q)
           (Option.bind d qd_amount) (Option.bind d qd_currency) (Option.bind d qd_trans_id)
           (or_else (Option.bind d qd_receipt) (idempotency_key x)) actor))"

definition submit_to_selcom :: "io \<Rightarrow> settings \<Rightarrow> withdrawal \<Rightarrow> uuid option \<Rightarrow> withdrawal op" where
  "submit_to_selcom w cfg x actor =
     (if wd_status x \<noteq> W_APPROVED then ret x
      else if \<not> selcom_disbursement_enabled cfg then
        fail_withdrawal w x ''Selcom disbursement is disabled on this platform'' actor
      else if selcom_business_environment cfg = ''production'' \<and>
          \<not> selcom_production_payouts_enabled cfg then
        fail_withdrawal w x ''Production Selcom payouts are not enabled on this platform'' actor
      else
        bnd (gets (find_destination (wd_tenant x) (wd_destination x))) (\<lambda>dest.
        case (Option.bind dest dst_code, Option.bind dest dst_account_number) of
          (Some fi, Some (a # as)) \<Rightarrow>
            bnd (business_config_from_settings cfg) (\<lambda>c.
            bnd (account_lookup w c fi (a # as) (idempotency_key x @ ''-lookup'') (wd_amount x))
              (\<lambda>r.
            case r of
              Inl (Transport m) \<Rightarrow> ret x
            | Inl f \<Rightarrow> fail_withdrawal w x (failure_text f) actor
            | Inr data \<Rightarrow>
                (case Option.bind data lk_account_name of
                   Some (n # ns) \<Rightarrow>
                     bnd (store_option (Option.bind data lk_total_charges)) (\<lambda>charge.
                     bnd (update_withdrawal (\<lambda>x. x\<lparr>verified_recipient_name := Some (n # ns),
                            provider_charge := charge\<rparr>) x) (\<lambda>x1.
                     bnd (transition w x1 W_PROCESSING actor None []) (\<lambda>x2.
                     bnd (update_withdrawal (\<lambda>x. x\<lparr>submitted_at := Some (now w)\<rparr>) x2) (\<lambda>x3.
                     bnd (transaction_process w c (idempotency_key x3) fi (a # as) (n # ns)
                            (wd_amount x3)) (\<lambda>p.
                     case p of
                       Inl (Transport m) \<Rightarrow> reconcile_locked w cfg x3 actor
                     | Inl (Api m) \<Rightarrow> fail_withdrawal w x3 m actor
                     | Inl f \<Rightarrow> uncaught f
                     | Inr resp \<Rightarrow>
                         bnd (update_withdrawal (\<lambda>x. x\<lparr>wd_provider_reference := Some (idempotency_key x),
                                wd_result_code := ps_resultcode resp,
                                wd_provider_message := ps_message resp\<rparr>) x3) (\<lambda>x4.
                         let d = ps_data resp in
                         apply_provider_result w x4 (ps_resultcode resp) (ps_message resp)
                           (Option.bind d pd_amount) (Option.bind d pd_currency)
                           (Option.bind d pd_trans_id)
                           (or_else (Option.bind d pd_receipt) (idempotency_key x4)) actor))))))
                 | _ \<Rightarrow> fail_withdrawal w x
                     ''Selcom could not verify a recipient name for this destination'' actor)))
        | _ \<Rightarrow> fail_withdrawal w x ''Withdrawal destination is missing or incomplete'' actor))"

subsection \<open>Requesting and confirming\<close>

definition find_flags :: "uuid \<Rightarrow> db \<Rightarrow> feature_flags option" where
  "find_flags tenant s = find (\<lambda>f. ff_tenant f = tenant) (flags_rows s)"

definition new_withdrawal ::
    "io \<Rightarrow> uuid \<Rightarrow> string \<Rightarrow> uuid \<Rightarrow> uuid \<Rightarrow> uuid \<Rightarrow> rat \<Rightarrow> bool \<Rightarrow> uuid \<Rightarrow> withdrawal" where
  "new_withdrawal w i key tenant wallet_id dest amount needs_approval actor =
     \<lparr>wd_id = i, wd_tenant = tenant, wd_wallet = wallet_id, wd_destination = dest,
      wd_amount = amount, wd_currency = ''TZS'', wd_status = W_DRAFT, idempotency_key = key,
      wd_provider_reference = None, failure_reason = None, submitted_at = None,
      wd_completed_at = None, approval_required = needs_approval,
      verified_recipient_name = None, provider_charge = None, wd_result_code = None,
      wd_provider_message = None, requested_by = Some actor, reviewed_by = None,
      reviewed_at = None, review_notes = None, two_factor_code_hash = None,
      two_factor_expires_at = None, two_factor_attempts = 0, two_factor_confirmed_at = None,
      otp_last_sent_at = None, otp_send_count = 0, otp_sent_to_email = None,
      wd_created_at = now w\<rparr>"

text \<open>The gates before any money is held, in their order.\<close>

definition request_gates ::
    "io \<Rightarrow> settings \<Rightarrow> uuid \<Rightarrow> uuid \<Rightarrow> uuid \<Rightarrow> rat \<Rightarrow> string op" where
  "request_gates w cfg tenant actor dest amount =
     thn (guard (\<not> amount \<le> 0) (DomainValidationError ''amount must be greater than zero''))
     (bnd (gets (find_destination tenant dest)) (\<lambda>d.
      thn (guard (d \<noteq> None)
             (DomainValidationError ''destination_id does not belong to this tenant''))
     (bnd (gets (get_mode tenant)) (\<lambda>mode.
      thn (guard (mode = M_PLATFORM_MANAGED_WALLET)
             (DomainValidationError ''This tenant is configured for direct merchant settlement''))
     (thn (guard (selcom_disbursement_enabled cfg)
             (DomainValidationError ''Selcom disbursement is disabled on this platform''))
     (bnd (gets (find_flags tenant)) (\<lambda>flags.
      thn (guard (\<exists>f \<in> set_option flags. payout_enabled f)
             (DomainValidationError ''Payouts are not enabled for this tenant''))
     (bnd (resolve_verified_email tenant actor) (\<lambda>email.
      thn (enforce_withdrawal_limits w cfg tenant amount)
     (ret email))))))))))"

text \<open>The hold; the wallet's own refusal is given to the requester in other words.\<close>

definition hold_funds :: "uuid \<Rightarrow> rat \<Rightarrow> wallet op" where
  "hold_funds tenant amount =
     except (reserve_for_withdrawal tenant amount)
       (\<lambda>e. case e of
          DomainValidationError _ \<Rightarrow>
            raise (DomainValidationError ''Requested amount exceeds available wallet balance'')
        | _ \<Rightarrow> raise e)"

definition insert_withdrawal ::
    "io \<Rightarrow> uuid \<Rightarrow> uuid \<Rightarrow> uuid \<Rightarrow> rat \<Rightarrow> bool \<Rightarrow> wallet \<Rightarrow> withdrawal op" where
  "insert_withdrawal w tenant actor dest amount needs_approval wal =
     bnd (store amount) (\<lambda>stored.
     bnd fresh (\<lambda>i.
     bnd fresh (\<lambda>k.
     let x = new_withdrawal w i (id_text k) tenant (wal_id wal) dest stored needs_approval actor in
     thn (modify (\<lambda>s. s\<lparr>withdrawals := withdrawals s @ [x]\<rparr>))
     (thn (create_event w x None W_DRAFT (Some actor) None)
     (thn (write_audit_log w (Some tenant) (Some actor) ''withdrawal.requested''
             (Some ''withdrawal'') (Some i) [(''amount'', MAmount amount)])
     (thn (write_audit_log w (Some tenant) (Some actor) ''withdrawal.otp_requested''
             (Some ''withdrawal'') (Some i) [])
     (ret x)))))))"

definition request_withdrawal ::
    "io \<Rightarrow> settings \<Rightarrow> uuid \<Rightarrow> uuid \<Rightarrow> uuid \<Rightarrow> rat \<Rightarrow> (withdrawal \<times> bool \<times> string \<times> int) op" where
  "request_withdrawal w cfg tenant actor dest amount =
     bnd (request_gates w cfg tenant actor dest amount) (\<lambda>email.
     let needs_approval = amount > selcom_withdrawal_approval_threshold_tzs cfg in
     bnd (hold_funds tenant amount) (\<lambda>wal.
     bnd (insert_withdrawal w tenant actor dest amount needs_approval wal) (\<lambda>x.
     bnd (issue_and_send_otp w cfg x email actor False) (\<lambda>(x', sent, expires).
     ret (x', sent, mask_email email, expires)))))"

definition send_super_admin_review_email :: "io \<Rightarrow> settings \<Rightarrow> withdrawal \<Rightarrow> unit op" where
  "send_super_admin_review_email w cfg x =
     whenever (truthy (super_admin_review_email cfg))
       (write_audit_log w (Some (wd_tenant x)) None
          (if mail_sent (mail w) then ''withdrawal.super_admin_email_sent''
           else ''withdrawal.super_admin_email_failed'')
          (Some ''withdrawal'') (Some (wd_id x)) [])"

record confirmation =
  cf_withdrawal :: withdrawal
  cf_verified :: bool
  cf_cancelled :: bool

definition audit_withdrawal :: "io \<Rightarrow> uuid \<Rightarrow> uuid \<Rightarrow> string \<Rightarrow> uuid \<Rightarrow> unit op" where
  "audit_withdrawal w tenant actor action i =
     write_audit_log w (Some tenant) (Some actor) action (Some ''withdrawal'') (Some i) []"

text \<open>What follows the verification, by its result.\<close>

definition after_verify ::
    "io \<Rightarrow> settings \<Rightarrow> uuid \<Rightarrow> uuid \<Rightarrow> uuid \<Rightarrow> withdrawal \<Rightarrow> bool \<times> withdrawal \<Rightarrow> confirmation op" where
  "after_verify w cfg tenant i actor x = (\<lambda>(verified, x1).
      if verified then
        thn (audit_withdrawal w tenant actor ''withdrawal.otp_verified'' (wd_id x1))
        (bnd (if approval_required x1 then
                bnd (transition w x1 W_PENDING_APPROVAL (Some actor) None []) (\<lambda>x2.
                thn (send_super_admin_review_email w cfg x2) (ret x2))
              else
                bnd (transition w x1 W_APPROVED (Some actor) None []) (\<lambda>x2.
                submit_to_selcom w cfg x2 (Some actor))) (\<lambda>x3.
         ret \<lparr>cf_withdrawal = x3, cf_verified = True, cf_cancelled = False\<rparr>))
      else if is_exhausted w cfg x1 then
        thn (audit_withdrawal w tenant actor
               (if two_factor_attempts x1 \<ge> withdrawal_otp_max_attempts cfg
                then ''withdrawal.otp_locked'' else ''withdrawal.otp_expired'') (wd_id x1))
        (bnd (release_reservation tenant (wd_amount x1)) (\<lambda>_.
         bnd (transition w x1 W_CANCELLED (Some actor)
                (Some ''2FA confirmation failed too many times or the code expired'') []) (\<lambda>x2.
         ret \<lparr>cf_withdrawal = x2, cf_verified = False, cf_cancelled = True\<rparr>)))
      else
        thn (audit_withdrawal w tenant actor
               (if otp_expired w x then ''withdrawal.otp_expired'' else ''withdrawal.otp_failed'')
               (wd_id x1))
        (ret \<lparr>cf_withdrawal = x1, cf_verified = False, cf_cancelled = False\<rparr>))"

definition confirm_two_factor ::
    "io \<Rightarrow> settings \<Rightarrow> uuid \<Rightarrow> uuid \<Rightarrow> uuid \<Rightarrow> string \<Rightarrow> confirmation op" where
  "confirm_two_factor w cfg tenant i actor otp =
     bnd (find_withdrawal (Some tenant) i) (\<lambda>x.
     thn (guard (requested_by x = Some actor)
            (DomainValidationError ''Only the requester can confirm this withdrawal's 2FA code''))
     (thn (guard (wd_status x = W_DRAFT)
             (DomainValidationError ''Withdrawal is not awaiting 2FA confirmation''))
     (bnd (gets (\<lambda>s. Option.bind (find_profile tenant actor s) pr_email)) (\<lambda>current_email.
      bnd (verify w cfg x otp current_email) (after_verify w cfg tenant i actor x)))))"

subsection \<open>Review, cancellation, reversal\<close>

definition approve_withdrawal ::
    "io \<Rightarrow> settings \<Rightarrow> uuid \<Rightarrow> uuid \<Rightarrow> string option \<Rightarrow> withdrawal op" where
  "approve_withdrawal w cfg i actor notes =
     bnd (find_withdrawal None i) (\<lambda>x.
     thn (guard (wd_status x = W_PENDING_APPROVAL)
            (DomainValidationError ''Withdrawal is not pending approval''))
     (bnd (update_withdrawal (\<lambda>x. x\<lparr>reviewed_by := Some actor, reviewed_at := Some (now w),
             review_notes := notes\<rparr>) x) (\<lambda>x1.
      bnd (transition w x1 W_APPROVED (Some actor) notes []) (\<lambda>x2.
      submit_to_selcom w cfg x2 (Some actor)))))"

definition reject_withdrawal :: "io \<Rightarrow> uuid \<Rightarrow> uuid \<Rightarrow> string \<Rightarrow> withdrawal op" where
  "reject_withdrawal w i actor reason =
     thn (guard (reason \<noteq> [] \<and> strip reason \<noteq> [])
            (DomainValidationError ''A rejection requires a reason''))
     (bnd (find_withdrawal None i) (\<lambda>x.
      thn (guard (wd_status x = W_PENDING_APPROVAL)
             (DomainValidationError ''Withdrawal is not pending approval''))
      (bnd (release_reservation (wd_tenant x) (wd_amount x)) (\<lambda>_.
       bnd (update_withdrawal (\<lambda>x. x\<lparr>reviewed_by := Some actor, reviewed_at := Some (now w),
              review_notes := Some reason, wd_completed_at := Some (now w)\<rparr>) x) (\<lambda>x1.
       transition w x1 W_REJECTED (Some actor) (Some reason) [])))))"

definition cancel_withdrawal ::
    "io \<Rightarrow> uuid \<Rightarrow> uuid \<Rightarrow> uuid \<Rightarrow> string option \<Rightarrow> withdrawal op" where
  "cancel_withdrawal w tenant i actor reason =
     bnd (find_withdrawal (Some tenant) i) (\<lambda>x.
     thn (guard (requested_by x = Some actor)
            (DomainValidationError ''Only the requester can cancel this withdrawal''))
     (thn (guard (wd_status x \<in> {W_DRAFT, W_PENDING_APPROVAL})
             (DomainValidationError ''Withdrawal can no longer be cancelled''))
      (bnd (release_reservation tenant (wd_amount x)) (\<lambda>_.
       bnd (update_withdrawal (\<lambda>x. x\<lparr>wd_completed_at := Some (now w)\<rparr>) x) (\<lambda>x1.
       transition w x1 W_CANCELLED (Some actor) reason [])))))"

definition reverse_withdrawal ::
    "io \<Rightarrow> uuid \<Rightarrow> uuid \<Rightarrow> uuid option \<Rightarrow> string \<Rightarrow> withdrawal op" where
  "reverse_withdrawal w tenant i actor reason =
     thn (guard (reason \<noteq> [] \<and> strip reason \<noteq> [])
            (DomainValidationError ''A reversal requires a reason''))
     (bnd (find_withdrawal (Some tenant) i) (\<lambda>x.
      thn (guard (wd_status x = W_SUCCESS)
             (DomainValidationError ''Only a successfully disbursed withdrawal can be reversed''))
      (bnd (reverse_disbursement w tenant (wd_amount x) ''withdrawal'' (Some (wd_id x))
              (Some reason)) (\<lambda>_.
       transition w x W_REVERSED actor (Some reason) []))))"

subsection \<open>Lookup preview\<close>

record lookup_preview =
  lp_account_name :: "string option"
  lp_operator :: "string option"
  lp_total_charges :: "rat option"
  lp_approval_required :: bool

definition preview_lookup :: "io \<Rightarrow> settings \<Rightarrow> uuid \<Rightarrow> uuid \<Rightarrow> rat \<Rightarrow> lookup_preview op" where
  "preview_lookup w cfg tenant dest amount =
     bnd (gets (find_destination tenant dest)) (\<lambda>d.
     bnd (require (DomainValidationError ''destination_id does not belong to this tenant'') d)
       (\<lambda>d.
     case (dst_code d, dst_account_number d) of
       (Some fi, Some (a # as)) \<Rightarrow>
         bnd (business_config_from_settings cfg) (\<lambda>c.
         bnd fresh (\<lambda>k.
         bnd (account_lookup w c fi (a # as) (''lookup-'' @ id_text k) amount) (\<lambda>r.
         case r of
           Inl f \<Rightarrow> raise (DomainValidationError ''Could not verify destination account'')
         | Inr data \<Rightarrow>
             ret \<lparr>lp_account_name = Option.bind data lk_account_name,
               lp_operator = Option.bind data lk_operator,
               lp_total_charges = Option.bind data lk_total_charges,
               lp_approval_required = amount > selcom_withdrawal_approval_threshold_tzs cfg\<rparr>)))
     | _ \<Rightarrow> raise (DomainValidationError ''This destination has no verified account to look up'')))"

subsection \<open>Reconciliation\<close>

definition reconcile_withdrawal :: "io \<Rightarrow> settings \<Rightarrow> uuid \<Rightarrow> withdrawal op" where
  "reconcile_withdrawal w cfg i =
     bnd (find_withdrawal None i) (\<lambda>x. reconcile_locked w cfg x None)"

definition reconcile_if_pending :: "io \<Rightarrow> settings \<Rightarrow> uuid \<Rightarrow> (withdrawal \<times> bool) op" where
  "reconcile_if_pending w cfg i =
     bnd (find_withdrawal None i) (\<lambda>x.
     if wd_status x \<notin> {W_PROCESSING, W_AMBIGUOUS} then ret (x, False)
     else bnd (reconcile_locked w cfg x None) (\<lambda>x'. ret (x', True)))"

definition last_alert_at :: "uuid \<Rightarrow> db \<Rightarrow> time option" where
  "last_alert_at i s =
     (case map au_created_at (filter (\<lambda>a. au_target a = Some i \<and>
             au_action a = ''withdrawal.stale_alert_sent'') (audit_logs s)) of
        [] \<Rightarrow> None
      | t # ts \<Rightarrow> Some (foldl max t ts))"

definition py_int :: "rat \<Rightarrow> int" where
  "py_int x = (if 0 \<le> x then \<lfloor>x\<rfloor> else \<lceil>x\<rceil>)"

definition maybe_alert_stale :: "io \<Rightarrow> settings \<Rightarrow> withdrawal \<Rightarrow> bool op" where
  "maybe_alert_stale w cfg x =
     (case (case wd_status x of
              W_PROCESSING \<Rightarrow> Some (withdrawal_processing_alert_minutes cfg)
            | W_AMBIGUOUS \<Rightarrow> Some (withdrawal_ambiguous_alert_minutes cfg)
            | _ \<Rightarrow> None) of
        None \<Rightarrow> ret False
      | Some threshold \<Rightarrow>
          let reference_time = (case submitted_at x of Some t \<Rightarrow> t | None \<Rightarrow> wd_created_at x);
              age_minutes = (of_int (now w - reference_time) :: rat) / 1000000 / 60
          in if age_minutes < of_int threshold then ret False
             else bnd (gets (last_alert_at (wd_id x))) (\<lambda>last.
               if (\<exists>t \<in> set_option last.
                     now w - t < minutes (withdrawal_stale_alert_cooldown_minutes cfg))
               then ret False
               else thn (write_audit_log w (Some (wd_tenant x)) None
                        ''withdrawal.stale_alert_sent'' (Some ''withdrawal'') (Some (wd_id x))
                        [(''status'', MStr (withdrawal_status_value (wd_status x))),
                         (''stuck_minutes'', MInt (py_int age_minutes)),
                         (''email_sent'', MBool (mail_sent (mail w)))])
                 (ret (mail_sent (mail w)))))"

definition apply_disbursement_result ::
    "io \<Rightarrow> uuid \<Rightarrow> bool \<Rightarrow> string \<Rightarrow> string option \<Rightarrow> withdrawal op" where
  "apply_disbursement_result w i provider_succeeded reference detail =
     bnd (find_withdrawal None i) (\<lambda>x.
     if wd_status x \<noteq> W_PROCESSING then ret x
     else if provider_succeeded then
       bnd (complete_disbursement w (wd_tenant x) (wd_amount x) ''withdrawal'' (Some (wd_id x))
              (Some (''Selcom disbursement '' @ reference))) (\<lambda>_.
       bnd (update_withdrawal (\<lambda>x. x\<lparr>wd_provider_reference := Some reference,
              wd_completed_at := Some (now w)\<rparr>) x) (\<lambda>x1.
       transition w x1 W_SUCCESS None detail []))
     else fail_withdrawal w x (or_else detail ''Selcom reported disbursement failure'') None)"

end
