(* ===== verification/Payout_Spec.thy ===== *)
theory Payout_Spec
  imports Service_State
begin

text \<open>
  What the payout service promises, as a small abstract machine: accounts with an available, a
  reserved and a disbursed balance, payouts with an amount, a transfer key and a status, the trail
  of recorded status changes, and the keys of the transfers handed to the provider. Every edge of
  the status graph has one effect on the accounts. The invariant \<open>sound\<close> is proved for the machine
  here, once; \<open>Payout_System\<close> shows that the code's operations are runs of it.
\<close>

datatype funds = Keep | Release | Pay | Refund

fun edge :: "withdrawal_status \<Rightarrow> withdrawal_status \<Rightarrow> funds option" where
  "edge W_DRAFT W_PENDING_APPROVAL = Some Keep"
| "edge W_DRAFT W_APPROVED = Some Keep"
| "edge W_DRAFT W_CANCELLED = Some Release"
| "edge W_PENDING_APPROVAL W_APPROVED = Some Keep"
| "edge W_PENDING_APPROVAL W_REJECTED = Some Release"
| "edge W_PENDING_APPROVAL W_CANCELLED = Some Release"
| "edge W_APPROVED W_PROCESSING = Some Keep"
| "edge W_APPROVED W_FAILED = Some Release"
| "edge W_PROCESSING W_AMBIGUOUS = Some Keep"
| "edge W_PROCESSING W_SUCCESS = Some Pay"
| "edge W_PROCESSING W_FAILED = Some Release"
| "edge W_AMBIGUOUS W_AMBIGUOUS = Some Keep"
| "edge W_AMBIGUOUS W_SUCCESS = Some Pay"
| "edge W_AMBIGUOUS W_FAILED = Some Release"
| "edge W_SUCCESS W_REVERSED = Some Refund"
| "edge _ _ = None"

definition live :: "withdrawal_status \<Rightarrow> bool" where
  "live st \<longleftrightarrow> st \<in> {W_DRAFT, W_PENDING_APPROVAL, W_APPROVED, W_PROCESSING, W_AMBIGUOUS}"

definition unsent :: "withdrawal_status \<Rightarrow> bool" where
  "unsent st \<longleftrightarrow> st \<in> {W_DRAFT, W_PENDING_APPROVAL, W_APPROVED, W_REJECTED, W_CANCELLED}"

text \<open>Exactly the edges out of live statuses that leave them move the reserved funds.\<close>

lemma edge_live:
  "edge a b = Some Keep \<Longrightarrow> live a \<and> live b" "edge a b = Some Release \<Longrightarrow> live a \<and> \<not> live b"
  "edge a b = Some Pay \<Longrightarrow> live a \<and> b = W_SUCCESS"
  "edge a b = Some Refund \<Longrightarrow> a = W_SUCCESS \<and> b = W_REVERSED"
  by (cases a; cases b; simp add: live_def)+

lemma edge_success: "edge a b = Some f \<Longrightarrow> b = W_SUCCESS \<longleftrightarrow> f = Pay"
  "edge a b = Some f \<Longrightarrow> a = W_SUCCESS \<longleftrightarrow> f = Refund"
  by (cases a; cases b; auto)+

lemma edge_unsent: "edge a b = Some f \<Longrightarrow> b \<noteq> W_PROCESSING \<Longrightarrow> unsent b \<Longrightarrow> unsent a"
  by (cases a; cases b) (auto simp: unsent_def)

text \<open>Nothing leaves a terminal status but the reversal of a success.\<close>

lemma edge_terminal: "edge a b = Some f \<Longrightarrow> a \<in> set WITHDRAWAL_TERMINAL_STATUSES \<Longrightarrow>
    a = W_SUCCESS \<and> b = W_REVERSED"
  by (cases a; cases b) (auto simp: WITHDRAWAL_TERMINAL_STATUSES_def)

record payout =
  po_id :: uuid
  po_tenant :: uuid
  po_amount :: rat
  po_key :: string
  po_status :: withdrawal_status

record payouts =
  po_available :: "uuid \<Rightarrow> rat"
  po_reserved :: "uuid \<Rightarrow> rat"
  po_disbursed :: "uuid \<Rightarrow> rat"
  po_list :: "payout list"
  po_trail :: "(uuid \<times> withdrawal_status option \<times> withdrawal_status) list"
  po_sent :: "string list"

definition add_to :: "uuid \<Rightarrow> rat \<Rightarrow> (uuid \<Rightarrow> rat) \<Rightarrow> uuid \<Rightarrow> rat" where
  "add_to t a f = (\<lambda>t'. if t' = t then f t' + a else f t')"

fun move_funds :: "funds \<Rightarrow> uuid \<Rightarrow> rat \<Rightarrow> payouts \<Rightarrow> payouts" where
  "move_funds Keep t a S = S"
| "move_funds Release t a S = S\<lparr>po_reserved := add_to t (- a) (po_reserved S),
     po_available := add_to t a (po_available S)\<rparr>"
| "move_funds Pay t a S = S\<lparr>po_reserved := add_to t (- a) (po_reserved S),
     po_disbursed := add_to t a (po_disbursed S)\<rparr>"
| "move_funds Refund t a S = S\<lparr>po_disbursed := add_to t (- a) (po_disbursed S),
     po_available := add_to t a (po_available S)\<rparr>"

definition set_status :: "payout \<Rightarrow> withdrawal_status \<Rightarrow> payouts \<Rightarrow> payouts" where
  "set_status p b S = S\<lparr>po_list := row_put po_id (p\<lparr>po_status := b\<rparr>) (po_list S),
     po_trail := po_trail S @ [(po_id p, Some (po_status p), b)]\<rparr>"

definition new_payout :: "payout \<Rightarrow> payouts \<Rightarrow> payouts" where
  "new_payout p S = S\<lparr>po_available := add_to (po_tenant p) (- po_amount p) (po_available S),
     po_reserved := add_to (po_tenant p) (po_amount p) (po_reserved S),
     po_list := po_list S @ [p], po_trail := po_trail S @ [(po_id p, None, W_DRAFT)]\<rparr>"

inductive spec_step :: "payouts \<Rightarrow> payouts \<Rightarrow> bool" where
  request: "po_status p = W_DRAFT \<Longrightarrow> 0 < po_amount p \<Longrightarrow>
      po_amount p \<le> po_available S (po_tenant p) \<Longrightarrow>
      po_id p \<notin> po_id ` set (po_list S) \<Longrightarrow> po_key p \<notin> po_key ` set (po_list S) \<Longrightarrow>
      po_key p \<notin> set (po_sent S) \<Longrightarrow>
      spec_step S (new_payout p S)"
| move: "row_find po_id i (po_list S) = Some p \<Longrightarrow> edge (po_status p) b = Some f \<Longrightarrow>
      b \<noteq> W_PROCESSING \<Longrightarrow>
      spec_step S (set_status p b (move_funds f (po_tenant p) (po_amount p) S))"
| submit: "row_find po_id i (po_list S) = Some p \<Longrightarrow> po_status p = W_APPROVED \<Longrightarrow>
      S' = set_status p W_PROCESSING S \<Longrightarrow>
      spec_step S (S'\<lparr>po_sent := po_sent S' @ [po_key p]\<rparr>)"
| credit: "spec_step S (S\<lparr>po_available := g\<rparr>)"

subsection \<open>The invariant\<close>

definition held :: "uuid \<Rightarrow> payout list \<Rightarrow> rat" where
  "held t ps = sum_list (map (\<lambda>p. if po_tenant p = t \<and> live (po_status p) then po_amount p else 0) ps)"

definition paid :: "uuid \<Rightarrow> payout list \<Rightarrow> rat" where
  "paid t ps =
     sum_list (map (\<lambda>p. if po_tenant p = t \<and> po_status p = W_SUCCESS then po_amount p else 0) ps)"

definition follow_event ::
    "withdrawal_status option option \<Rightarrow> withdrawal_status option \<times> withdrawal_status \<Rightarrow>
     withdrawal_status option option" where
  "follow_event c e =
     (case c of
        None \<Rightarrow> None
      | Some current \<Rightarrow>
          if fst e = current \<and>
            (case current of None \<Rightarrow> snd e = W_DRAFT | Some a \<Rightarrow> edge a (snd e) \<noteq> None)
          then Some (Some (snd e)) else None)"

text \<open>
  The status a trail of events leads to: \<open>None\<close> when the trail is not one, that is when an event
  does not start where the one before it ended, or is no edge of the status graph.
\<close>

definition follow ::
    "(withdrawal_status option \<times> withdrawal_status) list \<Rightarrow> withdrawal_status option option" where
  "follow es = foldl follow_event (Some None) es"

definition trail_of ::
    "uuid \<Rightarrow> (uuid \<times> withdrawal_status option \<times> withdrawal_status) list \<Rightarrow>
     (withdrawal_status option \<times> withdrawal_status) list" where
  "trail_of i tr = map snd (filter (\<lambda>e. fst e = i) tr)"

definition sound :: "payouts \<Rightarrow> bool" where
  "sound S \<longleftrightarrow>
     distinct (map po_id (po_list S)) \<and> distinct (map po_key (po_list S)) \<and>
     (\<forall>p \<in> set (po_list S). 0 < po_amount p) \<and>
     (\<forall>t. po_reserved S t = held t (po_list S)) \<and>
     (\<forall>t. po_disbursed S t = paid t (po_list S)) \<and>
     (\<forall>p \<in> set (po_list S). follow (trail_of (po_id p) (po_trail S)) = Some (Some (po_status p))) \<and>
     (\<forall>i. i \<notin> po_id ` set (po_list S) \<longrightarrow> trail_of i (po_trail S) = []) \<and>
     distinct (po_sent S) \<and> set (po_sent S) \<subseteq> po_key ` set (po_list S) \<and>
     (\<forall>p \<in> set (po_list S). unsent (po_status p) \<longrightarrow> po_key p \<notin> set (po_sent S))"

lemma follow_snoc: "follow (es @ [e]) = follow_event (follow es) e"
  by (simp add: follow_def)

lemma trail_of_snoc:
  "trail_of i (tr @ [(j, e)]) = trail_of i tr @ (if j = i then [e] else [])"
  by (simp add: trail_of_def)

lemma move_funds_same [simp]:
  "po_list (move_funds f t a S) = po_list S" "po_trail (move_funds f t a S) = po_trail S"
  "po_sent (move_funds f t a S) = po_sent S"
  by (cases f; simp)+

lemma set_status_fields [simp]:
  "po_list (set_status p b S) = row_put po_id (p\<lparr>po_status := b\<rparr>) (po_list S)"
  "po_trail (set_status p b S) = po_trail S @ [(po_id p, Some (po_status p), b)]"
  "po_sent (set_status p b S) = po_sent S" "po_available (set_status p b S) = po_available S"
  "po_reserved (set_status p b S) = po_reserved S" "po_disbursed (set_status p b S) = po_disbursed S"
  by (simp_all add: set_status_def)

text \<open>Moving along an edge keeps the sums equal to the accounts.\<close>

lemma held_move:
  assumes "distinct (map po_id ps)" "row_find po_id i ps = Some p"
  shows "held t (row_put po_id (p\<lparr>po_status := b\<rparr>) ps) = held t ps
      - (if po_tenant p = t \<and> live (po_status p) then po_amount p else 0)
      + (if po_tenant p = t \<and> live b then po_amount p else 0)"
    and "paid t (row_put po_id (p\<lparr>po_status := b\<rparr>) ps) = paid t ps
      - (if po_tenant p = t \<and> po_status p = W_SUCCESS then po_amount p else 0)
      + (if po_tenant p = t \<and> b = W_SUCCESS then po_amount p else 0)"
proof -
  have "row_find po_id (po_id (p\<lparr>po_status := b\<rparr>)) ps = Some p"
    using assms(2) row_find_Some [OF assms(2)] by simp
  note sums = sum_list_row_put [OF assms(1) this]
  show "held t (row_put po_id (p\<lparr>po_status := b\<rparr>) ps) = held t ps
      - (if po_tenant p = t \<and> live (po_status p) then po_amount p else 0)
      + (if po_tenant p = t \<and> live b then po_amount p else 0)"
    unfolding held_def by (subst sums) simp
  show "paid t (row_put po_id (p\<lparr>po_status := b\<rparr>) ps) = paid t ps
      - (if po_tenant p = t \<and> po_status p = W_SUCCESS then po_amount p else 0)
      + (if po_tenant p = t \<and> b = W_SUCCESS then po_amount p else 0)"
    unfolding paid_def by (subst sums) simp
qed

lemma move_accounts:
  assumes "edge (po_status p) b = Some f"
  shows "po_reserved (move_funds f (po_tenant p) (po_amount p) S) t = po_reserved S t
      - (if po_tenant p = t \<and> live (po_status p) then po_amount p else 0)
      + (if po_tenant p = t \<and> live b then po_amount p else 0)"
    and "po_disbursed (move_funds f (po_tenant p) (po_amount p) S) t = po_disbursed S t
      - (if po_tenant p = t \<and> po_status p = W_SUCCESS then po_amount p else 0)
      + (if po_tenant p = t \<and> b = W_SUCCESS then po_amount p else 0)"
  using assms edge_live [of "po_status p" b] edge_success [of "po_status p" b f]
  by (cases f; auto simp: add_to_def live_def)+

lemma follow_edge:
  "follow es = Some (Some a) \<Longrightarrow> edge a b \<noteq> None \<Longrightarrow> follow (es @ [(Some a, b)]) = Some (Some b)"
  by (simp add: follow_snoc follow_event_def)

text \<open>What every move along an edge keeps, whether or not a transfer is handed over with it.\<close>

lemma set_status_sound:
  assumes S: "sound S" and p: "row_find po_id i (po_list S) = Some p"
    and e: "edge (po_status p) b = Some f"
    and S': "S' = set_status p b (move_funds f (po_tenant p) (po_amount p) S)"
  shows "distinct (map po_id (po_list S'))" "map po_key (po_list S') = map po_key (po_list S)"
    "\<forall>p \<in> set (po_list S'). 0 < po_amount p"
    "po_reserved S' t = held t (po_list S')" "po_disbursed S' t = paid t (po_list S')"
    "\<forall>p \<in> set (po_list S'). follow (trail_of (po_id p) (po_trail S')) = Some (Some (po_status p))"
    "\<forall>i. i \<notin> po_id ` set (po_list S') \<longrightarrow> trail_of i (po_trail S') = []"
    "q \<in> set (po_list S') \<longleftrightarrow> q = p\<lparr>po_status := b\<rparr> \<or> (q \<in> set (po_list S) \<and> po_id q \<noteq> po_id p)"
proof -
  from p have pin: "p \<in> set (po_list S)" "po_id p = i" by (auto dest: row_find_Some)
  have dist: "distinct (map po_id (po_list S))" using S by (simp add: sound_def)
  have found: "row_find po_id (po_id (p\<lparr>po_status := b\<rparr>)) (po_list S) = Some p"
    using p pin by simp
  note iff = row_put_set_iff [OF found]
  show "distinct (map po_id (po_list S'))" using dist by (simp add: S')
  show "map po_key (po_list S') = map po_key (po_list S)"
    unfolding S' set_status_fields move_funds_same
    by (rule row_put_map) (use row_find_unique [OF dist found] in \<open>auto simp: pin\<close>)
  show mem: "q \<in> set (po_list S') \<longleftrightarrow>
      q = p\<lparr>po_status := b\<rparr> \<or> (q \<in> set (po_list S) \<and> po_id q \<noteq> po_id p)" for q
    by (simp add: S' iff)
  show "\<forall>p \<in> set (po_list S'). 0 < po_amount p"
    using S pin by (auto simp: mem sound_def)
  show "po_reserved S' t = held t (po_list S')" "po_disbursed S' t = paid t (po_list S')"
    using S by (simp_all add: S' held_move [OF dist p] move_accounts [OF e] sound_def)
  have tr: "trail_of j (po_trail S') =
      trail_of j (po_trail S) @ (if j = po_id p then [(Some (po_status p), b)] else [])" for j
    by (auto simp: S' trail_of_snoc)
  show "\<forall>q \<in> set (po_list S'). follow (trail_of (po_id q) (po_trail S')) = Some (Some (po_status q))"
  proof
    fix q assume q: "q \<in> set (po_list S')"
    show "follow (trail_of (po_id q) (po_trail S')) = Some (Some (po_status q))"
    proof (cases "q = p\<lparr>po_status := b\<rparr>")
      case True
      have "follow (trail_of (po_id p) (po_trail S)) = Some (Some (po_status p))"
        using S pin by (auto simp: sound_def)
      with True e show ?thesis by (simp add: tr follow_edge)
    next
      case False
      with q mem [of q] S show ?thesis by (simp add: tr sound_def)
    qed
  qed
  have "po_id ` set (po_list S') = po_id ` set (po_list S)"
    by (metis S' list.set_map move_funds_same(1) row_put_keys set_status_fields(1))
  then show "\<forall>i. i \<notin> po_id ` set (po_list S') \<longrightarrow> trail_of i (po_trail S') = []"
    using S pin by (auto simp: S' trail_of_snoc sound_def)
qed

lemma sound_request:
  assumes S: "sound S" and p: "po_status p = W_DRAFT" "0 < po_amount p"
    "po_id p \<notin> po_id ` set (po_list S)" "po_key p \<notin> po_key ` set (po_list S)"
    "po_key p \<notin> set (po_sent S)"
  shows "sound (new_payout p S)"
proof -
  have "held t (po_list S @ [p]) = held t (po_list S) + (if po_tenant p = t then po_amount p else 0)"
    "paid t (po_list S @ [p]) = paid t (po_list S)" for t
    using p by (auto simp: held_def paid_def live_def)
  moreover have "trail_of (po_id p) (po_trail S) = []" using S p by (auto simp: sound_def)
  moreover have "follow [(None, W_DRAFT)] = Some (Some W_DRAFT)"
    by (simp add: follow_def follow_event_def)
  ultimately show ?thesis
    using S p by (auto simp: sound_def new_payout_def add_to_def trail_of_snoc)
qed

text \<open>Every run of the machine keeps the books.\<close>

lemma spec_step_sound: "spec_step S S' \<Longrightarrow> sound S \<Longrightarrow> sound S'"
proof (induction rule: spec_step.induct)
  case (request p S)
  then show ?case by (intro sound_request)
next
  case (move i S p b f)
  define T where "T = set_status p b (move_funds f (po_tenant p) (po_amount p) S)"
  note core = set_status_sound [OF move(4) move(1,2) T_def]
  have sent: "distinct (po_sent S)" "set (po_sent S) \<subseteq> po_key ` set (po_list S)"
    "\<forall>p \<in> set (po_list S). unsent (po_status p) \<longrightarrow> po_key p \<notin> set (po_sent S)"
    and keys: "distinct (map po_key (po_list S))"
    using move(4) by (auto simp: sound_def)
  have p: "p \<in> set (po_list S)" using move(1) by (auto dest: row_find_Some)
  have same: "po_sent T = po_sent S" by (simp add: T_def)
  have img: "po_key ` set (po_list T) = po_key ` set (po_list S)"
    using core(2) by (metis list.set_map)
  have "\<forall>q \<in> set (po_list T). unsent (po_status q) \<longrightarrow> po_key q \<notin> set (po_sent T)"
    using sent(3) p edge_unsent [OF move(2,3)] by (auto simp: core(8) same)
  with core(1-7) sent(1,2) keys have "sound T"
    unfolding sound_def same img by simp
  then show ?case by (simp add: T_def)
next
  case (submit i S p S')
  have e: "edge (po_status p) W_PROCESSING = Some Keep" using submit(2) by simp
  have S': "S' = set_status p W_PROCESSING (move_funds Keep (po_tenant p) (po_amount p) S)"
    using submit(3) by simp
  note core = set_status_sound [OF submit(4) submit(1) e S']
  have sent: "distinct (po_sent S)" "set (po_sent S) \<subseteq> po_key ` set (po_list S)"
    "\<forall>p \<in> set (po_list S). unsent (po_status p) \<longrightarrow> po_key p \<notin> set (po_sent S)"
    and keys: "distinct (map po_key (po_list S))"
    using submit(4) by (auto simp: sound_def)
  have p: "p \<in> set (po_list S)" using submit(1) by (auto dest: row_find_Some)
  define T where "T = S'\<lparr>po_sent := po_sent S' @ [po_key p]\<rparr>"
  have same: "po_list T = po_list S'" "po_trail T = po_trail S'" "po_reserved T = po_reserved S'"
    "po_disbursed T = po_disbursed S'" "po_sent T = po_sent S @ [po_key p]"
    by (simp_all add: T_def submit(3))
  have new: "po_key p \<notin> set (po_sent S)" using sent(3) p submit(2) by (simp add: unsent_def)
  have img: "po_key ` set (po_list S') = po_key ` set (po_list S)"
    using core(2) by (metis list.set_map)
  have "po_key q \<noteq> po_key p" if "q \<in> set (po_list S)" "po_id q \<noteq> po_id p" for q
    using that p keys by (auto simp: distinct_map inj_on_def)
  then have "\<forall>q \<in> set (po_list S'). unsent (po_status q) \<longrightarrow> po_key q \<notin> set (po_sent T)"
    using sent(3) by (auto simp: core(8) same unsent_def)
  with core(1-7) sent(1,2) keys new p have "sound T"
    unfolding sound_def same img by auto
  then show ?case by (simp add: T_def)
next
  case (credit S g)
  then show ?case by (simp add: sound_def)
qed

lemma spec_sound: "spec_step\<^sup>*\<^sup>* S S' \<Longrightarrow> sound S \<Longrightarrow> sound S'"
  by (induction rule: rtranclp_induct) (auto intro: spec_step_sound)

text \<open>A terminal payout keeps its status, but for the reversal of a success.\<close>

definition stays :: "withdrawal_status \<Rightarrow> withdrawal_status \<Rightarrow> bool" where
  "stays a b \<longleftrightarrow> b = a \<or> (a = W_SUCCESS \<and> b = W_REVERSED)"

lemma spec_step_terminal:
  "spec_step S S' \<Longrightarrow> row_find po_id i (po_list S) = Some p \<Longrightarrow>
     po_status p \<in> set WITHDRAWAL_TERMINAL_STATUSES \<Longrightarrow>
     \<exists>p'. row_find po_id i (po_list S') = Some p' \<and>
       p' = p\<lparr>po_status := po_status p'\<rparr> \<and> stays (po_status p) (po_status p')"
proof (induction rule: spec_step.induct)
  case (request q S)
  then show ?case by (simp add: new_payout_def row_find_def find_append stays_def)
next
  case (move j S q b f)
  show ?case
  proof (cases "j = i")
    case True
    with move have "q = p" "po_id p = i" by (auto dest: row_find_Some)
    with move True edge_terminal [of "po_status p" b f]
      row_find_put_same [of po_id "p\<lparr>po_status := b\<rparr>" "po_list S" p]
    show ?thesis by (auto simp: stays_def)
  next
    case False
    with move row_find_Some [OF move(1)] show ?thesis
      by (auto simp: row_find_put_other stays_def)
  qed
next
  case (submit j S q S')
  have "j \<noteq> i" using submit by (auto simp: WITHDRAWAL_TERMINAL_STATUSES_def)
  with submit row_find_Some [OF submit(1)] show ?case
    by (auto simp: row_find_put_other stays_def)
qed (auto simp: stays_def)

lemma spec_terminal:
  assumes "spec_step\<^sup>*\<^sup>* S S'" "row_find po_id i (po_list S) = Some p"
    "po_status p \<in> set WITHDRAWAL_TERMINAL_STATUSES"
  shows "\<exists>p'. row_find po_id i (po_list S') = Some p' \<and>
    p' = p\<lparr>po_status := po_status p'\<rparr> \<and> stays (po_status p) (po_status p')"
  using assms(1)
proof (induction rule: rtranclp_induct)
  case base
  then show ?case using assms by (auto simp: stays_def)
next
  case (step S1 S2)
  then obtain p1 where p1: "row_find po_id i (po_list S1) = Some p1"
    "p1 = p\<lparr>po_status := po_status p1\<rparr>" "stays (po_status p) (po_status p1)" by blast
  have "po_status p1 \<in> set WITHDRAWAL_TERMINAL_STATUSES"
    using p1(3) assms(3) by (auto simp: stays_def WITHDRAWAL_TERMINAL_STATUSES_def)
  from spec_step_terminal [OF step(2) p1(1) this] obtain p2
    where "row_find po_id i (po_list S2) = Some p2" "p2 = p1\<lparr>po_status := po_status p2\<rparr>"
      "stays (po_status p1) (po_status p2)" by blast
  with p1 show ?case by (intro exI [of _ p2]) (auto simp: stays_def)
qed

end
