(* ===== verification/Payout_System.thy ===== *)
theory Payout_System
  imports Payouts Payout_Spec
begin

text \<open>
  The payout service refines the machine of \<open>Payout_Spec\<close>. \<open>payouts_of\<close> is the abstraction: the
  balances of the wallets, the withdrawal rows, the recorded events and the transfers sent.
  Every request of the service, run in its transaction, is a run of the machine; the machine's
  invariant then holds of the database in every reachable state.
\<close>

subsection \<open>The abstraction\<close>

definition view :: "withdrawal \<Rightarrow> payout" where
  "view x = \<lparr>po_id = wd_id x, po_tenant = wd_tenant x, po_amount = wd_amount x,
     po_key = idempotency_key x, po_status = wd_status x\<rparr>"

definition event_view :: "withdrawal_event \<Rightarrow> uuid \<times> withdrawal_status option \<times> withdrawal_status" where
  "event_view e = (we_withdrawal e, we_from e, we_to e)"

fun transfer_key :: "provider_call \<Rightarrow> string list" where
  "transfer_key (TransactionProcess k _ _ _ _) = [k]"
| "transfer_key _ = []"

definition transfers :: "provider_call list \<Rightarrow> string list" where
  "transfers cs = concat (map transfer_key cs)"

definition payouts_of :: "db \<Rightarrow> payouts" where
  "payouts_of s = \<lparr>po_available = (\<lambda>t. balance B_AVAILABLE t s),
     po_reserved = (\<lambda>t. balance B_RESERVED t s),
     po_disbursed = (\<lambda>t. balance B_TOTAL_DISBURSED t s),
     po_list = map view (withdrawals s), po_trail = map event_view (withdrawal_events s),
     po_sent = transfers (provider_calls s)\<rparr>"

text \<open>Well-formed rows: distinct identifiers already handed out, amounts that are positive cents.\<close>

definition good :: "db \<Rightarrow> bool" where
  "good s \<longleftrightarrow> wallets_ok s \<and> distinct (map wd_id (withdrawals s)) \<and>
     (\<forall>x \<in> set (withdrawals s). wd_id x < next_id s \<and>
        (\<exists>k < next_id s. idempotency_key x = id_text k) \<and> two_places (wd_amount x) \<and> 0 < wd_amount x)"

definition reached :: "payouts \<Rightarrow> db \<Rightarrow> bool" where
  "reached S0 s \<longleftrightarrow> good s \<and> spec_step\<^sup>*\<^sup>* S0 (payouts_of s)"

text \<open>\<open>holding S0 x s\<close>: besides, \<open>x\<close> is the current row of its withdrawal.\<close>

definition holding :: "payouts \<Rightarrow> withdrawal \<Rightarrow> db \<Rightarrow> bool" where
  "holding S0 x s \<longleftrightarrow> reached S0 s \<and> row_find wd_id (wd_id x) (withdrawals s) = Some x"

lemma view_simps [simp]:
  "po_id (view x) = wd_id x" "po_tenant (view x) = wd_tenant x" "po_amount (view x) = wd_amount x"
  "po_key (view x) = idempotency_key x" "po_status (view x) = wd_status x"
  by (simp_all add: view_def)

lemma identity_simps:
  "identity x' = identity x \<longleftrightarrow> wd_id x' = wd_id x \<and> wd_tenant x' = wd_tenant x \<and>
     wd_wallet x' = wd_wallet x \<and> wd_destination x' = wd_destination x \<and> wd_amount x' = wd_amount x \<and>
     wd_currency x' = wd_currency x \<and> idempotency_key x' = idempotency_key x \<and>
     approval_required x' = approval_required x"
  by (simp add: identity_def)

lemma transfers_snoc [simp]: "transfers (cs @ [c]) = transfers cs @ transfer_key c"
  by (simp add: transfers_def)

lemma map_view_put:
  "map view (row_put wd_id x rows) = row_put po_id (view x) (map view rows)"
  by (auto simp: row_put_def)

lemma find_view:
  "row_find wd_id i rows = Some x \<Longrightarrow> row_find po_id i (map view rows) = Some (view x)"
  by (induction rows) (auto simp: row_find_def split: if_splits)

text \<open>Fields of the database the abstraction does not look at.\<close>

lemma balance_fields [simp]:
  "balance b t (s\<lparr>audit_logs := al\<rparr>) = balance b t s"
  "balance b t (s\<lparr>email_events := ee\<rparr>) = balance b t s"
  "balance b t (s\<lparr>provider_calls := pc\<rparr>) = balance b t s"
  "balance b t (s\<lparr>withdrawals := ws\<rparr>) = balance b t s"
  "balance b t (s\<lparr>withdrawal_events := we\<rparr>) = balance b t s"
  "balance b t (s\<lparr>next_id := n\<rparr>) = balance b t s"
  "balance b t (s\<lparr>destinations := d\<rparr>) = balance b t s"
  by (rule balance_cong; simp)+

lemma wallets_ok_fields [simp]:
  "wallets_ok (s\<lparr>audit_logs := al\<rparr>) = wallets_ok s"
  "wallets_ok (s\<lparr>email_events := ee\<rparr>) = wallets_ok s"
  "wallets_ok (s\<lparr>provider_calls := pc\<rparr>) = wallets_ok s"
  "wallets_ok (s\<lparr>withdrawals := ws\<rparr>) = wallets_ok s"
  "wallets_ok (s\<lparr>withdrawal_events := we\<rparr>) = wallets_ok s"
  "wallets_ok (s\<lparr>destinations := d\<rparr>) = wallets_ok s"
  by (simp_all add: wallets_ok_def)

lemma reached_fields [simp]:
  "reached S0 (s\<lparr>audit_logs := al\<rparr>) = reached S0 s"
  "reached S0 (s\<lparr>email_events := ee\<rparr>) = reached S0 s"
  "reached S0 (s\<lparr>destinations := d\<rparr>) = reached S0 s"
  by (simp_all add: reached_def good_def payouts_of_def)

lemma holding_fields [simp]:
  "holding S0 x (s\<lparr>audit_logs := al\<rparr>) = holding S0 x s" "holding S0 x (s\<lparr>email_events := ee\<rparr>) = holding S0 x s"
  by (simp_all add: holding_def)

lemma holding_call:
  "transfer_key c = [] \<Longrightarrow> holding S0 x s \<Longrightarrow> holding S0 x (s\<lparr>provider_calls := provider_calls s @ [c]\<rparr>)"
  by (simp add: holding_def reached_def good_def payouts_of_def)

lemma good_row: "good s \<Longrightarrow> row_find wd_id i (withdrawals s) = Some x \<Longrightarrow>
    two_places (wd_amount x) \<and> 0 < wd_amount x \<and> wd_id x = i"
  by (auto simp: good_def dest!: row_find_Some)

subsection \<open>One status change\<close>

text \<open>
  The core of the refinement: a concrete state in which one row has changed its status along an
  edge, the event is recorded and the balances have moved as the edge says is one step of the
  machine further.
\<close>

definition edge_effect :: "funds \<Rightarrow> uuid \<Rightarrow> rat \<Rightarrow> db \<Rightarrow> db \<Rightarrow> bool" where
  "edge_effect f t a s s' \<longleftrightarrow> wallets_ok s' \<and> wallet_frame s s' \<and>
     (case f of
        Keep \<Rightarrow> (\<forall>b t'. balance b t' s' = balance b t' s)
      | Release \<Rightarrow> moved B_RESERVED B_AVAILABLE t a s s'
      | Pay \<Rightarrow> moved B_RESERVED B_TOTAL_DISBURSED t a s s'
      | Refund \<Rightarrow> moved B_TOTAL_DISBURSED B_AVAILABLE t a s s')"

lemma edge_effect_payouts:
  assumes "edge_effect f t a s s'"
  shows "payouts_of s' = move_funds f t a (payouts_of s)"
  using assms
  by (cases f) (auto simp: edge_effect_def moved_def payouts_of_def add_to_def fun_eq_iff wallet_frame_def)

lemma frame_rows:
  "wallet_frame s s' \<Longrightarrow> withdrawals s' = withdrawals s \<and> withdrawal_events s' = withdrawal_events s \<and>
     provider_calls s' = provider_calls s \<and> next_id s \<le> next_id s'"
  by (auto simp: wallet_frame_def)

lemma good_put:
  assumes "good s" "row_find wd_id (wd_id x) (withdrawals s) = Some x" "identity x' = identity x"
  shows "good (s\<lparr>withdrawals := row_put wd_id x' (withdrawals s)\<rparr>)"
proof -
  have "x \<in> set (withdrawals s)" using assms(2) by (auto dest: row_find_Some)
  with assms show ?thesis
    by (auto simp: good_def identity_simps dest!: row_put_set)
qed

lemma good_effect: "good s \<Longrightarrow> edge_effect f t a s s' \<Longrightarrow> good s'"
  using frame_rows [of s s']
  by (auto simp: good_def edge_effect_def)

lemma find_put:
  "row_find wd_id (wd_id x) rows = Some x \<Longrightarrow> wd_id x' = wd_id x \<Longrightarrow>
     row_find wd_id (wd_id x) (row_put wd_id x' rows) = Some x'"
  using row_find_put_same [of wd_id x' rows x] by simp

text \<open>Changing fields that are neither identity nor status is no step at all.\<close>

lemma put_payouts:
  assumes g: "good s" and x: "row_find wd_id (wd_id x) (withdrawals s) = Some x"
    and same: "identity x' = identity x" "wd_status x' = wd_status x"
  shows "payouts_of (s\<lparr>withdrawals := row_put wd_id x' (withdrawals s)\<rparr>) = payouts_of s"
proof -
  have "view x' = view x" using same by (simp add: view_def identity_simps)
  moreover have "row_put po_id (view x) (map view (withdrawals s)) = map view (withdrawals s)"
  proof -
    have dist: "distinct (map po_id (map view (withdrawals s)))"
      using g by (simp add: good_def comp_def)
    have "p = view x" if "p \<in> set (map view (withdrawals s))" "po_id p = po_id (view x)" for p
      using row_find_unique [OF dist find_view [OF x] that(1)] that(2) by simp
    then show ?thesis
      unfolding row_put_def by (intro map_idI) metis
  qed
  ultimately show ?thesis by (simp add: payouts_of_def map_view_put)
qed

lemma holding_put:
  assumes "holding S0 x s" "identity x' = identity x" "wd_status x' = wd_status x"
  shows "holding S0 x' (s\<lparr>withdrawals := row_put wd_id x' (withdrawals s)\<rparr>)"
proof -
  have x: "row_find wd_id (wd_id x) (withdrawals s) = Some x" and g: "good s"
    using assms by (simp_all add: holding_def reached_def)
  show ?thesis
    using assms good_put [OF g x assms(2)] find_put [OF x, of x'] put_payouts [OF g x assms(2,3)]
    by (simp add: holding_def reached_def identity_simps)
qed

lemma update_at:
  assumes "\<And>x. identity (f x) = identity x" "\<And>x. wd_status (f x) = wd_status x"
  shows "triple (holding S0 x) (update_withdrawal f x) (\<lambda>x' s. holding S0 x' s \<and> x' = f x)"
proof (rule tripleI)
  fix s x' s'
  assume "holding S0 x s" "update_withdrawal f x s = (Inr x', s')"
  then show "holding S0 x' s' \<and> x' = f x"
    using holding_put [of S0 x s "f x"] assms [of x] by simp
qed

lemma update_same:
  assumes "\<And>x. identity (f x) = identity x" "\<And>x. wd_status (f x) = wd_status x"
  shows "triple (holding S0 x) (update_withdrawal f x)
    (\<lambda>x' s. holding S0 x' s \<and> identity x' = identity x \<and> wd_status x' = wd_status x)"
  by (rule triple_post [OF update_at [OF assms]]) (simp_all add: assms)

text \<open>
  A status change along an edge: the funds have moved since \<open>s\<close> (to \<open>u\<close>), then fields outside the
  identity were written (\<open>x1\<close>), then the transition ran.
\<close>

lemma transition_Inr:
  "transition w x b actor reason md s = (Inr x', s') \<Longrightarrow>
     x' = x\<lparr>wd_status := b\<rparr> \<and>
     withdrawals s' = row_put wd_id x' (withdrawals s) \<and>
     map event_view (withdrawal_events s') =
       map event_view (withdrawal_events s) @ [(wd_id x, Some (wd_status x), b)] \<and>
     wallets s' = wallets s \<and> next_id s' = next_id s \<and> provider_calls s' = provider_calls s"
  by (auto simp: transition_def run_simps create_event_def event_view_def)

lemma edge_step:
  assumes at: "holding S0 x s" and e: "edge (wd_status x) b = Some f"
    and eff: "edge_effect f (wd_tenant x) (wd_amount x) s u"
    and x1: "identity x1 = identity x" "wd_status x1 = wd_status x"
    and rows: "withdrawals u1 = row_put wd_id x1 (withdrawals u)"
    and same: "wallets u1 = wallets u" "next_id u1 = next_id u"
      "withdrawal_events u1 = withdrawal_events u" "provider_calls u1 = provider_calls u"
    and tr: "transition w x1 b actor reason md u1 = (Inr x', s')"
  shows "good s'" "row_find wd_id (wd_id x') (withdrawals s') = Some x'"
    "identity x' = identity x" "wd_status x' = b"
    "payouts_of s' = set_status (view x) b (move_funds f (wd_tenant x) (wd_amount x) (payouts_of s))"
proof -
  have x: "row_find wd_id (wd_id x) (withdrawals s) = Some x" and g: "good s"
    using at by (simp_all add: holding_def reached_def)
  note tr = transition_Inr [OF tr]
  have id1: "wd_id x1 = wd_id x" using x1 by (simp add: identity_simps)
  show idn: "identity x' = identity x" and st: "wd_status x' = b"
    using tr x1 by (simp_all add: identity_def)
  have id': "wd_id x' = wd_id x" using idn by (simp add: identity_simps)
  note fr = frame_rows [of s u]
  have eff': "wallet_frame s u" using eff by (simp add: edge_effect_def)
  have rows': "withdrawals s' = row_put wd_id x' (withdrawals u)"
    using tr rows id1 id' by (simp add: row_put_put)
  have xu: "row_find wd_id (wd_id x) (withdrawals u) = Some x" using fr [OF eff'] x by simp
  have gu: "good u" by (rule good_effect [OF g eff])
  have "good (u\<lparr>withdrawals := row_put wd_id x' (withdrawals u)\<rparr>)"
    by (rule good_put [OF gu xu idn])
  then show "good s'"
    using tr same rows' by (simp add: good_def wallets_ok_def)
  show "row_find wd_id (wd_id x') (withdrawals s') = Some x'"
    using find_put [OF xu id'] by (simp add: rows' id')
  have bal: "balance b' t s' = balance b' t u" for b' t
    by (rule balance_cong) (use tr same in simp)
  have "payouts_of s' = set_status (view x) b (payouts_of u)"
    unfolding payouts_of_def set_status_def
    using tr same rows' id1 x1 st idn
    by (simp add: bal map_view_put view_def identity_simps)
  then show "payouts_of s' =
      set_status (view x) b (move_funds f (wd_tenant x) (wd_amount x) (payouts_of s))"
    by (simp add: edge_effect_payouts [OF eff])
qed

lemma edge_at:
  assumes at: "holding S0 x s" and e: "edge (wd_status x) b = Some f" "b \<noteq> W_PROCESSING"
    and eff: "edge_effect f (wd_tenant x) (wd_amount x) s u"
    and x1: "identity x1 = identity x" "wd_status x1 = wd_status x"
    and rows: "withdrawals u1 = row_put wd_id x1 (withdrawals u)"
    and same: "wallets u1 = wallets u" "next_id u1 = next_id u"
      "withdrawal_events u1 = withdrawal_events u" "provider_calls u1 = provider_calls u"
    and tr: "transition w x1 b actor reason md u1 = (Inr x', s')"
  shows "holding S0 x' s'" "identity x' = identity x" "wd_status x' = b"
proof -
  note step = edge_step [OF at e(1) eff x1 rows same tr]
  have "row_find po_id (wd_id x) (po_list (payouts_of s)) = Some (view x)"
    using at find_view by (simp add: holding_def payouts_of_def)
  from spec_step.move [OF this, of b f]
  have "spec_step (payouts_of s) (payouts_of s')" using e by (simp add: step(5))
  then show "holding S0 x' s'" using step at by (auto simp: holding_def reached_def)
  show "identity x' = identity x" "wd_status x' = b" by (fact step)+
qed

subsection \<open>The operations are runs of the machine\<close>

definition at_status :: "payouts \<Rightarrow> withdrawal \<Rightarrow> withdrawal_status \<Rightarrow> withdrawal \<Rightarrow> db \<Rightarrow> bool" where
  "at_status S0 x b x' s \<longleftrightarrow> holding S0 x' s \<and> identity x' = identity x \<and> wd_status x' = b"

lemma holding_reached: "holding S0 x s \<Longrightarrow> reached S0 s"
  by (simp add: holding_def)

lemma at_status_reached: "at_status S0 x b x' s \<Longrightarrow> reached S0 s"
  by (simp add: at_status_def holding_def)

lemma keep_effect: "wallets_ok s \<Longrightarrow> edge_effect Keep t a s s"
  by (simp add: edge_effect_def)

lemma release_effect:
  "wallets_ok s \<Longrightarrow> two_places a \<Longrightarrow> release_reservation t a s = (Inr x, u) \<Longrightarrow>
     edge_effect Release t a s u"
  using release.run_ok release.run_moved keepsD [OF release.run_frame]
  by (auto simp: edge_effect_def)

lemma pay_effect:
  "wallets_ok s \<Longrightarrow> two_places a \<Longrightarrow> complete_disbursement w t a rt rf d s = (Inr x, u) \<Longrightarrow>
     edge_effect Pay t a s u"
  using disburse.run_ok [of s w t a rt rf d] disburse.run_moved [of s w t a rt rf d]
    keepsD [OF disburse.run_frame]
  by (auto simp: edge_effect_def)

lemma refund_effect:
  "wallets_ok s \<Longrightarrow> two_places a \<Longrightarrow> reverse_disbursement w t a rt rf d s = (Inr x, u) \<Longrightarrow>
     edge_effect Refund t a s u"
  using undisburse.run_ok [of s w t a rt rf d] undisburse.run_moved [of s w t a rt rf d]
    keepsD [OF undisburse.run_frame]
  by (auto simp: edge_effect_def)

lemma holding_row: "holding S0 x s \<Longrightarrow> wallets_ok s \<and> two_places (wd_amount x)"
  by (auto simp: holding_def reached_def good_def dest!: row_find_Some)

lemma row_put_current:
  "distinct (map key rows) \<Longrightarrow> row_find key (key x) rows = Some x \<Longrightarrow> row_put key x rows = rows"
  unfolding row_put_def by (intro map_idI) (metis row_find_unique)

lemma holding_put_self: "holding S0 x s \<Longrightarrow> row_put wd_id x (withdrawals s) = withdrawals s"
  by (auto simp: holding_def reached_def good_def intro: row_put_current)

text \<open>A move of funds (or none), an optional update, and the transition.\<close>

lemma funded_transition:
  assumes e: "edge (wd_status x) b = Some f" "b \<noteq> W_PROCESSING"
    and eff: "\<And>s r u. holding S0 x s \<Longrightarrow> m s = (Inr r, u) \<Longrightarrow>
      edge_effect f (wd_tenant x) (wd_amount x) s u"
    and g: "\<And>x. identity (g x) = identity x" "\<And>x. wd_status (g x) = wd_status x"
  shows "triple (holding S0 x) (bnd m (\<lambda>_. bnd (update_withdrawal g x) (\<lambda>x1.
      transition w x1 b actor reason md))) (at_status S0 x b)"
    and "triple (holding S0 x) (bnd m (\<lambda>_. transition w x b actor reason md)) (at_status S0 x b)"
proof -
  show "triple (holding S0 x) (bnd m (\<lambda>_. bnd (update_withdrawal g x) (\<lambda>x1.
      transition w x1 b actor reason md))) (at_status S0 x b)"
  proof (rule tripleI)
    fix s x' s' assume at: "holding S0 x s" and run: "bnd m (\<lambda>_. bnd (update_withdrawal g x) (\<lambda>x1.
      transition w x1 b actor reason md)) s = (Inr x', s')"
    then obtain r u where m: "m s = (Inr r, u)"
      and tr: "transition w (g x) b actor reason md
        (u\<lparr>withdrawals := row_put wd_id (g x) (withdrawals u)\<rparr>) = (Inr x', s')"
      by (auto simp: run_simps)
    show "at_status S0 x b x' s'"
      using edge_at [OF at e eff [OF at m] g(1) g(2) _ _ _ _ _ tr] by (simp add: at_status_def)
  qed
  show "triple (holding S0 x) (bnd m (\<lambda>_. transition w x b actor reason md)) (at_status S0 x b)"
  proof (rule tripleI)
    fix s x' s' assume at: "holding S0 x s"
      and run: "bnd m (\<lambda>_. transition w x b actor reason md) s = (Inr x', s')"
    then obtain r u where m: "m s = (Inr r, u)" and tr: "transition w x b actor reason md u = (Inr x', s')"
      by (auto simp: run_simps)
    have "withdrawals u = row_put wd_id x (withdrawals u)"
      using holding_put_self [OF at] eff [OF at m] frame_rows [of s u] by (simp add: edge_effect_def)
    then show "at_status S0 x b x' s'"
      using edge_at [OF at e eff [OF at m] refl refl _ refl refl refl refl tr]
      by (simp add: at_status_def)
  qed
qed

lemma transition_keep:
  assumes "edge (wd_status x) b = Some Keep" "b \<noteq> W_PROCESSING"
  shows "triple (holding S0 x) (transition w x b actor reason md) (at_status S0 x b)"
proof -
  have "triple (holding S0 x) (bnd (ret ()) (\<lambda>_. transition w x b actor reason md)) (at_status S0 x b)"
    by (rule funded_transition(2) [OF assms, where g = id])
      (auto simp: keep_effect dest: holding_row)
  then show ?thesis by (simp add: bnd_def ret_def triple_def)
qed

lemma fail_withdrawal_at:
  assumes "edge (wd_status x) W_FAILED = Some Release"
  shows "triple (holding S0 x) (fail_withdrawal w x reason actor) (at_status S0 x W_FAILED)"
  unfolding fail_withdrawal_def
  by (rule funded_transition(1) [OF assms])
    (auto simp: identity_simps intro: release_effect dest: holding_row)

lemma note_result_at:
  "triple (holding S0 x) (note_result rc m x)
     (\<lambda>x' s. holding S0 x' s \<and> x' = x\<lparr>wd_result_code := Some rc, wd_provider_message := m\<rparr>)"
  unfolding note_result_def by (rule update_at) (simp_all add: identity_def)

text \<open>After noting a result the row continues as before.\<close>

lemma note_then:
  assumes "\<And>x1. identity x1 = identity x \<Longrightarrow> wd_status x1 = wd_status x \<Longrightarrow>
      provider_charge x1 = provider_charge x \<Longrightarrow> triple (holding S0 x1) (k x1) Q"
  shows "triple (holding S0 x) (bnd (note_result rc m x) k) Q"
  by (rule triple_bnd [OF note_result_at], rule triple_pure, rule assms)
    (simp_all add: identity_def)

lemma at_status_refl: "identity y = identity x \<Longrightarrow> at_status S0 y b = at_status S0 x b"
  by (simp add: at_status_def fun_eq_iff)

text \<open>\<open>apply_provider_result\<close> leaves a withdrawal where it was, or moves it along one edge.\<close>

definition resolved :: "payouts \<Rightarrow> withdrawal \<Rightarrow> withdrawal \<Rightarrow> db \<Rightarrow> bool" where
  "resolved S0 x x' s \<longleftrightarrow> holding S0 x' s \<and> identity x' = identity x"

lemma resolvedI: "at_status S0 x b x' s \<Longrightarrow> resolved S0 x x' s"
  by (simp add: at_status_def resolved_def)

lemma triple_resolved: "triple P m (at_status S0 x b) \<Longrightarrow> triple P m (resolved S0 x)"
  by (auto simp: triple_def intro: resolvedI)

lemma apply_provider_result_at:
  "triple (holding S0 x) (apply_provider_result w x rc msg amount cur tid ref actor) (resolved S0 x)"
proof (cases "wd_status x \<in> {W_PROCESSING, W_AMBIGUOUS}")
  case False
  then show ?thesis
    by (simp add: apply_provider_result_def resolved_def triple_ret)
next
  case True
  then have e: "edge (wd_status x) W_AMBIGUOUS = Some Keep" "edge (wd_status x) W_FAILED = Some Release"
    "edge (wd_status x) W_SUCCESS = Some Pay"
    by auto
  have ambiguous: "triple (holding S0 x1) (transition w x1 W_AMBIGUOUS actor reason md) (resolved S0 x)"
    if "identity x1 = identity x" "wd_status x1 = wd_status x" for x1 reason md
    by (rule triple_resolved [where b = W_AMBIGUOUS], fold at_status_refl [OF that(1)],
        rule transition_keep) (use e that in simp_all)
  have failed: "triple (holding S0 x1) (fail_withdrawal w x1 reason actor) (resolved S0 x)"
    if "identity x1 = identity x" "wd_status x1 = wd_status x" for x1 reason
    by (rule triple_resolved [where b = W_FAILED], fold at_status_refl [OF that(1)],
        rule fail_withdrawal_at) (use e that in simp_all)
  have success: "triple (holding S0 x) (bnd (complete_disbursement w (wd_tenant x) (wd_amount x) ''withdrawal''
        (Some (wd_id x)) d) (\<lambda>_. bnd (update_withdrawal (\<lambda>x. x\<lparr>wd_provider_reference := Some ref,
          wd_result_code := Some c, wd_provider_message := msg, wd_completed_at := Some (now w)\<rparr>) x)
        (\<lambda>x1. transition w x1 W_SUCCESS actor msg md))) (resolved S0 x)" for d c md
    by (rule triple_resolved [OF funded_transition(1) [OF e(3)]])
      (auto simp: identity_simps intro: pay_effect dest: holding_row)
  have noted: "triple (holding S0 x) (note_result c m x) (resolved S0 x)" for c m
    by (rule triple_post [OF note_result_at]) (auto simp: resolved_def identity_def)
  show ?thesis
    using True
    by (auto simp: apply_provider_result_def Let_def split: selcom_outcome.split option.split
        intro!: note_then ambiguous failed success noted)
qed

lemma config_at: "triple P (business_config_from_settings cfg) (\<lambda>_. P)"
  by (rule tripleI) (auto dest: business_config_Inr)

lemma call_at:
  assumes "transfer_key q = []"
  shows "triple (holding S0 x) (call c q a) (\<lambda>_. holding S0 x)"
  by (rule tripleI) (auto dest: call_state intro: holding_call assms)

lemma resolved_refl: "triple (holding S0 x) (ret x) (resolved S0 x)"
  by (rule triple_ret) (simp add: resolved_def)

lemma reconcile_locked_at: "triple (holding S0 x) (reconcile_locked w cfg x actor) (resolved S0 x)"
  unfolding reconcile_locked_def transaction_query_def Let_def
  by (rule triple_bnd [OF config_at], rule triple_bnd [OF call_at])
    (auto split: sum.split intro!: apply_provider_result_at resolved_refl)

lemma resolved_trans:
  "identity y = identity x \<Longrightarrow> triple P m (resolved S0 y) \<Longrightarrow> triple P m (resolved S0 x)"
  by (auto simp: triple_def resolved_def)

text \<open>Moving to PROCESSING and handing the transfer to the provider is the step \<open>submit\<close>.\<close>

lemma submit_core:
  assumes st: "wd_status x = W_APPROVED"
    and g: "\<And>x. identity (g x) = identity x" "\<And>x. wd_status (g x) = wd_status x"
    and unconfigured: "\<And>x3 f. require_configured c = Some f \<Longrightarrow> K x3 (Inl f) = uncaught f"
    and rest: "\<And>x3 p. identity x3 = identity x \<Longrightarrow> wd_status x3 = W_PROCESSING \<Longrightarrow>
      triple (holding S0 x3) (K x3 p) Q"
  shows "triple (holding S0 x)
    (bnd (transition w x W_PROCESSING actor None []) (\<lambda>x2.
     bnd (update_withdrawal g x2) (\<lambda>x3.
     bnd (transaction_process w c (idempotency_key x3) fi acc n (wd_amount x3)) (K x3)))) Q"
proof (rule tripleI)
  fix s r s' assume at: "holding S0 x s"
  assume "bnd (transition w x W_PROCESSING actor None []) (\<lambda>x2. bnd (update_withdrawal g x2) (\<lambda>x3.
     bnd (transaction_process w c (idempotency_key x3) fi acc n (wd_amount x3)) (K x3))) s = (Inr r, s')"
  then obtain x2 s1 p s3 where tr: "transition w x W_PROCESSING actor None [] s = (Inr x2, s1)"
    and call: "transaction_process w c (idempotency_key (g x2)) fi acc n (wd_amount (g x2))
      (s1\<lparr>withdrawals := row_put wd_id (g x2) (withdrawals s1)\<rparr>) = (Inr p, s3)"
    and K: "K (g x2) p s3 = (Inr r, s')"
    by (auto simp: run_simps)
  have e: "edge (wd_status x) W_PROCESSING = Some Keep" using st by simp
  have ok: "wallets_ok s" using holding_row [OF at] by simp
  have self: "withdrawals s = row_put wd_id x (withdrawals s)" using holding_put_self [OF at] by simp
  note step = edge_step [OF at e keep_effect [OF ok] refl refl self refl refl refl refl tr]
  let ?s2 = "s1\<lparr>withdrawals := row_put wd_id (g x2) (withdrawals s1)\<rparr>"
  have same: "payouts_of ?s2 = payouts_of s1"
    by (rule put_payouts [OF step(1,2)]) (simp_all add: g)
  have idn: "identity (g x2) = identity x" "wd_status (g x2) = W_PROCESSING"
    using g step(3,4) by simp_all
  have g2: "good ?s2" by (rule good_put [OF step(1,2)]) (simp add: g)
  have row: "row_find wd_id (wd_id (g x2)) (withdrawals ?s2) = Some (g x2)"
    using find_put [OF step(2), of "g x2"] g [of x2] by (simp add: identity_simps)
  show "Q r s'"
  proof (cases "require_configured c")
    case (Some f)
    then have "K (g x2) p = uncaught f"
      using call unconfigured by (simp add: transaction_process_def call_def)
    with K show ?thesis by (simp add: uncaught_def)
  next
    case None
    let ?q = "TransactionProcess (idempotency_key (g x2)) fi acc n (wd_amount (g x2))"
    have s3: "s3 = ?s2\<lparr>provider_calls := provider_calls ?s2 @ [?q]\<rparr>"
      using call None
      by (cases p) (auto simp: transaction_process_def call_reply call_failure)
    have "po_sent (payouts_of s3) = po_sent (payouts_of ?s2) @ [idempotency_key x]"
      using idn by (simp add: s3 payouts_of_def identity_simps)
    moreover have "payouts_of s3 = (payouts_of ?s2)\<lparr>po_sent := po_sent (payouts_of s3)\<rparr>"
      by (simp add: s3 payouts_of_def)
    ultimately have s3': "payouts_of s3 = (payouts_of s1)\<lparr>po_sent := po_sent (payouts_of s1) @ [po_key (view x)]\<rparr>"
      by (simp add: same)
    have "row_find po_id (wd_id x) (po_list (payouts_of s)) = Some (view x)"
      using at find_view by (simp add: holding_def payouts_of_def)
    from spec_step.submit [OF this _ step(5) [unfolded move_funds.simps]]
    have "spec_step (payouts_of s) (payouts_of s3)" using st by (simp add: s3')
    then have "holding S0 (g x2) s3"
      using at g2 row by (auto simp: holding_def reached_def s3 good_def)
    then show ?thesis using rest [OF idn] K by (auto dest: tripleD)
  qed
qed

lemma failed_resolved:
  assumes "edge (wd_status y) W_FAILED = Some Release" "identity y = identity x"
  shows "triple (holding S0 y) (fail_withdrawal w y reason actor) (resolved S0 x)"
  by (rule resolved_trans [OF assms(2)], rule triple_resolved, rule fail_withdrawal_at) (fact assms)

lemma store_option_at: "triple P (store_option v) (\<lambda>_. P)"
  by (rule tripleI) (auto dest: store_option_state)

lemma uncaught_at: "triple P (uncaught f) Q"
  by (simp add: uncaught_def triple_raise)

lemma submit_to_selcom_at: "triple (holding S0 x) (submit_to_selcom w cfg x actor) (resolved S0 x)"
proof (cases "wd_status x = W_APPROVED")
  case False
  then show ?thesis by (simp add: submit_to_selcom_def resolved_refl)
next
  case st: True
  have failed: "triple (holding S0 x) (fail_withdrawal w x reason actor) (resolved S0 x)" for reason
    by (rule failed_resolved) (use st in simp_all)
  have after: "triple (holding S0 x3)
      (case p of
         Inl (Transport m) \<Rightarrow> reconcile_locked w cfg x3 actor
       | Inl (Api m) \<Rightarrow> fail_withdrawal w x3 m actor
       | Inl f \<Rightarrow> uncaught f
       | Inr resp \<Rightarrow>
           bnd (update_withdrawal (\<lambda>x. x\<lparr>wd_provider_reference := Some (idempotency_key x),
                  wd_result_code := ps_resultcode resp,
                  wd_provider_message := ps_message resp\<rparr>) x3) (\<lambda>x4.
           let d = ps_data resp in
           apply_provider_result w x4 (ps_resultcode resp) (ps_message resp)
             (Option.bind d pd_amount) (Option.bind d pd_currency) (Option.bind d pd_trans_id)
             (or_else (Option.bind d pd_receipt) (idempotency_key x4)) actor)) (resolved S0 x)"
    if idn: "identity x3 = identity x" and st3: "wd_status x3 = W_PROCESSING" for x3 p
  proof -
    have applied: "triple (\<lambda>s. holding S0 x4 s \<and> identity x4 = identity x3 \<and> wd_status x4 = wd_status x3)
        (apply_provider_result w x4 rc msg amount cur tid ref actor) (resolved S0 x)"
      for x4 rc msg amount cur tid ref
      by (rule triple_pure, rule resolved_trans [where y = x4])
        (auto simp: idn intro: apply_provider_result_at)
    have e: "edge (wd_status x3) W_FAILED = Some Release" using st3 by simp
    show ?thesis
      by (cases p; (auto split: business_failure.split simp: Let_def
          intro!: triple_bnd [OF update_same] applied uncaught_at failed_resolved [OF e idn]
            resolved_trans [OF idn reconcile_locked_at])?)
  qed
  have processed: "triple (\<lambda>s. holding S0 x1 s \<and> identity x1 = identity x \<and> wd_status x1 = wd_status x)
      (bnd (transition w x1 W_PROCESSING actor None []) (\<lambda>x2.
       bnd (update_withdrawal (\<lambda>x. x\<lparr>submitted_at := Some (now w)\<rparr>) x2) (\<lambda>x3.
       bnd (transaction_process w c (idempotency_key x3) fi acc n (wd_amount x3)) (\<lambda>p.
         case p of
           Inl (Transport m) \<Rightarrow> reconcile_locked w cfg x3 actor
         | Inl (Api m) \<Rightarrow> fail_withdrawal w x3 m actor
         | Inl f \<Rightarrow> uncaught f
         | Inr resp \<Rightarrow>
             bnd (update_withdrawal (\<lambda>x. x\<lparr>wd_provider_reference := Some (idempotency_key x),
                    wd_result_code := ps_resultcode resp,
                    wd_provider_message := ps_message resp\<rparr>) x3) (\<lambda>x4.
             let d = ps_data resp in
             apply_provider_result w x4 (ps_resultcode resp) (ps_message resp)
               (Option.bind d pd_amount) (Option.bind d pd_currency) (Option.bind d pd_trans_id)
               (or_else (Option.bind d pd_receipt) (idempotency_key x4)) actor)))))
      (resolved S0 x)" for x1 c fi acc n
    by (rule triple_pure, elim conjE, rule submit_core)
      (use st after in \<open>auto simp: require_configured_def split: if_splits\<close>)
  show ?thesis
    unfolding submit_to_selcom_def account_lookup_def
    using st
    by (auto split: option.split list.split sum.split business_failure.split
        intro!: failed triple_gets_any triple_bnd [OF config_at] triple_bnd [OF call_at]
          triple_bnd [OF store_option_at] triple_bnd [OF update_same] processed resolved_refl)
qed

lemma find_withdrawal_at:
  "triple (reached S0) (find_withdrawal t i)
     (\<lambda>x s. holding S0 x s \<and> (\<forall>t'. t = Some t' \<longrightarrow> wd_tenant x = t'))"
  by (rule tripleI)
    (auto simp: find_withdrawal_def run_simps get_by_id_Some holding_def dest: row_find_Some)

text \<open>The public methods.\<close>

lemma audit_at: "triple (holding S0 x) (write_audit_log w t a act tt tg md) (\<lambda>_. holding S0 x)"
  by (rule tripleI) (simp add: run_simps)

lemma audit_reached: "triple (reached S0) (write_audit_log w t a act tt tg md) (\<lambda>_. reached S0)"
  by (rule tripleI) (simp add: run_simps)

lemma verify_at:
  "triple (holding S0 x) (verify w cfg x otp email)
     (\<lambda>r s. holding S0 (snd r) s \<and> identity (snd r) = identity x \<and> wd_status (snd r) = wd_status x)"
proof (rule tripleI)
  fix s r s' assume at: "holding S0 x s" and run: "verify w cfg x otp email s = (Inr r, s')"
  obtain b x' where r: "r = (b, x')" by (cases r)
  note row = verify_row [OF run [unfolded r]]
  show "holding S0 (snd r) s' \<and> identity (snd r) = identity x \<and> wd_status (snd r) = wd_status x"
    using row at holding_put [OF at row(1,2)] by (auto simp: r)
qed

lemma triple_any: "triple P m (\<lambda>_. Q) \<Longrightarrow> (\<And>x. triple Q (f x) R) \<Longrightarrow> triple P (bnd m f) R"
  by (rule triple_bnd)

lemma guard_step: "(b \<Longrightarrow> triple P n Q) \<Longrightarrow> triple P (thn (guard b e) n) Q"
  by (rule triple_thn [OF triple_guard], rule triple_pure)

lemma resolved_reached: "triple P m (resolved S0 x) \<Longrightarrow> triple P m (\<lambda>_. reached S0)"
  by (auto simp: triple_def resolved_def holding_def)

lemma status_reached: "triple P m (at_status S0 x b) \<Longrightarrow> triple P m (\<lambda>_. reached S0)"
  by (auto simp: triple_def dest: at_status_reached)

lemma holding_weaken: "triple (reached S0) m Q \<Longrightarrow> triple (holding S0 x) m Q"
  by (auto simp: triple_def holding_def)

lemma found_step:
  assumes "\<And>x. (\<And>t'. t = Some t' \<Longrightarrow> wd_tenant x = t') \<Longrightarrow> triple (holding S0 x) (k x) Q"
  shows "triple (reached S0) (bnd (find_withdrawal t i) k) Q"
  by (rule triple_bnd [OF find_withdrawal_at], rule triple_pure, rule assms) simp

lemma release_edge:
  assumes "edge (wd_status x) b = Some Release" "b \<noteq> W_PROCESSING"
  shows "holding S0 x s \<Longrightarrow> release_reservation (wd_tenant x) (wd_amount x) s = (Inr r, u) \<Longrightarrow>
    edge_effect Release (wd_tenant x) (wd_amount x) s u"
  by (auto intro: release_effect dest: holding_row)

lemma approve_at: "triple (reached S0) (approve_withdrawal w cfg i actor notes) (\<lambda>_. reached S0)"
  unfolding approve_withdrawal_def
proof (rule found_step, rule guard_step, rule triple_bnd [OF update_same], simp, simp,
    rule triple_pure, elim conjE)
  fix x x1 :: withdrawal assume "wd_status x = W_PENDING_APPROVAL" "wd_status x1 = wd_status x"
  then have e: "edge (wd_status x1) W_APPROVED = Some Keep" by simp
  show "triple (holding S0 x1) (bnd (transition w x1 W_APPROVED (Some actor) notes [])
      (\<lambda>x2. submit_to_selcom w cfg x2 (Some actor))) (\<lambda>_. reached S0)"
    by (rule triple_bnd [OF transition_keep [OF e]], simp, rule resolved_reached,
        rule triple_pre [OF submit_to_selcom_at]) (auto simp: at_status_def)
qed

lemma reject_at: "triple (reached S0) (reject_withdrawal w i actor reason) (\<lambda>_. reached S0)"
  unfolding reject_withdrawal_def
  by (rule guard_step, rule found_step, rule guard_step, rule status_reached [where b = W_REJECTED],
      rule funded_transition(1)) (auto intro: release_edge [where b = W_REJECTED])

lemma cancel_at: "triple (reached S0) (cancel_withdrawal w t i actor reason) (\<lambda>_. reached S0)"
  unfolding cancel_withdrawal_def
proof (rule found_step, rule guard_step, rule guard_step)
  fix x :: withdrawal assume t: "\<And>t'. Some t = Some t' \<Longrightarrow> wd_tenant x = t'"
    and st: "wd_status x \<in> {W_DRAFT, W_PENDING_APPROVAL}"
  have e: "edge (wd_status x) W_CANCELLED = Some Release" using st by auto
  have t: "t = wd_tenant x" using t by simp
  show "triple (holding S0 x) (bnd (release_reservation t (wd_amount x)) (\<lambda>_.
      bnd (update_withdrawal (\<lambda>x. x\<lparr>wd_completed_at := Some (now w)\<rparr>) x) (\<lambda>x1.
      transition w x1 W_CANCELLED (Some actor) reason []))) (\<lambda>_. reached S0)"
    unfolding t
    by (rule status_reached, rule funded_transition(1) [OF e]) (auto intro: release_edge [OF e])
qed

lemma reverse_at: "triple (reached S0) (reverse_withdrawal w t i actor reason) (\<lambda>_. reached S0)"
  unfolding reverse_withdrawal_def
proof (rule guard_step, rule found_step, rule guard_step)
  fix x :: withdrawal assume t: "\<And>t'. Some t = Some t' \<Longrightarrow> wd_tenant x = t'" and st: "wd_status x = W_SUCCESS"
  have e: "edge (wd_status x) W_REVERSED = Some Refund" using st by simp
  have t: "t = wd_tenant x" using t by simp
  show "triple (holding S0 x) (bnd (reverse_disbursement w t (wd_amount x) ''withdrawal''
      (Some (wd_id x)) (Some reason)) (\<lambda>_. transition w x W_REVERSED actor (Some reason) []))
      (\<lambda>_. reached S0)"
    unfolding t
    by (rule status_reached, rule funded_transition(2) [OF e, where g = id])
      (auto intro: refund_effect dest: holding_row)
qed

lemma reconcile_at: "triple (reached S0) (reconcile_withdrawal w cfg i) (\<lambda>_. reached S0)"
  unfolding reconcile_withdrawal_def
  by (rule found_step, rule resolved_reached, rule reconcile_locked_at)

lemma reconcile_if_pending_at: "triple (reached S0) (reconcile_if_pending w cfg i) (\<lambda>_. reached S0)"
  unfolding reconcile_if_pending_def
  by (rule found_step)
    (auto intro!: triple_ret triple_bnd [OF reconcile_locked_at] simp: holding_def resolved_def)

lemma apply_disbursement_result_at:
  "triple (reached S0) (apply_disbursement_result w i ok ref detail) (\<lambda>_. reached S0)"
  unfolding apply_disbursement_result_def
proof (rule found_step)
  fix x :: withdrawal
  show "triple (holding S0 x)
    (if wd_status x \<noteq> W_PROCESSING then ret x
     else if ok then
       bnd (complete_disbursement w (wd_tenant x) (wd_amount x) ''withdrawal'' (Some (wd_id x))
              (Some (''Selcom disbursement '' @ ref))) (\<lambda>_.
       bnd (update_withdrawal (\<lambda>x. x\<lparr>wd_provider_reference := Some ref,
              wd_completed_at := Some (now w)\<rparr>) x) (\<lambda>x1.
       transition w x1 W_SUCCESS None detail []))
     else fail_withdrawal w x (or_else detail ''Selcom reported disbursement failure'') None)
    (\<lambda>_. reached S0)"
  proof (cases "wd_status x = W_PROCESSING")
    case True
    then have e: "edge (wd_status x) W_SUCCESS = Some Pay" "edge (wd_status x) W_FAILED = Some Release"
      by simp_all
    then show ?thesis
      using True
      by (auto intro!: status_reached [OF fail_withdrawal_at] status_reached [OF funded_transition(1) [OF e(1)]]
          intro: pay_effect dest: holding_row)
  qed (auto intro!: triple_ret simp: holding_def)
qed

lemma confirm_at: "triple (reached S0) (confirm_two_factor w cfg t i actor otp) (\<lambda>_. reached S0)"
  unfolding confirm_two_factor_def
proof (rule found_step, rule guard_step, rule guard_step, rule triple_gets_any,
    rule triple_bnd [OF verify_at], rule triple_pure)
  fix x :: withdrawal and r :: "bool \<times> withdrawal"
  assume t: "\<And>t'. Some t = Some t' \<Longrightarrow> wd_tenant x = t'" and st: "wd_status x = W_DRAFT"
    and r: "identity (snd r) = identity x \<and> wd_status (snd r) = wd_status x"
  obtain verified x1 where rr: "r = (verified, x1)" by (cases r)
  have st1: "wd_status x1 = W_DRAFT" and t1: "t = wd_tenant x1"
    using r rr st t by (simp_all add: identity_simps)
  have e: "edge (wd_status x1) W_PENDING_APPROVAL = Some Keep" "edge (wd_status x1) W_APPROVED = Some Keep"
    "edge (wd_status x1) W_CANCELLED = Some Release"
    using st1 by simp_all
  have submitted: "triple (at_status S0 x1 b x2) (submit_to_selcom w cfg x2 ac) (\<lambda>_. reached S0)" for x2 b ac
    by (rule resolved_reached, rule triple_pre [OF submit_to_selcom_at]) (simp add: at_status_def)
  have mailed: "triple (at_status S0 x1 b x2) (thn (send_super_admin_review_email w cfg x2) (ret x2))
      (\<lambda>_. reached S0)" for x2 b
    by (rule tripleI) (auto simp: send_super_admin_review_email_def whenever_def run_simps
        at_status_def holding_def split: if_splits)
  have reply: "triple (reached S0) (ret c) (\<lambda>_. reached S0)" for c :: confirmation
    by (rule triple_ret)
  have reply': "triple (holding S0 x1) (ret c) (\<lambda>_. reached S0)" for c :: confirmation
    by (rule triple_ret) (simp add: holding_def)
  have accepted: "triple (holding S0 x1)
     (bnd (if approval_required x1 then
             bnd (transition w x1 W_PENDING_APPROVAL (Some actor) None []) (\<lambda>x2.
             thn (send_super_admin_review_email w cfg x2) (ret x2))
           else
             bnd (transition w x1 W_APPROVED (Some actor) None []) (\<lambda>x2.
             submit_to_selcom w cfg x2 (Some actor))) (\<lambda>x3.
      ret \<lparr>cf_withdrawal = x3, cf_verified = True, cf_cancelled = False\<rparr>)) (\<lambda>_. reached S0)"
    by (rule triple_any [where Q = "reached S0"])
      (auto intro!: triple_bnd [OF transition_keep] submitted mailed reply simp: e)
  have cancelled: "triple (holding S0 x1) (bnd (bnd (release_reservation t (wd_amount x1)) (\<lambda>_.
      transition w x1 W_CANCELLED (Some actor) reason [])) (\<lambda>x2.
      ret \<lparr>cf_withdrawal = x2, cf_verified = False, cf_cancelled = True\<rparr>)) (\<lambda>_. reached S0)" for reason
    unfolding t1
    by (rule triple_any [OF status_reached [OF funded_transition(2) [OF e(3), where g = id]]])
      (auto intro: release_edge [OF e(3)] reply)
  have "bnd (bnd m f) g = bnd m (\<lambda>x. bnd (f x) g)" for m :: "'a op" and f :: "'a \<Rightarrow> 'b op" and g :: "'b \<Rightarrow> 'c op"
    by (auto simp: bnd_def fun_eq_iff split: prod.splits sum.splits)
  note cancelled = cancelled [unfolded this]
  show "triple (holding S0 (snd r)) (after_verify w cfg t i actor x r) (\<lambda>_. reached S0)"
    unfolding after_verify_def
    by (cases verified; cases "is_exhausted w cfg x1";
        simp only: rr prod.case snd_conv audit_withdrawal_def if_True if_False;
        rule triple_thn [OF audit_at]; rule accepted cancelled reply')
qed

lemma issue_challenge_at:
  "triple (holding S0 x) (issue_challenge w cfg x email)
     (\<lambda>r s. holding S0 (snd r) s)"
proof (rule tripleI)
  fix s r s' assume at: "holding S0 x s" and "issue_challenge w cfg x email s = (Inr r, s')"
  then show "holding S0 (snd r) s'"
    by (cases r) (auto simp: issue_challenge_Inr intro!: holding_put [OF at])
qed

lemma issue_and_send_otp_at:
  "triple (holding S0 x) (issue_and_send_otp w cfg x email actor resend) (\<lambda>_. reached S0)"
  unfolding issue_and_send_otp_def
proof (rule triple_bnd [OF issue_challenge_at])
  fix r :: "string \<times> withdrawal"
  show "triple (holding S0 (snd r))
    (case r of (_, x1) \<Rightarrow> bnd (update_withdrawal (\<lambda>x. x\<lparr>otp_last_sent_at := Some (now w),
            otp_send_count := otp_send_count x + 1\<rparr>) x1) (\<lambda>x2.
     thn (record_email w (wd_tenant x2) email Em_WITHDRAWAL_OTP)
     (thn (write_audit_log w (Some (wd_tenant x2)) (Some actor)
             (if resend then ''withdrawal.otp_resent'' else ''withdrawal.otp_sent'')
             (Some ''withdrawal'') (Some (wd_id x2))
             (if mail_sent (mail w) then [] else [(''delivery_failed'', MBool True)]))
      (ret (x2, mail_sent (mail w), withdrawal_otp_ttl_seconds cfg))))) (\<lambda>_. reached S0)"
    unfolding case_prod_beta
    by (rule triple_bnd [OF update_same], simp, simp, rule tripleI)
      (auto simp: run_simps record_email_def holding_def)
qed

lemma resolve_email_state: "resolve_verified_email t a s = (Inr e, s') \<Longrightarrow> s' = s"
  by (auto simp: resolve_verified_email_def run_simps split: option.splits if_splits)

lemma resend_at: "triple (reached S0) (resend_otp w cfg t i actor) (\<lambda>_. reached S0)"
  unfolding resend_otp_def
proof (rule found_step, rule guard_step, rule guard_step, rule guard_step)
  fix x :: withdrawal
  have wait: "triple (holding S0 x) (case otp_last_sent_at x of None \<Rightarrow> ret ()
      | Some last_sent \<Rightarrow>
           let remaining = (of_int (withdrawal_otp_resend_cooldown_seconds cfg) :: rat)
                 - of_int (now w - last_sent) / 1000000
           in guard (\<not> remaining > 0) (RateLimitedError (\<lfloor>remaining\<rfloor> + 1))) (\<lambda>_. holding S0 x)"
    by (rule tripleI) (auto simp: Let_def split: option.splits if_splits)
  have email: "triple (holding S0 x) (resolve_verified_email t actor) (\<lambda>_. holding S0 x)"
    by (rule tripleI) (auto dest: resolve_email_state)
  have answer: "triple (reached S0) (case r of (x', sent, expires) \<Rightarrow> ret (x', sent, mask_email e, expires))
      (\<lambda>_. reached S0)" for r :: "withdrawal \<times> bool \<times> int" and e
    by (auto simp: triple_def split: prod.splits)
  show "triple (holding S0 x)
      (thn (case otp_last_sent_at x of
             None \<Rightarrow> ret ()
           | Some last_sent \<Rightarrow>
               let remaining = (of_int (withdrawal_otp_resend_cooldown_seconds cfg) :: rat)
                     - of_int (now w - last_sent) / 1000000
               in guard (\<not> remaining > 0) (RateLimitedError (\<lfloor>remaining\<rfloor> + 1)))
      (bnd (resolve_verified_email t actor) (\<lambda>email.
       bnd (issue_and_send_otp w cfg x email actor True) (\<lambda>(x', sent, expires).
       ret (x', sent, mask_email email, expires))))) (\<lambda>_. reached S0)"
    by (rule triple_thn [OF wait], rule triple_bnd [OF email], rule triple_any [OF issue_and_send_otp_at])
      (rule answer)
qed

subsection \<open>A new withdrawal\<close>

lemma enforce_state: "enforce_withdrawal_limits w cfg t a s = (Inr u, s') \<Longrightarrow> s' = s"
  by (auto simp: enforce_withdrawal_limits_def run_simps split: prod.splits)

lemma request_gates_state: "request_gates w cfg t a d amount s = (Inr e, s') \<Longrightarrow> s' = s \<and> 0 < amount"
  by (auto simp: request_gates_def run_simps dest!: resolve_email_state enforce_state)

lemma new_withdrawal_simps [simp]:
  "wd_id (new_withdrawal w i k t wal d a n ac) = i" "wd_tenant (new_withdrawal w i k t wal d a n ac) = t"
  "wd_amount (new_withdrawal w i k t wal d a n ac) = a"
  "idempotency_key (new_withdrawal w i k t wal d a n ac) = k"
  "wd_status (new_withdrawal w i k t wal d a n ac) = W_DRAFT"
  by (simp_all add: new_withdrawal_def)

lemma new_row:
  assumes s: "reached S0 s" "sound S0" and a: "two_places a" "0 < a"
    and res: "reserve_for_withdrawal t a s = (Inr wal, u)"
    and x: "x = new_withdrawal w (next_id u) (id_text (Suc (next_id u))) t (wal_id wal) d a n ac"
    and s': "withdrawals s' = withdrawals u @ [x]"
      "map event_view (withdrawal_events s') = map event_view (withdrawal_events u) @ [(wd_id x, None, W_DRAFT)]"
      "wallets s' = wallets u" "provider_calls s' = provider_calls u" "next_id s' = Suc (Suc (next_id u))"
  shows "holding S0 x s'"
proof -
  have g: "good s" and sp: "spec_step\<^sup>*\<^sup>* S0 (payouts_of s)" using s by (simp_all add: reached_def)
  then have ok: "wallets_ok s" by (simp add: good_def)
  note sound = spec_sound [OF sp s(2)]
  have mv: "moved B_AVAILABLE B_RESERVED t a s u" and oku: "wallets_ok u"
    using reserve.run_moved [OF ok res a(1)] reserve.run_ok [OF ok res] by auto
  have fr: "withdrawals u = withdrawals s \<and> withdrawal_events u = withdrawal_events s \<and>
     provider_calls u = provider_calls s \<and> next_id s \<le> next_id u"
    using frame_rows keepsD [OF reserve.run_frame res] by blast
  have below: "wd_id y < next_id s" "\<exists>k < next_id s. idempotency_key y = id_text k"
    if "y \<in> set (withdrawals s)" for y
    using that g by (auto simp: good_def)
  have ids: "wd_id y < next_id u" if "y \<in> set (withdrawals s)" for y
    using below(1) [OF that] fr by simp
  have keys: "\<exists>k < next_id u. idempotency_key y = id_text k" if "y \<in> set (withdrawals s)" for y
    using below(2) [OF that] fr by (meson less_le_trans)
  have good': "good s'"
    unfolding good_def
  proof (intro conjI ballI)
    show "wallets_ok s'" by (rule wallets_ok_cong [OF s'(3) _ oku]) (simp add: s')
    show "distinct (map wd_id (withdrawals s'))"
      using g fr ids by (fastforce simp: s' good_def x)
    fix y assume y: "y \<in> set (withdrawals s')"
    show "wd_id y < next_id s'" using y ids fr by (fastforce simp: s' x)
    show "\<exists>k < next_id s'. idempotency_key y = id_text k"
      using y keys fr by (fastforce simp: s' x)
    show "two_places (wd_amount y)" "0 < wd_amount y"
      using y g fr a by (auto simp: s' x good_def)
  qed
  have fresh: "wd_id x \<notin> po_id ` set (po_list (payouts_of s))"
    "idempotency_key x \<notin> po_key ` set (po_list (payouts_of s))"
    using ids keys by (fastforce simp: payouts_of_def x)+
  then have "idempotency_key x \<notin> set (po_sent (payouts_of s))"
    using sound by (auto simp: sound_def)
  moreover have "a \<le> po_available (payouts_of s) t" using mv by (simp add: payouts_of_def moved_def)
  ultimately have "spec_step (payouts_of s) (new_payout (view x) (payouts_of s))"
    using fresh a by (intro spec_step.request) (simp_all add: x)
  moreover have "payouts_of s' = new_payout (view x) (payouts_of s)"
  proof -
    have "balance b t' s' = balance b t' u" for b t' by (rule balance_cong) (fact s'(3))
    then show ?thesis
      using mv fr by (auto simp: payouts_of_def new_payout_def s' x moved_def add_to_def fun_eq_iff)
  qed
  moreover have "row_find wd_id (wd_id x) (withdrawals s') = Some x"
  proof -
    have "distinct (map wd_id (withdrawals s'))" using good' by (simp add: good_def)
    then show ?thesis by (rule row_find_distinct) (simp add: s')
  qed
  ultimately show ?thesis
    using good' sp by (auto simp: holding_def reached_def)
qed

lemma hold_funds_Inr:
  "hold_funds t a s = (Inr wal, u) \<longleftrightarrow> reserve_for_withdrawal t a s = (Inr wal, u)"
proof -
  have "(case e of DomainValidationError _ \<Rightarrow>
            raise (DomainValidationError ''Requested amount exceeds available wallet balance'')
        | _ \<Rightarrow> raise e) v \<noteq> (Inr wal, u)" for e :: err and v :: db
    by (cases e) auto
  then show ?thesis by (auto simp: hold_funds_def except_Inr)
qed

lemma insert_withdrawal_Inr:
  assumes "insert_withdrawal w t actor d a n wal u = (Inr x, s')" "two_places a"
  shows "x = new_withdrawal w (next_id u) (id_text (Suc (next_id u))) t (wal_id wal) d a n actor"
    "withdrawals s' = withdrawals u @ [x]"
    "map event_view (withdrawal_events s') = map event_view (withdrawal_events u) @ [(wd_id x, None, W_DRAFT)]"
    "wallets s' = wallets u" "provider_calls s' = provider_calls u" "next_id s' = Suc (Suc (next_id u))"
  using assms numeric_14_2_exact [OF _ assms(2)]
  by (auto simp: insert_withdrawal_def Let_def run_simps create_event_def event_view_def)

lemma request_at:
  assumes a: "two_places a" and S0: "sound S0"
  shows "triple (reached S0) (request_withdrawal w cfg t actor d a) (\<lambda>_. reached S0)"
proof (rule tripleI)
  fix s r s' assume s: "reached S0 s" and run: "request_withdrawal w cfg t actor d a s = (Inr r, s')"
  let ?n = "a > selcom_withdrawal_approval_threshold_tzs cfg"
  from run obtain email s0 wal u x s1 where gates: "request_gates w cfg t actor d a s = (Inr email, s0)"
    and res: "hold_funds t a s0 = (Inr wal, u)"
    and ins: "insert_withdrawal w t actor d a ?n wal u = (Inr x, s1)"
    and rest: "bnd (issue_and_send_otp w cfg x email actor False) (\<lambda>(x', sent, expires).
      ret (x', sent, mask_email email, expires)) s1 = (Inr r, s')"
    by (auto simp: request_withdrawal_def Let_def bnd_Inr)
  have s0: "s0 = s" and pos: "0 < a" using request_gates_state [OF gates] by simp_all
  have "holding S0 x s1"
    using new_row [OF s S0 a pos res [unfolded hold_funds_Inr s0] insert_withdrawal_Inr [OF ins a]] .
  moreover have "triple (holding S0 x) (bnd (issue_and_send_otp w cfg x email actor False)
      (\<lambda>(x', sent, expires). ret (x', sent, mask_email email, expires))) (\<lambda>_. reached S0)"
    by (rule triple_any [OF issue_and_send_otp_at]) (auto simp: triple_def split: prod.splits)
  ultimately show "reached S0 s'" using rest by (auto dest: tripleD)
qed

subsection \<open>Requests as transactions\<close>

text \<open>
  Identifiers are only ever handed out upwards, whatever way a request ends; so a rolled-back
  request leaves a well-formed database.
\<close>

lemma ids_update: "keeps ids_grow (update_withdrawal f x)"
  by (rule keepsI) (simp add: ids_grow_def)

lemma ids_call: "keeps ids_grow (call c q a)"
  by (rule keepsI) (auto simp: ids_grow_def dest: call_state)

lemma ids_config: "keeps ids_grow (business_config_from_settings cfg)"
  by (rule keepsI) (auto simp: ids_grow_def business_config_from_settings_def uncaught_def
      split: option.splits)

lemmas ids_basic = ids_grow.keeps_rules ids_update ids_audit ids_fresh ids_call ids_store ids_config
  ids_frame [OF reserve.run_frame] ids_frame [OF release.run_frame]
  ids_frame [OF disburse.run_frame] ids_frame [OF undisburse.run_frame]

lemma ids_transition: "keeps ids_grow (transition w x b actor reason md)"
  by (auto simp: transition_def create_event_def intro!: ids_basic ids_modify)

lemma ids_fail: "keeps ids_grow (fail_withdrawal w x reason actor)"
  by (auto simp: fail_withdrawal_def intro!: ids_basic ids_transition)

lemma ids_apply: "keeps ids_grow (apply_provider_result w x rc m a c t r actor)"
  by (auto simp: apply_provider_result_def note_result_def Let_def
      split: selcom_outcome.split option.split intro!: ids_basic ids_transition ids_fail)

lemma ids_reconcile: "keeps ids_grow (reconcile_locked w cfg x actor)"
  by (auto simp: reconcile_locked_def transaction_query_def Let_def split: sum.split
      intro!: ids_basic ids_apply)

lemma ids_uncaught: "keeps ids_grow (uncaught f)"
  by (simp add: uncaught_def ids_grow.keeps_raise)

lemma ids_submit: "keeps ids_grow (submit_to_selcom w cfg x actor)"
  by (auto simp: submit_to_selcom_def business_calls Let_def
      split: option.split list.split sum.split business_failure.split
      intro!: ids_basic ids_apply ids_transition ids_fail ids_reconcile ids_uncaught)

lemma ids_find: "keeps ids_grow (find_withdrawal t i)"
  by (auto simp: find_withdrawal_def intro!: ids_basic)

lemma ids_verify: "keeps ids_grow (verify w cfg x otp email)"
  by (auto simp: verify_def hash_code_def otp_secret_def split: option.split list.split
      intro!: ids_basic)

lemma ids_email: "keeps ids_grow (resolve_verified_email t a)"
  by (auto simp: resolve_verified_email_def split: option.split intro!: ids_basic)

lemma ids_otp: "keeps ids_grow (issue_and_send_otp w cfg x email actor b)"
  by (auto simp: issue_and_send_otp_def issue_challenge_def record_email_def hash_code_def
      otp_secret_def Let_def split: option.split list.split prod.split intro!: ids_basic ids_modify)

lemma ids_requests:
  "keeps ids_grow (request_withdrawal w cfg t actor d a)" "keeps ids_grow (resend_otp w cfg t i actor)"
  "keeps ids_grow (confirm_two_factor w cfg t i actor otp)"
  "keeps ids_grow (approve_withdrawal w cfg i actor notes)"
  "keeps ids_grow (reject_withdrawal w i actor reason)"
  "keeps ids_grow (cancel_withdrawal w t i actor notes)"
  "keeps ids_grow (reverse_withdrawal w t i ac reason)"
  "keeps ids_grow (reconcile_withdrawal w cfg i)" "keeps ids_grow (reconcile_if_pending w cfg i)"
  "keeps ids_grow (apply_disbursement_result w i ok ref detail)"
  subgoal
    by (auto simp: request_withdrawal_def request_gates_def enforce_withdrawal_limits_def
        insert_withdrawal_def create_event_def hold_funds_def Let_def split: prod.split err.split
        intro!: ids_basic ids_otp ids_email ids_modify)
  subgoal
    by (auto simp: resend_otp_def Let_def split: prod.split option.split
        intro!: ids_basic ids_find ids_otp ids_email)
  subgoal
    by (auto simp: confirm_two_factor_def after_verify_def audit_withdrawal_def
        send_super_admin_review_email_def split: prod.split intro!: ids_basic ids_find ids_verify ids_submit ids_transition)
  by (auto simp: approve_withdrawal_def reject_withdrawal_def cancel_withdrawal_def
      reverse_withdrawal_def reconcile_withdrawal_def reconcile_if_pending_def
      apply_disbursement_result_def
      intro!: ids_basic ids_find ids_submit ids_transition ids_reconcile ids_fail)

text \<open>
  \<open>perform m\<close>: one request, committed or rolled back. A request that fails \<^emph>\<open>after\<close> it has handed
  a transfer to the provider is left out; \<open>Payout_Hazards\<close> shows what it does.
\<close>

definition perform :: "'a op \<Rightarrow> db \<Rightarrow> db \<Rightarrow> bool" where
  "perform m s s' \<longleftrightarrow>
     (\<exists>r. commit m s = (r, s') \<and>
       (isl r \<longrightarrow> transfers (provider_calls s') = transfers (provider_calls s)))"

inductive payout_step :: "db \<Rightarrow> db \<Rightarrow> bool" where
  request: "two_places a \<Longrightarrow> perform (request_withdrawal w cfg t actor d a) s s' \<Longrightarrow> payout_step s s'"
| resend: "perform (resend_otp w cfg t i actor) s s' \<Longrightarrow> payout_step s s'"
| confirm: "perform (confirm_two_factor w cfg t i actor otp) s s' \<Longrightarrow> payout_step s s'"
| approve: "perform (approve_withdrawal w cfg i actor notes) s s' \<Longrightarrow> payout_step s s'"
| reject: "perform (reject_withdrawal w i actor reason) s s' \<Longrightarrow> payout_step s s'"
| cancel: "perform (cancel_withdrawal w t i actor notes) s s' \<Longrightarrow> payout_step s s'"
| reverse: "perform (reverse_withdrawal w t i ac reason) s s' \<Longrightarrow> payout_step s s'"
| reconcile: "perform (reconcile_withdrawal w cfg i) s s' \<Longrightarrow> payout_step s s'"
| reconcile_pending: "perform (reconcile_if_pending w cfg i) s s' \<Longrightarrow> payout_step s s'"
| callback: "perform (apply_disbursement_result w i ok ref detail) s s' \<Longrightarrow> payout_step s s'"
| collection: "two_places a \<Longrightarrow> perform (process_collection w t a rt rf d') s s' \<Longrightarrow> payout_step s s'"
| settlement: "(\<And>x. am = Some x \<Longrightarrow> two_places x) \<Longrightarrow> perform (settle_pending t am batch) s s' \<Longrightarrow>
    payout_step s s'"
| adjustment: "two_places a \<Longrightarrow> b \<notin> {B_RESERVED, B_TOTAL_DISBURSED} \<Longrightarrow>
    perform (create_adjustment w t b dir a reason actor rto rf) s s' \<Longrightarrow> payout_step s s'"

lemma payouts_rollback:
  "transfers (provider_calls (rollback s u)) = transfers (provider_calls s) \<Longrightarrow>
     payouts_of (rollback s u) = payouts_of s"
proof -
  have "balance b t (rollback s u) = balance b t s" for b t by (rule balance_cong) simp
  then show "transfers (provider_calls (rollback s u)) = transfers (provider_calls s) \<Longrightarrow>
     payouts_of (rollback s u) = payouts_of s"
    by (simp add: payouts_of_def rollback_def)
qed

lemma good_rollback: "good s \<Longrightarrow> next_id s \<le> next_id u \<Longrightarrow> good (rollback s u)"
  by (fastforce simp: good_def rollback_def wallets_ok_def)

lemma perform_reached:
  assumes p: "perform m s s'" and m: "triple (reached S0) m (\<lambda>_. reached S0)"
    and ids: "keeps ids_grow m" and s: "reached S0 s"
  shows "reached S0 s'"
proof -
  obtain q u where q: "m s = (q, u)" by (cases "m s")
  with ids have "next_id s \<le> next_id u" by (auto dest: keepsD simp: ids_grow_def)
  with p q s tripleD [OF m s, of _ u] show ?thesis
    by (cases q) (auto simp: perform_def commit_def reached_def payouts_rollback good_rollback)
qed

text \<open>Operations that only move the available balance among those the machine looks at.\<close>

lemma credit_reached:
  assumes s: "reached S0 s" and fr: "wallet_frame s u" and ok: "wallets_ok u"
    and same: "\<And>t b. b \<in> {B_RESERVED, B_TOTAL_DISBURSED} \<Longrightarrow> balance b t u = balance b t s"
  shows "reached S0 u"
proof -
  note fr = frame_rows [OF fr]
  have "payouts_of u = (payouts_of s)\<lparr>po_available := \<lambda>t. balance B_AVAILABLE t u\<rparr>"
    using fr same by (simp add: payouts_of_def)
  then have "spec_step (payouts_of s) (payouts_of u)" by (simp add: spec_step.credit)
  moreover have "good u"
    using s fr ok by (fastforce simp: reached_def good_def)
  ultimately show ?thesis using s by (auto simp: reached_def)
qed

lemma collection_at:
  assumes "two_places a"
  shows "triple (reached S0) (process_collection w t a rt rf d) (\<lambda>_. reached S0)"
proof (rule tripleI)
  fix s r u assume s: "reached S0 s" and run: "process_collection w t a rt rf d s = (Inr r, u)"
  have ok: "wallets_ok s" using s by (simp add: reached_def good_def)
  note eff = process_collection_effect [OF ok run]
  show "reached S0 u"
    using eff(2) [OF assms] by (intro credit_reached [OF s keepsD [OF process_collection_frame run] eff(1)]) auto
qed

lemma settlement_at:
  assumes "\<And>x. am = Some x \<Longrightarrow> two_places x"
  shows "triple (reached S0) (settle_pending t am batch) (\<lambda>_. reached S0)"
proof (rule tripleI)
  fix s r u assume s: "reached S0 s" and run: "settle_pending t am batch s = (Inr r, u)"
  have ok: "wallets_ok s" using s by (simp add: reached_def good_def)
  from run [unfolded settle_pending_shape [OF ok]] obtain a
    where a: "a = (case am of None \<Rightarrow> balance B_PENDING t s | Some x \<Rightarrow> x)"
      and run': "settle_pending t (Some a) batch s = (Inr r, u)"
    unfolding settle_pending_shape [OF ok] option.case by blast
  have "two_places a" using a assms balance_bounds(3) [OF ok] by (auto split: option.splits)
  then have "moved B_PENDING B_AVAILABLE t a s u" by (rule settle.run_moved [OF ok run'])
  then show "reached S0 u"
    using settle.run_ok [OF ok run']
    by (intro credit_reached [OF s keepsD [OF settle_pending_frame run]]) (auto simp: moved_def)
qed

lemma adjustment_at:
  assumes a: "two_places a" and b: "b \<notin> {B_RESERVED, B_TOTAL_DISBURSED}"
  shows "triple (reached S0) (create_adjustment w t b dir a reason actor rt rf) (\<lambda>_. reached S0)"
proof (rule tripleI)
  fix s e u assume s: "reached S0 s" and run: "create_adjustment w t b dir a reason actor rt rf s = (Inr e, u)"
  have ok: "wallets_ok s" using s by (simp add: reached_def good_def)
  from run [unfolded adjust_shapes(1) [OF ok]] obtain v w' u1
    where mv: "move_bucket (wallet_row t s) b (if dir = D_CREDIT then a else - a) (with_wallet t s)
        = (Inr (v, w'), u1)"
      and entry: "create_entry w w' L_ADJUSTMENT dir (Some b) a (Some v) rt rf (Some reason)
        (Some actor) u1 = (Inr e, u)"
    by blast
  have d: "two_places (if dir = D_CREDIT then a else - a)" using a by simp
  note eff = single_move_entry(1,4) [OF ok mv entry]
  show "reached S0 u"
    using b eff(2) [OF d]
    by (intro credit_reached [OF s keepsD [OF single_move_frames(1) run] eff(1)]) auto
qed

text \<open>The refinement: each request is a run of the machine.\<close>

lemma step_reached:
  "payout_step s s' \<Longrightarrow> sound S0 \<Longrightarrow> reached S0 s \<Longrightarrow> reached S0 s'"
proof (induction rule: payout_step.induct)
  case request
  then show ?case by (elim perform_reached [OF _ request_at ids_requests(1)])
next
  case resend
  then show ?case by (elim perform_reached [OF _ resend_at ids_requests(2)])
next
  case confirm
  then show ?case by (elim perform_reached [OF _ confirm_at ids_requests(3)])
next
  case approve
  then show ?case by (elim perform_reached [OF _ approve_at ids_requests(4)])
next
  case reject
  then show ?case by (elim perform_reached [OF _ reject_at ids_requests(5)])
next
  case cancel
  then show ?case by (elim perform_reached [OF _ cancel_at ids_requests(6)])
next
  case reverse
  then show ?case by (elim perform_reached [OF _ reverse_at ids_requests(7)])
next
  case reconcile
  then show ?case by (elim perform_reached [OF _ reconcile_at ids_requests(8)])
next
  case reconcile_pending
  then show ?case by (elim perform_reached [OF _ reconcile_if_pending_at ids_requests(9)])
next
  case callback
  then show ?case by (elim perform_reached [OF _ apply_disbursement_result_at ids_requests(10)])
next
  case collection
  then show ?case by (elim perform_reached [OF _ collection_at ids_frame [OF process_collection_frame]])
next
  case (settlement am)
  show ?case
    by (rule perform_reached [OF settlement(2) settlement_at ids_frame [OF settle_pending_frame]
          settlement(4)]) (rule settlement(1))
next
  case adjustment
  then show ?case by (elim perform_reached [OF _ adjustment_at ids_frame [OF single_move_frames(1)]])
qed

lemma steps_reached:
  assumes "payout_step\<^sup>*\<^sup>* s s'" "sound S0" "reached S0 s"
  shows "reached S0 s'"
  using assms by (induction rule: rtranclp_induct) (auto intro: step_reached)

text \<open>A database before its first withdrawal: nothing held, nothing disbursed.\<close>

definition no_payouts :: "db \<Rightarrow> bool" where
  "no_payouts s \<longleftrightarrow> wallets_ok s \<and> withdrawals s = [] \<and> withdrawal_events s = [] \<and>
     provider_calls s = [] \<and>
     (\<forall>wal \<in> set (wallets s). reserved_balance_tzs wal = 0 \<and> total_disbursed_tzs wal = 0)"

lemma no_payouts_reached:
  assumes "no_payouts s"
  shows "sound (payouts_of s)" "reached (payouts_of s) s"
proof -
  have "balance B_RESERVED t s = 0 \<and> balance B_TOTAL_DISBURSED t s = 0" for t
    using assms by (auto simp: no_payouts_def balance_def dest: wallet_of_Some split: option.splits)
  then show "sound (payouts_of s)"
    using assms by (simp add: sound_def payouts_of_def no_payouts_def held_def paid_def trail_of_def transfers_def)
  show "reached (payouts_of s) s"
    using assms by (simp add: reached_def good_def no_payouts_def)
qed

lemma reachable_sound:
  assumes "no_payouts s0" "payout_step\<^sup>*\<^sup>* s0 s"
  shows "sound (payouts_of s)" "good s"
  using steps_reached [OF assms(2) no_payouts_reached [OF assms(1)]]
    spec_sound no_payouts_reached(1) [OF assms(1)]
  by (auto simp: reached_def)

subsection \<open>A concrete run\<close>

text \<open>A tenant with 100.00 withdraws 40.00: the request, its confirmation, the provider's success.\<close>

definition requested_db :: db where
  "requested_db = snd (commit (request_withdrawal sample_io payout_cfg 7 3 11 40) payout_db)"

definition confirmed_db :: db where
  "confirmed_db = snd (commit (confirm_two_factor sample_io payout_cfg 7 100 3 ''000042'') requested_db)"

lemma payout_db_fresh: "no_payouts payout_db"
proof -
  have "wallets payout_db = wallets funded_db" "next_id payout_db = next_id funded_db"
    by (simp_all add: payout_db_def)
  then have "wallets_ok payout_db" using funded_ok by (simp add: wallets_ok_def)
  then show ?thesis
    by (simp add: no_payouts_def) (simp add: payout_db_def funded_db_def empty_db_def funded_wallet_def)
qed

lemma requested_run:
  "(case commit (request_withdrawal sample_io payout_cfg 7 3 11 40) payout_db of
      (Inl _, _) \<Rightarrow> False
    | (Inr (x, _), s) \<Rightarrow> wd_status x = W_DRAFT \<and> map wd_id (withdrawals s) = [100] \<and>
        balance B_RESERVED 7 s = 40)"
  by code_simp

lemma confirmed_run:
  "(case commit (confirm_two_factor sample_io payout_cfg 7 100 3 ''000042'') requested_db of
      (Inl _, _) \<Rightarrow> False
    | (Inr c, s) \<Rightarrow> cf_verified c \<and> map wd_status (withdrawals s) = [W_SUCCESS] \<and>
        balance B_TOTAL_DISBURSED 7 s = 40 \<and> balance B_RESERVED 7 s = 0 \<and>
        transfers (provider_calls s) = [''101''])"
  by code_simp

lemma requested_step: "payout_step payout_db requested_db"
  using requested_run payout_step.request [of 40 sample_io payout_cfg 7 3 11 payout_db requested_db]
  by (auto simp: perform_def requested_db_def split: prod.splits sum.splits)

lemma confirmed_step: "payout_step requested_db confirmed_db"
  using confirmed_run payout_step.confirm [of sample_io payout_cfg 7 100 3 "''000042''" requested_db confirmed_db]
  by (auto simp: perform_def confirmed_db_def split: prod.splits sum.splits)

lemma confirmed_reachable: "payout_step\<^sup>*\<^sup>* payout_db confirmed_db"
  using requested_step confirmed_step by (meson converse_rtranclp_into_rtranclp rtranclp.rtrancl_refl)

lemma confirmed_facts:
  "map wd_status (withdrawals confirmed_db) = [W_SUCCESS]"
  "balance B_TOTAL_DISBURSED 7 confirmed_db = 40"
  "transfers (provider_calls confirmed_db) = [''101'']"
  using confirmed_run by (auto simp: confirmed_db_def split: prod.splits sum.splits)

subsection \<open>Properties\<close>





text \<open>C11: The recorded events of a withdrawal are its history: in every reachable state they form one
  unbroken path of allowed transitions that starts with its creation as a draft and ends in its
  current status.\<close>

theorem status_trail_complete:
  assumes "no_payouts s0" "payout_step\<^sup>*\<^sup>* s0 s" "x \<in> set (withdrawals s)"
  shows "follow (map (\<lambda>e. (we_from e, we_to e))
      (filter (\<lambda>e. we_withdrawal e = wd_id x) (withdrawal_events s))) = Some (Some (wd_status x))"
proof -
  have "trail_of (wd_id x) (map event_view (withdrawal_events s)) =
    map (\<lambda>e. (we_from e, we_to e)) (filter (\<lambda>e. we_withdrawal e = wd_id x) (withdrawal_events s))"
    by (simp add: trail_of_def filter_map comp_def event_view_def)
  with reachable_sound(1) [OF assms(1,2)] assms(3) show ?thesis
    by (auto simp: sound_def payouts_of_def)
qed

theorem status_trail_complete_witness:
  "\<exists>x \<in> set (withdrawals confirmed_db). follow (map (\<lambda>e. (we_from e, we_to e))
      (filter (\<lambda>e. we_withdrawal e = wd_id x) (withdrawal_events confirmed_db))) = Some (Some W_SUCCESS)"
proof -
  obtain x where x: "withdrawals confirmed_db = [x]" "wd_status x = W_SUCCESS"
    using confirmed_facts(1) by auto
  then have "x \<in> set (withdrawals confirmed_db)" by simp
  from status_trail_complete [OF payout_db_fresh confirmed_reachable this] x show ?thesis by simp
qed

text \<open>C3: As long as no request fails after its transfer was sent, the provider is handed at most one
  transfer per withdrawal, always under the withdrawal's own key, and none for a withdrawal that is
  still a draft, awaits approval, is approved, was rejected or was cancelled.\<close>

theorem transfer_at_most_once:
  assumes "no_payouts s0" "payout_step\<^sup>*\<^sup>* s0 s"
  shows "distinct (transfers (provider_calls s)) \<and>
    (\<forall>k \<in> set (transfers (provider_calls s)). \<exists>x \<in> set (withdrawals s).
       idempotency_key x = k \<and> \<not> unsent (wd_status x))"
  using reachable_sound(1) [OF assms] by (fastforce simp: sound_def payouts_of_def)

theorem transfer_at_most_once_witness:
  "transfers (provider_calls confirmed_db) = [''101''] \<and>
   (\<exists>x \<in> set (withdrawals confirmed_db). idempotency_key x = ''101'' \<and> \<not> unsent (wd_status x))"
  using transfer_at_most_once [OF payout_db_fresh confirmed_reachable] confirmed_facts(3) by auto

text \<open>C4: A withdrawal in a terminal status stays there, with the same tenant, amount and key, whatever
  requests follow; the one exception is the reversal of a success.\<close>

theorem terminal_is_final:
  assumes "no_payouts s0" "payout_step\<^sup>*\<^sup>* s0 s" "payout_step\<^sup>*\<^sup>* s s'"
    and "x \<in> set (withdrawals s)" "wd_status x \<in> set WITHDRAWAL_TERMINAL_STATUSES"
  shows "\<exists>x' \<in> set (withdrawals s'). wd_id x' = wd_id x \<and> wd_tenant x' = wd_tenant x \<and>
    wd_amount x' = wd_amount x \<and> idempotency_key x' = idempotency_key x \<and>
    (wd_status x' = wd_status x \<or> wd_status x = W_SUCCESS \<and> wd_status x' = W_REVERSED)"
proof -
  note s = reachable_sound [OF assms(1,2)]
  have "reached (payouts_of s) s" using s by (simp add: reached_def)
  from steps_reached [OF assms(3) s(1) this]
  have run: "spec_step\<^sup>*\<^sup>* (payouts_of s) (payouts_of s')" by (simp add: reached_def)
  have "row_find wd_id (wd_id x) (withdrawals s) = Some x"
    using s(2) assms(4) by (intro row_find_distinct) (simp_all add: good_def)
  then have "row_find po_id (wd_id x) (po_list (payouts_of s)) = Some (view x)"
    by (simp add: payouts_of_def find_view)
  from spec_terminal [OF run this] assms(5) obtain p'
    where p': "row_find po_id (wd_id x) (po_list (payouts_of s')) = Some p'"
      "p' = (view x)\<lparr>po_status := po_status p'\<rparr>" "stays (wd_status x) (po_status p')"
    by auto
  then obtain x' where x': "x' \<in> set (withdrawals s')" "p' = view x'"
    by (auto simp: payouts_of_def dest!: row_find_Some)
  have "po_id p' = wd_id x" "po_tenant p' = wd_tenant x" "po_amount p' = wd_amount x"
    "po_key p' = idempotency_key x"
    by (subst p'(2), simp)+
  with x' p'(3) show ?thesis by (intro bexI [of _ x']) (auto simp: stays_def)
qed

theorem terminal_is_final_witness:
  "\<exists>x \<in> set (withdrawals confirmed_db). wd_status x = W_SUCCESS \<or> wd_status x = W_REVERSED"
proof -
  obtain x where x: "withdrawals confirmed_db = [x]" "wd_status x = W_SUCCESS"
    using confirmed_facts(1) by auto
  then have "x \<in> set (withdrawals confirmed_db)" by simp
  from terminal_is_final [OF payout_db_fresh confirmed_reachable rtranclp.rtrancl_refl this] x(2)
  show ?thesis by (auto simp: WITHDRAWAL_TERMINAL_STATUSES_def)
qed

end
