(* ===== verification/Payout_Rules.thy ===== *)
theory Payout_Rules
  imports Payout_System
begin

text \<open>
  What has to hold before the payout service acts: the gates of a request, the code that
  confirms it, the provider's answer that completes it; and the isolation of withdrawals from one
  another.
\<close>

subsection \<open>Requesting\<close>








subsection \<open>Confirming\<close>



text \<open>A series of guesses against one row, each seen by the row the one before left.\<close>

fun guesses :: "io \<Rightarrow> settings \<Rightarrow> string option \<Rightarrow> string list \<Rightarrow> withdrawal \<Rightarrow> withdrawal op" where
  "guesses w cfg email [] x = ret x"
| "guesses w cfg email (g # gs) x = bnd (verify w cfg x g email) (\<lambda>(_, x'). guesses w cfg email gs x')"

definition wrong :: "io \<Rightarrow> settings \<Rightarrow> withdrawal \<Rightarrow> string \<Rightarrow> bool" where
  "wrong w cfg x g \<longleftrightarrow> (case otp_verification_secret cfg of None \<Rightarrow> True
     | Some k \<Rightarrow> two_factor_code_hash x \<noteq> Some (hmac_sha256 w k (id_text (wd_id x) @ '':'' @ g)))"

text \<open>Wrong guesses are counted exactly and run out: after any number of wrong guesses the counter
  stands at the number made, or at the configured maximum, from which no guess, not even the right
  one, verifies.\<close>

theorem guesses_run_out:
  assumes "two_factor_code_hash x \<noteq> None" "otp_verification_secret cfg = Some (k # ks)"
    and "two_factor_expires_at x = Some e" "now w \<le> e" "otp_sent_to_email x = email"
    and "two_factor_attempts x \<le> withdrawal_otp_max_attempts cfg"
    and "\<forall>g \<in> set gs. wrong w cfg x g"
  shows "\<exists>x' s'. guesses w cfg email gs x s = (Inr x', s') \<and>
    two_factor_attempts x' =
      min (withdrawal_otp_max_attempts cfg) (two_factor_attempts x + length gs) \<and>
    (two_factor_attempts x' = withdrawal_otp_max_attempts cfg \<longrightarrow>
      (\<forall>g u. verify w cfg x' g email u = (Inr (False, x'), u)))"
  using assms
proof (induction gs arbitrary: x s)
  case Nil
  then show ?case by (auto simp: verify_def is_exhausted_def ret_def split: option.splits)
next
  case (Cons g gs)
  obtain h where h: "two_factor_code_hash x = Some h" using Cons.prems(1) by auto
  show ?case
  proof (cases "two_factor_attempts x < withdrawal_otp_max_attempts cfg")
    case True
    let ?x = "x\<lparr>two_factor_attempts := two_factor_attempts x + 1\<rparr>"
    let ?s = "s\<lparr>withdrawals := row_put wd_id ?x (withdrawals s)\<rparr>"
    have "hmac_sha256 w (k # ks) (id_text (wd_id x) @ '':'' @ g) \<noteq> h"
      using Cons.prems(2,7) h by (auto simp: wrong_def)
    then have step: "verify w cfg x g email s = (Inr (False, ?x), ?s)"
      using True Cons.prems(2-5) h
      by (simp add: verify_def is_exhausted_def hash_code_def otp_secret_def comp_defs
          update_withdrawal_def)
    have "wrong w cfg ?x g' = wrong w cfg x g'" for g'
      by (cases "otp_verification_secret cfg") (simp_all add: wrong_def)
    then have "\<forall>g \<in> set gs. wrong w cfg ?x g" using Cons.prems(7) by simp
    from Cons.IH [of ?x ?s] this Cons.prems True step show ?thesis by simp
  next
    case False
    then have max: "two_factor_attempts x = withdrawal_otp_max_attempts cfg"
      using Cons.prems(6) by simp
    then have "verify w cfg x g email s = (Inr (False, x), s)"
      by (simp add: verify_def h is_exhausted_def ret_def)
    with Cons.IH [of x s] Cons.prems max show ?thesis by simp
  qed
qed

definition coded_row :: withdrawal where
  "coded_row = (new_withdrawal sample_io 100 ''101'' 7 1 11 40 False 3)
     \<lparr>two_factor_code_hash := Some ''s/100:000042'', two_factor_expires_at := Some (seconds 2000000),
      otp_sent_to_email := Some ''a@b.tz''\<rparr>"

theorem guesses_run_out_witness:
  "\<exists>x' s'. guesses sample_io payout_cfg (Some ''a@b.tz'') (replicate 9 ''111111'') coded_row empty_db
     = (Inr x', s') \<and> two_factor_attempts x' = 5"
proof -
  have "wrong sample_io payout_cfg coded_row ''111111''"
    by code_simp
  then show ?thesis
    using guesses_run_out [of coded_row payout_cfg "CHR ''s''" "[]" "seconds 2000000" sample_io
        "Some ''a@b.tz''" "replicate 9 ''111111''" empty_db]
    by (auto simp: coded_row_def payout_cfg_def sample_io_def new_withdrawal_def seconds_def)
qed

subsection \<open>The provider's answer\<close>






lemma strip_Nil [simp]: "strip [] = []"
  by (simp add: strip_def lstrip_def rstrip_def)












end
