(* ===== verification/Payout_Hazards.thy ===== *)
theory Payout_Hazards
  imports Payout_Rules
begin

text \<open>
  Where the payout code does not do what its documentation says, each shown on the model of the
  code: a request that fails after its transfer was sent, an answer that is an HTTP error, an
  approved withdrawal whose lookup could not be made, amounts with more than two decimals, the
  approval by the requester.
\<close>

text \<open>
  The state after the request of the concrete run, with its rows written out: the wallet with
  40.00 on hold, the draft, its event.
\<close>

definition draft_row :: withdrawal where
  "draft_row = (new_withdrawal sample_io 100 ''101'' 7 1 11 40 False 3)
     \<lparr>two_factor_code_hash := Some ''s/100:000042'',
      two_factor_expires_at := Some (seconds 1000600), otp_sent_to_email := Some ''a@b.tz'',
      otp_last_sent_at := Some (seconds 1000000), otp_send_count := 1\<rparr>"

definition draft_db :: db where
  "draft_db = payout_db\<lparr>
     wallets := [funded_wallet\<lparr>available_balance_tzs := 60, reserved_balance_tzs := 40\<rparr>],
     withdrawals := [draft_row],
     withdrawal_events := [\<lparr>we_tenant = 7, we_withdrawal = 100, we_from = None, we_to = W_DRAFT,
       we_actor = Some 3, we_reason = None, we_created_at = seconds 1000000\<rparr>],
     next_id := 102\<rparr>"

lemma draft_is_requested:
  "wallets requested_db = wallets draft_db \<and> withdrawals requested_db = withdrawals draft_db \<and>
   withdrawal_events requested_db = withdrawal_events draft_db \<and> next_id requested_db = 102"
proof -
  have "(case commit (request_withdrawal sample_io payout_cfg 7 3 11 40) payout_db of (r, s) \<Rightarrow>
      wallets s = wallets draft_db \<and> withdrawals s = withdrawals draft_db \<and>
      withdrawal_events s = withdrawal_events draft_db \<and> next_id s = 102)"
    by code_simp
  then show ?thesis by (simp add: requested_db_def split: prod.splits)
qed



definition failing_io :: io where
  "failing_io = sample_io\<lparr>process_reply := ApiFailure ''Selcom Business returned 504''\<rparr>"

text \<open>An HTTP error in answer to a transfer (a 5xx, or a proxy's page that is not JSON) is taken for
  a refusal: the withdrawal fails and the held money is available again, although whether the
  provider carried out the transfer is unknown.\<close>

theorem server_error_releases_hold:
  "(case commit (confirm_two_factor failing_io payout_cfg 7 100 3 ''000042'') draft_db of
      (r, s) \<Rightarrow> \<not> isl r \<and> map wd_status (withdrawals s) = [W_FAILED] \<and>
        balance B_AVAILABLE 7 s = 100 \<and> balance B_RESERVED 7 s = 0 \<and>
        transfers (provider_calls s) = [''101''])"
  by code_simp

text \<open>An approved withdrawal whose account lookup got no answer is stuck: it cannot be cancelled,
  approved, rejected, reversed or confirmed, reconciliation and callbacks leave it as it is, and it
  is not among the withdrawals the sweep looks at; its money stays on hold.\<close>

theorem approved_is_stuck:
  assumes "row_find wd_id i (withdrawals s) = Some x" "wd_status x = W_APPROVED" "wd_tenant x = t"
  shows "(\<forall>r s'. cancel_withdrawal w t i actor notes s = (r, s') \<longrightarrow> isl r) \<and>
    (\<forall>r s'. approve_withdrawal w cfg i actor notes s = (r, s') \<longrightarrow> isl r) \<and>
    (\<forall>r s'. reject_withdrawal w i actor reason s = (r, s') \<longrightarrow> isl r) \<and>
    (\<forall>r s'. reverse_withdrawal w t i ac reason s = (r, s') \<longrightarrow> isl r) \<and>
    (\<forall>r s'. confirm_two_factor w cfg t i actor otp s = (r, s') \<longrightarrow> isl r) \<and>
    (\<forall>r s'. reconcile_withdrawal w cfg i s = (r, s') \<longrightarrow> withdrawals s' = withdrawals s) \<and>
    reconcile_if_pending w cfg i s = (Inr (x, False), s) \<and>
    apply_disbursement_result w i ok ref detail s = (Inr x, s) \<and>
    x \<notin> set (list_reconcilable_withdrawals s)"
proof -
  have found: "find_withdrawal None i s = (Inr x, s)" "find_withdrawal (Some t) i s = (Inr x, s)"
    using assms by (simp_all add: find_withdrawal_def get_by_id_def comp_defs)
  have reconcile: "withdrawals s' = withdrawals s" if "reconcile_withdrawal w cfg i s = (r, s')" for r s'
  proof -
    have quiet: "keeps (\<lambda>s s'. withdrawals s' = withdrawals s) (reconcile_locked w cfg x None)"
      by (rule keepsI) (auto simp: reconcile_locked_def transaction_query_def apply_provider_result_def
          assms(2) Let_def bnd_def ret_def business_config_from_settings_def uncaught_def raise_def
          dest!: call_state split: prod.splits sum.splits option.splits)
    with that found show ?thesis by (auto simp: reconcile_withdrawal_def dest: keepsD)
  qed
  show ?thesis
    using found assms(2) reconcile
    by (auto simp: cancel_withdrawal_def approve_withdrawal_def reject_withdrawal_def
        reverse_withdrawal_def confirm_two_factor_def reconcile_if_pending_def
        apply_disbursement_result_def list_reconcilable_withdrawals_def list_by_statuses_def
        guard_def thn_def bnd_def ret_def raise_def)
qed

definition unanswered_io :: io where
  "unanswered_io = sample_io\<lparr>lookup_reply := TransportFailure ''timeout''\<rparr>"

definition stuck_db :: db where
  "stuck_db = snd (commit (confirm_two_factor unanswered_io payout_cfg 7 100 3 ''000042'') draft_db)"

lemma stuck_run:
  "(case commit (confirm_two_factor unanswered_io payout_cfg 7 100 3 ''000042'') draft_db of
      (r, s) \<Rightarrow> \<not> isl r \<and> map wd_id (withdrawals s) = [100] \<and> map wd_tenant (withdrawals s) = [7] \<and>
        map wd_status (withdrawals s) = [W_APPROVED] \<and> balance B_RESERVED 7 s = 40)"
  by code_simp

theorem approved_is_stuck_witness:
  "\<exists>x. withdrawals stuck_db = [x] \<and> wd_status x = W_APPROVED \<and> balance B_RESERVED 7 stuck_db = 40 \<and>
     reconcile_if_pending sample_io payout_cfg 100 stuck_db = (Inr (x, False), stuck_db)"
proof -
  obtain x where x: "withdrawals stuck_db = [x]" "wd_id x = 100" "wd_tenant x = 7"
    "wd_status x = W_APPROVED" "balance B_RESERVED 7 stuck_db = 40"
    using stuck_run by (auto simp: stuck_db_def split: prod.splits)
  then have "row_find wd_id 100 (withdrawals stuck_db) = Some x" by (simp add: row_find_def)
  from approved_is_stuck [OF this x(4,3), of sample_io 3 None payout_cfg "[]" None "[]" True "[]" None] x
  show ?thesis by blast
qed

lemma half_cent_run:
  "(case commit (request_withdrawal sample_io payout_cfg 7 3 11 (5 / 1000)) payout_db of
      (r, s) \<Rightarrow> \<not> isl r \<and> balance B_AVAILABLE 7 s = 100 \<and> balance B_RESERVED 7 s = 1 / 100 \<and>
        (case commit (cancel_withdrawal sample_io 7 100 3 None) s of
           (r', s') \<Rightarrow> \<not> isl r' \<and> balance B_AVAILABLE 7 s' = 100 + 1 / 100))"
  by code_simp

lemma tenth_cent_run:
  "(case commit (request_withdrawal sample_io payout_cfg 7 3 11 (1 / 1000)) payout_db of
      (r, s) \<Rightarrow> \<not> isl r \<and> map wd_amount (withdrawals s) = [0] \<and>
        (case fst (commit (cancel_withdrawal sample_io 7 100 3 None) s) of
           Inl e \<Rightarrow> e = DomainValidationError ''release amount must be positive'' | Inr x \<Rightarrow> False))"
  by code_simp

text \<open>An amount with more than two decimals is not refused and is rounded differently in each column
  it touches: requesting 0.005 and cancelling leaves the tenant with one cent more than before, and
  a request for 0.001 is stored as a withdrawal of nothing that can never be cancelled.\<close>

theorem fractions_of_a_cent_mint_money:
  "(case commit (request_withdrawal sample_io payout_cfg 7 3 11 (5 / 1000)) payout_db of
      (r, s) \<Rightarrow> \<not> isl r \<and> balance B_AVAILABLE 7 s = 100 \<and> balance B_RESERVED 7 s = 1 / 100 \<and>
        (case commit (cancel_withdrawal sample_io 7 100 3 None) s of
           (r', s') \<Rightarrow> \<not> isl r' \<and> balance B_AVAILABLE 7 s' = 100 + 1 / 100)) \<and>
   (case commit (request_withdrawal sample_io payout_cfg 7 3 11 (1 / 1000)) payout_db of
      (r, s) \<Rightarrow> \<not> isl r \<and> map wd_amount (withdrawals s) = [0] \<and>
        (case fst (commit (cancel_withdrawal sample_io 7 100 3 None) s) of
           Inl e \<Rightarrow> e = DomainValidationError ''release amount must be positive'' | Inr x \<Rightarrow> False))"
  by (rule conjI [OF half_cent_run tenth_cent_run])

definition pending_db :: db where
  "pending_db = draft_db\<lparr>withdrawals :=
     [draft_row\<lparr>approval_required := True, wd_status := W_PENDING_APPROVAL\<rparr>]\<rparr>"

text \<open>Nothing keeps the requester of a withdrawal above the threshold from approving it: the service
  lets the same person request, confirm and approve, and submits the transfer.\<close>

theorem requester_may_approve:
  "(case commit (approve_withdrawal sample_io payout_cfg 100 3 None) pending_db of
      (r, s) \<Rightarrow> \<not> isl r \<and> map wd_status (withdrawals s) = [W_SUCCESS] \<and>
        map requested_by (withdrawals s) = [Some 3] \<and> map reviewed_by (withdrawals s) = [Some 3])"
  by code_simp

end
