(* ===== verification/Provider_Rules.thy ===== *)
theory Provider_Rules
  imports Selcom_Business
begin

text \<open>
  What the disbursement integration promises its callers: where a request may go, that the two
  documented spellings of the base URL are one, and that the signed string determines the values
  it signs. And the normal form of phone numbers, which every provider request relies on.
\<close>

subsection \<open>URLs\<close>

lemma rstrip_slashes: "\<not> ends_with ''/'' b \<Longrightarrow> rstrip (\<lambda>c. c = CHR ''/'') (b @ replicate n (CHR ''/'')) = b"
  by (induction n; cases "rev b")
    (auto simp: rstrip_def ends_with_def starts_with_def replicate_append_same dropWhile_append
      rev_swap)

lemma rev_version: "rev (b @ ''/v1'') = ''1v/'' @ rev b"
  by simp

lemma ends_with_version: "ends_with ''/v1'' (b @ ''/v1'')" "\<not> ends_with ''/'' (b @ ''/v1'')"
  by (simp_all add: ends_with_def starts_with_def)

text \<open>Both documented spellings of the provider's base URL, with and without the version segment
  and with any number of trailing slashes, give the same request URL: the host part followed by the
  versioned path, the version never doubled; a path without the version is refused.\<close>

theorem url_spellings_agree:
  assumes "\<not> ends_with ''/'' b" "\<not> ends_with ''/v1'' b"
  shows "build_url (b @ replicate n (CHR ''/'')) path =
      (if starts_with ''/v1/'' path then Some (b @ path) else None) \<and>
    build_url (b @ ''/v1'' @ replicate n (CHR ''/'')) path =
      build_url (b @ replicate n (CHR ''/'')) path"
proof -
  have strip: "rstrip (\<lambda>c. c = CHR ''/'') (b @ ''/v1'' @ replicate n (CHR ''/'')) = b @ ''/v1''"
    using rstrip_slashes [of "b @ ''/v1''" n] ends_with_version(2) [of b] by simp
  then show ?thesis
    using assms rstrip_slashes [OF assms(1), of n] ends_with_version(1) [of b]
    by (simp add: build_url_def Let_def)
qed

theorem url_spellings_agree_witness:
  "build_url ''https://api.selcom.business/v1//'' ''/v1/transaction/process'' =
     Some ''https://api.selcom.business/v1/transaction/process''"
  using url_spellings_agree [of "''https://api.selcom.business''" 2 "''/v1/transaction/process''"]
  by (simp add: ends_with_def starts_with_def numeral_2_eq_2)

subsection \<open>The signed string\<close>

lemma cut_unique:
  assumes "a @ c # x = b @ c # y" "c \<notin> set a" "c \<notin> set b"
  shows "a = b \<and> x = y"
proof -
  have "takeWhile (\<lambda>z. z \<noteq> c) (a @ c # x) = a" "takeWhile (\<lambda>z. z \<noteq> c) (b @ c # y) = b"
    using assms(2,3) by (auto simp: takeWhile_append)
  then show ?thesis using assms(1) by simp
qed

lemma join_inj:
  assumes "join [c] xs = join [c] ys" "length xs = length ys"
    and "\<forall>w \<in> set xs. c \<notin> set w" "\<forall>w \<in> set ys. c \<notin> set w"
  shows "xs = ys"
  using assms
proof (induction xs arbitrary: ys)
  case (Cons x xs)
  then obtain y ys' where ys: "ys = y # ys'" by (cases ys) auto
  show ?case
  proof (cases xs)
    case Nil
    then show ?thesis using Cons.prems ys by auto
  next
    case (Cons x' xs')
    then obtain y' ys'' where y': "ys' = y' # ys''" using ys Cons.prems(2) by (cases ys') auto
    have "x @ c # join [c] xs = y @ c # join [c] ys'"
      using Cons.prems(1) Cons ys y' by simp
    then have "x = y \<and> join [c] xs = join [c] ys'"
      by (rule cut_unique) (use Cons.prems(3,4) ys in auto)
    then show ?thesis using Cons.IH [of ys'] Cons.prems ys by auto
  qed
qed simp

text \<open>The string that is signed determines what it signs: for requests with the same fields, whose
  values contain no ampersand, equal signed strings mean equal timestamps and equal values, in the
  order the header lists the fields.\<close>

theorem signed_string_determines_values:
  assumes "canonical_signing_string t fs = canonical_signing_string u gs"
    and "map fst fs = map fst gs"
    and "CHR ''&'' \<notin> set t" "CHR ''&'' \<notin> set u"
    and "\<forall>(n, v) \<in> set fs. CHR ''&'' \<notin> set n \<and> CHR ''&'' \<notin> set v"
    and "\<forall>(n, v) \<in> set gs. CHR ''&'' \<notin> set n \<and> CHR ''&'' \<notin> set v"
  shows "t = u \<and> fs = gs"
proof -
  let ?p = "\<lambda>(n, v). n @ ''='' @ v"
  have len: "length fs = length gs" using assms(2) by (metis length_map)
  have clean: "\<forall>w \<in> set ((''timestamp='' @ t) # map ?p fs). CHR ''&'' \<notin> set w"
    if "CHR ''&'' \<notin> set t" "\<forall>(n, v) \<in> set fs. CHR ''&'' \<notin> set n \<and> CHR ''&'' \<notin> set v" for t fs
    using that by fastforce
  have "(''timestamp='' @ t) # map ?p fs = (''timestamp='' @ u) # map ?p gs"
  proof (rule join_inj [of "CHR ''&''"])
    show "join ''&'' ((''timestamp='' @ t) # map ?p fs) = join ''&'' ((''timestamp='' @ u) # map ?p gs)"
      using assms(1) by (simp only: canonical_signing_string_def)
    show "length ((''timestamp='' @ t) # map ?p fs) = length ((''timestamp='' @ u) # map ?p gs)"
      using len by simp
  qed (rule clean [OF assms(3,5)], rule clean [OF assms(4,6)])
  then have "t = u" and pairs: "map ?p fs = map ?p gs" by simp_all
  have "fs = gs"
  proof (rule nth_equalityI [OF len])
    fix i assume i: "i < length fs"
    have "map fst fs ! i = map fst gs ! i" "map ?p fs ! i = map ?p gs ! i"
      using assms(2) pairs by simp_all
    with i len show "fs ! i = gs ! i" by (auto simp: split_beta prod_eq_iff)
  qed
  with \<open>t = u\<close> show ?thesis by simp
qed

theorem signed_string_determines_values_witness:
  "{k. CHR ''&'' \<notin> set k \<and>
      canonical_signing_string ''T'' [(''transId'', k)] = ''timestamp=T&transId=w1''} = {''w1''}"
proof -
  have eq: "k = ''w1''" if k: "CHR ''&'' \<notin> set k"
    "canonical_signing_string ''T'' [(''transId'', k)] = ''timestamp=T&transId=w1''" for k
  proof -
    have "canonical_signing_string ''T'' [(''transId'', k)] =
        canonical_signing_string ''T'' [(''transId'', ''w1'')]"
      using k(2) by (simp add: canonical_signing_string_def)
    from signed_string_determines_values [OF this] k(1) show ?thesis by simp
  qed
  have "canonical_signing_string ''T'' [(''transId'', ''w1'')] = ''timestamp=T&transId=w1''"
    "CHR ''&'' \<notin> set ''w1''"
    by (simp_all add: canonical_signing_string_def)
  with eq show ?thesis by blast
qed

subsection \<open>Where a request may go\<close>

text \<open>A request leaves only towards the configured provider: if any of the three calls sends
  anything, base URL, key and signing key are all set, the host is the provider's production host
  (or, for the sandbox environment, one that names the sandbox), exactly one request was sent, and
  nothing else of the state changed. So no sandbox setting ever reaches the production host.\<close>

theorem requests_go_to_the_provider:
  assumes "account_lookup w c bank account t amount s = (r, s') \<or>
      transaction_process w c t bank account name amount s = (r', s') \<or>
      transaction_query w c t s = (r'', s')"
    and "provider_calls s' \<noteq> provider_calls s"
  shows "is_configured c \<and>
    (let host = url_hostname (the (bc_base_url c)) in
      if bc_environment c = ''sandbox''
      then is_substring ''sandbox'' host \<and> host \<noteq> ''api.selcom.business''
      else host = ''api.selcom.business'') \<and>
    (\<exists>q. s' = s\<lparr>provider_calls := provider_calls s @ [q]\<rparr>)"
proof -
  have one: "\<exists>q. s' = s\<lparr>provider_calls := provider_calls s @ [q]\<rparr>"
    using assms by (auto simp: business_calls dest: call_state)
  have configured: "require_configured c = None"
    using assms by (auto simp: business_calls call_def run_simps split: option.splits)
  have "\<not> is_substring ''sandbox'' ''api.selcom.business''"
    by (simp add: starts_with_def)
  with one configured show ?thesis
    by (auto simp: require_configured_def base_url_matches_environment_def is_configured_def Let_def
        split: if_splits)
qed

theorem requests_go_to_the_provider_witness:
  "url_hostname ''https://api.selcom.business/v1'' = ''api.selcom.business'' \<and>
   (\<exists>q. provider_calls (snd (transaction_query sample_io
      \<lparr>bc_environment = ''production'', bc_base_url = Some ''https://api.selcom.business/v1'',
       bc_api_key = Some ''k'', bc_private_key_pem = Some ''p''\<rparr> ''w1'' empty_db)) = [q])"
proof -
  let ?c = "\<lparr>bc_environment = ''production'', bc_base_url = Some ''https://api.selcom.business/v1'',
       bc_api_key = Some ''k'', bc_private_key_pem = Some ''p''\<rparr>"
  let ?r = "transaction_query sample_io ?c ''w1'' empty_db"
  have "length (provider_calls (snd ?r)) = 1" "provider_calls empty_db = []"
    by code_simp+
  then have sent: "provider_calls (snd ?r) \<noteq> provider_calls empty_db" by auto
  have "transaction_query sample_io ?c ''w1'' empty_db = (fst ?r, snd ?r)" by simp
  from requests_go_to_the_provider [OF disjI2 [OF disjI2 [OF this]] sent]
    \<open>provider_calls empty_db = []\<close>
  show ?thesis by (auto simp: Let_def)
qed

subsection \<open>Phone numbers\<close>

text \<open>A number that is accepted has one normal form, whatever spelling it arrives in: twelve digits
  that start with the country code and a 6 or 7, accepted again as itself, and equal for the local,
  the international and the plus spelling of the same subscriber.\<close>

theorem phone_has_one_normal_form:
  assumes "normalize_tz_phone raw = Some p"
  shows "length p = 12 \<and> (\<forall>c \<in> set p. is_digit c) \<and> take 3 p = ''255'' \<and> p ! 3 \<in> set ''67'' \<and>
    normalize_tz_phone p = Some p \<and> normalize_tz_phone (''+'' @ p) = Some p \<and>
    normalize_tz_phone (''0'' @ drop 3 p) = Some p"
proof -
  obtain m where p: "p = ''255'' @ m" and m: "subscriber m" using normalize_shape [OF assms] by blast
  have "m \<noteq> []" using m by (auto simp: subscriber_def)
  then show ?thesis
    using m normalize_forms [OF m] by (auto simp: p subscriber_def is_digit_def code_def hd_conv_nth)
qed

theorem phone_has_one_normal_form_witness:
  "normalize_tz_phone '' (0712) 345-678 '' = Some ''255712345678'' \<and>
   normalize_tz_phone ''+255712345678'' = Some ''255712345678''"
proof -
  have "normalize_tz_phone '' (0712) 345-678 '' = Some ''255712345678''" by code_simp
  from phone_has_one_normal_form [OF this] this show ?thesis by simp
qed

end
