(* ===== verification/Selcom_Collection.thy ===== *)
theory Selcom_Collection
  imports Samples
begin

text \<open>
  The payment provider's integration, \<^verbatim>\<open>app/integrations/selcom_collection\<close>: configuration, the
  three calls, and the verification of an inbound webhook. The network, HMAC, base64 and the
  reading of an ISO timestamp are outside: a call records the request it sends and ends as the
  reply of the \<open>io\<close> says, the verifier takes the three functions as a record.
\<close>

subsection \<open>Configuration\<close>

record collection_config =
  cc_base_url :: "string option"
  cc_api_key :: "string option"
  cc_api_secret :: "string option"
  cc_private_key_pem :: "string option"
  cc_digest_method :: "string option"
  cc_vendor :: "string option"

definition SUPPORTED_DIGEST_METHODS :: "string list" where
  "SUPPORTED_DIGEST_METHODS = [''HS256'', ''RS256'']"

definition collection_is_configured :: "collection_config \<Rightarrow> bool" where
  "collection_is_configured c =
     (if \<not> (truthy (cc_base_url c) \<and> truthy (cc_api_key c) \<and> truthy (cc_vendor c) \<and>
             truthy (cc_digest_method c)) then False
      else if the (cc_digest_method c) \<notin> set SUPPORTED_DIGEST_METHODS then False
      else if cc_digest_method c = Some ''HS256'' then truthy (cc_api_secret c)
      else truthy (cc_private_key_pem c))"

definition collection_require_configured :: "collection_config \<Rightarrow> unit op" where
  "collection_require_configured c =
     thn (guard (case cc_digest_method c of None \<Rightarrow> True | Some d \<Rightarrow> d \<in> set SUPPORTED_DIGEST_METHODS)
            (SelcomCollectionError ''SELCOM_COLLECTION_DIGEST_METHOD is not supported''))
         (guard (collection_is_configured c)
            (SelcomCollectionError ''Selcom Collection is not configured''))"

definition collection_config_from_settings :: "settings \<Rightarrow> collection_config op" where
  "collection_config_from_settings cfg =
     (case selcom_collection_private_key_pem cfg of
        None \<Rightarrow> raise (SelcomCollectionError ''SELCOM_COLLECTION_PRIVATE_KEY_B64 is not valid'')
      | Some pem \<Rightarrow> ret \<lparr>cc_base_url = selcom_collection_base_url cfg,
          cc_api_key = selcom_collection_api_key cfg, cc_api_secret = selcom_collection_api_secret cfg,
          cc_private_key_pem = pem, cc_digest_method = selcom_collection_digest_method cfg,
          cc_vendor = selcom_collection_vendor cfg\<rparr>)"

text \<open>\<^verbatim>\<open>SelcomCollectionClient(selcom_collection_config_from_settings())\<close>.\<close>

definition collection_client :: "settings \<Rightarrow> collection_config op" where
  "collection_client cfg =
     bnd (collection_config_from_settings cfg) (\<lambda>c.
     thn (collection_require_configured c) (ret c))"

lemma collection_client_state: "collection_client cfg s = (r, s') \<Longrightarrow> s' = s"
  by (cases r) (auto simp: collection_client_def collection_config_from_settings_def
      collection_require_configured_def run_simps split: option.splits)

subsection \<open>Calls\<close>

text \<open>A whole amount is written without decimals; \<open>None\<close> is the ValueError.\<close>

definition whole_tzs_amount :: "rat \<Rightarrow> string option" where
  "whole_tzs_amount amount =
     (if of_int \<lfloor>amount\<rfloor> \<noteq> amount then None else Some (int_str \<lfloor>amount\<rfloor>))"

text \<open>
  A call gives its caller either the parsed reply or the text of a \<^verbatim>\<open>SelcomCollectionError\<close> (transport
  or API error, which no caller distinguishes); any other exception passes through it.
\<close>

definition collection_call :: "provider_call \<Rightarrow> 'a reply \<Rightarrow> (string + 'a) op" where
  "collection_call request answer =
     thn (record_call request)
       (case answer of
          Reply x \<Rightarrow> ret (Inr x)
        | TransportFailure m \<Rightarrow> ret (Inl m)
        | ApiFailure m \<Rightarrow> ret (Inl m)
        | Malformed m \<Rightarrow> raise (UnhandledError m))"

definition create_order_minimal ::
    "io \<Rightarrow> string \<Rightarrow> string \<Rightarrow> string \<Rightarrow> string \<Rightarrow> rat \<Rightarrow> (string + unit) op" where
  "create_order_minimal w order_id buyer_email buyer_name buyer_phone amount =
     (case whole_tzs_amount amount of
        None \<Rightarrow> raise (UnhandledError ''Selcom Collection amount must be a whole number of TZS'')
      | Some _ \<Rightarrow> collection_call (CreateOrder order_id buyer_email buyer_name buyer_phone amount)
          (create_order_reply w))"

definition wallet_payment ::
    "io \<Rightarrow> string \<Rightarrow> string \<Rightarrow> string \<Rightarrow> (string + wallet_payment_response) op" where
  "wallet_payment w transid order_id msisdn =
     collection_call (WalletPayment transid order_id msisdn) (wallet_payment_reply w)"

definition order_status :: "io \<Rightarrow> string \<Rightarrow> (string + order_status_response) op" where
  "order_status w order_id = collection_call (OrderStatus order_id) (order_status_reply w)"

lemma collection_call_state:
  "collection_call q a s = (r, s') \<Longrightarrow> s' = s\<lparr>provider_calls := provider_calls s @ [q]\<rparr>"
  by (cases r) (auto simp: collection_call_def run_simps split: reply.splits)

lemma create_order_state:
  "create_order_minimal w i e n p a s = (r, s') \<Longrightarrow>
     s' = s \<or> s' = s\<lparr>provider_calls := provider_calls s @ [CreateOrder i e n p a]\<rparr>"
  by (auto simp: create_order_minimal_def raise_def split: option.splits dest: collection_call_state)

text \<open>The two provider integrations sign the same kind of string.\<close>

definition collection_signing_string :: "string \<Rightarrow> (string \<times> string) list \<Rightarrow> string" where
  "collection_signing_string timestamp fs =
     join ''&'' ((''timestamp='' @ timestamp) # map (\<lambda>(name, v). name @ ''='' @ v) fs)"

subsection \<open>Inbound webhooks\<close>

record webhook_crypto =
  base64 :: "string \<Rightarrow> string"
  digest_hs256 :: "string \<Rightarrow> string \<Rightarrow> string"
  parse_iso :: "string \<Rightarrow> time option"

definition DEFAULT_WEBHOOK_MAX_SKEW_SECONDS :: int where
  "DEFAULT_WEBHOOK_MAX_SKEW_SECONDS = 300"

definition dict_get :: "(string \<times> 'a) list \<Rightarrow> string \<Rightarrow> 'a option" where
  "dict_get d k = map_of (rev d) k"

definition lower_keys :: "(string \<times> string) list \<Rightarrow> (string \<times> string) list" where
  "lower_keys headers = map (\<lambda>(k, v). (lower k, v)) headers"

text \<open>\<^verbatim>\<open>OrderedDict((name, field_values[name]) for name in signed_field_names)\<close>: a repeated name keeps
  its first place.\<close>

fun first_occurrences :: "string list \<Rightarrow> string list" where
  "first_occurrences [] = []"
| "first_occurrences (n # ns) = n # filter (\<lambda>m. m \<noteq> n) (first_occurrences ns)"

definition ordered_fields :: "string list \<Rightarrow> (string \<times> string) list \<Rightarrow> (string \<times> string) list" where
  "ordered_fields names fs =
     map (\<lambda>n. (n, case dict_get fs n of None \<Rightarrow> [] | Some v \<Rightarrow> v)) (first_occurrences names)"

definition signed_field_names :: "string \<Rightarrow> string list" where
  "signed_field_names header = filter (\<lambda>n. n \<noteq> []) (map strip (split_on (CHR '','') header))"

definition compute_digest_for_verification ::
    "webhook_crypto \<Rightarrow> string \<Rightarrow> string option \<Rightarrow> string \<Rightarrow> string list \<Rightarrow>
     (string \<times> string) list \<Rightarrow> string option" where
  "compute_digest_for_verification k digest_method api_secret timestamp names fs =
     (if digest_method = ''HS256'' \<and> truthy api_secret
      then Some (digest_hs256 k (the api_secret)
                   (collection_signing_string timestamp (ordered_fields names fs)))
      else None)"

text \<open>\<open>True\<close> when \<^verbatim>\<open>verify_webhook_request\<close> returns, \<open>False\<close> when it raises its verification error.\<close>

definition verify_webhook_request ::
    "io \<Rightarrow> webhook_crypto \<Rightarrow> string \<Rightarrow> string \<Rightarrow> string option \<Rightarrow> (string \<times> string) list \<Rightarrow>
     (string \<times> string) list \<Rightarrow> bool" where
  "verify_webhook_request w k api_key digest_method api_secret headers body_fields =
     (let h = lower_keys headers in
      if dict_get h ''authorization'' \<noteq> Some (''SELCOM '' @ base64 k api_key) then False
      else if dict_get h ''digest-method'' \<noteq> Some digest_method then False
      else if \<not> (truthy (dict_get h ''timestamp'') \<and> truthy (dict_get h ''digest'') \<and>
                 truthy (dict_get h ''signed-fields'')) then False
      else case parse_iso k (the (dict_get h ''timestamp'')) of
        None \<Rightarrow> False
      | Some t \<Rightarrow>
          if \<bar>now w - t\<bar> > seconds DEFAULT_WEBHOOK_MAX_SKEW_SECONDS then False
          else let names = signed_field_names (the (dict_get h ''signed-fields'')) in
            if \<exists>n \<in> set names. dict_get body_fields n = None then False
            else case compute_digest_for_verification k digest_method api_secret
                        (the (dict_get h ''timestamp'')) names body_fields of
              None \<Rightarrow> False
            | Some d \<Rightarrow> dict_get h ''digest'' = Some d)"

text \<open>An accepted webhook carries a fresh digest made with the shared secret; with RS256 none is.\<close>

lemma verified_webhook:
  assumes "verify_webhook_request w k key method secret headers fs"
  shows "method = ''HS256'' \<and> truthy secret \<and>
    (\<exists>ts t names. parse_iso k ts = Some t \<and> \<bar>now w - t\<bar> \<le> seconds 300 \<and>
       (\<forall>n \<in> set names. dict_get fs n \<noteq> None) \<and>
       dict_get (lower_keys headers) ''digest'' =
         Some (digest_hs256 k (the secret) (collection_signing_string ts (ordered_fields names fs))))"
proof -
  let ?h = "lower_keys headers"
  let ?ts = "the (dict_get ?h ''timestamp'')"
  let ?names = "signed_field_names (the (dict_get ?h ''signed-fields''))"
  from assms obtain t d where t: "parse_iso k ?ts = Some t" "\<not> \<bar>now w - t\<bar> > seconds 300"
    "\<not> (\<exists>n \<in> set ?names. dict_get fs n = None)"
    "compute_digest_for_verification k method secret ?ts ?names fs = Some d"
    "dict_get ?h ''digest'' = Some d"
    by (auto simp: verify_webhook_request_def Let_def DEFAULT_WEBHOOK_MAX_SKEW_SECONDS_def
        split: if_splits option.splits)
  have "method = ''HS256''" "truthy secret"
    "d = digest_hs256 k (the secret) (collection_signing_string ?ts (ordered_fields ?names fs))"
    using t(4) by (simp_all add: compute_digest_for_verification_def split: if_splits)
  with t show ?thesis by (metis not_less)
qed

end
