(* ===== verification/Payment_Provider.thy ===== *)
theory Payment_Provider
  imports Selcom_Collection Wallet
begin

text \<open>
  \<^verbatim>\<open>app/services/selcom_payment_provider.py\<close>: what both payment flows share. A flow is described by
  its type, provider, reference prefix and audit name, and comes with the finalizer that runs when
  a payment is verified; together they are the \<^verbatim>\<open>SelcomPaymentProvider\<close> instance. Which instance
  owns a transaction is decided by the transaction's type; the siblings are looked up through a
  function, as the deferred imports of \<^verbatim>\<open>_provider_for\<close> do.
\<close>

subsection \<open>Flows and rows\<close>

record payment_flow =
  flow_type :: transaction_type
  flow_provider :: payment_provider
  reference_prefix :: string
  audit_namespace :: string

type_synonym finalizer = "transaction \<Rightarrow> order_status_data \<Rightarrow> transaction op"

record selcom_provider =
  sp_flow :: payment_flow
  sp_finalize :: finalizer

definition update_transaction :: "(transaction \<Rightarrow> transaction) \<Rightarrow> transaction \<Rightarrow> transaction op" where
  "update_transaction f x =
     thn (modify (\<lambda>s. s\<lparr>transactions := row_put tx_id (f x) (transactions s)\<rparr>)) (ret (f x))"

lemma update_transaction_run [simp, run_simps]:
  "update_transaction f x s = (r, s') \<longleftrightarrow>
     r = Inr (f x) \<and> s' = s\<lparr>transactions := row_put tx_id (f x) (transactions s)\<rparr>"
  by (auto simp: update_transaction_def comp_defs)

definition new_reference :: "payment_flow \<Rightarrow> string op" where
  "new_reference flow = bnd fresh (\<lambda>k. ret (reference_prefix flow @ id_text k))"

text \<open>
  \<^verbatim>\<open>transition\<close>: the status together with the extra columns (here the function \<open>f\<close>) and one audit
  row.
\<close>

definition tx_transition ::
    "payment_flow \<Rightarrow> io \<Rightarrow> transaction \<Rightarrow> collection_status \<Rightarrow> uuid option \<Rightarrow> string option \<Rightarrow>
     (string \<times> meta) list \<Rightarrow> (transaction \<Rightarrow> transaction) \<Rightarrow> transaction op" where
  "tx_transition flow w x to_status actor reason metadata f =
     bnd (update_transaction (\<lambda>x. f (x\<lparr>tx_status := to_status\<rparr>)) x) (\<lambda>x'.
     thn (write_audit_log w (Some (tx_tenant x')) actor
            (audit_namespace flow @ ''.'' @ lower (collection_status_value to_status))
            (Some ''transaction'') (Some (tx_id x'))
            ((case reason of Some (c # cs) \<Rightarrow> [(''reason'', MStr (c # cs))] | _ \<Rightarrow> []) @ metadata))
       (ret x'))"

definition tx_fail ::
    "payment_flow \<Rightarrow> io \<Rightarrow> transaction \<Rightarrow> string \<Rightarrow> uuid option \<Rightarrow> transaction op" where
  "tx_fail flow w x reason actor =
     tx_transition flow w x C_FAILED actor (Some reason) [] (\<lambda>x. x\<lparr>tx_failed_at := Some (now w)\<rparr>)"

subsection \<open>Initiation\<close>

definition create_order_and_send_stk ::
    "payment_flow \<Rightarrow> io \<Rightarrow> settings \<Rightarrow> transaction \<Rightarrow> uuid option \<Rightarrow> string \<Rightarrow> string \<Rightarrow>
     string \<Rightarrow> rat \<Rightarrow> transaction op" where
  "create_order_and_send_stk flow w cfg x actor buyer_name buyer_email msisdn amount =
     bnd (collection_client cfg) (\<lambda>_.
     bnd (create_order_minimal w (tx_reference x) buyer_email buyer_name msisdn amount) (\<lambda>r. case r of
       Inl m \<Rightarrow> tx_fail flow w x (''Order creation failed: '' @ m) actor
     | Inr _ \<Rightarrow>
         bnd fresh (\<lambda>k. let transid = ''txn-'' @ id_text k in
         bnd (wallet_payment w transid (tx_reference x) msisdn) (\<lambda>r. case r of
           Inl m \<Rightarrow> tx_fail flow w x (''STK request failed: '' @ m) actor
         | Inr resp \<Rightarrow>
             tx_transition flow w x C_STK_SENT actor (wp_message resp) []
               (\<lambda>x. x\<lparr>collection_transid := Some transid, stk_requested_at := Some (now w),
                  tx_resultcode := wp_resultcode resp, tx_message := wp_message resp\<rparr>)))))"

subsection \<open>Finalization\<close>

definition is_stale_pending :: "io \<Rightarrow> settings \<Rightarrow> transaction \<Rightarrow> bool" where
  "is_stale_pending w cfg x =
     (let threshold = selcom_collection_pending_review_minutes cfg in
      if threshold \<le> 0 then False
      else case stk_requested_at x of
        None \<Rightarrow> False
      | Some t \<Rightarrow> now w - t \<ge> minutes threshold)"

definition payment_status_map :: "string \<Rightarrow> collection_status option" where
  "payment_status_map p =
     map_of [(''PENDING'', C_PENDING), (''INPROGRESS'', C_INPROGRESS), (''CANCELLED'', C_CANCELLED),
       (''USERCANCELLED'', C_USERCANCELLED), (''REJECTED'', C_REJECTED),
       (''USERCANCELED'', C_USERCANCELLED), (''DECLINED'', C_DECLINED), (''FAILED'', C_FAILED),
       (''EXPIRED'', C_EXPIRED)] p"

definition payment_status_of :: "order_status_data \<Rightarrow> string" where
  "payment_status_of d =
     upper (strip (case os_payment_status d of None \<Rightarrow> [] | Some p \<Rightarrow> p))"

text \<open>\<open>a or b\<close> on texts that may be missing.\<close>

definition first_of :: "string option \<Rightarrow> string option \<Rightarrow> string option" where
  "first_of a b = (if truthy a then a else b)"

text \<open>The three checks a COMPLETED result has to pass; the reason of the first that fails.\<close>

definition completed_mismatch :: "transaction \<Rightarrow> order_status_data \<Rightarrow> string option" where
  "completed_mismatch x d =
     (if truthy (os_order_id d) \<and> os_order_id d \<noteq> Some (tx_reference x)
      then Some ''order_id mismatch''
      else if os_amount d = None \<or> os_amount d \<noteq> Some (tx_amount x)
      then Some ''Amount mismatch''
      else if truthy (os_currency d) \<and> os_currency d \<noteq> Some (tx_currency x)
      then Some ''Currency mismatch''
      else None)"

definition apply_order_status ::
    "selcom_provider \<Rightarrow> io \<Rightarrow> settings \<Rightarrow> transaction \<Rightarrow> order_status_data \<Rightarrow> uuid option \<Rightarrow>
     string option \<Rightarrow> transaction op" where
  "apply_order_status p w cfg x d actor resultcode =
     (let flow = sp_flow p; status = payment_status_of d in
      if tx_type x \<noteq> Some (flow_type flow) then raise SelcomPaymentFlowMismatchError
      else if collection_terminal (tx_status x) then ret x
      else if status = ''COMPLETED'' then
        (case completed_mismatch x d of
           Some reason \<Rightarrow> tx_transition flow w x C_AMBIGUOUS actor (Some reason) [] (\<lambda>x. x)
         | None \<Rightarrow>
             bnd (sp_finalize p x d) (\<lambda>x1.
             tx_transition flow w x1 C_COMPLETED actor
               (Some ''Payment verified COMPLETED via authenticated order-status query'')
               [(''provider_channel_transid'', case os_transid d of None \<Rightarrow> MNull | Some t \<Rightarrow> MStr t),
                (''provider_gateway_reference'',
                   case os_reference d of None \<Rightarrow> MNull | Some t \<Rightarrow> MStr t),
                (''local_request_transid'',
                   case collection_transid x1 of None \<Rightarrow> MNull | Some t \<Rightarrow> MStr t)]
               (\<lambda>x. x\<lparr>tx_provider_reference :=
                        first_of (first_of (os_transid d) (os_reference d)) (tx_provider_reference x),
                      tx_channel := os_channel d,
                      tx_resultcode := first_of resultcode (Some ''000''),
                      tx_message := Some ''COMPLETED'', tx_completed_at := Some (now w)\<rparr>)))
      else case payment_status_map status of
        None \<Rightarrow> tx_transition flow w x C_AMBIGUOUS actor (Some ''Unrecognized payment_status'') []
                 (\<lambda>x. x\<lparr>tx_resultcode := resultcode\<rparr>)
      | Some mapped \<Rightarrow>
          if mapped \<notin> {C_PENDING, C_INPROGRESS} then
            tx_transition flow w x mapped actor (Some (''Selcom order-status: '' @ status)) []
              (\<lambda>x. x\<lparr>tx_message := Some status, tx_resultcode := resultcode,
                 tx_failed_at := Some (now w)\<rparr>)
          else if tx_status x = C_REQUIRES_REVIEW then ret x
          else if is_stale_pending w cfg x then
            tx_transition flow w x C_REQUIRES_REVIEW actor
              (Some ''Provider order-status has remained past the local threshold'') []
              (\<lambda>x. x\<lparr>tx_message := Some status, tx_resultcode := resultcode\<rparr>)
          else
            tx_transition flow w x mapped actor (Some (''Selcom order-status: '' @ status)) []
              (\<lambda>x. x\<lparr>tx_message := Some status, tx_resultcode := resultcode\<rparr>))"

definition query_and_apply ::
    "selcom_provider \<Rightarrow> io \<Rightarrow> settings \<Rightarrow> transaction \<Rightarrow> uuid option \<Rightarrow> transaction op" where
  "query_and_apply p w cfg x actor =
     bnd (collection_client cfg) (\<lambda>_.
     bnd (order_status w (tx_reference x)) (\<lambda>r. case r of
       Inl _ \<Rightarrow> ret x
     | Inr resp \<Rightarrow>
         (case os_data resp of
            [] \<Rightarrow> ret x
          | d # _ \<Rightarrow> apply_order_status p w cfg x d actor (os_resultcode resp))))"

text \<open>A missing type, and any the application does not register, has no owner.\<close>

definition provider_for ::
    "(transaction_type \<Rightarrow> selcom_provider) \<Rightarrow> selcom_provider \<Rightarrow> transaction \<Rightarrow> selcom_provider op" where
  "provider_for siblings p x =
     (if tx_type x = Some (flow_type (sp_flow p)) then ret p
      else case tx_type x of
        Some t \<Rightarrow> ret (siblings t)
      | None \<Rightarrow> raise SelcomPaymentFlowMismatchError)"

definition reconcile_transaction ::
    "(transaction_type \<Rightarrow> selcom_provider) \<Rightarrow> selcom_provider \<Rightarrow> io \<Rightarrow> settings \<Rightarrow> uuid \<Rightarrow> transaction op" where
  "reconcile_transaction siblings p w cfg i =
     bnd (gets (\<lambda>s. get_by_id tx_id tx_tenant None i (transactions s))) (\<lambda>found.
     bnd (require (NotFoundError ''Collection transaction not found'') found) (\<lambda>x.
     bnd (provider_for siblings p x) (\<lambda>q.
     query_and_apply q w cfg x None)))"

definition list_reconcilable :: "selcom_provider \<Rightarrow> db \<Rightarrow> transaction list" where
  "list_reconcilable p s =
     filter (\<lambda>x. tx_provider x = Some (flow_provider (sp_flow p)) \<and>
       \<not> collection_terminal (tx_status x)) (transactions s)"

subsection \<open>Webhooks\<close>

text \<open>
  The body as parsed: its fields as texts (one field with the raw body when it is not a JSON
  object), and what \<^verbatim>\<open>WebhookPayload.model_validate\<close> makes of it: \<open>None\<close> when it raises, else the
  order it names.
\<close>

record webhook_request =
  wr_headers :: "(string \<times> string) list"
  wr_fields :: "(string \<times> string) list"
  wr_order_id :: "string option option"

datatype webhook_answer = Rejected | MalformedBody | UnknownReference | Acknowledged

definition webhook_verified :: "collection_config \<Rightarrow> webhook_crypto \<Rightarrow> io \<Rightarrow> webhook_request \<Rightarrow> bool" where
  "webhook_verified c k w q =
     (if collection_is_configured c
      then verify_webhook_request w k (the (cc_api_key c)) (the (cc_digest_method c))
             (cc_api_secret c) (wr_headers q) (wr_fields q)
      else False)"

definition process_webhook ::
    "(transaction_type \<Rightarrow> selcom_provider) \<Rightarrow> selcom_provider \<Rightarrow> io \<Rightarrow> webhook_crypto \<Rightarrow> settings \<Rightarrow>
     webhook_request \<Rightarrow> webhook_answer op" where
  "process_webhook siblings p w k cfg q =
     bnd (collection_config_from_settings cfg) (\<lambda>c.
     let verified = webhook_verified c k w q in
     bnd fresh (\<lambda>i.
     let put = (\<lambda>row. modify (\<lambda>s. s\<lparr>webhook_rows := row_put wh_id row (webhook_rows s)\<rparr>));
         row = \<lparr>wh_id = i, wh_tenant = None, wh_provider = ''selcom_collection'',
           wh_verified = verified, wh_processed = False\<rparr> in
     thn (modify (\<lambda>s. s\<lparr>webhook_rows := webhook_rows s @ [row]\<rparr>))
     (if \<not> verified then thn (put (row\<lparr>wh_processed := True\<rparr>)) (ret Rejected)
      else case wr_order_id q of
        None \<Rightarrow> raise (UnhandledError ''ValidationError'')
      | Some order \<Rightarrow>
          if \<not> truthy order then thn (put (row\<lparr>wh_processed := True\<rparr>)) (ret MalformedBody)
          else bnd (gets (\<lambda>s. find (\<lambda>x. tx_reference x = the order) (transactions s))) (\<lambda>found.
            case found of
              None \<Rightarrow> thn (put (row\<lparr>wh_processed := True\<rparr>)) (ret UnknownReference)
            | Some x \<Rightarrow>
                let row' = row\<lparr>wh_tenant := Some (tx_tenant x)\<rparr> in
                thn (put row')
                (bnd (provider_for siblings p x) (\<lambda>target.
                 thn (write_audit_log w (Some (tx_tenant x)) None
                        (audit_namespace (sp_flow target) @ ''.webhook_received'')
                        (Some ''transaction'') (Some (tx_id x)) [])
                 (bnd (query_and_apply target w cfg x None) (\<lambda>_.
                 thn (put (row'\<lparr>wh_processed := True\<rparr>)) (ret Acknowledged)))))))))"

end
