(* ===== verification/Collections.thy ===== *)
theory Collections
  imports Payment_Provider
begin

text \<open>
  The two payment flows and what a verified payment means for each
  (\<^verbatim>\<open>app/services/collections.py\<close>, and the finalizer of \<^verbatim>\<open>app/services/captive_portal.py\<close>), the
  contract both finalizers fulfil, and what the shared order-status machine does with a finalizer
  that fulfils it: the locale \<open>payment_finalizer\<close>, interpreted on both.
\<close>

definition COLLECTION_FLOW :: payment_flow where
  "COLLECTION_FLOW = \<lparr>flow_type = TT_COLLECTION, flow_provider = PP_SELCOM_COLLECTION,
     reference_prefix = ''col-'', audit_namespace = ''collection''\<rparr>"

definition CAPTIVE_PORTAL_SELCOM_FLOW :: payment_flow where
  "CAPTIVE_PORTAL_SELCOM_FLOW = \<lparr>flow_type = TT_CAPTIVE_PORTAL,
     flow_provider = PP_SELCOM_COLLECTION, reference_prefix = ''CP-'',
     audit_namespace = ''captive_portal''\<rparr>"

definition credit_tenant_wallet :: "io \<Rightarrow> finalizer" where
  "credit_tenant_wallet w x d =
     bnd (process_collection w (tx_tenant x) (tx_amount x) ''selcom_collection'' (Some (tx_id x))
            (Some (''Selcom Collection '' @
               (if truthy (os_reference d) then the (os_reference d) else tx_reference x)))) (\<lambda>_.
     ret x)"

definition finalize_captive_payment :: "io \<Rightarrow> finalizer" where
  "finalize_captive_payment w x d =
     bnd (process_collection w (tx_tenant x) (tx_amount x) ''selcom_collection'' (Some (tx_id x))
            (Some (''Captive portal payment '' @ tx_reference x))) (\<lambda>_.
     update_transaction (\<lambda>x. x\<lparr>activation_status := Some A_PENDING\<rparr>) x)"

text \<open>\<^verbatim>\<open>CollectionService(db).provider\<close> and \<^verbatim>\<open>CaptivePortalService(db).provider\<close>.\<close>

fun flow_of :: "io \<Rightarrow> transaction_type \<Rightarrow> selcom_provider" where
  "flow_of w TT_COLLECTION =
     \<lparr>sp_flow = COLLECTION_FLOW, sp_finalize = credit_tenant_wallet w\<rparr>"
| "flow_of w TT_CAPTIVE_PORTAL =
     \<lparr>sp_flow = CAPTIVE_PORTAL_SELCOM_FLOW, sp_finalize = finalize_captive_payment w\<rparr>"

lemma flow_of_type [simp]: "flow_type (sp_flow (flow_of w t)) = t"
  by (cases t) (simp_all add: COLLECTION_FLOW_def CAPTIVE_PORTAL_SELCOM_FLOW_def)

subsection \<open>Initiation\<close>

definition full_name :: "customer \<Rightarrow> string" where
  "full_name c = strip (join '' '' (filter (\<lambda>p. p \<noteq> [])
     (map (\<lambda>p. case p of None \<Rightarrow> [] | Some t \<Rightarrow> t) [cu_first_name c, cu_last_name c])))"

definition buyer_name :: "customer option \<Rightarrow> string \<Rightarrow> string" where
  "buyer_name c phone =
     (let name = (case c of None \<Rightarrow> [] | Some c \<Rightarrow> full_name c) in if name \<noteq> [] then name else phone)"

definition buyer_email :: "customer option \<Rightarrow> string \<Rightarrow> string" where
  "buyer_email c phone =
     (let email = Option.bind c cu_email in
      if truthy email then the email else phone @ ''@customer.invalid'')"

definition insert_transaction :: "transaction \<Rightarrow> transaction op" where
  "insert_transaction x = thn (modify (\<lambda>s. s\<lparr>transactions := transactions s @ [x]\<rparr>)) (ret x)"

definition new_transaction ::
    "payment_flow \<Rightarrow> io \<Rightarrow> uuid \<Rightarrow> uuid \<Rightarrow> string \<Rightarrow> rat \<Rightarrow> string \<Rightarrow> string \<Rightarrow> transaction" where
  "new_transaction flow w i tenant reference amount currency phone =
     \<lparr>tx_id = i, tx_tenant = tenant, tx_customer = None, tx_subscription = None,
      tx_type = Some (flow_type flow), tx_reference = reference, tx_provider_reference = None,
      collection_transid = None, payer_phone = Some phone, tx_channel = None, tx_amount = amount,
      tx_currency = currency, tx_status = C_CREATED, tx_resultcode = None, tx_message = None,
      stk_requested_at = None, tx_completed_at = None, tx_failed_at = None,
      tx_provider = Some (flow_provider flow), tx_package = None, tx_router = None,
      device_mac = None, tx_captive_session = None, activation_status = None,
      tx_activated_at = None, tx_created_at = now w\<rparr>"

definition collection_gates ::
    "settings \<Rightarrow> uuid \<Rightarrow> rat \<Rightarrow> string \<Rightarrow> string \<Rightarrow> uuid option \<Rightarrow> (string \<times> customer option) op" where
  "collection_gates cfg tenant amount currency phone customer_id =
     thn (guard (selcom_collection_enabled cfg)
            (DomainValidationError ''Selcom Collection is not enabled''))
     (thn (guard (selcom_collection_production_enabled cfg)
            (DomainValidationError ''Selcom Collection production initiation is not enabled''))
     (thn (guard (currency = ''TZS'')
            (DomainValidationError ''Only TZS is supported for Collection at this time''))
     (thn (guard (\<not> amount \<le> 0) (DomainValidationError ''amount must be positive''))
     (bnd (require (DomainValidationError ''Invalid Tanzania phone number'') (normalize_tz_phone phone))
       (\<lambda>msisdn.
      case customer_id of
        None \<Rightarrow> ret (msisdn, None)
      | Some c \<Rightarrow>
          bnd (gets (\<lambda>s. get_by_id cu_id cu_tenant (Some tenant) c (customers s))) (\<lambda>found.
          bnd (require (NotFoundError ''Customer not found'') found) (\<lambda>c.
          ret (msisdn, Some c))))))))"

definition initiate_collection ::
    "io \<Rightarrow> settings \<Rightarrow> uuid \<Rightarrow> uuid \<Rightarrow> rat \<Rightarrow> string \<Rightarrow> string \<Rightarrow> uuid option \<Rightarrow> transaction op" where
  "initiate_collection w cfg tenant actor amount currency phone customer_id =
     bnd (collection_gates cfg tenant amount currency phone customer_id) (\<lambda>(msisdn, c).
     bnd (new_reference COLLECTION_FLOW) (\<lambda>reference.
     bnd (store amount) (\<lambda>stored.
     bnd fresh (\<lambda>i.
     bnd (insert_transaction ((new_transaction COLLECTION_FLOW w i tenant reference stored currency
            msisdn)\<lparr>tx_customer := customer_id\<rparr>)) (\<lambda>x.
     thn (write_audit_log w (Some tenant) (Some actor) ''collection.created'' (Some ''transaction'')
            (Some i) [(''amount'', MAmount amount)])
       (create_order_and_send_stk COLLECTION_FLOW w cfg x (Some actor) (buyer_name c msisdn)
          (buyer_email c msisdn) msisdn amount))))))"

subsection \<open>What the operations do\<close>

text \<open>What identifies and values a payment; nothing that happens to it later changes any of this.\<close>

definition payment_key :: "transaction \<Rightarrow> uuid \<times> uuid \<times> rat \<times> string \<times> string \<times> transaction_type option \<times>
    uuid option \<times> uuid option \<times> uuid option \<times> uuid option \<times> string option" where
  "payment_key x =
     (tx_id x, tx_tenant x, tx_amount x, tx_reference x, tx_currency x, tx_type x, tx_customer x,
      tx_subscription x, tx_package x, tx_captive_session x, payer_phone x)"

lemma payment_key_eq:
  "payment_key x = payment_key y \<longleftrightarrow> tx_id x = tx_id y \<and> tx_tenant x = tx_tenant y \<and>
     tx_amount x = tx_amount y \<and> tx_reference x = tx_reference y \<and>
     tx_currency x = tx_currency y \<and> tx_type x = tx_type y \<and> tx_customer x = tx_customer y \<and>
     tx_subscription x = tx_subscription y \<and> tx_package x = tx_package y \<and>
     tx_captive_session x = tx_captive_session y \<and> payer_phone x = payer_phone y"
  by (auto simp: payment_key_def)

text \<open>The payments booked in the ledger: what each collection entry refers to, and its amount.\<close>

definition booked :: "db \<Rightarrow> (uuid option \<times> rat) list" where
  "booked s = map (\<lambda>e. (le_reference e, le_amount e))
     (filter (\<lambda>e. le_type e = L_COLLECTION) (ledger_entries s))"

lemma booked_cong: "ledger_entries s' = ledger_entries s \<Longrightarrow> booked s' = booked s"
  by (simp add: booked_def)

lemma tx_transition_run:
  "\<exists>log. tx_transition flow w x st actor reason md f s = (Inr (f (x\<lparr>tx_status := st\<rparr>)),
     s\<lparr>transactions := row_put tx_id (f (x\<lparr>tx_status := st\<rparr>)) (transactions s), audit_logs := log\<rparr>)"
  unfolding tx_transition_def update_transaction_def write_audit_log_def bnd_def thn_def modify_def
    ret_def
  by (simp del: append.simps) blast

lemma tx_transition_state:
  assumes "tx_transition flow w x st actor reason md f s = (r, s')"
  shows "r = Inr (f (x\<lparr>tx_status := st\<rparr>))"
    and "transactions s' = row_put tx_id (f (x\<lparr>tx_status := st\<rparr>)) (transactions s)"
    and "next_id s' = next_id s" "ledger_entries s' = ledger_entries s" "wallets s' = wallets s"
    and "provider_calls s' = provider_calls s" "terms_rows s' = terms_rows s"
  using tx_transition_run [of flow w x st actor reason md f s] assms by auto

lemma process_collection_books:
  assumes run: "process_collection w t g rt rf d s = (Inr r, s')" and g: "numeric_14_2 g = Some g"
  shows "booked s' = booked s @ [(rf, g)]" "transactions s' = transactions s" "next_id s \<le> next_id s'"
proof -
  have "wallet_frame s s'" using process_collection_frame run by (rule keepsD)
  then show "transactions s' = transactions s" "next_id s \<le> next_id s'"
    by (auto simp: wallet_frame_def)
  from run obtain terms wal u v wal' u' e1 e2 e3 u1 u2 where
    "get_active_terms t s = Some terms" and u: "locked_wallet t s = (Inr wal, u)"
    and mv: "move_bucket wal B_PENDING (g - percent_fee g (commission_rate_percent terms)) u
      = (Inr (v, wal'), u')"
    and e1: "create_entry w wal' L_COLLECTION D_CREDIT None g None (Some rt) rf d None u' = (Inr e1, u1)"
    and e2: "create_entry w wal' L_PLATFORM_FEE D_DEBIT None
      (percent_fee g (commission_rate_percent terms)) None (Some rt) rf (Some ''Platform commission'')
      None u1 = (Inr e2, u2)"
    and e3: "create_entry w wal' L_TENANT_SHARE D_CREDIT (Some B_PENDING)
      (g - percent_fee g (commission_rate_percent terms)) (Some v) (Some rt) rf d None u2 = (Inr e3, s')"
    unfolding process_collection_def Let_def require_active_terms_def
    by (auto simp: run_simps simp del: move_bucket_Inr)
  have "ledger_entries u = ledger_entries s"
    using u by (auto simp: locked_wallet_def get_or_create_wallet_def run_simps split: option.splits)
  moreover have "ledger_entries u' = ledger_entries u"
    using mv by (auto simp: run_simps put_wallet_def)
  ultimately show "booked s' = booked s @ [(rf, g)]"
    using e1 e2 e3 g by (auto simp: create_entry_Inr booked_def)
qed

subsection \<open>The ways an order-status result ends\<close>

lemma mapped_not_completed: "payment_status_map p = Some st \<Longrightarrow> st \<noteq> C_COMPLETED"
  by (simp add: payment_status_map_def split: if_splits)

text \<open>Extra columns never are the identifying ones or the status.\<close>

definition extra :: "(transaction \<Rightarrow> transaction) \<Rightarrow> bool" where
  "extra f \<longleftrightarrow> (\<forall>y. payment_key (f y) = payment_key y \<and> tx_status (f y) = tx_status y \<and>
     activation_status (f y) = activation_status y)"

lemma extra_id [simp]: "extra (\<lambda>x. x)"
  by (simp add: extra_def)

lemma extra_simps [simp]:
  "extra (\<lambda>x. x\<lparr>tx_resultcode := a\<rparr>)"
  "extra (\<lambda>x. x\<lparr>tx_failed_at := e\<rparr>)"
  "extra (\<lambda>x. x\<lparr>tx_message := b, tx_resultcode := c\<rparr>)"
  "extra (\<lambda>x. x\<lparr>tx_message := b, tx_resultcode := c, tx_failed_at := e\<rparr>)"
  "extra (\<lambda>x. x\<lparr>collection_transid := u, stk_requested_at := e, tx_resultcode := a, tx_message := b\<rparr>)"
  by (simp_all add: extra_def payment_key_def)

text \<open>
  All that finishing a payment may touch: the wallets, the ledger (which only grows), the payments and
  the audit trail; not customers, subscriptions, sessions, vouchers, payouts, RADIUS or counters.
\<close>

definition payment_frame :: "db \<Rightarrow> db \<Rightarrow> bool" where
  "payment_frame s s' \<longleftrightarrow>
     (\<exists>ws es ls n ts au. s' = s\<lparr>wallets := ws, ledger_entries := ledger_entries s @ es,
        settlement_logs := ls, next_id := next_id s + n, transactions := ts, audit_logs := au\<rparr>)"

lemma payment_frameI:
  "s' = s\<lparr>wallets := ws, ledger_entries := ledger_entries s @ es, settlement_logs := ls,
     next_id := next_id s + n, transactions := ts, audit_logs := au\<rparr> \<Longrightarrow> payment_frame s s'"
  unfolding payment_frame_def by blast

lemma payment_frame_refl [simp]: "payment_frame s s"
  by (rule payment_frameI [where ws = "wallets s" and es = "[]" and ls = "settlement_logs s" and n = 0
      and ts = "transactions s" and au = "audit_logs s"]) simp

lemma payment_frame_trans: "payment_frame s t \<Longrightarrow> payment_frame t u \<Longrightarrow> payment_frame s u"
proof -
  assume "payment_frame s t" "payment_frame t u"
  then obtain ws es ls n ts au ws' es' ls' m ts' au1 where
    "t = s\<lparr>wallets := ws, ledger_entries := ledger_entries s @ es, settlement_logs := ls,
       next_id := next_id s + n, transactions := ts, audit_logs := au\<rparr>"
    "u = t\<lparr>wallets := ws', ledger_entries := ledger_entries t @ es', settlement_logs := ls',
       next_id := next_id t + m, transactions := ts', audit_logs := au1\<rparr>"
    unfolding payment_frame_def by blast
  then show ?thesis
    by (intro payment_frameI [where ws = ws' and es = "es @ es'" and ls = ls' and n = "n + m"
        and ts = ts' and au = au1]) simp
qed

lemma wallet_payment_frame: "wallet_frame s t \<Longrightarrow> payment_frame s t"
  by (auto simp: wallet_frame_def
      intro: payment_frameI [where ts = "transactions s" and au = "audit_logs s"])

lemma put_payment_frame:
  "payment_frame s (s\<lparr>transactions := ts\<rparr>)" "payment_frame s (s\<lparr>transactions := ts, audit_logs := au\<rparr>)"
  by (rule payment_frameI [where ws = "wallets s" and es = "[]" and ls = "settlement_logs s" and n = 0
      and ts = ts and au = "audit_logs s"], simp)
    (rule payment_frameI [where ws = "wallets s" and es = "[]" and ls = "settlement_logs s" and n = 0
      and ts = ts and au = au], simp)

datatype outcome = Unchanged | Moved collection_status | Verified

text \<open>What the machine makes of a result.\<close>

definition outcome_of :: "io \<Rightarrow> settings \<Rightarrow> transaction \<Rightarrow> order_status_data \<Rightarrow> outcome" where
  "outcome_of w cfg x d =
     (if collection_terminal (tx_status x) then Unchanged
      else if payment_status_of d = ''COMPLETED'' then
        (if completed_mismatch x d = None then Verified else Moved C_AMBIGUOUS)
      else case payment_status_map (payment_status_of d) of
        None \<Rightarrow> Moved C_AMBIGUOUS
      | Some st \<Rightarrow>
          if st \<notin> {C_PENDING, C_INPROGRESS} then Moved st
          else if tx_status x = C_REQUIRES_REVIEW then Unchanged
          else if is_stale_pending w cfg x then Moved C_REQUIRES_REVIEW
          else Moved st)"

lemma moved_not_completed: "outcome_of w cfg x d = Moved st \<Longrightarrow> st \<noteq> C_COMPLETED"
  by (auto simp: outcome_of_def split: if_splits option.splits dest: mapped_not_completed)

definition advances ::
    "payment_flow \<Rightarrow> io \<Rightarrow> transaction \<Rightarrow> collection_status \<Rightarrow> db \<Rightarrow> transaction \<Rightarrow> db \<Rightarrow> bool" where
  "advances flow w x st s x' s' \<longleftrightarrow>
     (\<exists>actor reason md f. extra f \<and> tx_transition flow w x st actor reason md f s = (Inr x', s'))"

lemma advancesI:
  "tx_transition flow w x st actor reason md f s = (Inr x', s') \<Longrightarrow> extra f \<Longrightarrow> advances flow w x st s x' s'"
  by (auto simp: advances_def)

lemma advancesD:
  assumes "advances flow w x st s x' s'"
  shows "payment_key x' = payment_key x" "tx_status x' = st" "activation_status x' = activation_status x"
    and "\<exists>log. s' = s\<lparr>transactions := row_put tx_id x' (transactions s), audit_logs := log\<rparr>"
    and "transactions s' = row_put tx_id x' (transactions s)"
    and "next_id s' = next_id s" "ledger_entries s' = ledger_entries s" "wallets s' = wallets s"
    and "provider_calls s' = provider_calls s" "terms_rows s' = terms_rows s" "booked s' = booked s"
proof -
  obtain actor reason md f where f: "extra f"
    and run: "tx_transition flow w x st actor reason md f s = (Inr x', s')"
    using assms by (auto simp: advances_def)
  have x': "x' = f (x\<lparr>tx_status := st\<rparr>)" using tx_transition_state(1) [OF run] by simp
  show "payment_key x' = payment_key x" "tx_status x' = st" "activation_status x' = activation_status x"
    using f by (auto simp: x' extra_def payment_key_def)
  show s': "\<exists>log. s' = s\<lparr>transactions := row_put tx_id x' (transactions s), audit_logs := log\<rparr>"
    using tx_transition_run [of flow w x st actor reason md f s] run x' by auto
  then show "transactions s' = row_put tx_id x' (transactions s)"
    and "next_id s' = next_id s" "ledger_entries s' = ledger_entries s" "wallets s' = wallets s"
    and "provider_calls s' = provider_calls s" "terms_rows s' = terms_rows s"
    by auto
  then show "booked s' = booked s" by (intro booked_cong)
qed

lemma apply_order_status_ends:
  assumes "apply_order_status p w cfg x d actor rc s = (Inr x', s')"
  shows "tx_type x = Some (flow_type (sp_flow p)) \<and>
    (case outcome_of w cfg x d of
       Unchanged \<Rightarrow> x' = x \<and> s' = s
     | Moved st \<Rightarrow> advances (sp_flow p) w x st s x' s'
     | Verified \<Rightarrow> \<exists>x1 s1. sp_finalize p x d s = (Inr x1, s1) \<and>
         advances (sp_flow p) w x1 C_COMPLETED s1 x' s')"
proof -
  have type: "tx_type x = Some (flow_type (sp_flow p))"
    using assms by (auto simp: apply_order_status_def Let_def split: if_splits)
  have evidence: "extra (\<lambda>x. x\<lparr>tx_provider_reference := g (tx_provider_reference x), tx_channel := b,
      tx_resultcode := c, tx_message := e, tx_completed_at := t\<rparr>)" for g b c e t
    by (simp add: extra_def payment_key_def)
  show ?thesis
  proof (cases "outcome_of w cfg x d = Verified")
    case True
    then have v: "\<not> collection_terminal (tx_status x)" "payment_status_of d = ''COMPLETED''"
      "completed_mismatch x d = None"
      by (auto simp: outcome_of_def split: if_splits option.splits)
    with assms type True evidence show ?thesis
      by (simp only: apply_order_status_def Let_def if_False if_True simp_thms option.case outcome.case
          bnd_Inr) (blast intro: advancesI)
  next
    case False
    with assms type show ?thesis
      by (auto simp: apply_order_status_def Let_def outcome_of_def simp del: append.simps
          intro: advancesI split: if_splits option.splits)
  qed
qed

subsection \<open>The contract of a finalizer\<close>

text \<open>
  What \<^verbatim>\<open>PaymentFinalizer\<close> promises the order-status machine: it leaves identity, amount and status
  of the payment alone, books exactly this payment once, credits exactly the tenant's share, and
  changes no other payment.
\<close>

locale payment_finalizer =
  fixes finalize :: finalizer
  assumes row: "finalize x d s = (Inr x', s') \<Longrightarrow>
      payment_key x' = payment_key x \<and> tx_status x' = tx_status x"
    and table: "finalize x d s = (Inr x', s') \<Longrightarrow> tx_id y = tx_id x \<Longrightarrow>
      row_put tx_id y (transactions s') = row_put tx_id y (transactions s) \<and> next_id s \<le> next_id s'"
    and books: "finalize x d s = (Inr x', s') \<Longrightarrow> numeric_14_2 (tx_amount x) = Some (tx_amount x) \<Longrightarrow>
      booked s' = booked s @ [(Some (tx_id x), tx_amount x)]"
    and frame: "finalize x d s = (Inr x', s') \<Longrightarrow> payment_frame s s'"
    and credits: "finalize x d s = (Inr x', s') \<Longrightarrow> wallets_ok s \<Longrightarrow> two_places (tx_amount x) \<Longrightarrow>
      wallets_ok s' \<and> (\<exists>terms. get_active_terms (tx_tenant x) s = Some terms \<and>
        (\<forall>b t. balance b t s' = balance b t s + (if t = tx_tenant x \<and> b = B_PENDING
           then tx_amount x - percent_fee (tx_amount x) (commission_rate_percent terms) else 0)))"
begin

text \<open>One order-status result, whatever it says.\<close>

lemma applied:
  assumes run: "apply_order_status \<lparr>sp_flow = flow, sp_finalize = finalize\<rparr> w cfg x d actor rc s
      = (Inr x', s')"
    and stored: "numeric_14_2 (tx_amount x) = Some (tx_amount x)"
    and here: "row_put tx_id x (transactions s) = transactions s"
  shows "payment_key x' = payment_key x"
    and "transactions s' = row_put tx_id x' (transactions s)" and "next_id s \<le> next_id s'"
    and "booked s' = booked s @ (if tx_status x' = C_COMPLETED \<and> tx_status x \<noteq> C_COMPLETED
      then [(Some (tx_id x), tx_amount x)] else [])"
    and "collection_terminal (tx_status x) \<Longrightarrow> x' = x"
    and "activation_status x' = activation_status x \<or> tx_status x' = C_COMPLETED"
    and "payment_frame s s'"
proof -
  note ends = conjunct2 [OF apply_order_status_ends [OF run]]
  have "payment_key x' = payment_key x \<and> transactions s' = row_put tx_id x' (transactions s) \<and>
    next_id s \<le> next_id s' \<and>
    booked s' = booked s @ (if tx_status x' = C_COMPLETED \<and> tx_status x \<noteq> C_COMPLETED
      then [(Some (tx_id x), tx_amount x)] else []) \<and>
    (collection_terminal (tx_status x) \<longrightarrow> x' = x) \<and>
    (activation_status x' = activation_status x \<or> tx_status x' = C_COMPLETED) \<and> payment_frame s s'"
  proof (cases "outcome_of w cfg x d")
    case Unchanged
    with ends here show ?thesis by simp
  next
    case (Moved st)
    with ends have a: "advances flow w x st s x' s'" by simp
    have "\<not> collection_terminal (tx_status x)" using Moved by (auto simp: outcome_of_def)
    moreover have "payment_frame s s'" using advancesD(4) [OF a] put_payment_frame(2) by auto
    ultimately show ?thesis using advancesD [OF a] moved_not_completed [OF Moved] by simp
  next
    case Verified
    with ends obtain x1 s1 where f: "finalize x d s = (Inr x1, s1)"
      and a: "advances flow w x1 C_COMPLETED s1 x' s'" by auto
    have live: "\<not> collection_terminal (tx_status x)" using Verified by (auto simp: outcome_of_def)
    then have "tx_status x \<noteq> C_COMPLETED"
      by (auto simp: collection_terminal_def COLLECTION_TERMINAL_STATUSES_def)
    moreover have key: "payment_key x' = payment_key x"
      using advancesD(1) [OF a] row [OF f] by simp
    moreover have "transactions s' = row_put tx_id x' (transactions s)"
      using advancesD(5) [OF a] table [OF f, of x'] key by (simp add: payment_key_eq)
    moreover have "payment_frame s s'"
      using advancesD(4) [OF a] put_payment_frame(2) payment_frame_trans [OF frame [OF f]] by auto
    ultimately show ?thesis
      using advancesD [OF a] table [OF f, of x] books [OF f stored] live by simp
  qed
  then show "payment_key x' = payment_key x"
    and "transactions s' = row_put tx_id x' (transactions s)" and "next_id s \<le> next_id s'"
    and "booked s' = booked s @ (if tx_status x' = C_COMPLETED \<and> tx_status x \<noteq> C_COMPLETED
      then [(Some (tx_id x), tx_amount x)] else [])"
    and "collection_terminal (tx_status x) \<Longrightarrow> x' = x"
    and "activation_status x' = activation_status x \<or> tx_status x' = C_COMPLETED"
    and "payment_frame s s'"
    by blast+
qed

end

lemma process_collection_credits:
  assumes "process_collection w t g rt rf d s = (Inr r, s')" "wallets_ok s" "two_places g"
  shows "wallets_ok s' \<and> (\<exists>terms. get_active_terms t s = Some terms \<and>
    (\<forall>b t'. balance b t' s' = balance b t' s + (if t' = t \<and> b = B_PENDING
       then g - percent_fee g (commission_rate_percent terms) else 0)))"
proof -
  note effect = process_collection_effect [OF assms(2,1)]
  from effect(5) obtain terms where terms: "get_active_terms t s = Some terms"
    "cr_platform_fee r = percent_fee g (commission_rate_percent terms)" by blast
  with effect(3) have "cr_tenant_share r = g - percent_fee g (commission_rate_percent terms)"
    by (simp add: algebra_simps)
  with terms effect(1) effect(2) [OF assms(3)] show ?thesis by auto
qed

interpretation tenant_payment: payment_finalizer "credit_tenant_wallet w" for w
proof unfold_locales
  fix x y x' :: transaction and d s s'
  assume "credit_tenant_wallet w x d s = (Inr x', s')"
  then obtain r descr where x': "x' = x"
    and run: "process_collection w (tx_tenant x) (tx_amount x) ''selcom_collection'' (Some (tx_id x))
      descr s = (Inr r, s')"
    unfolding credit_tenant_wallet_def bnd_Inr ret_run by blast
  show "payment_key x' = payment_key x \<and> tx_status x' = tx_status x" by (simp add: x')
  show "wallets_ok s \<Longrightarrow> two_places (tx_amount x) \<Longrightarrow>
      wallets_ok s' \<and> (\<exists>terms. get_active_terms (tx_tenant x) s = Some terms \<and>
        (\<forall>b t. balance b t s' = balance b t s + (if t = tx_tenant x \<and> b = B_PENDING
           then tx_amount x - percent_fee (tx_amount x) (commission_rate_percent terms) else 0)))"
    by (rule process_collection_credits [OF run])
  show "numeric_14_2 (tx_amount x) = Some (tx_amount x) \<Longrightarrow>
      booked s' = booked s @ [(Some (tx_id x), tx_amount x)]"
    by (rule process_collection_books [OF run])
  have frame: "wallet_frame s s'" using process_collection_frame run by (rule keepsD)
  then show "payment_frame s s'" by (rule wallet_payment_frame)
  from frame show "tx_id y = tx_id x \<Longrightarrow>
      row_put tx_id y (transactions s') = row_put tx_id y (transactions s) \<and> next_id s \<le> next_id s'"
    by (auto simp: wallet_frame_def)
qed

interpretation captive_payment: payment_finalizer "finalize_captive_payment w" for w
proof unfold_locales
  fix x y x' :: transaction and d s s'
  assume "finalize_captive_payment w x d s = (Inr x', s')"
  then obtain r u descr where x': "x' = x\<lparr>activation_status := Some A_PENDING\<rparr>"
    and s': "s' = u\<lparr>transactions := row_put tx_id x' (transactions u)\<rparr>"
    and run: "process_collection w (tx_tenant x) (tx_amount x) ''selcom_collection'' (Some (tx_id x))
      descr s = (Inr r, u)"
    unfolding finalize_captive_payment_def bnd_Inr update_transaction_run by blast
  show "payment_key x' = payment_key x \<and> tx_status x' = tx_status x"
    by (simp add: x' payment_key_def)
  have same: "wallets s' = wallets u" "next_id s' = next_id u" "ledger_entries s' = ledger_entries u"
    by (simp_all add: s')
  show "wallets_ok s \<Longrightarrow> two_places (tx_amount x) \<Longrightarrow>
      wallets_ok s' \<and> (\<exists>terms. get_active_terms (tx_tenant x) s = Some terms \<and>
        (\<forall>b t. balance b t s' = balance b t s + (if t = tx_tenant x \<and> b = B_PENDING
           then tx_amount x - percent_fee (tx_amount x) (commission_rate_percent terms) else 0)))"
    using process_collection_credits [OF run] wallets_ok_cong [of s' u] balance_cong [of s' u] same
    by simp
  show "numeric_14_2 (tx_amount x) = Some (tx_amount x) \<Longrightarrow>
      booked s' = booked s @ [(Some (tx_id x), tx_amount x)]"
    using process_collection_books [OF run] booked_cong [OF same(3)] by simp
  have frame: "wallet_frame s u" using process_collection_frame run by (rule keepsD)
  then show "payment_frame s s'"
    unfolding s' using payment_frame_trans [OF wallet_payment_frame put_payment_frame(1)] by blast
  from frame show "tx_id y = tx_id x \<Longrightarrow>
      row_put tx_id y (transactions s') = row_put tx_id y (transactions s) \<and> next_id s \<le> next_id s'"
    by (auto simp: s' x' wallet_frame_def row_put_put)
qed

text \<open>Both flows at once: the machine with the finalizer of either.\<close>

lemma flow_applied:
  assumes "apply_order_status (flow_of w t) w cfg x d actor rc s = (Inr x', s')"
    and "numeric_14_2 (tx_amount x) = Some (tx_amount x)"
    and "row_put tx_id x (transactions s) = transactions s"
  shows "payment_key x' = payment_key x"
    and "transactions s' = row_put tx_id x' (transactions s)" and "next_id s \<le> next_id s'"
    and "booked s' = booked s @ (if tx_status x' = C_COMPLETED \<and> tx_status x \<noteq> C_COMPLETED
      then [(Some (tx_id x), tx_amount x)] else [])"
    and "collection_terminal (tx_status x) \<Longrightarrow> x' = x"
    and "activation_status x' = activation_status x \<or> tx_status x' = C_COMPLETED"
    and "payment_frame s s'"
proof -
  have "(\<exists>fl fin. flow_of w t = \<lparr>sp_flow = fl, sp_finalize = fin\<rparr> \<and> payment_finalizer fin)"
    using tenant_payment.payment_finalizer_axioms captive_payment.payment_finalizer_axioms
    by (cases t) auto
  then obtain fl fin where p: "flow_of w t = \<lparr>sp_flow = fl, sp_finalize = fin\<rparr>"
    and fin: "payment_finalizer fin" by blast
  note applied = payment_finalizer.applied [OF fin assms(1) [unfolded p] assms(2,3)]
  show "payment_key x' = payment_key x"
    and "transactions s' = row_put tx_id x' (transactions s)" and "next_id s \<le> next_id s'"
    and "booked s' = booked s @ (if tx_status x' = C_COMPLETED \<and> tx_status x \<noteq> C_COMPLETED
      then [(Some (tx_id x), tx_amount x)] else [])"
    and "activation_status x' = activation_status x \<or> tx_status x' = C_COMPLETED"
    and "payment_frame s s'"
    by (fact applied)+
  show "x' = x" if "collection_terminal (tx_status x)" using that by (rule applied(5))
qed

end
