(* ===== verification/Subscriptions.thy ===== *)
theory Subscriptions
  imports Samples
begin

text \<open>
  Customers, subscriptions and prepaid vouchers: \<^verbatim>\<open>app/services/customers.py\<close>,
  \<^verbatim>\<open>subscriptions.py\<close>, \<^verbatim>\<open>vouchers.py\<close> with their repositories. The platform's customer-number
  sequence is drawn from the counter of identifiers; the random bodies of voucher codes are a
  function of the request, from the number of the attempt to the body drawn.
\<close>

subsection \<open>Customers\<close>

definition customer_by_phone :: "uuid \<Rightarrow> string \<Rightarrow> db \<Rightarrow> customer option" where
  "customer_by_phone tenant phone s =
     find (\<lambda>c. cu_tenant c = tenant \<and> cu_phone c = phone) (customers s)"

definition customer_by_username :: "uuid \<Rightarrow> string \<Rightarrow> db \<Rightarrow> customer option" where
  "customer_by_username tenant name s =
     find (\<lambda>c. cu_tenant c = tenant \<and> cu_username c = Some name) (customers s)"

definition insert_customer :: "customer \<Rightarrow> customer op" where
  "insert_customer c = thn (modify (\<lambda>s. s\<lparr>customers := customers s @ [c]\<rparr>)) (ret c)"

definition create_customer ::
    "io \<Rightarrow> uuid \<Rightarrow> uuid option \<Rightarrow> string option \<Rightarrow> string option \<Rightarrow> string \<Rightarrow> string option \<Rightarrow>
     string option \<Rightarrow> string option \<Rightarrow> customer op" where
  "create_customer w tenant actor first_name last_name phone email username notes =
     bnd (require (DomainValidationError ''Invalid Tanzania phone number'') (normalize_tz_phone phone))
       (\<lambda>p.
     bnd (gets (customer_by_phone tenant p)) (\<lambda>existing.
     thn (guard (existing = None) (ConflictError ''A customer with this phone already exists''))
     (bnd (gets (\<lambda>s. Option.bind username (\<lambda>u. customer_by_username tenant u s))) (\<lambda>taken.
     thn (guard (taken = None) (ConflictError ''Username is already taken''))
     (bnd fresh (\<lambda>number.
     bnd fresh (\<lambda>i.
     bnd (insert_customer \<lparr>cu_id = i, cu_tenant = tenant, cu_number = number, cu_first_name = first_name,
            cu_last_name = last_name, cu_phone = p, cu_email = email, cu_username = username,
            cu_notes = notes\<rparr>) (\<lambda>c.
     thn (write_audit_log w (Some tenant) actor ''customer.created'' (Some ''customer'') (Some i) [])
       (ret c)))))))))"

definition get_or_create_by_phone :: "io \<Rightarrow> uuid \<Rightarrow> string \<Rightarrow> customer op" where
  "get_or_create_by_phone w tenant phone =
     bnd (require (DomainValidationError ''Invalid Tanzania phone number'') (normalize_tz_phone phone))
       (\<lambda>p.
     bnd (gets (customer_by_phone tenant p)) (\<lambda>existing.
     case existing of
       Some c \<Rightarrow> ret c
     | None \<Rightarrow>
         bnd fresh (\<lambda>number.
         bnd fresh (\<lambda>i.
         bnd (insert_customer \<lparr>cu_id = i, cu_tenant = tenant, cu_number = number,
                cu_first_name = None, cu_last_name = None, cu_phone = p, cu_email = None,
                cu_username = None, cu_notes = None\<rparr>) (\<lambda>c.
         thn (write_audit_log w (Some tenant) None ''customer.self_registered'' (Some ''customer'')
                (Some i) [])
           (ret c))))))"

subsection \<open>Subscriptions\<close>

definition update_subscription :: "(subscription \<Rightarrow> subscription) \<Rightarrow> subscription \<Rightarrow> subscription op" where
  "update_subscription f x =
     thn (modify (\<lambda>s. s\<lparr>subscriptions := row_put sub_id (f x) (subscriptions s)\<rparr>)) (ret (f x))"

definition insert_subscription :: "uuid \<Rightarrow> uuid \<Rightarrow> uuid \<Rightarrow> uuid option \<Rightarrow> subscription op" where
  "insert_subscription tenant customer_id package_id voucher_id =
     bnd fresh (\<lambda>i.
     let x = \<lparr>sub_id = i, sub_tenant = tenant, sub_customer = customer_id, sub_package = package_id,
       sub_voucher = voucher_id, sub_status = Sub_PENDING, sub_activated_at = None,
       sub_expires_at = None\<rparr> in
     thn (modify (\<lambda>s. s\<lparr>subscriptions := subscriptions s @ [x]\<rparr>)) (ret x))"

definition find_package :: "uuid \<Rightarrow> uuid \<Rightarrow> db \<Rightarrow> package option" where
  "find_package tenant i s = get_by_id pk_id pk_tenant (Some tenant) i (packages s)"

definition find_customer :: "uuid \<Rightarrow> uuid \<Rightarrow> db \<Rightarrow> customer option" where
  "find_customer tenant i s = get_by_id cu_id cu_tenant (Some tenant) i (customers s)"

text \<open>\<open>None\<close> and 0 minutes are both no expiry, as the truth value of the column decides.\<close>

definition expiry :: "io \<Rightarrow> package \<Rightarrow> time option" where
  "expiry w p =
     (case duration_minutes p of
        None \<Rightarrow> None
      | Some m \<Rightarrow> if m = 0 then None else Some (now w + minutes (int m)))"

definition activate_subscription :: "io \<Rightarrow> uuid \<Rightarrow> uuid option \<Rightarrow> uuid \<Rightarrow> subscription op" where
  "activate_subscription w tenant actor i =
     bnd (gets (\<lambda>s. get_by_id sub_id sub_tenant (Some tenant) i (subscriptions s))) (\<lambda>found.
     bnd (require (NotFoundError ''Subscription not found'') found) (\<lambda>x.
     thn (guard (sub_status x = Sub_PENDING)
            (DomainValidationError ''Subscription cannot be activated from this status''))
     (bnd (gets (find_package tenant (sub_package x))) (\<lambda>pkg.
      bnd (require (DomainValidationError ''Subscription's package no longer exists'') pkg) (\<lambda>p.
      bnd (update_subscription (\<lambda>x. x\<lparr>sub_status := Sub_ACTIVE, sub_activated_at := Some (now w),
             sub_expires_at := expiry w p\<rparr>) x) (\<lambda>x'.
      thn (write_audit_log w (Some tenant) actor ''subscription.activated'' (Some ''subscription'')
             (Some (sub_id x')) [])
        (ret x')))))))"

definition create_subscription_row ::
    "io \<Rightarrow> uuid \<Rightarrow> uuid \<Rightarrow> uuid \<Rightarrow> package \<Rightarrow> uuid option \<Rightarrow> subscription op" where
  "create_subscription_row w tenant actor customer_id p voucher_id =
     bnd (insert_subscription tenant customer_id (pk_id p) voucher_id) (\<lambda>x.
     thn (write_audit_log w (Some tenant) (Some actor) ''subscription.created''
            (Some ''subscription'') (Some (sub_id x)) [])
     (if pk_activation_type p = Pat_IMMEDIATE
      then activate_subscription w tenant (Some actor) (sub_id x)
      else ret x))"

text \<open>The customer and the active package a new subscription needs.\<close>

definition subscription_gates :: "uuid \<Rightarrow> uuid \<Rightarrow> uuid \<Rightarrow> package op" where
  "subscription_gates tenant customer_id package_id =
     bnd (gets (find_customer tenant customer_id)) (\<lambda>c.
     thn (guard (c \<noteq> None) (DomainValidationError ''customer_id does not belong to this tenant''))
     (bnd (gets (find_package tenant package_id)) (\<lambda>pkg.
      bnd (require (DomainValidationError ''package_id does not belong to this tenant'') pkg) (\<lambda>p.
      thn (guard (pk_status p = P_ACTIVE) (DomainValidationError ''This package is no longer active''))
        (ret p)))))"

definition create_subscription :: "io \<Rightarrow> uuid \<Rightarrow> uuid \<Rightarrow> uuid \<Rightarrow> uuid \<Rightarrow> subscription op" where
  "create_subscription w tenant actor customer_id package_id =
     bnd (subscription_gates tenant customer_id package_id) (\<lambda>p.
     create_subscription_row w tenant actor customer_id p None)"

definition create_awaiting_payment :: "io \<Rightarrow> uuid \<Rightarrow> uuid \<Rightarrow> uuid \<Rightarrow> subscription op" where
  "create_awaiting_payment w tenant customer_id package_id =
     bnd (subscription_gates tenant customer_id package_id) (\<lambda>p.
     bnd (insert_subscription tenant customer_id (pk_id p) None) (\<lambda>x.
     thn (write_audit_log w (Some tenant) None ''subscription.created_awaiting_payment''
            (Some ''subscription'') (Some (sub_id x)) [])
       (ret x)))"

subsection \<open>Vouchers\<close>

definition MAX_BATCH_QUANTITY :: int where
  "MAX_BATCH_QUANTITY = 5000"

definition generate_code :: "string option \<Rightarrow> string \<Rightarrow> string" where
  "generate_code prefix body = (if truthy prefix then the prefix @ body else body)"

definition exists_by_code :: "uuid \<Rightarrow> string \<Rightarrow> db \<Rightarrow> bool" where
  "exists_by_code tenant otp s \<longleftrightarrow> (\<exists>v \<in> set (vouchers s). vo_tenant v = tenant \<and> vo_code v = otp)"

definition insert_voucher :: "uuid \<Rightarrow> uuid \<Rightarrow> string \<Rightarrow> unit op" where
  "insert_voucher tenant batch_id otp =
     bnd fresh (\<lambda>i.
     modify (\<lambda>s. s\<lparr>vouchers := vouchers s @ [\<lparr>vo_id = i, vo_tenant = tenant, vo_batch = batch_id,
       vo_code = otp, vo_status = V_UNUSED, redeemed_by_customer = None,
       redeemed_subscription = None, redeemed_at = None\<rparr>]\<rparr>))"

text \<open>
  The loop \<^verbatim>\<open>while created < quantity and attempts < max_attempts\<close>, on the attempts still allowed;
  the result is the number created.
\<close>

fun generate_vouchers ::
    "(nat \<Rightarrow> string) \<Rightarrow> uuid \<Rightarrow> uuid \<Rightarrow> string option \<Rightarrow> nat \<Rightarrow> nat \<Rightarrow> nat \<Rightarrow> nat \<Rightarrow> nat op" where
  "generate_vouchers draw tenant batch_id prefix quantity attempts 0 created = ret created"
| "generate_vouchers draw tenant batch_id prefix quantity attempts (Suc left) created =
     (if created < quantity then
        let otp = generate_code prefix (draw (attempts + 1)) in
        bnd (gets (exists_by_code tenant otp)) (\<lambda>taken.
        if taken then
          generate_vouchers draw tenant batch_id prefix quantity (attempts + 1) left created
        else
          thn (insert_voucher tenant batch_id otp)
            (generate_vouchers draw tenant batch_id prefix quantity (attempts + 1) left (created + 1)))
      else ret created)"

definition generate_batch ::
    "io \<Rightarrow> (nat \<Rightarrow> string) \<Rightarrow> uuid \<Rightarrow> uuid \<Rightarrow> uuid \<Rightarrow> int \<Rightarrow> string option \<Rightarrow> voucher_batch op" where
  "generate_batch w draw tenant actor package_id quantity prefix =
     thn (guard (\<not> (quantity < 1 \<or> quantity > MAX_BATCH_QUANTITY))
            (DomainValidationError ''quantity must be between 1 and 5000''))
     (bnd (gets (find_package tenant package_id)) (\<lambda>pkg.
      thn (guard (pkg \<noteq> None) (DomainValidationError ''package_id does not belong to this tenant''))
      (bnd fresh (\<lambda>i.
       let b = \<lparr>vb_id = i, vb_tenant = tenant, vb_package = package_id, vb_quantity = nat quantity,
         vb_prefix = prefix, vb_created_by = Some actor\<rparr> in
       thn (modify (\<lambda>s. s\<lparr>voucher_batches := voucher_batches s @ [b]\<rparr>))
       (bnd (generate_vouchers draw tenant i prefix (nat quantity) 0 (nat quantity * 5 + 20) 0)
         (\<lambda>created.
        thn (guard (\<not> created < nat quantity)
               (DomainValidationError ''Could not generate enough unique voucher codes''))
        (thn (write_audit_log w (Some tenant) (Some actor) ''voucher_batch.generated''
               (Some ''voucher_batch'') (Some i) [(''quantity'', MInt quantity)])
         (ret b))))))))"

definition redeem ::
    "io \<Rightarrow> uuid \<Rightarrow> uuid \<Rightarrow> string \<Rightarrow> uuid \<Rightarrow> (voucher \<times> subscription) op" where
  "redeem w tenant actor otp customer_id =
     bnd (gets (\<lambda>s. find (\<lambda>v. vo_tenant v = tenant \<and> vo_code v = otp) (vouchers s))) (\<lambda>found.
     bnd (require (NotFoundError ''Voucher not found'') found) (\<lambda>v.
     thn (guard (vo_status v = V_UNUSED) (ConflictError ''This voucher has already been used''))
     (bnd (gets (find_customer tenant customer_id)) (\<lambda>c.
     thn (guard (c \<noteq> None) (DomainValidationError ''customer_id does not belong to this tenant''))
     (bnd (gets (\<lambda>s. get_by_id vb_id vb_tenant (Some tenant) (vo_batch v) (voucher_batches s))) (\<lambda>batch.
      bnd (require (DomainValidationError ''Voucher's batch no longer exists'') batch) (\<lambda>b.
      bnd (gets (find_package tenant (vb_package b))) (\<lambda>pkg.
      bnd (require (DomainValidationError ''Voucher's package no longer exists'') pkg) (\<lambda>p.
      thn (guard (pk_status p = P_ACTIVE) (DomainValidationError ''This package is no longer active''))
      (bnd (create_subscription_row w tenant actor customer_id p (Some (vo_id v))) (\<lambda>x.
       let v' = v\<lparr>vo_status := V_USED, redeemed_by_customer := Some customer_id,
         redeemed_subscription := Some (sub_id x), redeemed_at := Some (now w)\<rparr> in
       thn (modify (\<lambda>s. s\<lparr>vouchers := row_put vo_id v' (vouchers s)\<rparr>))
       (thn (write_audit_log w (Some tenant) (Some actor) ''voucher.redeemed''
               (Some ''offline_voucher'') (Some (vo_id v))
               [(''subscription_id'', MId (sub_id x)), (''customer_id'', MId customer_id)])
         (ret (v', x))))))))))))))"

end
