(* ===== verification/Radius.thy ===== *)
theory Radius
  imports Samples
begin

text \<open>
  Granting network access: the rows of FreeRADIUS' own tables, written either by the network agent
  on the VPS (\<^verbatim>\<open>apps/network-agent/app/services/radius_provisioning.py\<close>, its route
  \<^verbatim>\<open>routers/radius.py\<close> and the client \<^verbatim>\<open>integrations/network_agent/client.py\<close>) or directly
  (\<^verbatim>\<open>app/services/radius_sync.py\<close>), as \<^verbatim>\<open>app/services/radius_provisioning.py\<close> chooses. The column
  \<open>op\<close> is always \<open>:=\<close> and the priority always 1, so the rows leave them out. These tables are not
  part of the API's database transaction.
\<close>

subsection \<open>Direct database\<close>

definition derive_radius_password :: "io \<Rightarrow> settings \<Rightarrow> uuid \<Rightarrow> string" where
  "derive_radius_password w cfg subscription_id =
     take 20 (hmac_sha256 w (secrets_encryption_key cfg)
       (''radius-password:'' @ id_text subscription_id))"

definition radius_group_name :: "uuid \<Rightarrow> string" where
  "radius_group_name package_id = ''pkg_'' @ id_text package_id"

text \<open>The truth value of a number that may be missing: neither \<open>None\<close> nor 0.\<close>

fun given :: "nat option \<Rightarrow> bool" where
  "given None = False"
| "given (Some n) = (n \<noteq> 0)"

definition reply_attributes :: "nat option \<Rightarrow> nat option \<Rightarrow> nat option \<Rightarrow> (string \<times> string) list" where
  "reply_attributes down up timeout =
     (if given down \<and> given up
      then [(''Mikrotik-Rate-Limit'', nat_str (the down) @ ''k/'' @ nat_str (the up) @ ''k'')] else []) @
     (if given timeout then [(''Session-Timeout'', nat_str (the timeout))] else [])"

definition sync_package_radius_group ::
    "uuid \<Rightarrow> nat option \<Rightarrow> nat option \<Rightarrow> nat option \<Rightarrow> nat \<Rightarrow> radius_db \<Rightarrow> radius_db" where
  "sync_package_radius_group package_id down up timeout sessions r =
     (let g = radius_group_name package_id;
          r1 = r\<lparr>radgroupreply := filter (\<lambda>(n, _). n \<noteq> g) (radgroupreply r)\<rparr>;
          r2 = r1\<lparr>radgroupcheck := filter (\<lambda>(n, _). n \<noteq> g) (radgroupcheck r1)\<rparr>;
          r3 = fold (\<lambda>(attr, val) r. r\<lparr>radgroupreply := radgroupreply r @ [(g, attr, val)]\<rparr>)
            (reply_attributes down up timeout) r2 in
      r3\<lparr>radgroupcheck := radgroupcheck r3 @ [(g, ''Simultaneous-Use'', nat_str sessions)]\<rparr>)"

definition provision_customer_radius_access :: "string \<Rightarrow> uuid \<Rightarrow> string \<Rightarrow> radius_db \<Rightarrow> radius_db" where
  "provision_customer_radius_access phone package_id password r =
     (let r1 = r\<lparr>radcheck := filter (\<lambda>(u, attr, _). \<not> (u = phone \<and> attr = ''Cleartext-Password''))
            (radcheck r)\<rparr>;
          r2 = r1\<lparr>radcheck := radcheck r1 @ [(phone, ''Cleartext-Password'', password)]\<rparr>;
          r3 = r2\<lparr>radusergroup := filter (\<lambda>(u, _). u \<noteq> phone) (radusergroup r2)\<rparr> in
      r3\<lparr>radusergroup := radusergroup r3 @ [(phone, radius_group_name package_id)]\<rparr>)"

definition revoke_customer_radius_access :: "string \<Rightarrow> radius_db \<Rightarrow> radius_db" where
  "revoke_customer_radius_access phone r =
     (let r1 = r\<lparr>radcheck := filter (\<lambda>(u, _). u \<noteq> phone) (radcheck r)\<rparr> in
      r1\<lparr>radusergroup := filter (\<lambda>(u, _). u \<noteq> phone) (radusergroup r1)\<rparr>)"

subsection \<open>The network agent\<close>

text \<open>The agent knows a package by the text of its identifier.\<close>

definition agent_group_name :: "string \<Rightarrow> string" where
  "agent_group_name package_id = ''pkg_'' @ package_id"

definition delete_group :: "string \<Rightarrow> radius_db \<Rightarrow> radius_db" where
  "delete_group g r = r\<lparr>radgroupreply := filter (\<lambda>(n, _). n \<noteq> g) (radgroupreply r),
     radgroupcheck := filter (\<lambda>(n, _). n \<noteq> g) (radgroupcheck r)\<rparr>"

fun insert_replies :: "string \<Rightarrow> (string \<times> string) list \<Rightarrow> radius_db \<Rightarrow> radius_db" where
  "insert_replies g [] r = r"
| "insert_replies g ((attr, val) # rest) r =
     insert_replies g rest (r\<lparr>radgroupreply := radgroupreply r @ [(g, attr, val)]\<rparr>)"

definition agent_sync_package_group ::
    "string \<Rightarrow> nat option \<Rightarrow> nat option \<Rightarrow> nat option \<Rightarrow> nat \<Rightarrow> radius_db \<Rightarrow> radius_db" where
  "agent_sync_package_group package_id down up timeout sessions r =
     (let name = agent_group_name package_id;
          r' = insert_replies name (reply_attributes down up timeout) (delete_group name r) in
      r'\<lparr>radgroupcheck := radgroupcheck r' @ [(name, ''Simultaneous-Use'', nat_str sessions)]\<rparr>)"

definition agent_provision_user :: "string \<Rightarrow> string \<Rightarrow> string \<Rightarrow> radius_db \<Rightarrow> radius_db" where
  "agent_provision_user username package_id password r =
     r\<lparr>radcheck := filter (\<lambda>(u, attr, _). \<not> (u = username \<and> attr = ''Cleartext-Password''))
           (radcheck r) @ [(username, ''Cleartext-Password'', password)],
       radusergroup := filter (\<lambda>(u, _). u \<noteq> username) (radusergroup r) @
         [(username, agent_group_name package_id)]\<rparr>"

definition agent_revoke_user :: "string \<Rightarrow> radius_db \<Rightarrow> radius_db" where
  "agent_revoke_user username r =
     r\<lparr>radcheck := filter (\<lambda>(u, _). u \<noteq> username) (radcheck r),
       radusergroup := filter (\<lambda>(u, _). u \<noteq> username) (radusergroup r)\<rparr>"

subsection \<open>Choosing the transport\<close>

definition on_radius :: "channel \<Rightarrow> (radius_db \<Rightarrow> radius_db) \<Rightarrow> unit op" where
  "on_radius c f =
     (case c of
        Up \<Rightarrow> modify (\<lambda>s. s\<lparr>radius := f (radius s)\<rparr>)
      | Down \<Rightarrow> raise (RuntimeError ''RADIUS not reached'')
      | AnswerLost \<Rightarrow> thn (modify (\<lambda>s. s\<lparr>radius := f (radius s)\<rparr>)) (raise (RuntimeError ''RADIUS answer lost'')))"

text \<open>The route's request model refuses fewer than one session; the client turns the 422 into its error.\<close>

definition agent_package_group_route ::
    "channel \<Rightarrow> string \<Rightarrow> nat option \<Rightarrow> nat option \<Rightarrow> nat option \<Rightarrow> nat \<Rightarrow> unit op" where
  "agent_package_group_route c package_id down up timeout sessions =
     thn (guard (sessions \<ge> 1) (RuntimeError ''Network Agent returned 422''))
       (on_radius c (agent_sync_package_group package_id down up timeout sessions))"

definition describe_transport :: "settings \<Rightarrow> string" where
  "describe_transport cfg =
     (if network_agent_configured cfg then ''network_agent''
      else if radius_database_configured cfg then ''direct_database'' else ''unavailable'')"

definition provision_access ::
    "io \<Rightarrow> settings \<Rightarrow> string \<Rightarrow> uuid \<Rightarrow> string \<Rightarrow> nat option \<Rightarrow> nat option \<Rightarrow> nat option \<Rightarrow> nat \<Rightarrow> string op" where
  "provision_access w cfg phone package_id password down up timeout sessions =
     (if network_agent_configured cfg then
        except
          (thn (agent_package_group_route (group_channel w) (id_text package_id) down up timeout sessions)
          (thn (on_radius (user_channel w) (agent_provision_user phone (id_text package_id) password))
            (ret ''network_agent'')))
          (\<lambda>_. raise (RuntimeError ''Network Agent RADIUS provisioning failed''))
      else if radius_database_configured cfg then
        except
          (thn (on_radius (group_channel w) (sync_package_radius_group package_id down up timeout sessions))
          (thn (on_radius (user_channel w) (provision_customer_radius_access phone package_id password))
            (ret ''direct_database'')))
          (\<lambda>_. raise (RuntimeError ''RADIUS provisioning failed''))
      else raise (RuntimeError ''No RADIUS provisioning transport is configured''))"

subsection \<open>What the rows are afterwards\<close>

lemma fold_replies:
  "fold (\<lambda>(attr, val) r. r\<lparr>radgroupreply := radgroupreply r @ [(g, attr, val)]\<rparr>) avs r =
     r\<lparr>radgroupreply := radgroupreply r @ map (Pair g) avs\<rparr>"
  by (induction avs arbitrary: r) auto

lemma insert_replies_rows:
  "insert_replies g avs r = r\<lparr>radgroupreply := radgroupreply r @ map (Pair g) avs\<rparr>"
  by (induction g avs r rule: insert_replies.induct) auto

definition synced :: "uuid \<Rightarrow> (string \<times> string) list \<Rightarrow> nat \<Rightarrow> radius_db \<Rightarrow> radius_db" where
  "synced p avs n r = (let g = radius_group_name p in
     r\<lparr>radgroupreply := filter (\<lambda>(m, _). m \<noteq> g) (radgroupreply r) @ map (Pair g) avs,
       radgroupcheck := filter (\<lambda>(m, _). m \<noteq> g) (radgroupcheck r) @
         [(g, ''Simultaneous-Use'', nat_str n)]\<rparr>)"

definition granted :: "string \<Rightarrow> uuid \<Rightarrow> string \<Rightarrow> radius_db \<Rightarrow> radius_db" where
  "granted u p password r =
     r\<lparr>radcheck := filter (\<lambda>(v, attr, _). \<not> (v = u \<and> attr = ''Cleartext-Password'')) (radcheck r) @
           [(u, ''Cleartext-Password'', password)],
       radusergroup := filter (\<lambda>(v, _). v \<noteq> u) (radusergroup r) @ [(u, radius_group_name p)]\<rparr>"

text \<open>Both implementations write the same rows.\<close>

lemma direct_rows:
  "sync_package_radius_group p d u t n = synced p (reply_attributes d u t) n"
  "provision_customer_radius_access phone p password = granted phone p password"
  "revoke_customer_radius_access phone = agent_revoke_user phone"
  by (auto simp: fun_eq_iff sync_package_radius_group_def synced_def fold_replies Let_def
      provision_customer_radius_access_def granted_def revoke_customer_radius_access_def
      agent_revoke_user_def)

lemma agent_rows:
  "agent_sync_package_group (id_text p) d u t n = synced p (reply_attributes d u t) n"
  "agent_provision_user phone (id_text p) password = granted phone p password"
  by (auto simp: fun_eq_iff agent_sync_package_group_def agent_provision_user_def agent_group_name_def
      synced_def granted_def insert_replies_rows delete_group_def radius_group_name_def Let_def)

lemma granted_granted: "granted u p' b (granted u p a r) = granted u p' b r"
  by (simp add: granted_def)

lemma synced_synced: "synced p avs' m (synced p avs n r) = synced p avs' m r"
proof -
  have "filter (\<lambda>(k, _). k \<noteq> g) (map (Pair g) avs) = []" for g :: string
    by (simp add: filter_map o_def)
  then show ?thesis by (simp add: synced_def Let_def)
qed

lemma granted_synced: "granted u p a (synced q avs n r) = synced q avs n (granted u p a r)"
  by (simp add: granted_def synced_def Let_def)

text \<open>What reached the tables after a run of \<open>provision_access\<close>, whatever was reported.\<close>

definition reached_radius ::
    "io \<Rightarrow> settings \<Rightarrow> string \<Rightarrow> uuid \<Rightarrow> string \<Rightarrow> (string \<times> string) list \<Rightarrow> nat \<Rightarrow> radius_db \<Rightarrow> radius_db" where
  "reached_radius w cfg u p password avs n r =
     (if describe_transport cfg = ''unavailable'' \<or> (network_agent_configured cfg \<and> n = 0) \<or>
         group_channel w = Down then r
      else if group_channel w = AnswerLost \<or> user_channel w = Down then synced p avs n r
      else granted u p password (synced p avs n r))"

lemma on_radius_run [run_simps]:
  "on_radius c f s = (r, s') \<longleftrightarrow>
     (case c of
        Up \<Rightarrow> r = Inr () \<and> s' = s\<lparr>radius := f (radius s)\<rparr>
      | Down \<Rightarrow> r = Inl (RuntimeError ''RADIUS not reached'') \<and> s' = s
      | AnswerLost \<Rightarrow> r = Inl (RuntimeError ''RADIUS answer lost'') \<and> s' = s\<lparr>radius := f (radius s)\<rparr>)"
  by (cases c; cases r) (auto simp: on_radius_def run_simps)

lemma provision_access_result:
  "provision_access w cfg u p password d up t n s =
     (if describe_transport cfg = ''unavailable''
      then Inl (RuntimeError ''No RADIUS provisioning transport is configured'')
      else if group_channel w = Up \<and> user_channel w = Up \<and> (network_agent_configured cfg \<longrightarrow> n \<ge> 1)
      then Inr (describe_transport cfg)
      else Inl (RuntimeError (if network_agent_configured cfg
        then ''Network Agent RADIUS provisioning failed'' else ''RADIUS provisioning failed'')),
      s\<lparr>radius := reached_radius w cfg u p password (reply_attributes d up t) n (radius s)\<rparr>)"
  by (cases "group_channel w"; cases "user_channel w")
    (simp_all add: provision_access_def describe_transport_def reached_radius_def
      agent_package_group_route_def direct_rows agent_rows on_radius_def except_def bnd_def thn_def
      guard_def modify_def raise_def ret_def)

lemma provision_access_Inr:
  "provision_access w cfg u p password d up t n s = (Inr tr, s') \<longleftrightarrow>
     group_channel w = Up \<and> user_channel w = Up \<and> (network_agent_configured cfg \<longrightarrow> n \<ge> 1) \<and>
     describe_transport cfg \<noteq> ''unavailable'' \<and> tr = describe_transport cfg \<and>
     s' = s\<lparr>radius := granted u p password (synced p (reply_attributes d up t) n (radius s))\<rparr>"
  by (auto simp: provision_access_result reached_radius_def)

lemma radius_group_name_inject [simp]: "radius_group_name p = radius_group_name q \<longleftrightarrow> p = q"
  by (simp add: radius_group_name_def)

text \<open>What a table says about one user or group.\<close>

definition passwords :: "string \<Rightarrow> radius_db \<Rightarrow> string list" where
  "passwords u r = map (\<lambda>(_, _, v). v)
     (filter (\<lambda>(v, attr, _). v = u \<and> attr = ''Cleartext-Password'') (radcheck r))"

definition groups :: "string \<Rightarrow> radius_db \<Rightarrow> string list" where
  "groups u r = map snd (filter (\<lambda>(v, _). v = u) (radusergroup r))"

definition group_replies :: "string \<Rightarrow> radius_db \<Rightarrow> (string \<times> string) list" where
  "group_replies g r = map snd (filter (\<lambda>(m, _). m = g) (radgroupreply r))"

definition group_checks :: "string \<Rightarrow> radius_db \<Rightarrow> (string \<times> string) list" where
  "group_checks g r = map snd (filter (\<lambda>(m, _). m = g) (radgroupcheck r))"

lemmas radius_reads = passwords_def groups_def group_replies_def group_checks_def

lemma filter_pairs:
  "filter (\<lambda>(m, _). m = g) (map (Pair h) avs) = (if g = h then map (Pair h) avs else [])"
  by (auto simp: filter_map o_def)

lemma filter_away:
  "filter (\<lambda>(m, _). m = g) (filter (\<lambda>(m, _). m \<noteq> h) xs) =
     (if g = h then [] else filter (\<lambda>(m, _). m = g) xs)"
  by (induction xs) auto

lemma filter_away_check:
  "passwords v (r\<lparr>radcheck := filter (\<lambda>(v, attr, _). \<not> (v = u \<and> attr = ''Cleartext-Password''))
       (radcheck r) @ rows, radusergroup := gs\<rparr>) =
     (if v = u then [] else passwords v r) @ passwords v (r\<lparr>radcheck := rows\<rparr>)"
proof -
  have "filter (\<lambda>(w, attr, _). w = v \<and> attr = k) (filter (\<lambda>(w, attr, _). \<not> (w = u \<and> attr = k)) xs) =
      (if v = u then [] else filter (\<lambda>(w, attr, _). w = v \<and> attr = k) xs)"
    for k and xs :: "(string \<times> string \<times> string) list"
    by (induction xs) auto
  then show ?thesis by (simp only: passwords_def radius_db.simps filter_append map_append) simp
qed

lemma granted_reads:
  "passwords v (granted u p a r) = (if v = u then [a] else passwords v r)"
  "groups v (granted u p a r) = (if v = u then [radius_group_name p] else groups v r)"
  "group_replies g (granted u p a r) = group_replies g r"
  "group_checks g (granted u p a r) = group_checks g r"
  by (simp only: granted_def filter_away_check, simp add: passwords_def)
    (simp_all add: radius_reads granted_def filter_away del: filter_filter)

lemma synced_reads:
  "passwords v (synced p avs n r) = passwords v r"
  "groups v (synced p avs n r) = groups v r"
  "group_replies g (synced p avs n r) = (if g = radius_group_name p then avs else group_replies g r)"
  "group_checks g (synced p avs n r) =
     (if g = radius_group_name p then [(''Simultaneous-Use'', nat_str n)] else group_checks g r)"
  by (simp_all add: radius_reads synced_def Let_def filter_away filter_pairs o_def del: filter_filter)

lemmas radius_rows = granted_reads synced_reads

subsection \<open>Properties\<close>

definition agent_cfg :: settings where
  "agent_cfg = payout_cfg\<lparr>network_agent_configured := True\<rparr>"

text \<open>Granted access is exact: after a reported success the customer has one password, the one
  derived for the subscription, and one group, the package's; the group carries exactly the
  package's limits; every other user and group, and everything outside these tables, is as
  before.\<close>

theorem access_granted_exactly:
  assumes "provision_access w cfg u p password d up t n s = (Inr tr, s')"
  shows "passwords u (radius s') = [password] \<and> groups u (radius s') = [radius_group_name p] \<and>
    group_replies (radius_group_name p) (radius s') = reply_attributes d up t \<and>
    group_checks (radius_group_name p) (radius s') = [(''Simultaneous-Use'', nat_str n)] \<and>
    (\<forall>v. v \<noteq> u \<longrightarrow> passwords v (radius s') = passwords v (radius s) \<and>
       groups v (radius s') = groups v (radius s)) \<and>
    (\<forall>q. q \<noteq> p \<longrightarrow>
       group_replies (radius_group_name q) (radius s') = group_replies (radius_group_name q) (radius s) \<and>
       group_checks (radius_group_name q) (radius s') = group_checks (radius_group_name q) (radius s)) \<and>
    s' = s\<lparr>radius := radius s'\<rparr>"
proof -
  have r: "radius s' = granted u p password (synced p (reply_attributes d up t) n (radius s))"
    and s': "s' = s\<lparr>radius := radius s'\<rparr>"
    using assms by (auto simp: provision_access_Inr)
  show ?thesis unfolding r radius_rows using s' [unfolded r]
    by (intro conjI allI impI) (simp_all only: refl if_True if_False radius_group_name_inject)
qed

theorem access_granted_exactly_witness:
  "\<exists>tr s'. provision_access sample_io agent_cfg ''255712345678'' 31 ''pw'' (Some 8) (Some 4)
       (Some 60) 1 empty_db = (Inr tr, s') \<and>
     group_replies (radius_group_name 31) (radius s') =
       [(''Mikrotik-Rate-Limit'', ''8k/4k''), (''Session-Timeout'', ''60'')]"
proof -
  have "group_channel sample_io = Up \<and> user_channel sample_io = Up \<and>
      describe_transport agent_cfg \<noteq> ''unavailable''"
    by (simp add: describe_transport_def agent_cfg_def sample_io_def)
  then obtain tr s' where run: "provision_access sample_io agent_cfg ''255712345678'' 31 ''pw'' (Some 8)
      (Some 4) (Some 60) 1 empty_db = (Inr tr, s')"
    unfolding provision_access_Inr by blast
  have "reply_attributes (Some 8) (Some 4) (Some 60) =
      [(''Mikrotik-Rate-Limit'', ''8k/4k''), (''Session-Timeout'', ''60'')]"
    by code_simp
  with access_granted_exactly [OF run] have "group_replies (radius_group_name 31) (radius s') =
      [(''Mikrotik-Rate-Limit'', ''8k/4k''), (''Session-Timeout'', ''60'')]"
    by (simp only:)
  with run show ?thesis by blast
qed

lemma attempts_absorbed:
  "\<exists>r. fold (\<lambda>v s. snd (provision_access v cfg u p password d up t n s)) failed s = s\<lparr>radius := r\<rparr> \<and>
     granted u p password (synced p (reply_attributes d up t) n r) =
     granted u p password (synced p (reply_attributes d up t) n (radius s))"
proof (induction failed arbitrary: s)
  case Nil
  show ?case by (rule exI [of _ "radius s"]) simp
next
  case (Cons v failed)
  let ?r = "reached_radius v cfg u p password (reply_attributes d up t) n (radius s)"
  have "granted u p password (synced p (reply_attributes d up t) n ?r) =
      granted u p password (synced p (reply_attributes d up t) n (radius s))"
    by (simp add: reached_radius_def synced_synced granted_synced [symmetric] granted_granted)
  with Cons.IH [of "s\<lparr>radius := ?r\<rparr>"] show ?case
    by (simp add: provision_access_result)
qed

text \<open>Retrying converges: whatever earlier attempts did (refused, cut off between the two requests,
  carried out with the answer lost), an attempt that succeeds leaves exactly the rows it would have
  left without them.\<close>

theorem provisioning_retry_converges:
  assumes "provision_access w cfg u p password d up t n
      (fold (\<lambda>v s. snd (provision_access v cfg u p password d up t n s)) failed s) = (Inr tr, s')"
  shows "provision_access w cfg u p password d up t n s = (Inr tr, s')"
proof -
  let ?goal = "\<lambda>r. granted u p password (synced p (reply_attributes d up t) n r)"
  obtain r where r: "fold (\<lambda>v s. snd (provision_access v cfg u p password d up t n s)) failed s =
      s\<lparr>radius := r\<rparr>" "?goal r = ?goal (radius s)"
    using attempts_absorbed by blast
  from assms show ?thesis unfolding r(1) provision_access_Inr by (simp add: r(2))
qed

theorem provisioning_retry_converges_witness:
  "\<exists>tr s'. provision_access sample_io agent_cfg ''255712345678'' 31 ''pw'' None None None 1
       (fold (\<lambda>v s. snd (provision_access v agent_cfg ''255712345678'' 31 ''pw'' None None None 1 s))
          [sample_io\<lparr>user_channel := Down\<rparr>, sample_io\<lparr>user_channel := AnswerLost\<rparr>] empty_db) =
       (Inr tr, s') \<and>
     provision_access sample_io agent_cfg ''255712345678'' 31 ''pw'' None None None 1 empty_db = (Inr tr, s')"
proof -
  have "group_channel sample_io = Up \<and> user_channel sample_io = Up \<and>
      describe_transport agent_cfg \<noteq> ''unavailable''"
    by (simp add: describe_transport_def agent_cfg_def sample_io_def)
  then obtain tr s' where run: "provision_access sample_io agent_cfg ''255712345678'' 31 ''pw'' None None
      None 1 (fold (\<lambda>v s. snd (provision_access v agent_cfg ''255712345678'' 31 ''pw'' None None None 1 s))
        [sample_io\<lparr>user_channel := Down\<rparr>, sample_io\<lparr>user_channel := AnswerLost\<rparr>] empty_db) = (Inr tr, s')"
    unfolding provision_access_Inr by blast
  from provisioning_retry_converges [OF this] this show ?thesis by blast
qed

text \<open>C38: The two transports are interchangeable: for a package that allows at least one session, the
  network agent and the direct database leave the same rows behind in every case, and succeed or
  fail together.\<close>

theorem transports_agree:
  assumes "1 \<le> n" "network_agent_configured agent" "\<not> network_agent_configured direct"
    "radius_database_configured direct"
  shows "snd (provision_access w agent u p password d up t n s) =
      snd (provision_access w direct u p password d up t n s) \<and>
    isl (fst (provision_access w agent u p password d up t n s)) =
      isl (fst (provision_access w direct u p password d up t n s))"
  using assms by (simp add: provision_access_result reached_radius_def describe_transport_def)

theorem transports_agree_witness:
  "snd (provision_access sample_io agent_cfg ''255712345678'' 31 ''pw'' None None None 1 empty_db) =
   snd (provision_access sample_io (payout_cfg\<lparr>radius_database_configured := True\<rparr>)
     ''255712345678'' 31 ''pw'' None None None 1 empty_db)"
proof -
  have "network_agent_configured agent_cfg"
    and "\<not> network_agent_configured (payout_cfg\<lparr>radius_database_configured := True\<rparr>)"
    and "radius_database_configured (payout_cfg\<lparr>radius_database_configured := True\<rparr>)"
    by (simp_all add: agent_cfg_def payout_cfg_def)
  from transports_agree [OF order.refl this] show ?thesis by blast
qed

text \<open>
  The user name is the phone number alone, so one customer holds one access: a purchase of another
  package, also at another tenant, takes the first one's password and group away.
\<close>

theorem second_purchase_replaces_first:
  assumes "provision_access w cfg u p a d up t n s = (Inr tr, s1)"
    and "provision_access w' cfg u q b d' up' t' m s1 = (Inr tr', s2)"
  shows "passwords u (radius s2) = [b] \<and> groups u (radius s2) = [radius_group_name q]"
  using assms by (simp add: provision_access_Inr radius_rows)

text \<open>Revoking a user leaves neither password nor group.\<close>

lemma revoked:
  "passwords u (agent_revoke_user u r) = [] \<and> groups u (agent_revoke_user u r) = []"
  by (auto simp: radius_reads agent_revoke_user_def filter_empty_conv)

end
