(* ===== verification/Captive.thy ===== *)
theory Captive
  imports Collections Subscriptions Radius
begin

text \<open>
  The captive portal's payments: the single-use payment session
  (\<^verbatim>\<open>app/services/captive_session.py\<close>), the abuse limits (\<^verbatim>\<open>captive_rate_limit.py\<close>) and
  \<^verbatim>\<open>captive_portal.py\<close>. A token is an encrypted identifier: reading an intent token, with its
  time-to-live check, is a function of the request input; a transaction token stands as the
  transaction it names. Customer messages are left out of the results.
\<close>

subsection \<open>Sessions\<close>

definition issue_session :: "io \<Rightarrow> settings \<Rightarrow> uuid \<Rightarrow> string option \<Rightarrow> captive_session op" where
  "issue_session w cfg router_id mac =
     bnd (gets (\<lambda>s. row_find rt_id router_id (routers s))) (\<lambda>found.
     bnd (require (CaptiveSessionError ''Router not found'') found) (\<lambda>router.
     bnd fresh (\<lambda>nonce.
     bnd fresh (\<lambda>i.
     let x = \<lparr>cs_id = i, cs_tenant = rt_tenant router, cs_router = rt_id router, cs_mac_address = mac,
       cs_nonce = nonce, consumed_at = None,
       cs_expires_at = now w + seconds (captive_intent_ttl_seconds cfg)\<rparr> in
     thn (modify (\<lambda>s. s\<lparr>captive_sessions := captive_sessions s @ [x]\<rparr>))
     (thn (guard (captive_intent_configured cfg)
             (CaptiveSessionError ''CAPTIVE_INTENT_TOKEN_SIGNING_KEY is not set''))
     (thn (write_audit_log w (Some (rt_tenant router)) None ''captive_portal.session_issued''
             (Some ''captive_session'') (Some i) [(''router_id'', MId (rt_id router))])
       (ret x)))))))"

definition resolve_intent_token :: "io \<Rightarrow> settings \<Rightarrow> string \<Rightarrow> uuid option" where
  "resolve_intent_token w cfg token = (if captive_intent_configured cfg then resolve_token w token else None)"

definition resolve_session :: "io \<Rightarrow> settings \<Rightarrow> string \<Rightarrow> captive_session op" where
  "resolve_session w cfg token =
     (let bad = CaptiveSessionError ''Invalid or expired captive session'' in
      bnd (require bad (resolve_intent_token w cfg token)) (\<lambda>i.
      bnd (gets (\<lambda>s. row_find cs_id i (captive_sessions s))) (\<lambda>found.
      bnd (require bad found) (\<lambda>x.
      thn (guard (consumed_at x = None) bad)
      (thn (guard (\<not> cs_expires_at x \<le> now w) bad)
        (ret x))))))"

definition consume_session :: "io \<Rightarrow> captive_session \<Rightarrow> unit op" where
  "consume_session w x =
     modify (\<lambda>s. s\<lparr>captive_sessions := row_put cs_id (x\<lparr>consumed_at := Some (now w)\<rparr>) (captive_sessions s)\<rparr>)"

definition resolve_for_router :: "io \<Rightarrow> settings \<Rightarrow> string \<Rightarrow> uuid option \<Rightarrow> captive_session op" where
  "resolve_for_router w cfg token expected =
     bnd (resolve_session w cfg token) (\<lambda>x.
     thn (guard (\<not> (expected \<noteq> None \<and> cs_router x \<noteq> the expected))
            (CaptiveSessionError ''Invalid or expired captive session''))
       (ret x))"

definition validate_package_ownership :: "uuid \<Rightarrow> uuid \<Rightarrow> unit op" where
  "validate_package_ownership package_tenant session_tenant =
     guard (package_tenant = session_tenant)
       (DomainValidationError ''package_id does not belong to this router's tenant'')"

subsection \<open>Abuse limits\<close>

text \<open>
  One hit on a fixed-window counter. The time-to-live set on the first hit outlasts the window the
  key names, so it only shows when it is not positive: Redis then removes the key at once.
\<close>

definition counter_value :: "db \<Rightarrow> string \<Rightarrow> nat" where
  "counter_value s key = (case counters s key of None \<Rightarrow> 0 | Some n \<Rightarrow> n)"

definition hit :: "io \<Rightarrow> string \<Rightarrow> int \<Rightarrow> int \<Rightarrow> bool op" where
  "hit w key limit window =
     (if \<not> redis_reachable w then ret True
      else
        bnd (gets (\<lambda>s. counter_value s key + 1)) (\<lambda>count.
        thn (modify (\<lambda>s. s\<lparr>counters := (counters s)(key \<mapsto> count)\<rparr>))
        (thn (whenever (count = 1 \<and> window \<le> 0) (modify (\<lambda>s. s\<lparr>counters := (counters s)(key := None)\<rparr>)))
          (ret (int count \<le> limit)))))"

text \<open>The dimension that refuses, if one does.\<close>

fun check_dimensions :: "io \<Rightarrow> int \<Rightarrow> (string \<times> string \<times> int) list \<Rightarrow> string option op" where
  "check_dimensions w window [] = ret None"
| "check_dimensions w window ((dimension, key, limit) # rest) =
     (if limit \<le> 0 then check_dimensions w window rest
      else bnd (hit w key limit window) (\<lambda>allowed.
        if allowed then check_dimensions w window rest else ret (Some dimension)))"

definition rate_bucket :: "io \<Rightarrow> settings \<Rightarrow> int" where
  "rate_bucket w cfg =
     (let window = captive_rate_limit_window_seconds cfg in
      if window \<le> 0 then 0 else now w div seconds window)"

definition rate_key :: "string \<Rightarrow> string \<Rightarrow> int \<Rightarrow> string" where
  "rate_key dimension ident window_no =
     ''captive:rl:'' @ dimension @ '':'' @ ident @ '':'' @ int_str window_no"

definition check_rate :: "io \<Rightarrow> settings \<Rightarrow> uuid \<Rightarrow> string \<Rightarrow> uuid \<Rightarrow> string option op" where
  "check_rate w cfg session_id phone router_id =
     (let window_no = rate_bucket w cfg in
      check_dimensions w (captive_rate_limit_window_seconds cfg)
        [(''session'', rate_key ''session'' (id_text session_id) window_no, captive_rate_limit_per_session cfg),
         (''phone'', rate_key ''phone'' phone window_no, captive_rate_limit_per_phone cfg),
         (''router'', rate_key ''router'' (id_text router_id) window_no, captive_rate_limit_per_router cfg)])"

subsection \<open>Initiation\<close>

record initiate_result =
  ir_status :: string
  ir_transaction :: "uuid option"
  ir_amount :: "rat option"
  ir_currency :: "string option"

definition find_active_captive_attempt :: "uuid \<Rightarrow> uuid \<Rightarrow> string \<Rightarrow> db \<Rightarrow> transaction option" where
  "find_active_captive_attempt session_id package_id phone s =
     find (\<lambda>x. tx_captive_session x = Some session_id \<and> tx_package x = Some package_id \<and>
       payer_phone x = Some phone \<and> \<not> collection_terminal (tx_status x)) (transactions s)"

definition captive_context ::
    "io \<Rightarrow> settings \<Rightarrow> string \<Rightarrow> uuid \<Rightarrow> string \<Rightarrow> (captive_session \<times> package \<times> string) op" where
  "captive_context w cfg token package_id phone =
     bnd (except (resolve_session w cfg token) (\<lambda>e. case e of
           CaptiveSessionError _ \<Rightarrow> raise (DomainValidationError ''This payment session has expired'')
         | _ \<Rightarrow> raise e)) (\<lambda>session.
     bnd (gets (find_package (cs_tenant session) package_id)) (\<lambda>pkg.
     bnd (require (DomainValidationError ''package_id does not belong to this router's tenant'') pkg)
       (\<lambda>p.
     thn (validate_package_ownership (pk_tenant p) (cs_tenant session))
     (thn (guard (pk_status p = P_ACTIVE) (DomainValidationError ''This package is no longer available''))
     (bnd (require (DomainValidationError ''Invalid Tanzania phone number'') (normalize_tz_phone phone))
       (\<lambda>msisdn. ret (session, p, msisdn)))))))"

definition captive_transaction ::
    "io \<Rightarrow> uuid \<Rightarrow> captive_session \<Rightarrow> package \<Rightarrow> customer \<Rightarrow> subscription \<Rightarrow> string \<Rightarrow> rat \<Rightarrow> string \<Rightarrow> transaction" where
  "captive_transaction w i session p c x reference amount msisdn =
     (new_transaction CAPTIVE_PORTAL_SELCOM_FLOW w i (cs_tenant session) reference amount ''TZS'' msisdn)
       \<lparr>tx_customer := Some (cu_id c), tx_subscription := Some (sub_id x), tx_package := Some (pk_id p),
        tx_router := Some (cs_router session), tx_captive_session := Some (cs_id session),
        device_mac := cs_mac_address session, tx_channel := Some ''captive_portal''\<rparr>"

text \<open>A new attempt on record: the customer, the subscription awaiting payment, the row, the session spent.\<close>

definition open_attempt ::
    "io \<Rightarrow> captive_session \<Rightarrow> package \<Rightarrow> string \<Rightarrow> (customer \<times> transaction) op" where
  "open_attempt w session p msisdn =
     bnd (get_or_create_by_phone w (cs_tenant session) msisdn) (\<lambda>c.
     bnd (create_awaiting_payment w (cs_tenant session) (cu_id c) (pk_id p)) (\<lambda>x.
     bnd (new_reference CAPTIVE_PORTAL_SELCOM_FLOW) (\<lambda>reference.
     bnd (store (price_tzs p)) (\<lambda>amount.
     bnd fresh (\<lambda>i.
     bnd (insert_transaction (captive_transaction w i session p c x reference amount msisdn)) (\<lambda>t.
     thn (consume_session w session)
     (thn (write_audit_log w (Some (cs_tenant session)) None ''captive_portal.payment_initiated''
             (Some ''transaction'') (Some i)
             [(''reference'', MStr reference), (''package_id'', MId (pk_id p)),
              (''router_id'', MId (cs_router session)),
              (''payer_phone_masked'', MStr (mask_msisdn msisdn)), (''amount'', MAmount (price_tzs p))])
       (ret (c, t)))))))))"

text \<open>Then the push to the customer's phone, and an honest report of how it went.\<close>

definition start_attempt ::
    "io \<Rightarrow> settings \<Rightarrow> captive_session \<Rightarrow> package \<Rightarrow> string \<Rightarrow> initiate_result op" where
  "start_attempt w cfg session p msisdn =
     bnd (open_attempt w session p msisdn) (\<lambda>(c, t).
     bnd (create_order_and_send_stk CAPTIVE_PORTAL_SELCOM_FLOW w cfg t None (buyer_name (Some c) msisdn)
            (buyer_email (Some c) msisdn) msisdn (price_tzs p)) (\<lambda>t'.
     ret \<lparr>ir_status = (if tx_status t' = C_STK_SENT then ''pending'' else ''failed''),
       ir_transaction = Some (tx_id t'), ir_amount = Some (price_tzs p), ir_currency = Some ''TZS''\<rparr>))"

definition initiate_payment :: "io \<Rightarrow> settings \<Rightarrow> string \<Rightarrow> uuid \<Rightarrow> string \<Rightarrow> initiate_result op" where
  "initiate_payment w cfg token package_id phone =
     (let refused = (\<lambda>status. \<lparr>ir_status = status, ir_transaction = None, ir_amount = None, ir_currency = None\<rparr>) in
      if \<not> selcom_collection_enabled cfg \<or> \<not> selcom_collection_production_enabled cfg
      then ret (refused ''unavailable'')
      else
        bnd (captive_context w cfg token package_id phone) (\<lambda>(session, p, msisdn).
        bnd (check_rate w cfg (cs_id session) msisdn (cs_router session)) (\<lambda>decision.
        case decision of
          Some dimension \<Rightarrow>
            thn (write_audit_log w (Some (cs_tenant session)) None ''captive_portal.rate_limited''
                   (Some ''captive_session'') (Some (cs_id session)) [(''dimension'', MStr dimension)])
              (ret (refused ''rate_limited''))
        | None \<Rightarrow>
            bnd (gets (find_active_captive_attempt (cs_id session) (pk_id p) msisdn)) (\<lambda>existing.
            case existing of
              Some t \<Rightarrow>
                thn (write_audit_log w (Some (cs_tenant session)) None
                       ''captive_portal.duplicate_attempt_suppressed'' (Some ''transaction'')
                       (Some (tx_id t)) [(''captive_session_id'', MId (cs_id session))])
                  (ret \<lparr>ir_status = ''duplicate'', ir_transaction = Some (tx_id t),
                     ir_amount = Some (price_tzs p), ir_currency = Some ''TZS''\<rparr>)
            | None \<Rightarrow> start_attempt w cfg session p msisdn))))"

subsection \<open>The waiting screen\<close>

record payment_status_result =
  pv_status :: string
  pv_under_review :: bool
  pv_activation :: "string option"
  pv_package_name :: "string option"
  pv_amount :: "rat option"
  pv_currency :: "string option"
  pv_created_at :: "time option"
  pv_completed_at :: "time option"
  pv_activated_at :: "time option"
  pv_phone_masked :: "string option"
  pv_provider_reference :: "string option"
  pv_login_username :: "string option"
  pv_login_password :: "string option"

definition PUBLIC_FAILED_STATUSES :: "collection_status list" where
  "PUBLIC_FAILED_STATUSES = filter (\<lambda>st. st \<noteq> C_COMPLETED) COLLECTION_TERMINAL_STATUSES"

definition UNDER_REVIEW_STATUSES :: "collection_status list" where
  "UNDER_REVIEW_STATUSES = [C_REQUIRES_REVIEW, C_AMBIGUOUS]"

fun public_activation :: "activation_status option \<Rightarrow> string" where
  "public_activation None = ''pending''"
| "public_activation (Some A_PENDING) = ''pending''"
| "public_activation (Some A_ACTIVATING) = ''activating''"
| "public_activation (Some A_ACTIVE) = ''active''"
| "public_activation (Some A_FAILED) = ''failed''"
| "public_activation (Some A_REQUIRES_REVIEW) = ''failed''"

definition status_of :: "string \<Rightarrow> payment_status_result" where
  "status_of st = \<lparr>pv_status = st, pv_under_review = False, pv_activation = None, pv_package_name = None,
     pv_amount = None, pv_currency = None, pv_created_at = None, pv_completed_at = None, pv_activated_at = None,
     pv_phone_masked = None, pv_provider_reference = None, pv_login_username = None,
     pv_login_password = None\<rparr>"

definition get_payment_status :: "io \<Rightarrow> settings \<Rightarrow> uuid option \<Rightarrow> db \<Rightarrow> payment_status_result" where
  "get_payment_status w cfg target s =
     (case Option.bind target (\<lambda>i. get_by_id tx_id tx_tenant None i (transactions s)) of
        None \<Rightarrow> status_of ''not_found''
      | Some x \<Rightarrow>
          let common = (\<lambda>st. (status_of st)
                \<lparr>pv_package_name := map_option pk_name
                   (Option.bind (tx_package x) (\<lambda>i. row_find pk_id i (packages s))),
                 pv_amount := Some (tx_amount x), pv_currency := Some (tx_currency x),
                 pv_created_at := Some (tx_created_at x),
                 pv_phone_masked := (if truthy (payer_phone x)
                   then Some (mask_msisdn (the (payer_phone x))) else None)\<rparr>);
              activation = public_activation (activation_status x);
              paid = (common ''completed'')\<lparr>pv_completed_at := tx_completed_at x,
                pv_activated_at := tx_activated_at x, pv_provider_reference := tx_provider_reference x,
                pv_activation := Some activation\<rparr> in
          if tx_status x \<in> set UNDER_REVIEW_STATUSES then (common ''pending'')\<lparr>pv_under_review := True\<rparr>
          else if tx_status x \<in> set PUBLIC_FAILED_STATUSES then common ''failed''
          else if tx_status x \<noteq> C_COMPLETED then common ''pending''
          else if activation \<noteq> ''active'' then paid
          else case (tx_subscription x, tx_customer x) of
            (Some sub, Some c) \<Rightarrow>
              (case row_find cu_id c (customers s) of
                 None \<Rightarrow> paid
               | Some cu \<Rightarrow> paid\<lparr>pv_login_username := Some (cu_phone cu),
                   pv_login_password := Some (derive_radius_password w cfg sub)\<rparr>)
          | _ \<Rightarrow> paid)"

subsection \<open>Finalizing the money by hand\<close>

text \<open>\<^verbatim>\<open>finalize_payment\<close>, which nothing in the application calls: not one of the steps below.\<close>

definition finalize_payment :: "io \<Rightarrow> uuid \<Rightarrow> unit op" where
  "finalize_payment w i =
     bnd (gets (\<lambda>s. get_by_id tx_id tx_tenant None i (transactions s))) (\<lambda>found.
     bnd (require (NotFoundError ''Transaction not found'') found) (\<lambda>x.
     if tx_status x = C_COMPLETED then ret ()
     else
       thn (guard (tx_status x \<notin> set PUBLIC_FAILED_STATUSES)
              (DomainValidationError ''Cannot finalize a payment already terminal''))
       (thn (guard (tx_subscription x \<noteq> None \<and> tx_customer x \<noteq> None)
               (DomainValidationError ''Transaction has no associated subscription/customer''))
       (bnd (update_transaction (\<lambda>x. x\<lparr>tx_status := C_COMPLETED, tx_completed_at := Some (now w),
               activation_status := Some A_PENDING\<rparr>) x) (\<lambda>x'.
       bnd (process_collection w (tx_tenant x') (tx_amount x') ''transaction'' (Some (tx_id x'))
              (Some (''Captive portal payment '' @ tx_reference x'))) (\<lambda>_.
       write_audit_log w (Some (tx_tenant x')) None ''captive_portal.payment_completed''
         (Some ''transaction'') (Some (tx_id x'))
         (case tx_subscription x' of None \<Rightarrow> [] | Some i \<Rightarrow> [(''subscription_id'', MId i)])))))))"

end
