(* ===== verification/Activation.thy ===== *)
theory Activation
  imports Captive
begin

text \<open>
  \<^verbatim>\<open>app/services/captive_activation.py\<close>: granting the access a verified payment paid for, in a
  database transaction of its own, and recording a failure in a second one; and the retry sweep of
  \<^verbatim>\<open>app/tasks/captive_activation.py\<close>.
\<close>

definition find_transaction :: "uuid \<Rightarrow> transaction op" where
  "find_transaction i =
     bnd (gets (\<lambda>s. get_by_id tx_id tx_tenant None i (transactions s)))
       (require (NotFoundError ''Transaction not found''))"

text \<open>\<^verbatim>\<open>scalar_one\<close> on a row that is not there raises the driver layer's own error.\<close>

definition scalar_one :: "'a option \<Rightarrow> 'a op" where
  "scalar_one q = require (UnhandledError ''NoResultFound'') q"

text \<open>The subscription of the payment, its customer and package; activated if it still waits.\<close>

definition activate_paid_subscription ::
    "io \<Rightarrow> transaction \<Rightarrow> (transaction \<times> subscription \<times> customer \<times> package) op" where
  "activate_paid_subscription w x =
     thn (guard (tx_subscription x \<noteq> None \<and> tx_customer x \<noteq> None)
            (DomainValidationError ''Transaction has no associated subscription/customer''))
     (bnd (gets (\<lambda>s. row_find sub_id (the (tx_subscription x)) (subscriptions s))) (\<lambda>found.
      bnd (require (NotFoundError ''Subscription not found'') found) (\<lambda>sub.
      bnd (gets (\<lambda>s. row_find cu_id (the (tx_customer x)) (customers s))) (\<lambda>q.
      bnd (scalar_one q) (\<lambda>c.
      bnd (gets (\<lambda>s. row_find pk_id (sub_package sub) (packages s))) (\<lambda>q.
      bnd (scalar_one q) (\<lambda>p.
      bnd (update_transaction (\<lambda>x. x\<lparr>activation_status := Some A_ACTIVATING\<rparr>) x) (\<lambda>x'.
      bnd (if sub_status sub = Sub_PENDING
           then activate_subscription w (tx_tenant x) None (sub_id sub) else ret sub) (\<lambda>sub'.
      ret (x', sub', c, p))))))))))"

definition activate :: "io \<Rightarrow> settings \<Rightarrow> uuid \<Rightarrow> activation_status op" where
  "activate w cfg i =
     bnd (find_transaction i) (\<lambda>x.
     thn (guard (tx_status x = C_COMPLETED)
            (DomainValidationError ''Cannot activate access for a payment in this status''))
     (if activation_status x = Some A_ACTIVE then ret A_ACTIVE
      else
        bnd (activate_paid_subscription w x) (\<lambda>(x1, sub, c, p).
        bnd (except
               (provision_access w cfg (cu_phone c) (pk_id p) (derive_radius_password w cfg (sub_id sub))
                  (download_speed_kbps p) (upload_speed_kbps p)
                  (case duration_minutes p of None \<Rightarrow> None | Some m \<Rightarrow> if m = 0 then None else Some (m * 60))
                  (simultaneous_sessions p))
               (\<lambda>_. raise (ActivationFailedError ''RADIUS provisioning failed''))) (\<lambda>transport.
        bnd (update_transaction (\<lambda>x. x\<lparr>activation_status := Some A_ACTIVE,
               tx_activated_at := Some (now w)\<rparr>) x1) (\<lambda>x2.
        thn (write_audit_log w (Some (tx_tenant x2)) None ''captive_portal.access_activated''
               (Some ''transaction'') (Some (tx_id x2))
               [(''subscription_id'', MId (sub_id sub)), (''transport'', MStr transport)])
          (ret A_ACTIVE))))))"

definition record_failure :: "io \<Rightarrow> uuid \<Rightarrow> string \<Rightarrow> activation_status op" where
  "record_failure w i reason =
     bnd (find_transaction i) (\<lambda>x.
     bnd (update_transaction (\<lambda>x. x\<lparr>activation_status := Some A_FAILED\<rparr>) x) (\<lambda>x'.
     thn (write_audit_log w (Some (tx_tenant x')) None ''captive_portal.access_activation_failed''
            (Some ''transaction'') (Some (tx_id x'))
            [(''reason'', MStr reason), (''payment_status'', MStr (collection_status_value (tx_status x')))])
       (ret A_FAILED)))"

text \<open>
  \<^verbatim>\<open>run_activation\<close>: the attempt in its own transaction, and when it fails in
  provisioning, the record of that in another.
\<close>

definition run_activation :: "io \<Rightarrow> io \<Rightarrow> settings \<Rightarrow> uuid \<Rightarrow> activation_status op" where
  "run_activation w w' cfg i s =
     (case activate w cfg i s of
        (Inr x, s') \<Rightarrow> (Inr x, s')
      | (Inl e, s') \<Rightarrow>
          (case e of
             ActivationFailedError reason \<Rightarrow> commit (record_failure w' i reason) (rollback s s')
           | _ \<Rightarrow> (Inl e, rollback s s')))"

definition list_retryable :: "nat \<Rightarrow> db \<Rightarrow> uuid list" where
  "list_retryable limit s =
     take limit (map tx_id (filter (\<lambda>x. tx_status x = C_COMPLETED \<and>
       activation_status x \<in> {Some A_PENDING, Some A_FAILED}) (transactions s)))"

text \<open>
  The sweep: one \<^verbatim>\<open>run_activation\<close> per payment listed, each in a session of its own, an exception of
  one not stopping the others; the result is the number scanned, activated and still failing.
\<close>

fun sweep_activations ::
    "(uuid \<Rightarrow> io) \<Rightarrow> settings \<Rightarrow> uuid list \<Rightarrow> nat \<Rightarrow> nat \<Rightarrow> db \<Rightarrow> (nat \<times> nat) \<times> db" where
  "sweep_activations ws cfg [] activated failing s = ((activated, failing), s)"
| "sweep_activations ws cfg (i # rest) activated failing s =
     (case run_activation (ws i) (ws i) cfg i s of
        (Inr A_ACTIVE, s') \<Rightarrow> sweep_activations ws cfg rest (activated + 1) failing s'
      | (_, s') \<Rightarrow> sweep_activations ws cfg rest activated (failing + 1) s')"

definition retry_pending_activations :: "(uuid \<Rightarrow> io) \<Rightarrow> io \<Rightarrow> settings \<Rightarrow> db \<Rightarrow> nat \<times> db" where
  "retry_pending_activations ws w cfg s =
     (let ids = list_retryable 100 s in
      case sweep_activations ws cfg ids 0 0 s of
        ((activated, failing), s') \<Rightarrow>
          (length ids, snd (commit (write_audit_log w None None ''captive_portal.activation_retry_swept''
             None None [(''scanned'', MInt (int (length ids))), (''activated'', MInt (int activated)),
               (''still_failing'', MInt (int failing))]) s')))"

end
