(* ===== verification/Voucher_Rules.thy ===== *)
theory Voucher_Rules
  imports Subscriptions
begin

text \<open>
  What the operations of \<open>Subscriptions\<close> do, the requests on them as a step relation, and the
  invariant that ties vouchers to the subscriptions they paid for.
\<close>

subsection \<open>Single operations\<close>

lemma activate_shape:
  assumes "activate_subscription w t actor i s = (Inr x', s')"
  obtains x p log where "row_find sub_id i (subscriptions s) = Some x" "sub_tenant x = t"
    "sub_status x = Sub_PENDING" "find_package t (sub_package x) s = Some p"
    "x' = x\<lparr>sub_status := Sub_ACTIVE, sub_activated_at := Some (now w), sub_expires_at := expiry w p\<rparr>"
    "s' = s\<lparr>subscriptions := row_put sub_id x' (subscriptions s), audit_logs := log\<rparr>"
  using assms
  by (auto simp: activate_subscription_def update_subscription_def run_simps get_by_id_Some)

lemma row_put_last:
  assumes "key x = key y" "key y \<notin> key ` set rows"
  shows "row_put key x (rows @ [y]) = rows @ [x]"
proof -
  have "map (\<lambda>z. if key z = key x then x else z) rows = rows"
    using assms by (intro map_idI) (metis imageI)
  then show ?thesis using assms(1) by (simp add: row_put_def)
qed

lemma row_find_last:
  "key y \<notin> key ` set rows \<Longrightarrow> row_find key (key y) (rows @ [y]) = Some y"
  using row_find_None [of key "key y" rows] by (simp add: row_find_def find_append)

lemma insert_subscription_run [run_simps]:
  "insert_subscription t c p v s = (Inr x, s') \<longleftrightarrow>
     x = \<lparr>sub_id = next_id s, sub_tenant = t, sub_customer = c, sub_package = p, sub_voucher = v,
       sub_status = Sub_PENDING, sub_activated_at = None, sub_expires_at = None\<rparr> \<and>
     s' = s\<lparr>next_id := next_id s + 1, subscriptions := subscriptions s @ [x]\<rparr>"
  by (auto simp: insert_subscription_def Let_def run_simps)

lemma create_row_shape:
  assumes run: "create_subscription_row w t actor c p v s = (Inr x, s')"
    and ids: "\<forall>y \<in> set (subscriptions s). sub_id y < next_id s"
  shows "sub_id x = next_id s" "sub_tenant x = t" "sub_customer x = c" "sub_package x = pk_id p"
    "sub_voucher x = v"
    and "pk_activation_type p = Pat_IMMEDIATE \<Longrightarrow> sub_status x = Sub_ACTIVE \<and>
      (\<exists>q. find_package t (pk_id p) s = Some q \<and> sub_expires_at x = expiry w q)"
    and "pk_activation_type p \<noteq> Pat_IMMEDIATE \<Longrightarrow> sub_status x = Sub_PENDING"
    and "\<exists>log. s' = s\<lparr>next_id := next_id s + 1, subscriptions := subscriptions s @ [x],
      audit_logs := log\<rparr>"
proof -
  let ?y = "\<lparr>sub_id = next_id s, sub_tenant = t, sub_customer = c, sub_package = pk_id p,
    sub_voucher = v, sub_status = Sub_PENDING, sub_activated_at = None, sub_expires_at = None\<rparr>"
  have new: "next_id s \<notin> sub_id ` set (subscriptions s)" using ids by auto
  have found: "row_find sub_id (next_id s) (subscriptions s @ [?y]) = Some ?y"
    using row_find_last [of sub_id ?y "subscriptions s"] new by simp
  have put: "row_put sub_id z (subscriptions s @ [?y]) = subscriptions s @ [z]"
    if "sub_id z = next_id s" for z
    using row_put_last [of sub_id z ?y "subscriptions s"] new that by simp
  have "(sub_id x = next_id s \<and> sub_tenant x = t \<and> sub_customer x = c \<and> sub_package x = pk_id p \<and>
    sub_voucher x = v) \<and>
    (pk_activation_type p = Pat_IMMEDIATE \<longrightarrow> sub_status x = Sub_ACTIVE \<and>
      (\<exists>q. find_package t (pk_id p) s = Some q \<and> sub_expires_at x = expiry w q)) \<and>
    (pk_activation_type p \<noteq> Pat_IMMEDIATE \<longrightarrow> sub_status x = Sub_PENDING) \<and>
    (\<exists>log. s' = s\<lparr>next_id := next_id s + 1, subscriptions := subscriptions s @ [x], audit_logs := log\<rparr>)"
  proof (cases "pk_activation_type p = Pat_IMMEDIATE")
    case True
    with run obtain log where
      act: "activate_subscription w t (Some actor) (next_id s)
        (s\<lparr>next_id := next_id s + 1, subscriptions := subscriptions s @ [?y], audit_logs := log\<rparr>)
        = (Inr x, s')"
      by (auto simp: create_subscription_row_def run_simps)
    show ?thesis
    proof (rule activate_shape [OF act])
      fix z q log'
      assume z: "row_find sub_id (next_id s) (subscriptions
            (s\<lparr>next_id := next_id s + 1, subscriptions := subscriptions s @ [?y], audit_logs := log\<rparr>))
            = Some z"
        and q: "find_package t (sub_package z)
          (s\<lparr>next_id := next_id s + 1, subscriptions := subscriptions s @ [?y], audit_logs := log\<rparr>)
            = Some q"
        and x: "x = z\<lparr>sub_status := Sub_ACTIVE, sub_activated_at := Some (now w),
            sub_expires_at := expiry w q\<rparr>"
        and s': "s' = s\<lparr>next_id := next_id s + 1, subscriptions := subscriptions s @ [?y],
              audit_logs := log\<rparr>\<lparr>subscriptions := row_put sub_id x (subscriptions
            (s\<lparr>next_id := next_id s + 1, subscriptions := subscriptions s @ [?y], audit_logs := log\<rparr>)),
            audit_logs := log'\<rparr>"
      have z_eq: "z = ?y" using z found by simp
      have id: "sub_id x = next_id s" using x by (simp add: z_eq)
      have "s' = s\<lparr>next_id := next_id s + 1, subscriptions := subscriptions s @ [x], audit_logs := log'\<rparr>"
        using s' put [OF id] by simp
      moreover have "find_package t (pk_id p) s = Some q" using q by (simp add: z_eq find_package_def)
      moreover have "sub_tenant x = t" "sub_customer x = c" "sub_package x = pk_id p"
        "sub_voucher x = v" "sub_status x = Sub_ACTIVE" "sub_expires_at x = expiry w q"
        by (simp_all add: x z_eq)
      ultimately show ?thesis using True id by blast
    qed
  next
    case False
    with run show ?thesis by (auto simp: create_subscription_row_def run_simps)
  qed
  then show "sub_id x = next_id s" "sub_tenant x = t" "sub_customer x = c" "sub_package x = pk_id p"
    "sub_voucher x = v"
    and "pk_activation_type p = Pat_IMMEDIATE \<Longrightarrow> sub_status x = Sub_ACTIVE \<and>
      (\<exists>q. find_package t (pk_id p) s = Some q \<and> sub_expires_at x = expiry w q)"
    and "pk_activation_type p \<noteq> Pat_IMMEDIATE \<Longrightarrow> sub_status x = Sub_PENDING"
    and "\<exists>log. s' = s\<lparr>next_id := next_id s + 1, subscriptions := subscriptions s @ [x],
      audit_logs := log\<rparr>"
    by blast+
qed

subsection \<open>The loop that draws codes\<close>

definition fresh_voucher :: "uuid \<Rightarrow> uuid \<Rightarrow> nat \<Rightarrow> nat \<Rightarrow> voucher \<Rightarrow> bool" where
  "fresh_voucher t b low high v \<longleftrightarrow> vo_tenant v = t \<and> vo_batch v = b \<and> vo_status v = V_UNUSED \<and>
     low \<le> vo_id v \<and> vo_id v < high"

lemma fresh_voucher_mono:
  "fresh_voucher t b low high v \<Longrightarrow> low' \<le> low \<Longrightarrow> high \<le> high' \<Longrightarrow> fresh_voucher t b low' high' v"
  by (auto simp: fresh_voucher_def)

text \<open>Codes are compared per tenant.\<close>

definition code_key :: "voucher \<Rightarrow> uuid \<times> string" where
  "code_key v = (vo_tenant v, vo_code v)"

lemma generate_vouchers_shape:
  "\<exists>n vs. generate_vouchers draw t b pre q k left made s =
      (Inr n, s\<lparr>next_id := next_id s + length vs, vouchers := vouchers s @ vs\<rparr>) \<and>
    n = made + length vs \<and> (made \<le> q \<longrightarrow> n \<le> q) \<and>
    distinct (map vo_id vs) \<and> (\<forall>v \<in> set vs. fresh_voucher t b (next_id s) (next_id s + length vs) v) \<and>
    distinct (map code_key vs) \<and> code_key ` set vs \<inter> code_key ` set (vouchers s) = {}"
proof (induction left arbitrary: k made s)
  case 0
  show ?case by (rule exI [of _ made], rule exI [of _ "[]"]) (simp add: ret_def)
next
  case (Suc left)
  let ?c = "generate_code pre (draw (k + 1))"
  show ?case
  proof (cases "made < q")
    case False
    show ?thesis by (rule exI [of _ made], rule exI [of _ "[]"]) (use False in \<open>simp add: ret_def\<close>)
  next
    case True
    show ?thesis
    proof (cases "exists_by_code t ?c s")
      case taken: True
      with True Suc.IH [of "k + 1" made s] show ?thesis by (simp add: Let_def bnd_def gets_def)
    next
      case False
      let ?v = "\<lparr>vo_id = next_id s, vo_tenant = t, vo_batch = b, vo_code = ?c, vo_status = V_UNUSED,
        redeemed_by_customer = None, redeemed_subscription = None, redeemed_at = None\<rparr>"
      let ?s1 = "s\<lparr>next_id := next_id s + 1, vouchers := vouchers s @ [?v]\<rparr>"
      have step: "generate_vouchers draw t b pre q k (Suc left) made s =
          generate_vouchers draw t b pre q (k + 1) left (made + 1) ?s1"
        using True False
        by (simp add: Let_def bnd_def thn_def gets_def insert_voucher_def fresh_def modify_def)
      from Suc.IH [of "k + 1" "made + 1" ?s1] obtain n vs where ih:
        "generate_vouchers draw t b pre q (k + 1) left (made + 1) ?s1 =
           (Inr n, ?s1\<lparr>next_id := next_id ?s1 + length vs, vouchers := vouchers ?s1 @ vs\<rparr>)"
        "n = made + 1 + length vs" "made + 1 \<le> q \<longrightarrow> n \<le> q" "distinct (map vo_id vs)"
        "\<forall>v \<in> set vs. fresh_voucher t b (next_id s + 1) (next_id s + 1 + length vs) v"
        "distinct (map code_key vs)" "code_key ` set vs \<inter> code_key ` set (vouchers ?s1) = {}"
        by auto
      have new: "code_key ?v \<notin> code_key ` set (vouchers s)"
        using False by (auto simp: exists_by_code_def code_key_def)
      have "next_id s \<notin> vo_id ` set vs" using ih(5) by (auto simp: fresh_voucher_def)
      moreover have "fresh_voucher t b (next_id s) (next_id s + length (?v # vs)) v"
        if "v \<in> set (?v # vs)" for v
        using that ih(5) by (auto simp: fresh_voucher_def)
      ultimately show ?thesis
        using ih new True step
        by (intro exI [of _ n] exI [of _ "?v # vs"]) auto
    qed
  qed
qed

text \<open>
  How many the loop makes: as many as were asked for, or as many new codes as its draws contain,
  whichever is less. So the bound on the attempts is what ends it, and nothing else fails it.
\<close>

definition codes_of :: "uuid \<Rightarrow> db \<Rightarrow> string set" where
  "codes_of t s = vo_code ` {v \<in> set (vouchers s). vo_tenant v = t}"

lemma exists_by_code_codes_of: "exists_by_code t c s \<longleftrightarrow> c \<in> codes_of t s"
  by (auto simp: exists_by_code_def codes_of_def)

lemma codes_of_snoc:
  "codes_of t (s\<lparr>next_id := n, vouchers := vouchers s @ [v]\<rparr>) =
     (if vo_tenant v = t then insert (vo_code v) (codes_of t s) else codes_of t s)"
proof -
  have "{u \<in> set (vouchers s @ [v]). vo_tenant u = t} =
      (if vo_tenant v = t then insert v {u \<in> set (vouchers s). vo_tenant u = t}
       else {u \<in> set (vouchers s). vo_tenant u = t})" by auto
  then show ?thesis by (simp add: codes_of_def)
qed

definition new_codes :: "(nat \<Rightarrow> string) \<Rightarrow> string option \<Rightarrow> uuid \<Rightarrow> nat \<Rightarrow> nat \<Rightarrow> db \<Rightarrow> string set" where
  "new_codes draw pre t k left s =
     (\<lambda>n. generate_code pre (draw n)) ` {k<..k + left} - codes_of t s"

lemma new_codes_step:
  "new_codes draw pre t k (Suc left) s = insert (generate_code pre (draw (k + 1)))
     ((\<lambda>n. generate_code pre (draw n)) ` {k + 1<..k + 1 + left}) - codes_of t s"
proof -
  have "{k<..k + Suc left} = insert (k + 1) {k + 1<..k + 1 + left}" by auto
  then show ?thesis by (simp only: new_codes_def image_insert)
qed

lemma generate_vouchers_count:
  assumes "made \<le> q"
  shows "fst (generate_vouchers draw t b pre q k left made s) =
    Inr (min q (made + card (new_codes draw pre t k left s)))"
  using assms
proof (induction left arbitrary: k made s)
  case 0
  then show ?case by (simp add: ret_def new_codes_def)
next
  case (Suc left)
  let ?c = "generate_code pre (draw (k + 1))"
  let ?rest = "(\<lambda>n. generate_code pre (draw n)) ` {k + 1<..k + 1 + left}"
  show ?case
  proof (cases "made < q")
    case False
    with Suc.prems show ?thesis by (simp add: ret_def)
  next
    case True
    show ?thesis
    proof (cases "exists_by_code t ?c s")
      case taken: True
      then have "new_codes draw pre t k (Suc left) s = new_codes draw pre t (k + 1) left s"
        unfolding new_codes_step by (auto simp: new_codes_def exists_by_code_codes_of)
      with taken True Suc.IH [of made "k + 1" s] Suc.prems show ?thesis
        by (simp add: Let_def bnd_def gets_def)
    next
      case False
      let ?s1 = "s\<lparr>next_id := next_id s + 1, vouchers := vouchers s @ [\<lparr>vo_id = next_id s, vo_tenant = t,
        vo_batch = b, vo_code = ?c, vo_status = V_UNUSED, redeemed_by_customer = None,
        redeemed_subscription = None, redeemed_at = None\<rparr>]\<rparr>"
      have "codes_of t ?s1 = insert ?c (codes_of t s)" by (simp add: codes_of_snoc)
      then have "new_codes draw pre t k (Suc left) s =
          insert ?c (new_codes draw pre t (k + 1) left ?s1)"
        and "?c \<notin> new_codes draw pre t (k + 1) left ?s1"
        using False unfolding new_codes_step by (auto simp: new_codes_def exists_by_code_codes_of)
      moreover have "finite (new_codes draw pre t (k + 1) left ?s1)" by (simp add: new_codes_def)
      ultimately have "card (new_codes draw pre t k (Suc left) s) =
          Suc (card (new_codes draw pre t (k + 1) left ?s1))" by simp
      moreover have "generate_vouchers draw t b pre q k (Suc left) made s =
          generate_vouchers draw t b pre q (k + 1) left (made + 1) ?s1"
        using True False
        by (simp add: Let_def bnd_def thn_def gets_def insert_voucher_def fresh_def modify_def)
      ultimately show ?thesis using Suc.IH [of "made + 1" "k + 1" ?s1] True by simp
    qed
  qed
qed

lemma generate_batch_succeeds:
  "isl (fst (generate_batch w draw t actor p quantity pre s)) \<longleftrightarrow>
     \<not> (1 \<le> quantity \<and> quantity \<le> 5000 \<and> find_package t p s \<noteq> None \<and>
       nat quantity \<le> card (new_codes draw pre t 0 (nat quantity * 5 + 20) s))"
proof -
  let ?q = "nat quantity"
  let ?s1 = "s\<lparr>next_id := next_id s + 1, voucher_batches := voucher_batches s @
    [\<lparr>vb_id = next_id s, vb_tenant = t, vb_package = p, vb_quantity = ?q, vb_prefix = pre,
      vb_created_by = Some actor\<rparr>]\<rparr>"
  have same: "new_codes draw pre t 0 (?q * 5 + 20) ?s1 = new_codes draw pre t 0 (?q * 5 + 20) s"
    by (simp add: new_codes_def codes_of_def)
  obtain s2 where loop: "generate_vouchers draw t (next_id s) pre ?q 0 (?q * 5 + 20) 0 ?s1 =
      (Inr (min ?q (card (new_codes draw pre t 0 (?q * 5 + 20) s))), s2)"
    using generate_vouchers_count [of 0 ?q draw t "next_id s" pre 0 "?q * 5 + 20" ?s1] same
    by (cases "generate_vouchers draw t (next_id s) pre ?q 0 (?q * 5 + 20) 0 ?s1") simp
  show ?thesis
  proof (cases "1 \<le> quantity \<and> quantity \<le> 5000 \<and> find_package t p s \<noteq> None")
    case True
    with loop show ?thesis
      by (auto simp: generate_batch_def Let_def MAX_BATCH_QUANTITY_def bnd_def thn_def gets_def guard_def
          fresh_def modify_def write_audit_log_def ret_def raise_def)
  next
    case False
    then show ?thesis
      by (auto simp: generate_batch_def MAX_BATCH_QUANTITY_def bnd_def thn_def gets_def guard_def
          ret_def raise_def)
  qed
qed

subsection \<open>Requests, and what they preserve\<close>

inductive voucher_step :: "db \<Rightarrow> db \<Rightarrow> bool" where
  generate: "commit (generate_batch w draw t actor p q pre) s = (r1, s') \<Longrightarrow> voucher_step s s'"
| redemption: "commit (redeem w t actor otp c) s = (r2, s') \<Longrightarrow> voucher_step s s'"
| staff: "commit (create_subscription w t actor c p) s = (r3, s') \<Longrightarrow> voucher_step s s'"
| portal: "commit (create_awaiting_payment w t c p) s = (r4, s') \<Longrightarrow> voucher_step s s'"
| activation: "commit (activate_subscription w t ac i) s = (r5, s') \<Longrightarrow> voucher_step s s'"

text \<open>The subscriptions a voucher paid for.\<close>

definition paid_by :: "uuid \<Rightarrow> subscription list \<Rightarrow> subscription list" where
  "paid_by v subs = filter (\<lambda>x. sub_voucher x = Some v) subs"

definition vouchers_sound :: "db \<Rightarrow> bool" where
  "vouchers_sound s \<longleftrightarrow>
     (\<forall>x \<in> set (subscriptions s). sub_id x < next_id s \<and>
        (\<forall>v. sub_voucher x = Some v \<longrightarrow> v \<in> vo_id ` set (vouchers s))) \<and>
     distinct (map sub_id (subscriptions s)) \<and>
     distinct (map vo_id (vouchers s)) \<and> distinct (map code_key (vouchers s)) \<and>
     (\<forall>v \<in> set (vouchers s). vo_id v < next_id s \<and>
        map (\<lambda>x. Some (sub_id x)) (paid_by (vo_id v) (subscriptions s)) =
          (if vo_status v = V_USED then [redeemed_subscription v] else []))"

text \<open>A request that leaves vouchers alone and adds or changes a subscription without one.\<close>

lemma paid_by_put:
  assumes "row_find sub_id (sub_id x) subs = Some y" "sub_voucher x = sub_voucher y"
    "distinct (map sub_id subs)"
  shows "map sub_id (paid_by v (row_put sub_id x subs)) = map sub_id (paid_by v subs)"
  using assms
proof (induction subs)
  case (Cons a subs)
  show ?case
  proof (cases "sub_id a = sub_id x")
    case True
    then have "a = y" "row_put sub_id x subs = subs"
      using Cons.prems by (auto simp: row_find_def intro: row_put_absent)
    then show ?thesis using True Cons.prems by (simp add: row_put_Cons paid_by_def)
  next
    case False
    then show ?thesis using Cons by (simp add: row_put_Cons paid_by_def row_find_def)
  qed
qed simp

lemma sound_update:
  assumes ok: "vouchers_sound s" and found: "row_find sub_id (sub_id x) (subscriptions s) = Some y"
    and same: "sub_voucher x = sub_voucher y"
    and s': "subscriptions s' = row_put sub_id x (subscriptions s)" "vouchers s' = vouchers s"
      "next_id s' = next_id s"
  shows "vouchers_sound s'"
proof -
  have d: "distinct (map sub_id (subscriptions s))" using ok by (simp add: vouchers_sound_def)
  have y: "y \<in> set (subscriptions s)" "sub_id y = sub_id x" using row_find_Some [OF found] by auto
  have rows: "sub_id z < next_id s \<and> (\<forall>v. sub_voucher z = Some v \<longrightarrow> v \<in> vo_id ` set (vouchers s))"
    if "z \<in> set (row_put sub_id x (subscriptions s))" for z
    using row_put_set [OF that] ok y same by (auto simp: vouchers_sound_def)
  have paid: "map (\<lambda>z. Some (sub_id z)) (paid_by v (row_put sub_id x (subscriptions s))) =
      map (\<lambda>z. Some (sub_id z)) (paid_by v (subscriptions s))" for v
    using arg_cong [OF paid_by_put [OF found same d, of v], of "map Some"] by (simp add: comp_def)
  show ?thesis using ok rows paid by (simp add: vouchers_sound_def s')
qed

lemma sound_insert:
  assumes ok: "vouchers_sound s" and x: "sub_voucher x = None" "sub_id x = next_id s"
    and s': "subscriptions s' = subscriptions s @ [x]" "vouchers s' = vouchers s"
      "next_id s' = next_id s + 1"
  shows "vouchers_sound s'"
proof -
  have "next_id s \<notin> sub_id ` set (subscriptions s)" using ok by (auto simp: vouchers_sound_def)
  then show ?thesis
    using ok x by (fastforce simp: vouchers_sound_def s' paid_by_def less_Suc_eq)
qed

lemma sound_redeem:
  assumes ok: "vouchers_sound s" and v: "v \<in> set (vouchers s)" "vo_status v \<noteq> V_USED"
    and x: "sub_voucher x = Some (vo_id v)" "sub_id x = next_id s"
    and v': "vo_id v' = vo_id v" "code_key v' = code_key v" "vo_status v' = V_USED"
      "redeemed_subscription v' = Some (sub_id x)"
    and s': "subscriptions s' = subscriptions s @ [x]" "vouchers s' = row_put vo_id v' (vouchers s)"
      "next_id s' = next_id s + 1"
  shows "vouchers_sound s'"
proof -
  have d: "distinct (map vo_id (vouchers s))" using ok by (simp add: vouchers_sound_def)
  have keys: "map code_key (row_put vo_id v' (vouchers s)) = map code_key (vouchers s)"
  proof (rule row_put_map)
    fix z assume "z \<in> set (vouchers s)" "vo_id z = vo_id v'"
    then have "z = v" using d v v' by (auto simp: distinct_map inj_on_def)
    then show "code_key z = code_key v'" using v' by simp
  qed
  have ids: "vo_id ` set (row_put vo_id v' (vouchers s)) = vo_id ` set (vouchers s)"
    using row_put_keys [of vo_id v' "vouchers s"] by (metis list.set_map)
  have unpaid: "paid_by (vo_id v) (subscriptions s) = []"
    using ok v by (auto simp: vouchers_sound_def)
  have row: "vo_id z < Suc (next_id s) \<and>
      map (\<lambda>y. Some (sub_id y)) (paid_by (vo_id z) (subscriptions s @ [x])) =
        (if vo_status z = V_USED then [redeemed_subscription z] else [])"
    if z: "z \<in> set (row_put vo_id v' (vouchers s))" for z
  proof (cases "vo_id z = vo_id v")
    case True
    have found: "row_find vo_id (vo_id v') (vouchers s) = Some v"
      using row_find_distinct [OF d v(1)] v' by simp
    from z True have "z = v'" using row_put_set_iff [OF found, of z] v' by auto
    then show ?thesis
      using v' v x unpaid ok by (auto simp: paid_by_def vouchers_sound_def)
  next
    case False
    then have "z \<in> set (vouchers s)" using z v' row_put_set [of z vo_id v'] by auto
    then show ?thesis
      using ok False x by (auto simp: paid_by_def vouchers_sound_def)
  qed
  have new: "next_id s \<notin> sub_id ` set (subscriptions s)" using ok by (auto simp: vouchers_sound_def)
  have subs: "sub_id y < Suc (next_id s) \<and>
      (\<forall>u. sub_voucher y = Some u \<longrightarrow> u \<in> vo_id ` set (vouchers s))"
    if "y \<in> set (subscriptions s @ [x])" for y
    using that ok x v by (auto simp: vouchers_sound_def)
  show ?thesis
    using ok d keys ids row subs new x by (simp add: vouchers_sound_def s')
qed

subsection \<open>Every request preserves it\<close>

lemma voucher_ids:
  "keeps ids_grow (generate_batch w draw t actor p q pre)" "keeps ids_grow (redeem w t actor otp c)"
  "keeps ids_grow (create_subscription w t actor c p)" "keeps ids_grow (create_awaiting_payment w t c p)"
  "keeps ids_grow (activate_subscription w t ac i)"
proof -
  have loop: "keeps ids_grow (generate_vouchers draw t b pre q k left made)" for b q k left made
  proof (rule keepsI)
    fix s r s'
    assume "generate_vouchers draw t b pre q k left made s = (r, s')"
    then show "ids_grow s s'"
      using generate_vouchers_shape [of draw t b pre q k left made s] by (auto simp: ids_grow_def)
  qed
  have update: "keeps ids_grow (update_subscription g x)" for g x
    by (auto simp: update_subscription_def intro!: ids_rules ids_modify)
  show act: "keeps ids_grow (activate_subscription w t ac i)" for ac i
    by (auto simp: activate_subscription_def intro!: ids_rules update)
  have insert: "keeps ids_grow (insert_subscription t c p v)" for c p v
    by (auto simp: insert_subscription_def Let_def intro!: ids_rules ids_modify)
  have row: "keeps ids_grow (create_subscription_row w t actor c p v)" for c p v
    by (auto simp: create_subscription_row_def intro!: ids_rules insert act)
  have gates: "keeps ids_grow (subscription_gates t c p)"
    by (auto simp: subscription_gates_def intro!: ids_rules)
  show "keeps ids_grow (generate_batch w draw t actor p q pre)"
    by (auto simp: generate_batch_def Let_def intro!: ids_rules ids_modify loop)
  show "keeps ids_grow (redeem w t actor otp c)"
    by (auto simp: redeem_def Let_def intro!: ids_rules ids_modify row)
  show "keeps ids_grow (create_subscription w t actor c p)"
    by (auto simp: create_subscription_def intro!: ids_rules gates row)
  show "keeps ids_grow (create_awaiting_payment w t c p)"
    by (auto simp: create_awaiting_payment_def intro!: ids_rules gates insert)
qed

lemma sound_rollback:
  "vouchers_sound s \<Longrightarrow> next_id s \<le> next_id u \<Longrightarrow> vouchers_sound (rollback s u)"
  by (fastforce simp: vouchers_sound_def rollback_def)

lemma sound_activate:
  assumes "activate_subscription w t ac i s = (Inr x', s')" "vouchers_sound s"
  shows "vouchers_sound s'"
proof (rule activate_shape [OF assms(1)])
  fix x p log
  assume a: "row_find sub_id i (subscriptions s) = Some x"
    "x' = x\<lparr>sub_status := Sub_ACTIVE, sub_activated_at := Some (now w), sub_expires_at := expiry w p\<rparr>"
    "s' = s\<lparr>subscriptions := row_put sub_id x' (subscriptions s), audit_logs := log\<rparr>"
  have "sub_id x' = i" using a(1,2) row_find_Some [of sub_id i "subscriptions s" x] by simp
  then show ?thesis
    by (intro sound_update [OF assms(2), of x' x]) (use a in simp_all)
qed

lemma sound_fresh_ids: "vouchers_sound s \<Longrightarrow> \<forall>y \<in> set (subscriptions s). sub_id y < next_id s"
  by (simp add: vouchers_sound_def)

lemma sound_staff:
  assumes "create_subscription_row w t actor c p None s = (Inr x, s')" "vouchers_sound s"
  shows "vouchers_sound s'"
  using create_row_shape [OF assms(1) sound_fresh_ids [OF assms(2)]]
  by (intro sound_insert [OF assms(2), of x]) auto

lemma subscription_gates_state: "subscription_gates t c p s = (r, s') \<Longrightarrow> s' = s"
  by (cases r) (auto simp: subscription_gates_def run_simps)

lemma find_SomeD: "find P xs = Some v \<Longrightarrow> v \<in> set xs \<and> P v"
  by (auto simp: find_Some_iff)

lemma redeem_shape:
  assumes "redeem w t actor otp c s = (Inr (v', x), s')"
  obtains v u p b log log' where "v \<in> set (vouchers s)" "vo_tenant v = t" "vo_code v = otp"
    "vo_status v = V_UNUSED" "find_customer t c s \<noteq> None" "pk_status p = P_ACTIVE"
    "b \<in> set (voucher_batches s)" "vb_id b = vo_batch v" "find_package t (vb_package b) s = Some p"
    "create_subscription_row w t actor c p (Some (vo_id v)) s = (Inr x, u)"
    "v' = v\<lparr>vo_status := V_USED, redeemed_by_customer := Some c,
       redeemed_subscription := Some (sub_id x), redeemed_at := Some (now w)\<rparr>"
    "s' = u\<lparr>vouchers := row_put vo_id v' (vouchers u), audit_logs := log\<rparr>"
  using assms
  by (auto simp: redeem_def Let_def run_simps get_by_id_Some dest!: row_find_Some find_SomeD)

lemma sound_redemption:
  assumes run: "redeem w t actor otp c s = (Inr r, s')" and ok: "vouchers_sound s"
  shows "vouchers_sound s'"
proof -
  obtain v' x where r: "r = (v', x)" by (cases r)
  show ?thesis
  proof (rule redeem_shape [OF run [unfolded r]])
    fix v u p b log
    assume v: "v \<in> set (vouchers s)" "vo_status v = V_UNUSED"
      and row: "create_subscription_row w t actor c p (Some (vo_id v)) s = (Inr x, u)"
      and v': "v' = v\<lparr>vo_status := V_USED, redeemed_by_customer := Some c,
        redeemed_subscription := Some (sub_id x), redeemed_at := Some (now w)\<rparr>"
      and s': "s' = u\<lparr>vouchers := row_put vo_id v' (vouchers u), audit_logs := log\<rparr>"
    note shape = create_row_shape [OF row sound_fresh_ids [OF ok]]
    from shape(8) have u: "subscriptions u = subscriptions s @ [x]" "vouchers u = vouchers s"
      "next_id u = next_id s + 1" by auto
    show ?thesis
      by (rule sound_redeem [OF ok v(1) _ shape(5,1), of v'])
        (simp_all add: v v' s' u code_key_def)
  qed
qed

lemma sound_batch:
  assumes run: "generate_batch w draw t actor p q pre s = (Inr b, s')" and ok: "vouchers_sound s"
  shows "vouchers_sound s'"
proof -
  let ?b = "\<lparr>vb_id = next_id s, vb_tenant = t, vb_package = p, vb_quantity = nat q, vb_prefix = pre,
    vb_created_by = Some actor\<rparr>"
  let ?s1 = "s\<lparr>next_id := next_id s + 1, voucher_batches := voucher_batches s @ [?b]\<rparr>"
  obtain n vs where loop: "generate_vouchers draw t (next_id s) pre (nat q) 0 (nat q * 5 + 20) 0 ?s1 =
      (Inr n, ?s1\<lparr>next_id := next_id ?s1 + length vs, vouchers := vouchers ?s1 @ vs\<rparr>)"
    "distinct (map vo_id vs)"
    "\<forall>v \<in> set vs. fresh_voucher t (next_id s) (next_id ?s1) (next_id ?s1 + length vs) v"
    "distinct (map code_key vs)" "code_key ` set vs \<inter> code_key ` set (vouchers ?s1) = {}"
    using generate_vouchers_shape [of draw t "next_id s" pre "nat q" 0 "nat q * 5 + 20" 0 ?s1] by auto
  have s': "vouchers s' = vouchers s @ vs" "subscriptions s' = subscriptions s"
    "next_id s' = next_id s + 1 + length vs"
    using run loop(1) by (auto simp: generate_batch_def Let_def run_simps)
  have old: "vo_id v < next_id s" if "v \<in> set (vouchers s)" for v
    using ok that by (simp add: vouchers_sound_def)
  have new: "next_id s < vo_id v \<and> vo_id v < next_id s' \<and> vo_status v = V_UNUSED" if "v \<in> set vs" for v
    using loop(3) that s'(3) by (auto simp: fresh_voucher_def)
  have unpaid: "paid_by (vo_id v) (subscriptions s) = []" if "v \<in> set vs" for v
  proof -
    have "vo_id v \<notin> vo_id ` set (vouchers s)" using new [OF that] old by force
    then show ?thesis using ok by (auto simp: vouchers_sound_def paid_by_def filter_empty_conv)
  qed
  have "vo_id ` set vs \<inter> vo_id ` set (vouchers s) = {}" using old new by force
  then show ?thesis
    using ok loop(2,4,5) old new unpaid
    by (fastforce simp: vouchers_sound_def s')
qed

lemma sound_commit:
  assumes "commit m s = (r, s')" "keeps ids_grow m" "vouchers_sound s"
    and "\<And>x u. m s = (Inr x, u) \<Longrightarrow> vouchers_sound u"
  shows "vouchers_sound s'"
  by (rule commit_invariant [where I = vouchers_sound, OF assms(1-3)])
    (use assms(3,4) in \<open>auto intro: sound_rollback\<close>)

lemma voucher_step_sound: "voucher_step s s' \<Longrightarrow> vouchers_sound s \<Longrightarrow> vouchers_sound s'"
proof (induction rule: voucher_step.induct)
  case (generate w draw t actor p q pre s r1 s')
  then show ?case by (blast intro: sound_commit [OF _ voucher_ids(1)] sound_batch)
next
  case (redemption w t actor otp c s r2 s')
  then show ?case by (blast intro: sound_commit [OF _ voucher_ids(2)] sound_redemption)
next
  case (staff w t actor c p s r3 s')
  have "vouchers_sound u" if "create_subscription w t actor c p s = (Inr x, u)" for x u
    using that staff.prems sound_staff
    by (auto simp: create_subscription_def run_simps dest!: subscription_gates_state)
  with staff show ?case by (blast intro: sound_commit [OF _ voucher_ids(3)])
next
  case (portal w t c p s r4 s')
  have "vouchers_sound u" if run: "create_awaiting_payment w t c p s = (Inr x, u)" for x u
  proof (rule sound_insert [OF portal.prems, of x])
    show "sub_voucher x = None" "sub_id x = next_id s" "subscriptions u = subscriptions s @ [x]"
      "vouchers u = vouchers s" "next_id u = next_id s + 1"
      using run
      by (auto simp: create_awaiting_payment_def run_simps dest!: subscription_gates_state)
  qed
  with portal show ?case by (blast intro: sound_commit [OF _ voucher_ids(4)])
next
  case (activation w t ac i s r5 s')
  then show ?case by (blast intro: sound_commit [OF _ voucher_ids(5)] sound_activate)
qed

lemma vouchers_reachable:
  assumes "voucher_step\<^sup>*\<^sup>* s0 s" "vouchers_sound s0"
  shows "vouchers_sound s"
  using assms by (induction rule: rtranclp_induct) (auto intro: voucher_step_sound)

subsection \<open>Properties\<close>

text \<open>A concrete run: a tenant with one customer and one day package prints two vouchers.\<close>

definition shop_db :: db where
  "shop_db = empty_db\<lparr>
     customers := [\<lparr>cu_id = 21, cu_tenant = 7, cu_number = 1, cu_first_name = None, cu_last_name = None,
       cu_phone = ''255712345678'', cu_email = None, cu_username = None, cu_notes = None\<rparr>],
     packages := [\<lparr>pk_id = 31, pk_tenant = 7, pk_name = ''day'', pk_description = None, price_tzs = 1000,
       duration_minutes = Some 1440, bytes_limit = None, download_speed_kbps = Some 2048,
       upload_speed_kbps = Some 1024, device_limit = 1, simultaneous_sessions = 1, pk_activation_type = Pat_IMMEDIATE, pk_status = P_ACTIVE\<rparr>]\<rparr>"

definition printed_db :: db where
  "printed_db = snd (commit (generate_batch sample_io nat_str 7 3 31 2 (Some ''V'')) shop_db)"

definition redeemed_db :: db where
  "redeemed_db = snd (commit (redeem sample_io 7 3 ''V1'' 21) printed_db)"

lemma printed_run:
  "(case commit (generate_batch sample_io nat_str 7 3 31 2 (Some ''V'')) shop_db of (r, s) \<Rightarrow>
      \<not> isl r \<and> map vo_code (vouchers s) = [''V1'', ''V2''])"
  by code_simp

lemma redeemed_run:
  "(case commit (redeem sample_io 7 3 ''V1'' 21) printed_db of (r, s) \<Rightarrow>
      \<not> isl r \<and> map vo_code (vouchers s) = [''V1'', ''V2''] \<and>
      map vo_status (vouchers s) = [V_USED, V_UNUSED] \<and>
      map sub_status (subscriptions s) = [Sub_ACTIVE])"
  by code_simp

lemma redeemed_reachable: "voucher_step\<^sup>*\<^sup>* shop_db redeemed_db"
proof -
  have "voucher_step shop_db printed_db"
    unfolding printed_db_def by (rule voucher_step.generate) (rule prod.collapse [symmetric])
  moreover have "voucher_step printed_db redeemed_db"
    unfolding redeemed_db_def by (rule voucher_step.redemption) (rule prod.collapse [symmetric])
  ultimately show ?thesis by (meson converse_rtranclp_into_rtranclp rtranclp.rtrancl_refl)
qed

text \<open>A generated batch holds exactly the vouchers asked for: that many, all unused, of the tenant
  and the batch, with codes distinct from each other and from every code the tenant already had;
  no other voucher, subscription or wallet changes.\<close>

theorem batch_complete_and_distinct:
  assumes "generate_batch w draw t actor p quantity pre s = (Inr b, s')"
  shows "\<exists>vs. vouchers s' = vouchers s @ vs \<and> int (length vs) = quantity \<and> 1 \<le> quantity \<and> quantity \<le> 5000 \<and>
    (\<forall>v \<in> set vs. vo_tenant v = t \<and> vo_batch v = vb_id b \<and> vo_status v = V_UNUSED) \<and>
    distinct (map vo_code vs) \<and>
    (\<forall>v \<in> set vs. \<forall>u \<in> set (vouchers s). vo_tenant u = t \<longrightarrow> vo_code u \<noteq> vo_code v) \<and>
    subscriptions s' = subscriptions s \<and> wallets s' = wallets s"
proof -
  let ?q = "nat quantity"
  let ?b = "\<lparr>vb_id = next_id s, vb_tenant = t, vb_package = p, vb_quantity = ?q, vb_prefix = pre,
    vb_created_by = Some actor\<rparr>"
  let ?s1 = "s\<lparr>next_id := next_id s + 1, voucher_batches := voucher_batches s @ [?b]\<rparr>"
  obtain n vs where loop: "generate_vouchers draw t (next_id s) pre ?q 0 (?q * 5 + 20) 0 ?s1 =
      (Inr n, ?s1\<lparr>next_id := next_id ?s1 + length vs, vouchers := vouchers ?s1 @ vs\<rparr>)"
    "n = 0 + length vs" "n \<le> ?q"
    "\<forall>v \<in> set vs. fresh_voucher t (next_id s) (next_id ?s1) (next_id ?s1 + length vs) v"
    "distinct (map code_key vs)" "code_key ` set vs \<inter> code_key ` set (vouchers ?s1) = {}"
    using generate_vouchers_shape [of draw t "next_id s" pre ?q 0 "?q * 5 + 20" 0 ?s1] by auto
  have run: "b = ?b" "1 \<le> quantity" "quantity \<le> 5000" "\<not> n < ?q" "vouchers s' = vouchers s @ vs"
    "subscriptions s' = subscriptions s" "wallets s' = wallets s"
    using assms loop(1)
    by (auto simp: generate_batch_def Let_def run_simps MAX_BATCH_QUANTITY_def)
  have key: "code_key v = (t, vo_code v)" if "v \<in> set vs" for v
    using loop(4) that by (auto simp: code_key_def fresh_voucher_def)
  have "distinct (map vo_code vs)"
  proof -
    have "map code_key vs = map (Pair t) (map vo_code vs)" using key by auto
    with loop(5) have "distinct (map (Pair t) (map vo_code vs))" by simp
    then show ?thesis unfolding distinct_map [of "Pair t"] by blast
  qed
  moreover have "vo_code u \<noteq> vo_code v" if "v \<in> set vs" "u \<in> set (vouchers s)" "vo_tenant u = t" for u v
    using loop(6) key [OF that(1)] that by (auto simp: code_key_def image_iff)
  ultimately show ?thesis
    using run loop(2-4) by (intro exI [of _ vs]) (auto simp: fresh_voucher_def)
qed

theorem batch_complete_and_distinct_witness:
  "\<exists>b s' vs. generate_batch sample_io nat_str 7 3 31 2 (Some ''V'') shop_db = (Inr b, s') \<and>
     vouchers s' = vs \<and> length vs = 2 \<and> distinct (map vo_code vs)"
proof -
  obtain b s' where run: "generate_batch sample_io nat_str 7 3 31 2 (Some ''V'') shop_db = (Inr b, s')"
    using printed_run
    by (cases "generate_batch sample_io nat_str 7 3 31 2 (Some ''V'') shop_db";
        cases "fst (generate_batch sample_io nat_str 7 3 31 2 (Some ''V'') shop_db)")
      (auto simp: commit_def)
  have "vouchers shop_db = []" by (simp add: shop_db_def empty_db_def)
  with batch_complete_and_distinct [OF run] run show ?thesis by auto
qed

text \<open>C40: The loop that draws codes always ends within five draws per voucher and twenty more, and the
  batch succeeds exactly when the quantity is between 1 and 5000, the package is the tenant's, and
  these draws contain as many different codes the tenant does not have yet.\<close>

theorem batch_succeeds_iff:
  "(\<exists>b s'. generate_batch w draw t actor p quantity pre s = (Inr b, s')) \<longleftrightarrow>
     1 \<le> quantity \<and> quantity \<le> 5000 \<and> find_package t p s \<noteq> None \<and>
     nat quantity \<le> card (new_codes draw pre t 0 (nat quantity * 5 + 20) s)"
proof -
  have "(\<exists>b s'. generate_batch w draw t actor p quantity pre s = (Inr b, s')) \<longleftrightarrow>
      \<not> isl (fst (generate_batch w draw t actor p quantity pre s))"
    by (cases "generate_batch w draw t actor p quantity pre s";
        cases "fst (generate_batch w draw t actor p quantity pre s)") auto
  then show ?thesis by (simp only: generate_batch_succeeds not_not)
qed

text \<open>C39: A voucher pays for at most one subscription: in every reachable state a voucher that is used
  belongs to exactly one subscription, one that is not to none, and no two vouchers of a tenant
  share a code.\<close>

theorem voucher_redeemed_once:
  assumes "vouchers s0 = []" "subscriptions s0 = []" "voucher_step\<^sup>*\<^sup>* s0 s" "v \<in> set (vouchers s)"
  shows "length (filter (\<lambda>x. sub_voucher x = Some (vo_id v)) (subscriptions s)) =
      (if vo_status v = V_USED then 1 else 0) \<and>
    (\<forall>u \<in> set (vouchers s). vo_tenant u = vo_tenant v \<and> vo_code u = vo_code v \<longrightarrow> u = v)"
proof -
  have "vouchers_sound s0" using assms(1,2) by (simp add: vouchers_sound_def)
  with assms(3) have ok: "vouchers_sound s" by (rule vouchers_reachable)
  then have "length (map (\<lambda>x. Some (sub_id x)) (paid_by (vo_id v) (subscriptions s))) =
      (if vo_status v = V_USED then 1 else 0)"
    using assms(4) by (auto simp: vouchers_sound_def)
  moreover have "u = v" if "u \<in> set (vouchers s)" "code_key u = code_key v" for u
    using ok that assms(4) by (auto simp: vouchers_sound_def distinct_map inj_on_def)
  ultimately show ?thesis by (simp add: paid_by_def code_key_def)
qed

theorem voucher_redeemed_once_witness:
  "\<exists>v \<in> set (vouchers redeemed_db). vo_code v = ''V1'' \<and>
     length (filter (\<lambda>x. sub_voucher x = Some (vo_id v)) (subscriptions redeemed_db)) = 1"
proof -
  have "map vo_code (vouchers redeemed_db) = [''V1'', ''V2'']"
    "map vo_status (vouchers redeemed_db) = [V_USED, V_UNUSED]"
    using redeemed_run by (simp_all add: redeemed_db_def split: prod.splits)
  then have "\<exists>v \<in> set (vouchers redeemed_db). vo_code v = ''V1'' \<and> vo_status v = V_USED"
    by (auto simp: map_eq_Cons_conv)
  then obtain v where v: "v \<in> set (vouchers redeemed_db)" "vo_code v = ''V1''" "vo_status v = V_USED"
    by blast
  have "vouchers shop_db = []" "subscriptions shop_db = []" by (simp_all add: shop_db_def empty_db_def)
  from voucher_redeemed_once [OF this redeemed_reachable v(1)] v show ?thesis by auto
qed

text \<open>Redeeming a voucher gives the customer one new subscription to the voucher's package, running
  at once for exactly the package's duration when the package activates immediately, marks the
  voucher used by that customer for that subscription, and from then on every attempt to redeem
  the same code is refused and changes nothing.\<close>

theorem redemption_exact:
  assumes "vouchers_sound s" "redeem w t actor otp c s = (Inr (v', x), s')"
  shows "\<exists>v p b. v \<in> set (vouchers s) \<and> vo_tenant v = t \<and> vo_code v = otp \<and> vo_status v = V_UNUSED \<and>
    b \<in> set (voucher_batches s) \<and> vb_id b = vo_batch v \<and>
    find_package t (vb_package b) s = Some p \<and> pk_status p = P_ACTIVE \<and>
    find_customer t c s \<noteq> None \<and>
    subscriptions s' = subscriptions s @ [x] \<and> sub_tenant x = t \<and> sub_customer x = c \<and>
    sub_package x = pk_id p \<and> sub_voucher x = Some (vo_id v) \<and>
    (if pk_activation_type p = Pat_IMMEDIATE
     then sub_status x = Sub_ACTIVE \<and> sub_expires_at x = expiry w p else sub_status x = Sub_PENDING) \<and>
    vo_status v' = V_USED \<and> redeemed_by_customer v' = Some c \<and>
    redeemed_subscription v' = Some (sub_id x) \<and> vouchers s' = row_put vo_id v' (vouchers s) \<and>
    (\<forall>w2 actor2 c2. redeem w2 t actor2 otp c2 s' =
       (Inl (ConflictError ''This voucher has already been used''), s'))"
proof (rule redeem_shape [OF assms(2)])
  fix v u p b log
  assume v: "v \<in> set (vouchers s)" "vo_tenant v = t" "vo_code v = otp" "vo_status v = V_UNUSED"
    and gates: "find_customer t c s \<noteq> None" "pk_status p = P_ACTIVE" "b \<in> set (voucher_batches s)"
      "vb_id b = vo_batch v" "find_package t (vb_package b) s = Some p"
    and row: "create_subscription_row w t actor c p (Some (vo_id v)) s = (Inr x, u)"
    and v': "v' = v\<lparr>vo_status := V_USED, redeemed_by_customer := Some c,
      redeemed_subscription := Some (sub_id x), redeemed_at := Some (now w)\<rparr>"
    and s': "s' = u\<lparr>vouchers := row_put vo_id v' (vouchers u), audit_logs := log\<rparr>"
  note shape = create_row_shape [OF row sound_fresh_ids [OF assms(1)]]
  from shape(8) have u: "subscriptions u = subscriptions s @ [x]" "vouchers u = vouchers s" by auto
  have p: "pk_id p = vb_package b" using gates(5) by (auto simp: find_package_def get_by_id_Some dest: row_find_Some)
  have table: "vouchers s' = row_put vo_id v' (vouchers s)" by (simp add: s' u)
  have used: "vo_status z = V_USED"
    if z: "find (\<lambda>v. vo_tenant v = t \<and> vo_code v = otp) (vouchers s') = Some z" for z
  proof -
    from find_SomeD [OF z] have "z \<in> set (row_put vo_id v' (vouchers s))" "code_key z = code_key v"
      by (auto simp: table code_key_def v)
    moreover have "row_find vo_id (vo_id v') (vouchers s) = Some v"
      using assms(1) v(1) by (simp add: v' row_find_distinct vouchers_sound_def)
    ultimately have "z = v' \<or> z \<in> set (vouchers s) \<and> vo_id z \<noteq> vo_id v'"
      using row_put_set_iff [of vo_id v' "vouchers s" v z] by blast
    moreover have "z = v" if "z \<in> set (vouchers s)"
      using that \<open>code_key z = code_key v\<close> assms(1) v(1)
      by (auto simp: vouchers_sound_def distinct_map inj_on_def)
    ultimately have "z = v'" by (auto simp: v')
    then show ?thesis by (simp add: v')
  qed
  have "v' \<in> set (vouchers s') \<and> vo_tenant v' = t \<and> vo_code v' = otp"
    using v by (auto simp: table row_put_def v')
  then have "find (\<lambda>v. vo_tenant v = t \<and> vo_code v = otp) (vouchers s') \<noteq> None"
    unfolding find_None_iff by blast
  then obtain z where z: "find (\<lambda>v. vo_tenant v = t \<and> vo_code v = otp) (vouchers s') = Some z" by auto
  have again: "redeem w2 t actor2 otp c2 s' =
      (Inl (ConflictError ''This voucher has already been used''), s')" for w2 actor2 c2
    using z used [OF z] by (simp add: redeem_def bnd_def thn_def gets_def require_def guard_def ret_def raise_def)
  show ?thesis
    by (intro exI [of _ v] exI [of _ p] exI [of _ b] conjI allI)
      (use v gates shape u p v' table again in \<open>auto simp: s'\<close>)
qed

theorem redemption_exact_witness:
  "\<exists>v' x s'. redeem sample_io 7 3 ''V1'' 21 printed_db = (Inr (v', x), s') \<and>
     redeem sample_io 7 4 ''V1'' 21 s' = (Inl (ConflictError ''This voucher has already been used''), s')"
proof -
  have "vouchers_sound shop_db" by (simp add: vouchers_sound_def shop_db_def empty_db_def)
  moreover have "voucher_step shop_db printed_db"
    unfolding printed_db_def by (rule voucher_step.generate) (rule prod.collapse [symmetric])
  ultimately have ok: "vouchers_sound printed_db" by (blast intro: voucher_step_sound)
  obtain v' x s' where run: "redeem sample_io 7 3 ''V1'' 21 printed_db = (Inr (v', x), s')"
    using redeemed_run
    by (cases "redeem sample_io 7 3 ''V1'' 21 printed_db"; cases "fst (redeem sample_io 7 3 ''V1'' 21 printed_db)")
      (auto simp: commit_def)
  from redemption_exact [OF ok run] run show ?thesis by blast
qed

end
