(* ===== verification/Payment_Rules.thy ===== *)
theory Payment_Rules
  imports Activation Voucher_Rules
begin

text \<open>
  What the payment requests do to the payments and the ledger, as one relation
  (\<open>payment_change\<close>), and the invariant it preserves: every payment is credited exactly once, and
  only when it completes.
\<close>

text \<open>Running an operation forward, one combinator at a time.\<close>

lemma exec_simps:
  "bnd fresh f1 s = f1 (next_id s) (s\<lparr>next_id := next_id s + 1\<rparr>)"
  "bnd (ret x) f2 t = f2 x t" "bnd (gets g) f3 t = f3 (g t) t" "thn (modify h) m1 t = m1 (h t)"
  "bnd (bnd m2 q) f4 t = bnd m2 (\<lambda>x. bnd (q x) f4) t" "bnd (thn k m3) f5 t = thn k (bnd m3 f5) t"
  "thn (write_audit_log w te ac act tt tg md) m4 s = m4 (s\<lparr>audit_logs := audit_logs s @
     [\<lparr>au_tenant = te, au_actor = ac, au_action = act, au_target_type = tt, au_target = tg,
       au_metadata = md, au_created_at = now w\<rparr>]\<rparr>)"
  by (simp_all add: bnd_def thn_def fresh_def ret_def gets_def modify_def write_audit_log_def
      split: prod.splits sum.splits)

subsection \<open>One change at a time\<close>

text \<open>
  A request leaves the payments and the booked collections alone, adds one new payment that is not
  completed, or replaces one payment by a later stage of itself, booking it if this completes it.
\<close>

inductive payment_change :: "db \<Rightarrow> db \<Rightarrow> bool" where
  same: "transactions s' = transactions s \<Longrightarrow> booked s' = booked s \<Longrightarrow> next_id s \<le> next_id s' \<Longrightarrow>
    payment_change s s'"
| added: "transactions s' = transactions s @ [x] \<Longrightarrow> next_id s \<le> tx_id x \<Longrightarrow> tx_id x < next_id s' \<Longrightarrow>
    numeric_14_2 (tx_amount x) = Some (tx_amount x) \<Longrightarrow> tx_status x \<noteq> C_COMPLETED \<Longrightarrow>
    activation_status x = None \<Longrightarrow> booked s' = booked s \<Longrightarrow> payment_change s s'"
| moved: "x \<in> set (transactions s) \<Longrightarrow> payment_key x' = payment_key x \<Longrightarrow>
    transactions s' = row_put tx_id x' (transactions s) \<Longrightarrow> next_id s \<le> next_id s' \<Longrightarrow>
    booked s' = booked s @ (if tx_status x' = C_COMPLETED \<and> tx_status x \<noteq> C_COMPLETED
      then [(Some (tx_id x), tx_amount x)] else []) \<Longrightarrow>
    (collection_terminal (tx_status x) \<Longrightarrow> tx_status x' = tx_status x) \<Longrightarrow>
    (activation_status x' \<noteq> None \<Longrightarrow> activation_status x = None \<Longrightarrow> tx_status x' = C_COMPLETED) \<Longrightarrow>
    payment_change s s'"

definition bookings :: "uuid \<Rightarrow> db \<Rightarrow> (uuid option \<times> rat) list" where
  "bookings i s = filter (\<lambda>(r, _). r = Some i) (booked s)"

text \<open>A payment in order: booked once with its amount if it completed, else not at all.\<close>

definition payment_ok :: "db \<Rightarrow> transaction \<Rightarrow> bool" where
  "payment_ok s x \<longleftrightarrow> tx_id x < next_id s \<and> numeric_14_2 (tx_amount x) = Some (tx_amount x) \<and>
     bookings (tx_id x) s = (if tx_status x = C_COMPLETED then [(Some (tx_id x), tx_amount x)] else []) \<and>
     (activation_status x \<noteq> None \<longrightarrow> tx_status x = C_COMPLETED)"

definition payments_sound :: "db \<Rightarrow> bool" where
  "payments_sound s \<longleftrightarrow> distinct (map tx_id (transactions s)) \<and>
     (\<forall>x \<in> set (transactions s). payment_ok s x) \<and>
     (\<forall>(r, a) \<in> set (booked s). \<exists>x \<in> set (transactions s). r = Some (tx_id x))"

lemma payment_ok_mono:
  "payment_ok s x \<Longrightarrow> bookings (tx_id x) s' = bookings (tx_id x) s \<Longrightarrow> next_id s \<le> next_id s' \<Longrightarrow>
   payment_ok s' x"
  by (auto simp: payment_ok_def)

lemma bookings_absent:
  "\<forall>(r, a) \<in> set (booked s). \<exists>x \<in> set (transactions s). r = Some (tx_id x) \<Longrightarrow>
   i \<notin> tx_id ` set (transactions s) \<Longrightarrow> bookings i s = []"
  by (fastforce simp: bookings_def filter_empty_conv)

lemma payments_sound_same:
  assumes "payments_sound s" "transactions s' = transactions s" "booked s' = booked s"
    "next_id s \<le> next_id s'"
  shows "payments_sound s'"
  using assms by (auto simp: payments_sound_def bookings_def intro: payment_ok_mono)

lemma payments_sound_change:
  assumes "payment_change s s'" "payments_sound s"
  shows "payments_sound s'"
  using assms
proof (cases rule: payment_change.cases)
  case same
  then show ?thesis using assms(2) by (blast intro: payments_sound_same)
next
  case (added x)
  have new: "tx_id x \<notin> tx_id ` set (transactions s)"
    using added(2) assms(2) by (auto simp: payments_sound_def payment_ok_def)
  have same: "bookings i s' = bookings i s" for i using added(7) by (simp add: bookings_def)
  have "bookings (tx_id x) s = []"
    using new assms(2) by (intro bookings_absent) (auto simp: payments_sound_def)
  with added same have "payment_ok s' x" by (simp add: payment_ok_def)
  moreover have "payment_ok s' y" if "y \<in> set (transactions s)" for y
    using that assms(2) added(2,3) same by (auto simp: payments_sound_def intro: payment_ok_mono)
  ultimately show ?thesis
    using added(1,7) new assms(2) by (auto simp: payments_sound_def)
next
  case (moved x x')
  note old = assms(2) [unfolded payments_sound_def]
  have id: "tx_id x' = tx_id x" "tx_amount x' = tx_amount x" using moved(2) by (auto simp: payment_key_eq)
  have find: "row_find tx_id (tx_id x') (transactions s) = Some x"
    using old moved(1) id by (simp add: row_find_distinct)
  have rows: "y \<in> set (transactions s') \<longleftrightarrow> y = x' \<or> y \<in> set (transactions s) \<and> tx_id y \<noteq> tx_id x'" for y
    using row_put_set_iff [of tx_id x' "transactions s" x y] old find moved(3) by simp
  have keys: "map tx_id (transactions s') = map tx_id (transactions s)" by (simp add: moved(3))
  have ok: "payment_ok s x" using old moved(1) by blast
  have "tx_status x' = C_COMPLETED" if "activation_status x' \<noteq> None"
    using that ok moved(6,7) by (cases "activation_status x = None") (auto simp: payment_ok_def)
  moreover have "bookings (tx_id x) s' =
      (if tx_status x' = C_COMPLETED then [(Some (tx_id x), tx_amount x)] else [])"
  proof (cases "tx_status x = C_COMPLETED")
    case True
    with ok moved(5,6) show ?thesis by (simp add: payment_ok_def bookings_def)
  next
    case False
    with ok moved(5) show ?thesis by (simp add: payment_ok_def bookings_def)
  qed
  moreover have "tx_id x < next_id s'" "numeric_14_2 (tx_amount x) = Some (tx_amount x)"
    using ok moved(4) by (simp_all add: payment_ok_def)
  ultimately have "payment_ok s' x'"
    unfolding payment_ok_def id by blast
  moreover have "payment_ok s' y" if "y \<in> set (transactions s)" "tx_id y \<noteq> tx_id x'" for y
  proof (rule payment_ok_mono)
    show "payment_ok s y" using that(1) old by blast
    show "bookings (tx_id y) s' = bookings (tx_id y) s" using that(2) moved(5) id(1) by (simp add: bookings_def)
  qed (fact moved(4))
  moreover have "\<exists>x \<in> set (transactions s'). r = Some (tx_id x)" if "(r, a) \<in> set (booked s')" for r a
  proof -
    have "r \<in> Some ` tx_id ` set (transactions s)"
      using that old moved(1,5) by (fastforce split: if_splits)
    then show ?thesis using arg_cong [OF keys, of set] by auto
  qed
  ultimately show ?thesis
    using old unfolding payments_sound_def keys by (auto simp: rows)
qed

subsection \<open>Identifiers only move up\<close>

lemma ids_collection:
  "keeps ids_grow (collection_client cfg)" "keeps ids_grow (create_order_minimal w i e n p a)"
  "keeps ids_grow (wallet_payment w i r p)" "keeps ids_grow (order_status w r)"
  by (rule keepsI, auto simp: ids_grow_def wallet_payment_def order_status_def
      dest: collection_client_state create_order_state collection_call_state)+

lemma ids_payment_rows:
  "keeps ids_grow (update_transaction f x)" "keeps ids_grow (insert_transaction x)"
  "keeps ids_grow (tx_transition flow w x st actor reason md f)"
  by (auto simp: update_transaction_def insert_transaction_def tx_transition_def
      intro!: ids_rules ids_modify)

lemma ids_send: "keeps ids_grow (create_order_and_send_stk flow w cfg x actor n e m a)"
  by (auto simp: create_order_and_send_stk_def tx_fail_def Let_def split: sum.split
      intro!: ids_rules ids_collection ids_payment_rows)

lemma ids_finalize: "keeps ids_grow (sp_finalize (flow_of w t) x d)"
  by (cases t) (auto simp: credit_tenant_wallet_def finalize_captive_payment_def
      intro!: ids_rules ids_payment_rows ids_frame [OF process_collection_frame])

lemma ids_query: "keeps ids_grow (query_and_apply (flow_of w t) w cfg x actor)"
  by (auto simp: query_and_apply_def apply_order_status_def Let_def split: sum.split list.split option.split
      intro!: ids_rules ids_collection ids_payment_rows ids_finalize)

lemma ids_provider: "keeps ids_grow (provider_for f p x)"
  by (auto simp: provider_for_def split: option.split intro!: ids_rules)

lemma ids_initiate_collection: "keeps ids_grow (initiate_collection w cfg t actor a cur ph c)"
  by (auto simp: initiate_collection_def collection_gates_def new_reference_def split: option.split prod.split
      intro!: ids_rules ids_send ids_payment_rows)

subsection \<open>What each request does\<close>

text \<open>
  The push: at most one order and one STK request, for the reference and number given, and the row
  ends FAILED or STK_SENT.
\<close>

lemma send_effect:
  assumes "create_order_and_send_stk flow w cfg x actor n e m a s = (Inr x', s')"
  obtains st k calls u where "st \<in> {C_FAILED, C_STK_SENT}"
    "u = s\<lparr>next_id := next_id s + k, provider_calls := provider_calls s @ CreateOrder (tx_reference x) e n m a # calls\<rparr>"
    "calls = [] \<and> st = C_FAILED \<or> (\<exists>i. calls = [WalletPayment i (tx_reference x) m])"
    "advances flow w x st u x' s'"
proof -
  let ?s1 = "s\<lparr>provider_calls := provider_calls s @ [CreateOrder (tx_reference x) e n m a]\<rparr>"
  obtain r where r: "create_order_minimal w (tx_reference x) e n m a s = (Inr r, ?s1)"
    and rest: "(case r of Inl msg \<Rightarrow> tx_fail flow w x (''Order creation failed: '' @ msg) actor
      | Inr _ \<Rightarrow> bnd fresh (\<lambda>k. let transid = ''txn-'' @ id_text k in
         bnd (wallet_payment w transid (tx_reference x) m) (\<lambda>r. case r of
           Inl msg \<Rightarrow> tx_fail flow w x (''STK request failed: '' @ msg) actor
         | Inr resp \<Rightarrow>
             tx_transition flow w x C_STK_SENT actor (wp_message resp) []
               (\<lambda>x. x\<lparr>collection_transid := Some transid, stk_requested_at := Some (now w),
                  tx_resultcode := wp_resultcode resp, tx_message := wp_message resp\<rparr>)))) ?s1 = (Inr x', s')"
  proof -
    from assms obtain c s0 r s1 where c: "collection_client cfg s = (Inr c, s0)"
      and r: "create_order_minimal w (tx_reference x) e n m a s0 = (Inr r, s1)"
      and rest: "(case r of Inl msg \<Rightarrow> tx_fail flow w x (''Order creation failed: '' @ msg) actor
      | Inr _ \<Rightarrow> bnd fresh (\<lambda>k. let transid = ''txn-'' @ id_text k in
         bnd (wallet_payment w transid (tx_reference x) m) (\<lambda>r. case r of
           Inl msg \<Rightarrow> tx_fail flow w x (''STK request failed: '' @ msg) actor
         | Inr resp \<Rightarrow>
             tx_transition flow w x C_STK_SENT actor (wp_message resp) []
               (\<lambda>x. x\<lparr>collection_transid := Some transid, stk_requested_at := Some (now w),
                  tx_resultcode := wp_resultcode resp, tx_message := wp_message resp\<rparr>)))) s1 = (Inr x', s')"
      unfolding create_order_and_send_stk_def bnd_Inr by blast
    have "s0 = s" using c by (rule collection_client_state)
    moreover have "s1 = s0\<lparr>provider_calls := provider_calls s0 @ [CreateOrder (tx_reference x) e n m a]\<rparr>"
      using r by (auto simp: create_order_minimal_def split: option.splits dest: collection_call_state)
    ultimately show thesis using that r rest by blast
  qed
  show thesis
  proof (cases r)
    case (Inl msg)
    with rest have "advances flow w x C_FAILED ?s1 x' s'"
      by (auto simp: tx_fail_def simp del: append.simps intro: advancesI)
    then show thesis by (intro that [where st = C_FAILED and u = ?s1 and k = 0 and calls = "[]"]) simp_all
  next
    case (Inr v)
    let ?i = "''txn-'' @ id_text (next_id s)"
    let ?s2 = "?s1\<lparr>next_id := next_id s + 1,
      provider_calls := provider_calls ?s1 @ [WalletPayment ?i (tx_reference x) m]\<rparr>"
    from rest Inr obtain q s2 where q: "wallet_payment w ?i (tx_reference x) m
        (?s1\<lparr>next_id := next_id s + 1\<rparr>) = (Inr q, s2)"
      and fin: "(case q of Inl msg \<Rightarrow> tx_fail flow w x (''STK request failed: '' @ msg) actor
         | Inr resp \<Rightarrow>
             tx_transition flow w x C_STK_SENT actor (wp_message resp) []
               (\<lambda>x. x\<lparr>collection_transid := Some ?i, stk_requested_at := Some (now w),
                  tx_resultcode := wp_resultcode resp, tx_message := wp_message resp\<rparr>)) s2 = (Inr x', s')"
      by (auto simp: Let_def bnd_Inr simp del: append.simps)
    have s2: "s2 = ?s2" using collection_call_state q unfolding wallet_payment_def by fastforce
    have "\<exists>st \<in> {C_FAILED, C_STK_SENT}. advances flow w x st s2 x' s'"
    proof (cases q)
      case (Inl msg)
      with fin have "advances flow w x C_FAILED s2 x' s'"
        by (auto simp: tx_fail_def simp del: append.simps intro: advancesI)
      then show ?thesis by blast
    next
      case (Inr resp)
      with fin have "advances flow w x C_STK_SENT s2 x' s'"
        by (auto simp del: append.simps intro: advancesI)
      then show ?thesis by blast
    qed
    then obtain st where "st \<in> {C_FAILED, C_STK_SENT}" "advances flow w x st s2 x' s'" by blast
    then show thesis by (intro that [where st = st and u = s2 and k = 1 and
      calls = "[WalletPayment ?i (tx_reference x) m]"]) (simp_all add: s2)
  qed
qed

definition alike :: "db \<Rightarrow> db \<Rightarrow> bool" where
  "alike s s' \<longleftrightarrow> transactions s' = transactions s \<and> booked s' = booked s \<and> next_id s \<le> next_id s'"

lemma alike_change: "alike s s' \<Longrightarrow> payment_change s s'"
  by (auto simp: alike_def intro: payment_change.same)

lemma change_alike:
  assumes "alike s u" "payment_change u v" "alike v s'"
  shows "payment_change s s'"
  using assms(2)
proof (cases rule: payment_change.cases)
  case same
  with assms(1,3) show ?thesis by (auto simp: alike_def intro: payment_change.same)
next
  case (added x)
  with assms(1,3) show ?thesis by (intro payment_change.added [of _ _ x]) (auto simp: alike_def)
next
  case (moved x x')
  with assms(1,3) show ?thesis by (intro payment_change.moved [of x _ x']) (auto simp: alike_def)
qed

lemma row_put_here:
  "payments_sound s \<Longrightarrow> x \<in> set (transactions s) \<Longrightarrow> row_put tx_id x (transactions s) = transactions s"
proof -
  assume "payments_sound s" "x \<in> set (transactions s)"
  then have "y = x" if "y \<in> set (transactions s)" "tx_id y = tx_id x" for y
    using that by (auto simp: payments_sound_def distinct_map inj_on_def)
  then show ?thesis unfolding row_put_def by (intro map_idI) auto
qed

lemma query_state:
  assumes "query_and_apply p w cfg x actor s = (Inr x', s')"
  obtains u where "u = s\<lparr>provider_calls := provider_calls s @ [OrderStatus (tx_reference x)]\<rparr>"
    "x' = x \<and> s' = u \<or> (\<exists>resp d ds. order_status_reply w = Reply resp \<and> os_data resp = d # ds \<and>
       apply_order_status p w cfg x d actor (os_resultcode resp) u = (Inr x', s'))"
proof -
  let ?u = "s\<lparr>provider_calls := provider_calls s @ [OrderStatus (tx_reference x)]\<rparr>"
  from assms obtain c s0 r s1 where c: "collection_client cfg s = (Inr c, s0)"
    and r: "order_status w (tx_reference x) s0 = (Inr r, s1)"
    and rest: "(case r of Inl _ \<Rightarrow> ret x | Inr resp \<Rightarrow> (case os_data resp of [] \<Rightarrow> ret x
      | d # _ \<Rightarrow> apply_order_status p w cfg x d actor (os_resultcode resp))) s1 = (Inr x', s')"
    unfolding query_and_apply_def bnd_Inr by blast
  have s0: "s0 = s" using c by (rule collection_client_state)
  have s1: "s1 = ?u" using collection_call_state r unfolding order_status_def s0 by blast
  have reply: "order_status_reply w = Reply resp" if "r = Inr resp" for resp
    using r that by (auto simp: order_status_def collection_call_def run_simps split: reply.splits)
  show thesis
    by (rule that [OF refl]) (use rest reply in \<open>auto simp: s1 split: sum.splits list.splits\<close>)
qed

lemma query_change:
  assumes run: "query_and_apply (flow_of w t) w cfg x actor s = (Inr x', s')"
    and ok: "payments_sound s" and x: "x \<in> set (transactions s)"
  shows "payment_change s s'" "payment_frame (s\<lparr>provider_calls := provider_calls s'\<rparr>) s'"
proof -
  have stored: "numeric_14_2 (tx_amount x) = Some (tx_amount x)"
    using ok x by (auto simp: payments_sound_def payment_ok_def)
  from run obtain u where u: "u = s\<lparr>provider_calls := provider_calls s @ [OrderStatus (tx_reference x)]\<rparr>"
    and cases: "x' = x \<and> s' = u \<or> (\<exists>resp d ds. order_status_reply w = Reply resp \<and> os_data resp = d # ds \<and>
       apply_order_status (flow_of w t) w cfg x d actor (os_resultcode resp) u = (Inr x', s'))"
    by (rule query_state)
  have su: "alike s u" by (simp add: alike_def u booked_def)
  have "payment_change s s' \<and> payment_frame u s'"
    using cases
  proof (elim disjE exE conjE)
    assume "s' = u"
    then show ?thesis using su by (simp add: alike_change)
  next
    fix resp d
    assume a: "apply_order_status (flow_of w t) w cfg x d actor (os_resultcode resp) u = (Inr x', s')"
    have "row_put tx_id x (transactions u) = transactions u" using row_put_here [OF ok x] by (simp add: u)
    note e = flow_applied [OF a stored this]
    have "payment_change u s'"
      by (rule payment_change.moved [of x _ x']) (use x e in \<open>auto simp: u\<close>)
    with su have "payment_change s s'" by (rule change_alike) (simp add: alike_def)
    with e(7) show ?thesis by blast
  qed
  moreover have "payment_frame u s' \<Longrightarrow> provider_calls s' = provider_calls u"
    by (auto simp: payment_frame_def)
  ultimately show "payment_change s s'" "payment_frame (s\<lparr>provider_calls := provider_calls s'\<rparr>) s'"
    by (auto simp: u)
qed

lemma provider_for_flow: "provider_for (flow_of w) (flow_of w t) x s = (Inr q, s') \<Longrightarrow>
    s' = s \<and> (\<exists>t'. tx_type x = Some t' \<and> q = flow_of w t')"
  by (auto simp: provider_for_def split: if_splits option.splits)

lemma reconcile_change:
  assumes "reconcile_transaction (flow_of w) (flow_of w t) w cfg i s = (Inr x', s')" "payments_sound s"
  shows "payment_change s s'"
proof -
  from assms(1) obtain x q where x: "row_find tx_id i (transactions s) = Some x"
    and q: "provider_for (flow_of w) (flow_of w t) x s = (Inr q, s)"
    and run: "query_and_apply q w cfg x None s = (Inr x', s')"
    by (auto simp: reconcile_transaction_def bnd_Inr get_by_id_Some dest: provider_for_flow)
  from provider_for_flow [OF q] obtain t' where "q = flow_of w t'" by blast
  with run x assms(2) show ?thesis by (blast intro: query_change dest: row_find_Some)
qed

text \<open>A webhook that is not verified leaves one processed row and nothing else.\<close>

lemma webhook_shape:
  assumes "process_webhook (flow_of w) (flow_of w t) w k cfg q s = (Inr a, s')"
  obtains c where "collection_config_from_settings cfg s = (Inr c, s)"
    "\<not> webhook_verified c k w q" "a = Rejected"
    "s' = s\<lparr>next_id := next_id s + 1, webhook_rows := row_put wh_id \<lparr>wh_id = next_id s, wh_tenant = None,
       wh_provider = ''selcom_collection'', wh_verified = False, wh_processed = True\<rparr>
       (webhook_rows s @ [\<lparr>wh_id = next_id s, wh_tenant = None, wh_provider = ''selcom_collection'',
          wh_verified = False, wh_processed = False\<rparr>])\<rparr>"
  | c where "collection_config_from_settings cfg s = (Inr c, s)" "webhook_verified c k w q"
    "a \<in> {MalformedBody, UnknownReference}" "\<exists>rows. s' = s\<lparr>next_id := next_id s + 1, webhook_rows := rows\<rparr>"
  | c x t' x' rows lg u v rows' where
    "collection_config_from_settings cfg s = (Inr c, s)" "webhook_verified c k w q" "a = Acknowledged"
    "x \<in> set (transactions s)" "wr_order_id q = Some (Some (tx_reference x))" "tx_type x = Some t'"
    "u = s\<lparr>next_id := next_id s + 1, webhook_rows := rows, audit_logs := lg\<rparr>"
    "query_and_apply (flow_of w t') w cfg x None u = (Inr x', v)" "s' = v\<lparr>webhook_rows := rows'\<rparr>"
proof -
  have cfg: "s0 = s" if "collection_config_from_settings cfg s = (Inr c, s0)" for c s0
    using that by (auto simp: collection_config_from_settings_def run_simps split: option.splits)
  from assms obtain c where c: "collection_config_from_settings cfg s = (Inr c, s)"
    unfolding process_webhook_def bnd_Inr using cfg by blast
  note run = assms [unfolded process_webhook_def bnd_run [where m = "collection_config_from_settings cfg", OF c]]
  show thesis
  proof (cases "webhook_verified c k w q")
    case False
    with run have "a = Rejected" "s' = s\<lparr>next_id := next_id s + 1, webhook_rows := row_put wh_id
       \<lparr>wh_id = next_id s, wh_tenant = None, wh_provider = ''selcom_collection'', wh_verified = False,
        wh_processed = True\<rparr> (webhook_rows s @ [\<lparr>wh_id = next_id s, wh_tenant = None,
          wh_provider = ''selcom_collection'', wh_verified = False, wh_processed = False\<rparr>])\<rparr>"
      by (simp_all add: Let_def bnd_def thn_def fresh_def modify_def ret_def)
    with c False that(1) show thesis by blast
  next
    case True
    note run = run [unfolded Let_def, simplified True]
    show thesis
    proof (cases "\<exists>order. wr_order_id q = Some (Some order) \<and> order \<noteq> []")
      case False
      then consider "wr_order_id q = None" | order where "wr_order_id q = Some order" "\<not> truthy order"
        by (cases "wr_order_id q") (auto simp: truthy_def)
      then have "a = MalformedBody \<and> (\<exists>rows. s' = s\<lparr>next_id := next_id s + 1, webhook_rows := rows\<rparr>)"
        using run by cases (auto simp add: bnd_def thn_def fresh_def modify_def ret_def raise_def)
      with c True that(2) show thesis by blast
    next
      case named: True
      then obtain order where order: "wr_order_id q = Some (Some order)" "truthy (Some order)"
        by (auto simp: truthy_def neq_Nil_conv)
      show thesis
      proof (cases "find (\<lambda>x. tx_reference x = order) (transactions s)")
        case None
        with run order have "a = UnknownReference \<and> (\<exists>rows. s' = s\<lparr>next_id := next_id s + 1, webhook_rows := rows\<rparr>)"
          by (auto simp add: bnd_def thn_def fresh_def modify_def gets_def ret_def)
        with c True that(2) show thesis by blast
      next
        case (Some x)
        then have x: "x \<in> set (transactions s)" "tx_reference x = order" by (auto dest: find_SomeD)
        let ?row = "\<lparr>wh_id = next_id s, wh_tenant = None, wh_provider = ''selcom_collection'',
          wh_verified = True, wh_processed = False\<rparr>"
        let ?s1 = "s\<lparr>next_id := next_id s + 1, webhook_rows := row_put wh_id (?row\<lparr>wh_tenant := Some (tx_tenant x)\<rparr>)
          (webhook_rows s @ [?row])\<rparr>"
        from run order Some have "bnd (provider_for (flow_of w) (flow_of w t) x) (\<lambda>target.
            thn (write_audit_log w (Some (tx_tenant x)) None
              (audit_namespace (sp_flow target) @ ''.webhook_received'') (Some ''transaction'') (Some (tx_id x)) [])
            (bnd (query_and_apply target w cfg x None) (\<lambda>_.
             thn (modify (\<lambda>s. s\<lparr>webhook_rows := row_put wh_id (?row\<lparr>wh_tenant := Some (tx_tenant x),
               wh_processed := True\<rparr>) (webhook_rows s)\<rparr>)) (ret Acknowledged)))) ?s1 = (Inr a, s')"
          by (simp add: bnd_def thn_def fresh_def modify_def gets_def ret_def del: append.simps)
        then obtain q' s2 lg x' v where q': "provider_for (flow_of w) (flow_of w t) x ?s1 = (Inr q', s2)"
          and rest: "query_and_apply q' w cfg x None (s2\<lparr>audit_logs := lg\<rparr>) = (Inr x', v)" "a = Acknowledged"
            "\<exists>rows. s' = v\<lparr>webhook_rows := rows\<rparr>"
          unfolding bnd_Inr thn_Inr write_audit_log_run modify_run ret_run by blast
        from provider_for_flow [OF q'] obtain t' where "s2 = ?s1" "tx_type x = Some t'" "q' = flow_of w t'"
          by blast
        with rest that(3) [OF c True rest(2) x(1)] order x(2) show thesis by auto
      qed
    qed
  qed
qed

lemma webhook_change:
  assumes run: "process_webhook (flow_of w) (flow_of w t) w k cfg q s = (Inr a, s')" and ok: "payments_sound s"
  shows "payment_change s s'"
  using run
proof (cases rule: webhook_shape)
  case (1 c)
  then show ?thesis by (intro alike_change) (simp add: alike_def booked_def)
next
  case (2 c)
  then show ?thesis by (intro alike_change) (auto simp: alike_def booked_def)
next
  case (3 c x t' x' rows lg u v rows')
  have su: "alike s u" using 3 by (simp add: alike_def booked_def)
  then have "payments_sound u" using ok alike_change payments_sound_change by blast
  moreover have "x \<in> set (transactions u)" using 3 by simp
  ultimately have "payment_change u v" using 3 by (blast intro: query_change)
  with su show ?thesis by (rule change_alike) (simp add: 3 alike_def booked_def)
qed

text \<open>A new row is inserted under a fresh identifier, and ends FAILED or STK_SENT.\<close>

lemma push_change:
  assumes run: "create_order_and_send_stk flow w cfg x actor n e m a u = (Inr x', s')"
    and u: "transactions u = transactions s @ [x]" "booked u = booked s" "tx_id x < next_id u"
    and new: "next_id s \<le> tx_id x" and stored: "numeric_14_2 (tx_amount x) = Some (tx_amount x)"
    and act: "activation_status x = None" and ok: "payments_sound s"
  shows "payment_change s s'" "transactions s' = transactions s @ [x']" "payment_key x' = payment_key x"
    "tx_status x' \<in> {C_FAILED, C_STK_SENT}" "activation_status x' = None"
    "captive_sessions s' = captive_sessions u" "customers s' = customers u" "subscriptions s' = subscriptions u"
proof -
  obtain st k calls v where st: "st \<in> {C_FAILED, C_STK_SENT}"
    and v: "v = u\<lparr>next_id := next_id u + k, provider_calls :=
      provider_calls u @ CreateOrder (tx_reference x) e n m a # calls\<rparr>"
    and adv: "advances flow w x st v x' s'"
    using run by (rule send_effect)
  note a = advancesD [OF adv]
  have id: "tx_id x' = tx_id x" "tx_amount x' = tx_amount x" using a(1) by (auto simp: payment_key_eq)
  have fresh: "tx_id x \<notin> tx_id ` set (transactions s)"
    using ok new by (auto simp: payments_sound_def payment_ok_def)
  show rows: "transactions s' = transactions s @ [x']"
    using a(5) row_put_last [of tx_id x' x "transactions s"] id fresh by (simp add: v u)
  show "payment_key x' = payment_key x" "tx_status x' \<in> {C_FAILED, C_STK_SENT}" "activation_status x' = None"
    using a st act by simp_all
  show "captive_sessions s' = captive_sessions u" "customers s' = customers u" "subscriptions s' = subscriptions u"
    using a(4) v by auto
  have "booked s' = booked s" using a(11) u(2) by (simp add: v booked_def)
  with a st act rows id new u(3) stored show "payment_change s s'"
    by (intro payment_change.added [of _ _ x']) (auto simp: v)
qed

lemma numeric_14_2_idem: "numeric_14_2 v = Some y \<Longrightarrow> numeric_14_2 y = Some y"
  by (auto simp: numeric_14_2_def numeric_column_def Let_def split: if_splits)

lemma initiate_collection_change:
  assumes run: "initiate_collection w cfg t actor amount cur ph c s = (Inr x', s')" and ok: "payments_sound s"
  shows "payment_change s s'" "transactions s' = transactions s @ [x']" "tx_captive_session x' = None"
    "tx_status x' \<in> {C_FAILED, C_STK_SENT}" "captive_sessions s' = captive_sessions s"
    "tx_tenant x' = t \<and> tx_customer x' = c \<and> tx_subscription x' = None \<and> tx_currency x' = ''TZS'' \<and>
     tx_type x' = Some TT_COLLECTION \<and> (\<exists>m. payer_phone x' = Some m \<and> normalize_tz_phone m = Some m) \<and>
     (\<forall>i. c = Some i \<longrightarrow> (\<exists>y \<in> set (customers s'). cu_id y = i \<and> cu_tenant y = t))"
    "customers s' = customers s" "subscriptions s' = subscriptions s"
proof -
  have gates: "s0 = s" if "collection_gates cfg t amount cur ph c s = (Inr r, s0)" for r s0
    using that by (auto simp: collection_gates_def run_simps split: option.splits)
  have passed: "cur = ''TZS''" "normalize_tz_phone m = Some m"
    "\<forall>i. c = Some i \<longrightarrow> (\<exists>y \<in> set (customers s). cu_id y = i \<and> cu_tenant y = t)"
    if "collection_gates cfg t amount cur ph c s = (Inr (m, q), s0)" for m q s0
    using that by (auto simp: collection_gates_def run_simps get_by_id_Some split: option.splits
        dest: normalize_idempotent) (blast dest: row_find_Some)
  from run obtain r s0 where "collection_gates cfg t amount cur ph c s = (Inr r, s0)"
    unfolding initiate_collection_def bnd_Inr by blast
  then obtain m q where gate: "collection_gates cfg t amount cur ph c s = (Inr (m, q), s)"
    using gates by (cases r) blast
  note rest = run [unfolded initiate_collection_def bnd_run [where m = "collection_gates cfg t amount cur ph c", OF gate]
    prod.case]
  from rest obtain stored lg where stored: "numeric_14_2 amount = Some stored"
    and send: "create_order_and_send_stk COLLECTION_FLOW w cfg
      ((new_transaction COLLECTION_FLOW w (next_id s + 1) t (reference_prefix COLLECTION_FLOW @ id_text (next_id s))
        stored cur m)\<lparr>tx_customer := c\<rparr>) (Some actor) (buyer_name q m) (buyer_email q m) m amount
      (s\<lparr>next_id := next_id s + 2, transactions := transactions s @ [(new_transaction COLLECTION_FLOW w
        (next_id s + 1) t (reference_prefix COLLECTION_FLOW @ id_text (next_id s)) stored cur m)
        \<lparr>tx_customer := c\<rparr>], audit_logs := lg\<rparr>) = (Inr x', s')"
    by (auto simp: run_simps new_reference_def insert_transaction_def simp del: append.simps)
  have "payment_change s s' \<and> transactions s' = transactions s @ [x'] \<and> tx_captive_session x' = None \<and>
    tx_status x' \<in> {C_FAILED, C_STK_SENT} \<and> captive_sessions s' = captive_sessions s \<and>
    tx_tenant x' = t \<and> tx_customer x' = c \<and> tx_subscription x' = None \<and> tx_currency x' = cur \<and>
    tx_type x' = Some TT_COLLECTION \<and> payer_phone x' = Some m \<and>
    customers s' = customers s \<and> subscriptions s' = subscriptions s"
    using push_change [OF send, of s] numeric_14_2_idem [OF stored] ok
    by (simp add: new_transaction_def booked_def payment_key_eq COLLECTION_FLOW_def)
  with passed [OF gate] show "tx_tenant x' = t \<and> tx_customer x' = c \<and> tx_subscription x' = None \<and> tx_currency x' = ''TZS'' \<and>
     tx_type x' = Some TT_COLLECTION \<and> (\<exists>m. payer_phone x' = Some m \<and> normalize_tz_phone m = Some m) \<and>
     (\<forall>i. c = Some i \<longrightarrow> (\<exists>y \<in> set (customers s'). cu_id y = i \<and> cu_tenant y = t))"
    "payment_change s s'" "transactions s' = transactions s @ [x']" "tx_captive_session x' = None"
    "tx_status x' \<in> {C_FAILED, C_STK_SENT}" "captive_sessions s' = captive_sessions s"
    "customers s' = customers s" "subscriptions s' = subscriptions s" by auto
qed

lemma get_or_create_shape:
  assumes "get_or_create_by_phone w t phone s = (Inr c, s')"
  obtains m n cs lg where "normalize_tz_phone phone = Some m" "cu_tenant c = t" "cu_phone c = m"
    "s' = s\<lparr>next_id := next_id s + n, customers := cs, audit_logs := lg\<rparr>" "c \<in> set cs"
    "set (customers s) \<subseteq> set cs" "cs = customers s \<or> cs = customers s @ [c] \<and> next_id s \<le> cu_id c \<and> cu_id c < next_id s'"
proof -
  from assms obtain m where m: "normalize_tz_phone phone = Some m"
    and run: "(case customer_by_phone t m s of Some c \<Rightarrow> ret c
     | None \<Rightarrow> bnd fresh (\<lambda>number. bnd fresh (\<lambda>i.
         bnd (insert_customer \<lparr>cu_id = i, cu_tenant = t, cu_number = number, cu_first_name = None,
                cu_last_name = None, cu_phone = m, cu_email = None, cu_username = None, cu_notes = None\<rparr>) (\<lambda>c.
         thn (write_audit_log w (Some t) None ''customer.self_registered'' (Some ''customer'') (Some i) [])
           (ret c))))) s = (Inr c, s')"
    by (auto simp: get_or_create_by_phone_def bnd_Inr)
  show thesis
  proof (cases "customer_by_phone t m s")
    case None
    show thesis
      by (rule that [OF m, where n = 2 and cs = "customers s @ [c]"])
        (use run None in \<open>auto simp: run_simps insert_customer_def simp del: append.simps\<close>)
  next
    case (Some c')
    then have "c = c'" "s' = s" using run by auto
    moreover have "c' \<in> set (customers s) \<and> cu_tenant c' = t \<and> cu_phone c' = m"
      using Some unfolding customer_by_phone_def by (rule find_SomeD)
    ultimately show thesis
      by (intro that [OF m, where n = 0 and cs = "customers s" and lg = "audit_logs s"]) auto
  qed
qed

lemma awaiting_shape:
  assumes "create_awaiting_payment w t c p s = (Inr x, s')"
  obtains q lg where "find_package t p s = Some q" "pk_status q = P_ACTIVE" "find_customer t c s \<noteq> None"
    "x = \<lparr>sub_id = next_id s, sub_tenant = t, sub_customer = c, sub_package = pk_id q, sub_voucher = None,
       sub_status = Sub_PENDING, sub_activated_at = None, sub_expires_at = None\<rparr>"
    "s' = s\<lparr>next_id := next_id s + 1, subscriptions := subscriptions s @ [x], audit_logs := lg\<rparr>"
  using assms
  by (auto simp: create_awaiting_payment_def subscription_gates_def run_simps simp del: append.simps)

text \<open>A captive attempt up to the push: the row, its customer and subscription, the session spent.\<close>

lemma open_attempt_shape:
  assumes "open_attempt w session p m s = (Inr (c, t), u)" "normalize_tz_phone m = Some m"
  obtains x i amount reference cs lg where
    "cu_tenant c = cs_tenant session" "cu_phone c = m" "c \<in> set cs" "set (customers s) \<subseteq> set cs"
    "sub_tenant x = cs_tenant session" "sub_customer x = cu_id c" "sub_status x = Sub_PENDING"
    "sub_package x = pk_id p" "next_id s \<le> sub_id x" "sub_id x < i"
    "numeric_14_2 (price_tzs p) = Some amount" "next_id s \<le> i"
    "t = captive_transaction w i session p c x reference amount m"
    "u = s\<lparr>next_id := i + 1, customers := cs, subscriptions := subscriptions s @ [x],
       transactions := transactions s @ [t],
       captive_sessions := row_put cs_id (session\<lparr>consumed_at := Some (now w)\<rparr>) (captive_sessions s),
       audit_logs := lg\<rparr>"
proof -
  from assms(1) obtain c' s1 x s2 amount i reference lg where
    c: "get_or_create_by_phone w (cs_tenant session) m s = (Inr c', s1)"
    and x: "create_awaiting_payment w (cs_tenant session) (cu_id c') (pk_id p) s1 = (Inr x, s2)"
    and amount: "numeric_14_2 (price_tzs p) = Some amount" and i: "i = next_id s2 + 1"
    and c': "c' = c" and t: "t = captive_transaction w i session p c x reference amount m"
    and u: "u = s2\<lparr>next_id := i + 1, transactions := transactions s2 @ [t],
       captive_sessions := row_put cs_id (session\<lparr>consumed_at := Some (now w)\<rparr>) (captive_sessions s2),
       audit_logs := lg\<rparr>"
    by (auto simp: open_attempt_def bnd_Inr thn_Inr new_reference_def insert_transaction_def
        consume_session_def write_audit_log_run simp del: append.simps)
  from c obtain m' n cs lg1 where m: "normalize_tz_phone m = Some m'" and tenant: "cu_tenant c' = cs_tenant session"
    and phone: "cu_phone c' = m'" and s1: "s1 = s\<lparr>next_id := next_id s + n, customers := cs, audit_logs := lg1\<rparr>"
    and cs: "c' \<in> set cs" "set (customers s) \<subseteq> set cs"
    by (rule get_or_create_shape)
  from x obtain q :: package and lg2 where q: "find_package (cs_tenant session) (pk_id p) s1 = Some q" and x0: "x = \<lparr>sub_id = next_id s1, sub_tenant = cs_tenant session,
      sub_customer = cu_id c', sub_package = pk_id q, sub_voucher = None, sub_status = Sub_PENDING,
      sub_activated_at = None, sub_expires_at = None\<rparr>"
    and s2: "s2 = s1\<lparr>next_id := next_id s1 + 1, subscriptions := subscriptions s1 @ [x], audit_logs := lg2\<rparr>"
    by (rule awaiting_shape)
  have u': "u = s\<lparr>next_id := i + 1, customers := cs, subscriptions := subscriptions s @ [x],
       transactions := transactions s @ [t],
       captive_sessions := row_put cs_id (session\<lparr>consumed_at := Some (now w)\<rparr>) (captive_sessions s),
       audit_logs := lg\<rparr>"
    by (simp add: u s2 s1)
  have "pk_id q = pk_id p" using q by (auto simp: find_package_def get_by_id_Some dest: row_find_Some)
  then show thesis
    by (intro that [OF _ _ _ cs(2) _ _ _ _ _ _ amount _ t u'])
      (use tenant phone cs(1) m assms(2) in \<open>simp_all add: c' x0 i s2 s1\<close>)
qed

lemma resolve_session_Inr:
  "resolve_session w cfg token s = (Inr x, s') \<longleftrightarrow> s' = s \<and>
     (\<exists>i. resolve_intent_token w cfg token = Some i \<and> row_find cs_id i (captive_sessions s) = Some x \<and>
        consumed_at x = None \<and> now w < cs_expires_at x)"
  by (auto simp: resolve_session_def Let_def run_simps)

lemma resolve_session_Inl:
  "resolve_session w cfg token s = (Inl e, s') \<Longrightarrow>
     e = CaptiveSessionError ''Invalid or expired captive session'' \<and> s' = s"
  by (auto simp: resolve_session_def Let_def run_simps)

lemma session_refused:
  "except (resolve_session w cfg token) (\<lambda>e. case e of
       CaptiveSessionError _ \<Rightarrow> raise (DomainValidationError msg) | _ \<Rightarrow> raise e) s = (Inr x, s') \<longleftrightarrow>
   resolve_session w cfg token s = (Inr x, s')"
proof (cases "resolve_session w cfg token s")
  case (Pair r u)
  show ?thesis
  proof (cases r)
    case (Inl e)
    with Pair resolve_session_Inl [of w cfg token s e u] show ?thesis by (simp add: except_def)
  next
    case (Inr y)
    with Pair show ?thesis by (simp add: except_def)
  qed
qed

lemma captive_context_Inr:
  "captive_context w cfg token pk ph s = (Inr (session, p, m), s') \<longleftrightarrow> s' = s \<and>
     (\<exists>i. resolve_intent_token w cfg token = Some i \<and> row_find cs_id i (captive_sessions s) = Some session) \<and>
     consumed_at session = None \<and> now w < cs_expires_at session \<and>
     find_package (cs_tenant session) pk s = Some p \<and> pk_status p = P_ACTIVE \<and>
     normalize_tz_phone ph = Some m"
proof -
  have owner: "find_package t pk s = Some q \<Longrightarrow> pk_tenant q = t" for t q
    by (auto simp: find_package_def get_by_id_Some)
  show ?thesis
    unfolding captive_context_def bnd_Inr thn_Inr session_refused resolve_session_Inr gets_run require_Inr
      guard_Inr ret_run validate_package_ownership_def
    using owner by (intro iffI; elim exE conjE; (intro conjI exI)?) (assumption | blast)+
qed

lemma hit_run:
  "hit w key limit window s =
     (let n = counter_value s key + 1 in
      if redis_reachable w
      then (Inr (int n \<le> limit),
        s\<lparr>counters := (counters s)(key := if n = 1 \<and> window \<le> 0 then None else Some n)\<rparr>)
      else (Inr True, s))"
  unfolding hit_def comp_defs Let_def
  by (cases "redis_reachable w"; cases "counter_value s key = 0"; cases "window \<le> 0") simp_all

lemma same_counters: "\<exists>cnt. s = s\<lparr>counters := cnt\<rparr>"
  by (rule exI [of _ "counters s"]) simp

lemma hit_state: "\<exists>b cnt. hit w key limit window s = (Inr b, s\<lparr>counters := cnt\<rparr>)"
proof (cases "redis_reachable w")
  case True
  then show ?thesis by (simp add: hit_run Let_def) blast
next
  case False
  then show ?thesis using same_counters [of s] by (simp add: hit_run) blast
qed

lemma check_dimensions_state:
  "check_dimensions w window dims s = (r, s') \<Longrightarrow> \<exists>cnt. s' = s\<lparr>counters := cnt\<rparr>"
proof (induction w window dims arbitrary: s rule: check_dimensions.induct)
  case (1 w window)
  then have "s' = s" by simp
  then show ?case using same_counters [of s] by blast
next
  case (2 w window dimension key limit rest)
  show ?case
  proof (cases "limit \<le> 0")
    case True
    with 2 show ?thesis by simp
  next
    case False
    obtain b cnt where hit: "hit w key limit window s = (Inr b, s\<lparr>counters := cnt\<rparr>)"
      using hit_state by blast
    show ?thesis
    proof (cases b)
      case True
      with 2(3) False hit have "check_dimensions w window rest (s\<lparr>counters := cnt\<rparr>) = (r, s')" by simp
      from 2(2) [OF False True this] show ?thesis by auto
    next
      case b: False
      with 2(3) False hit show ?thesis by auto
    qed
  qed
qed

lemma check_rate_state: "check_rate w cfg i ph r s = (q, s') \<Longrightarrow> \<exists>cnt. s' = s\<lparr>counters := cnt\<rparr>"
  unfolding check_rate_def Let_def by (rule check_dimensions_state)

text \<open>What an accepted request for a captive payment came to.\<close>

lemma initiate_payment_shape:
  assumes "initiate_payment w cfg token pk ph s = (Inr r, s')"
  obtains "\<not> (selcom_collection_enabled cfg \<and> selcom_collection_production_enabled cfg)" "s' = s"
    "ir_status r = ''unavailable''"
  | cnt lg where "s' = s\<lparr>counters := cnt, audit_logs := lg\<rparr>"
    "ir_status r = ''rate_limited'' \<or> ir_status r = ''duplicate''"
  | session p m cnt u c t t' where "selcom_collection_enabled cfg" "selcom_collection_production_enabled cfg"
    "captive_context w cfg token pk ph s = (Inr (session, p, m), s)" "normalize_tz_phone m = Some m"
    "check_rate w cfg (cs_id session) m (cs_router session) s = (Inr None, s\<lparr>counters := cnt\<rparr>)"
    "find_active_captive_attempt (cs_id session) (pk_id p) m s = None"
    "open_attempt w session p m (s\<lparr>counters := cnt\<rparr>) = (Inr (c, t), u)"
    "create_order_and_send_stk CAPTIVE_PORTAL_SELCOM_FLOW w cfg t None (buyer_name (Some c) m)
       (buyer_email (Some c) m) m (price_tzs p) u = (Inr t', s')"
    "r = \<lparr>ir_status = (if tx_status t' = C_STK_SENT then ''pending'' else ''failed''),
       ir_transaction = Some (tx_id t'), ir_amount = Some (price_tzs p), ir_currency = Some ''TZS''\<rparr>"
proof (cases "selcom_collection_enabled cfg \<and> selcom_collection_production_enabled cfg")
  case False
  with assms that(1) show thesis by (auto simp: initiate_payment_def Let_def)
next
  case True
  with assms obtain session p m s0 d s1 where ctx: "captive_context w cfg token pk ph s = (Inr (session, p, m), s0)"
    and rate: "check_rate w cfg (cs_id session) m (cs_router session) s0 = (Inr d, s1)"
    and rest: "(case d of
          Some dimension \<Rightarrow>
            thn (write_audit_log w (Some (cs_tenant session)) None ''captive_portal.rate_limited''
                   (Some ''captive_session'') (Some (cs_id session)) [(''dimension'', MStr dimension)])
              (ret \<lparr>ir_status = ''rate_limited'', ir_transaction = None, ir_amount = None, ir_currency = None\<rparr>)
        | None \<Rightarrow>
            bnd (gets (find_active_captive_attempt (cs_id session) (pk_id p) m)) (\<lambda>existing.
            case existing of
              Some t \<Rightarrow>
                thn (write_audit_log w (Some (cs_tenant session)) None
                       ''captive_portal.duplicate_attempt_suppressed'' (Some ''transaction'')
                       (Some (tx_id t)) [(''captive_session_id'', MId (cs_id session))])
                  (ret \<lparr>ir_status = ''duplicate'', ir_transaction = Some (tx_id t),
                     ir_amount = Some (price_tzs p), ir_currency = Some ''TZS''\<rparr>)
            | None \<Rightarrow> start_attempt w cfg session p m)) s1 = (Inr r, s')"
    unfolding initiate_payment_def Let_def bnd_Inr by (auto simp: bnd_Inr split: prod.splits)
  from ctx have s0: "s0 = s" and norm: "normalize_tz_phone m = Some m"
    by (auto simp: captive_context_Inr dest: normalize_idempotent)
  from check_rate_state [OF rate] obtain cnt where s1: "s1 = s\<lparr>counters := cnt\<rparr>" by (auto simp: s0)
  show thesis
  proof (cases d)
    case (Some dimension)
    with rest have "\<exists>lg. s' = s1\<lparr>audit_logs := lg\<rparr>" "ir_status r = ''rate_limited''"
      by (auto simp: thn_Inr write_audit_log_run)
    then show thesis using that(2) by (auto simp: s1)
  next
    case None
    show thesis
    proof (cases "find_active_captive_attempt (cs_id session) (pk_id p) m s")
      case (Some t)
      then have "find_active_captive_attempt (cs_id session) (pk_id p) m s1 = Some t"
        by (simp add: s1 find_active_captive_attempt_def)
      with rest None have "\<exists>lg. s' = s1\<lparr>audit_logs := lg\<rparr>" "ir_status r = ''duplicate''"
        by (auto simp: thn_Inr bnd_Inr write_audit_log_run)
      then show thesis using that(2) by (auto simp: s1)
    next
      case none: None
      then have "find_active_captive_attempt (cs_id session) (pk_id p) m s1 = None"
        by (simp add: s1 find_active_captive_attempt_def)
      with rest None have "start_attempt w cfg session p m s1 = (Inr r, s')" by (simp add: bnd_Inr)
      then obtain c t u t' where open_run: "open_attempt w session p m s1 = (Inr (c, t), u)"
        and send: "create_order_and_send_stk CAPTIVE_PORTAL_SELCOM_FLOW w cfg t None (buyer_name (Some c) m)
           (buyer_email (Some c) m) m (price_tzs p) u = (Inr t', s')"
        and r: "r = \<lparr>ir_status = (if tx_status t' = C_STK_SENT then ''pending'' else ''failed''),
           ir_transaction = Some (tx_id t'), ir_amount = Some (price_tzs p), ir_currency = Some ''TZS''\<rparr>"
        unfolding start_attempt_def bnd_Inr by (auto simp: bnd_Inr)
      show thesis
        by (rule that(3) [OF _ _ ctx [unfolded s0] norm rate [unfolded s0 s1 None] none
              open_run [unfolded s1] send r]) (use True in auto)
    qed
  qed
qed

text \<open>An attempt as a whole: one new payment of the session's tenant at the package's price.\<close>

lemma attempt_effect:
  assumes open_run: "open_attempt w session p m s = (Inr (c, t), u)" and norm: "normalize_tz_phone m = Some m"
    and send: "create_order_and_send_stk CAPTIVE_PORTAL_SELCOM_FLOW w cfg t None (buyer_name (Some c) m)
       (buyer_email (Some c) m) m (price_tzs p) u = (Inr t', s')"
    and ok: "payments_sound s"
  shows "payment_change s s'" "transactions s' = transactions s @ [t']" "payment_key t' = payment_key t"
    "tx_status t' \<in> {C_FAILED, C_STK_SENT}" "activation_status t' = None"
    "tx_captive_session t' = Some (cs_id session)" "tx_tenant t' = cs_tenant session"
    "numeric_14_2 (price_tzs p) = Some (tx_amount t')" "payer_phone t' = Some m" "tx_package t' = Some (pk_id p)"
    "captive_sessions s' = row_put cs_id (session\<lparr>consumed_at := Some (now w)\<rparr>) (captive_sessions s)"
    "tx_currency t' = ''TZS'' \<and> tx_type t' = Some TT_CAPTIVE_PORTAL \<and>
     (\<exists>y sub. tx_customer t' = Some (cu_id y) \<and> y \<in> set (customers s') \<and> cu_tenant y = cs_tenant session \<and>
        tx_subscription t' = Some (sub_id sub) \<and> subscriptions s' = subscriptions s @ [sub] \<and>
        next_id s \<le> sub_id sub \<and> sub_id sub < next_id s' \<and> sub_tenant sub = cs_tenant session \<and>
        sub_customer sub = cu_id y \<and> tx_package t' = Some (sub_package sub))"
    "set (customers s) \<subseteq> set (customers s')"
proof -
  from open_attempt_shape [OF open_run norm] obtain x i amount reference cs lg where
    cust: "cu_tenant c = cs_tenant session" "c \<in> set cs" "set (customers s) \<subseteq> set cs"
    and sub: "sub_tenant x = cs_tenant session" "sub_customer x = cu_id c" "sub_package x = pk_id p"
      "next_id s \<le> sub_id x" "sub_id x < i" and amount: "numeric_14_2 (price_tzs p) = Some amount" and i: "next_id s \<le> i"
    and t: "t = captive_transaction w i session p c x reference amount m"
    and u: "u = s\<lparr>next_id := i + 1, customers := cs, subscriptions := subscriptions s @ [x],
       transactions := transactions s @ [t],
       captive_sessions := row_put cs_id (session\<lparr>consumed_at := Some (now w)\<rparr>) (captive_sessions s),
       audit_logs := lg\<rparr>" by metis
  have tf: "tx_id t = i" "tx_amount t = amount" "activation_status t = None"
    "tx_captive_session t = Some (cs_id session)" "tx_tenant t = cs_tenant session" "payer_phone t = Some m"
    "tx_package t = Some (pk_id p)"
    by (simp_all add: t captive_transaction_def new_transaction_def)
  have "transactions u = transactions s @ [t]" "booked u = booked s" "tx_id t < next_id u" "next_id s \<le> tx_id t"
    "numeric_14_2 (tx_amount t) = Some (tx_amount t)"
    using i numeric_14_2_idem [OF amount] tf(1,2) by (simp_all add: u booked_def)
  note pushed = push_change [OF send this tf(3) ok]
  show "payment_change s s'" "transactions s' = transactions s @ [t']" "payment_key t' = payment_key t"
    "tx_status t' \<in> {C_FAILED, C_STK_SENT}" "activation_status t' = None"
    by (fact pushed)+
  show "tx_captive_session t' = Some (cs_id session)" "tx_tenant t' = cs_tenant session"
    "numeric_14_2 (price_tzs p) = Some (tx_amount t')" "payer_phone t' = Some m" "tx_package t' = Some (pk_id p)"
    using pushed(3) tf amount by (auto simp: payment_key_eq)
  show "captive_sessions s' = row_put cs_id (session\<lparr>consumed_at := Some (now w)\<rparr>) (captive_sessions s)"
    using pushed(6) by (simp add: u)
  have grow: "next_id u \<le> next_id s'" using keepsD [OF ids_send send] by (simp add: ids_grow_def)
  have "tx_currency t = ''TZS'' \<and> tx_type t = Some TT_CAPTIVE_PORTAL \<and> tx_customer t = Some (cu_id c) \<and>
      tx_subscription t = Some (sub_id x)"
    by (simp add: t captive_transaction_def new_transaction_def CAPTIVE_PORTAL_SELCOM_FLOW_def)
  moreover have "customers s' = cs" "subscriptions s' = subscriptions s @ [x]" using pushed(7,8) by (simp_all add: u)
  moreover have "sub_id x < next_id s'" using sub(5) grow by (simp add: u)
  ultimately show "tx_currency t' = ''TZS'' \<and> tx_type t' = Some TT_CAPTIVE_PORTAL \<and>
     (\<exists>y sub. tx_customer t' = Some (cu_id y) \<and> y \<in> set (customers s') \<and> cu_tenant y = cs_tenant session \<and>
        tx_subscription t' = Some (sub_id sub) \<and> subscriptions s' = subscriptions s @ [sub] \<and>
        next_id s \<le> sub_id sub \<and> sub_id sub < next_id s' \<and> sub_tenant sub = cs_tenant session \<and>
        sub_customer sub = cu_id y \<and> tx_package t' = Some (sub_package sub))"
    "set (customers s) \<subseteq> set (customers s')"
    using pushed(3) tf(7) cust sub by (auto simp: payment_key_eq)
qed

lemma initiate_payment_change:
  assumes run: "initiate_payment w cfg token pk ph s = (Inr r, s')" and ok: "payments_sound s"
  shows "payment_change s s'"
  using run
proof (cases rule: initiate_payment_shape)
  case 1
  then show ?thesis by (intro alike_change) (simp add: alike_def)
next
  case (2 cnt lg)
  then show ?thesis by (intro alike_change) (simp add: alike_def booked_def)
next
  case (3 session p m cnt u c t t')
  have s0: "alike s (s\<lparr>counters := cnt\<rparr>)" by (simp add: alike_def booked_def)
  then have "payments_sound (s\<lparr>counters := cnt\<rparr>)" using ok alike_change payments_sound_change by blast
  from change_alike [OF s0 attempt_effect(1) [OF 3(7,4,8) this]] show ?thesis
    by (simp add: alike_def)
qed

subsection \<open>Activation\<close>

lemma paid_shape:
  assumes "activate_paid_subscription w x s = (Inr (x1, sub', c, p), s1)"
  obtains sub subs lg where "tx_subscription x = Some (sub_id sub)" "tx_customer x = Some (cu_id c)"
    "row_find sub_id (sub_id sub) (subscriptions s) = Some sub"
    "row_find cu_id (cu_id c) (customers s) = Some c" "row_find pk_id (sub_package sub) (packages s) = Some p"
    "sub_id sub' = sub_id sub" "sub_status sub' \<noteq> Sub_PENDING"
    "sub_status sub = Sub_PENDING \<and> sub' = sub\<lparr>sub_status := Sub_ACTIVE, sub_activated_at := Some (now w),
         sub_expires_at := expiry w p\<rparr> \<and> subs = row_put sub_id sub' (subscriptions s) \<or>
     sub' = sub \<and> subs = subscriptions s"
    "x1 = x\<lparr>activation_status := Some A_ACTIVATING\<rparr>"
    "s1 = s\<lparr>transactions := row_put tx_id x1 (transactions s), subscriptions := subs, audit_logs := lg\<rparr>"
proof -
  let ?s0 = "s\<lparr>transactions := row_put tx_id (x\<lparr>activation_status := Some A_ACTIVATING\<rparr>) (transactions s)\<rparr>"
  from assms obtain y z and sub :: subscription where "tx_subscription x = Some y" "tx_customer x = Some z"
      "row_find sub_id y (subscriptions s) = Some sub" "row_find cu_id z (customers s) = Some c"
      "row_find pk_id (sub_package sub) (packages s) = Some p"
    and x1: "x1 = x\<lparr>activation_status := Some A_ACTIVATING\<rparr>"
    and run: "(if sub_status sub = Sub_PENDING then activate_subscription w (tx_tenant x) None (sub_id sub)
      else ret sub) ?s0 = (Inr sub', s1)"
    unfolding activate_paid_subscription_def scalar_one_def bnd_Inr thn_Inr guard_Inr gets_run require_Inr ret_run
      update_transaction_run
    by auto
  moreover from this have "y = sub_id sub" "z = cu_id c" by (auto dest: row_find_Some)
  ultimately have sub: "tx_subscription x = Some (sub_id sub)" "tx_customer x = Some (cu_id c)"
      "row_find sub_id (sub_id sub) (subscriptions s) = Some sub"
      "row_find cu_id (cu_id c) (customers s) = Some c" "row_find pk_id (sub_package sub) (packages s) = Some p"
    by simp_all
  show thesis
  proof (cases "sub_status sub = Sub_PENDING")
    case True
    with run have "activate_subscription w (tx_tenant x) None (sub_id sub) ?s0 = (Inr sub', s1)" by simp
    then show thesis
    proof (rule activate_shape)
      fix y q lg
      assume "row_find sub_id (sub_id sub) (subscriptions ?s0) = Some y"
        and q: "find_package (tx_tenant x) (sub_package y) ?s0 = Some q"
        and sub': "sub' = y\<lparr>sub_status := Sub_ACTIVE, sub_activated_at := Some (now w),
          sub_expires_at := expiry w q\<rparr>"
        and s1: "s1 = ?s0\<lparr>subscriptions := row_put sub_id sub' (subscriptions ?s0), audit_logs := lg\<rparr>"
      then have y: "y = sub" using sub(3) by simp
      then have "q = p" using q sub(5) by (simp add: find_package_def get_by_id_Some)
      with True y sub' s1 show thesis
        by (intro that [OF sub _ _ _ x1, where subs = "row_put sub_id sub' (subscriptions s)" and lg = lg])
          (simp_all add: x1)
    qed
  next
    case False
    with run have "sub' = sub" "s1 = ?s0" by simp_all
    with False show thesis
      by (intro that [OF sub _ _ _ x1, where subs = "subscriptions s" and lg = "audit_logs s"])
        (simp_all add: x1)
  qed
qed

text \<open>What a successful activation found and what it left.\<close>

lemma activation_shape:
  assumes "activate w cfg i s = (Inr r, s')"
  obtains x where "r = A_ACTIVE" "row_find tx_id i (transactions s) = Some x" "tx_status x = C_COMPLETED"
    "activation_status x = Some A_ACTIVE" "s' = s"
  | x sub c p sub' subs lg tr where "r = A_ACTIVE" "row_find tx_id i (transactions s) = Some x"
    "tx_status x = C_COMPLETED" "activation_status x \<noteq> Some A_ACTIVE"
    "tx_subscription x = Some (sub_id sub)" "tx_customer x = Some (cu_id c)"
    "row_find sub_id (sub_id sub) (subscriptions s) = Some sub"
    "row_find cu_id (cu_id c) (customers s) = Some c" "row_find pk_id (sub_package sub) (packages s) = Some p"
    "sub_id sub' = sub_id sub" "sub_status sub' \<noteq> Sub_PENDING"
    "sub_status sub = Sub_PENDING \<and> sub' = sub\<lparr>sub_status := Sub_ACTIVE, sub_activated_at := Some (now w),
         sub_expires_at := expiry w p\<rparr> \<and> subs = row_put sub_id sub' (subscriptions s) \<or>
     sub' = sub \<and> subs = subscriptions s"
    "provision_access w cfg (cu_phone c) (pk_id p) (derive_radius_password w cfg (sub_id sub))
       (download_speed_kbps p) (upload_speed_kbps p)
       (case duration_minutes p of None \<Rightarrow> None | Some m \<Rightarrow> if m = 0 then None else Some (m * 60))
       (simultaneous_sessions p) s = (Inr tr, s\<lparr>radius := radius s'\<rparr>)"
    "s' = s\<lparr>transactions := row_put tx_id (x\<lparr>activation_status := Some A_ACTIVE, tx_activated_at := Some (now w)\<rparr>)
         (transactions s), subscriptions := subs, radius := radius s', audit_logs := lg\<rparr>"
proof -
  from assms obtain x where x: "row_find tx_id i (transactions s) = Some x" "tx_status x = C_COMPLETED"
    and rest: "(if activation_status x = Some A_ACTIVE then ret A_ACTIVE
      else
        bnd (activate_paid_subscription w x) (\<lambda>(x1, sub, c, p).
        bnd (except
               (provision_access w cfg (cu_phone c) (pk_id p) (derive_radius_password w cfg (sub_id sub))
                  (download_speed_kbps p) (upload_speed_kbps p)
                  (case duration_minutes p of None \<Rightarrow> None | Some m \<Rightarrow> if m = 0 then None else Some (m * 60))
                  (simultaneous_sessions p))
               (\<lambda>_. raise (ActivationFailedError ''RADIUS provisioning failed''))) (\<lambda>transport.
        bnd (update_transaction (\<lambda>x. x\<lparr>activation_status := Some A_ACTIVE,
               tx_activated_at := Some (now w)\<rparr>) x1) (\<lambda>x2.
        thn (write_audit_log w (Some (tx_tenant x2)) None ''captive_portal.access_activated''
               (Some ''transaction'') (Some (tx_id x2))
               [(''subscription_id'', MId (sub_id sub)), (''transport'', MStr transport)])
          (ret A_ACTIVE))))) s = (Inr r, s')"
    unfolding activate_def find_transaction_def bnd_Inr thn_Inr gets_run require_Inr guard_Inr
    by (auto simp: get_by_id_Some)
  show thesis
  proof (cases "activation_status x = Some A_ACTIVE")
    case True
    with rest x that(1) show thesis by simp
  next
    case False
    with rest obtain x1 sub' c p s1 where paid: "activate_paid_subscription w x s = (Inr (x1, sub', c, p), s1)"
      and more: "bnd (except
               (provision_access w cfg (cu_phone c) (pk_id p) (derive_radius_password w cfg (sub_id sub'))
                  (download_speed_kbps p) (upload_speed_kbps p)
                  (case duration_minutes p of None \<Rightarrow> None | Some m \<Rightarrow> if m = 0 then None else Some (m * 60))
                  (simultaneous_sessions p))
               (\<lambda>_. raise (ActivationFailedError ''RADIUS provisioning failed''))) (\<lambda>transport.
        bnd (update_transaction (\<lambda>x. x\<lparr>activation_status := Some A_ACTIVE,
               tx_activated_at := Some (now w)\<rparr>) x1) (\<lambda>x2.
        thn (write_audit_log w (Some (tx_tenant x2)) None ''captive_portal.access_activated''
               (Some ''transaction'') (Some (tx_id x2))
               [(''subscription_id'', MId (sub_id sub')), (''transport'', MStr transport)])
          (ret A_ACTIVE))) s1 = (Inr r, s')"
      by (auto simp: bnd_Inr)
    from paid obtain sub subs lg where sub: "tx_subscription x = Some (sub_id sub)" "tx_customer x = Some (cu_id c)"
        "row_find sub_id (sub_id sub) (subscriptions s) = Some sub"
        "row_find cu_id (cu_id c) (customers s) = Some c" "row_find pk_id (sub_package sub) (packages s) = Some p"
        "sub_id sub' = sub_id sub" "sub_status sub' \<noteq> Sub_PENDING"
        "sub_status sub = Sub_PENDING \<and> sub' = sub\<lparr>sub_status := Sub_ACTIVE, sub_activated_at := Some (now w),
         sub_expires_at := expiry w p\<rparr> \<and> subs = row_put sub_id sub' (subscriptions s) \<or>
         sub' = sub \<and> subs = subscriptions s"
      and x1: "x1 = x\<lparr>activation_status := Some A_ACTIVATING\<rparr>"
      and s1: "s1 = s\<lparr>transactions := row_put tx_id x1 (transactions s), subscriptions := subs, audit_logs := lg\<rparr>"
      by (rule paid_shape)
    from more obtain tr s2 where tr: "provision_access w cfg (cu_phone c) (pk_id p)
        (derive_radius_password w cfg (sub_id sub')) (download_speed_kbps p) (upload_speed_kbps p)
        (case duration_minutes p of None \<Rightarrow> None | Some m \<Rightarrow> if m = 0 then None else Some (m * 60))
        (simultaneous_sessions p) s1 = (Inr tr, s2)"
      and r: "r = A_ACTIVE" and s': "\<exists>lg. s' = s2\<lparr>transactions := row_put tx_id (x1\<lparr>activation_status := Some A_ACTIVE,
        tx_activated_at := Some (now w)\<rparr>) (transactions s2), audit_logs := lg\<rparr>"
      by (auto simp: bnd_Inr thn_Inr except_Inr write_audit_log_run simp del: append.simps)
    from tr have s2: "s2 = s1\<lparr>radius := radius s2\<rparr>" and "provision_access w cfg (cu_phone c) (pk_id p)
        (derive_radius_password w cfg (sub_id sub')) (download_speed_kbps p) (upload_speed_kbps p)
        (case duration_minutes p of None \<Rightarrow> None | Some m \<Rightarrow> if m = 0 then None else Some (m * 60))
        (simultaneous_sessions p) s = (Inr tr, s\<lparr>radius := radius s2\<rparr>)"
      unfolding provision_access_Inr by (auto simp: s1)
    moreover from s' obtain lg2 where s': "s' = s2\<lparr>transactions := row_put tx_id (x1\<lparr>activation_status := Some A_ACTIVE,
        tx_activated_at := Some (now w)\<rparr>) (transactions s2), audit_logs := lg2\<rparr>" by blast
    moreover have "radius s' = radius s2" by (simp add: s')
    moreover have "s' = s\<lparr>transactions := row_put tx_id (x\<lparr>activation_status := Some A_ACTIVE,
        tx_activated_at := Some (now w)\<rparr>) (transactions s), subscriptions := subs, radius := radius s2,
        audit_logs := lg2\<rparr>"
      unfolding s' by (subst (1 2) s2) (simp add: s1 x1 row_put_put)
    ultimately show thesis
      using that(2) [OF r x False sub, where lg = lg2 and tr = tr] sub(6) by metis
  qed
qed

end
