(* ===== verification/Payment_System.thy ===== *)
theory Payment_System
  imports Payment_Rules
begin

text \<open>
  The payment requests as steps of one system, and the properties of every state they reach: each
  payment is credited exactly once and only when it completed, and a captive session starts at
  most one attempt.
\<close>

subsection \<open>Identifiers, however a request ends\<close>

lemma keeps_provider:
  assumes "\<And>q. keeps R (f (flow_of w q))" "\<And>s. R s s"
  shows "keeps R (bnd (provider_for (flow_of w) (flow_of w t) x) f)"
proof (rule keepsI)
  fix s r s'
  assume run: "bnd (provider_for (flow_of w) (flow_of w t) x) f s = (r, s')"
  show "R s s'"
  proof (cases "\<exists>q. provider_for (flow_of w) (flow_of w t) x = ret (flow_of w q)")
    case True
    with run obtain q where "f (flow_of w q) s = (r, s')" by (auto simp: exec_simps)
    with assms(1) show ?thesis by (blast dest: keepsD)
  next
    case False
    then have "provider_for (flow_of w) (flow_of w t) x = raise SelcomPaymentFlowMismatchError"
      by (auto simp: provider_for_def split: option.splits if_splits)
    with run assms(2) show ?thesis by (simp add: bnd_def raise_def)
  qed
qed

lemma ids_payment_requests:
  "keeps ids_grow (reconcile_transaction (flow_of w) (flow_of w t) w cfg i)"
  "keeps ids_grow (process_webhook (flow_of w) (flow_of w t) w k cfg q)"
  "keeps ids_grow (issue_session w cfg router mac)"
  by (auto simp: reconcile_transaction_def process_webhook_def issue_session_def Let_def
      collection_config_from_settings_def split: option.split
      intro!: ids_rules ids_modify keeps_provider ids_query)

lemma ids_attempt: "keeps ids_grow (open_attempt w session p m)"
  by (auto simp: open_attempt_def get_or_create_by_phone_def insert_customer_def new_reference_def
      consume_session_def split: option.split
      intro!: ids_rules ids_modify voucher_ids ids_payment_rows)

lemma ids_rate: "keeps ids_grow (check_rate w cfg i m r)"
  by (rule keepsI) (auto simp: ids_grow_def dest!: check_rate_state)

lemma ids_initiate_payment: "keeps ids_grow (initiate_payment w cfg token pk ph)"
  by (auto simp: initiate_payment_def Let_def captive_context_def resolve_session_def start_attempt_def
      validate_package_ownership_def split: option.split err.split prod.split
      intro!: ids_rules ids_rate ids_attempt ids_send)

lemma ids_provision: "keeps ids_grow (provision_access w cfg u p a d up t n)"
  by (rule keepsI) (auto simp: ids_grow_def provision_access_result)

lemma ids_activate: "keeps ids_grow (activate w cfg i)" "keeps ids_grow (record_failure w i reason)"
  by (auto simp: activate_def record_failure_def find_transaction_def activate_paid_subscription_def
      scalar_one_def split: prod.split
      intro!: ids_rules ids_payment_rows voucher_ids ids_provision)

subsection \<open>Steps\<close>

text \<open>
  Every request of the payment components, each a database transaction of its own, with any input
  from outside; \<open>late_failure\<close> is the second transaction of \<^verbatim>\<open>run_activation\<close> running after other requests,
  and \<open>other\<close> any request of the remaining components.
\<close>

definition subs_sound :: "db \<Rightarrow> bool" where
  "subs_sound s \<longleftrightarrow> distinct (map sub_id (subscriptions s)) \<and> (\<forall>y \<in> set (subscriptions s). sub_id y < next_id s)"

definition sub_key :: "subscription \<Rightarrow> uuid \<times> uuid \<times> uuid \<times> uuid" where
  "sub_key y = (sub_id y, sub_tenant y, sub_customer y, sub_package y)"

text \<open>Customers and subscriptions are not removed, and keep their tenant, customer and package.\<close>

definition rows_stay :: "db \<Rightarrow> db \<Rightarrow> bool" where
  "rows_stay s s' \<longleftrightarrow> next_id s \<le> next_id s' \<and>
     (\<lambda>y. (cu_id y, cu_tenant y)) ` set (customers s) \<subseteq> (\<lambda>y. (cu_id y, cu_tenant y)) ` set (customers s') \<and>
     (subs_sound s \<longrightarrow> subs_sound s' \<and> sub_key ` set (subscriptions s) \<subseteq> sub_key ` set (subscriptions s'))"

definition elsewhere :: "db \<Rightarrow> db \<Rightarrow> bool" where
  "elsewhere s s' \<longleftrightarrow> alike s s' \<and> captive_sessions s' = captive_sessions s \<and> rows_stay s s'"

inductive payment_step :: "db \<Rightarrow> db \<Rightarrow> bool" where
  collection: "commit (initiate_collection w cfg t actor a cur ph c) s = (r1, s') \<Longrightarrow> payment_step s s'"
| new_session: "commit (issue_session w cfg router mac) s = (r2, s') \<Longrightarrow> payment_step s s'"
| purchase: "commit (initiate_payment w cfg token pk ph) s = (r3, s') \<Longrightarrow> payment_step s s'"
| reconciliation: "commit (reconcile_transaction (flow_of w) (flow_of w t) w cfg i) s = (r1, s') \<Longrightarrow>
    payment_step s s'"
| webhook: "commit (process_webhook (flow_of w) (flow_of w t) w k cfg q) s = (r4, s') \<Longrightarrow> payment_step s s'"
| activation: "run_activation w w' cfg i s = (r5, s') \<Longrightarrow> payment_step s s'"
| late_failure: "row_find tx_id i (transactions s) = Some x \<Longrightarrow> tx_status x = C_COMPLETED \<Longrightarrow>
    commit (record_failure w i reason) s = (r5, s') \<Longrightarrow> payment_step s s'"
| other: "elsewhere s s' \<Longrightarrow> payment_step s s'"

lemma rollback_elsewhere: "next_id s \<le> next_id u \<Longrightarrow> elsewhere s (rollback s u)"
  by (auto simp: elsewhere_def alike_def rollback_def booked_def rows_stay_def subs_sound_def)

lemma commit_change:
  assumes "commit m s = (r, s')" "keeps ids_grow m"
    and "\<And>x u. m s = (Inr x, u) \<Longrightarrow> payment_change s u"
  shows "payment_change s s'"
  using assms(1)
proof (cases rule: commit_cases)
  case (1 x)
  then show ?thesis using assms(3) by blast
next
  case (2 e u)
  with assms(2) have "next_id s \<le> next_id u" by (auto simp: ids_grow_def dest: keepsD)
  with 2 rollback_elsewhere show ?thesis by (auto simp: elsewhere_def intro: alike_change)
qed

text \<open>Marking a completed payment's access leaves the payment itself as it is.\<close>

lemma mark_change:
  assumes "row_find tx_id i (transactions s) = Some x" "tx_status x = C_COMPLETED"
    and "payment_key x' = payment_key x" "tx_status x' = tx_status x"
    and "transactions s' = row_put tx_id x' (transactions s)" "booked s' = booked s" "next_id s \<le> next_id s'"
  shows "payment_change s s'"
  using assms by (intro payment_change.moved [of x _ x']) (auto dest: row_find_Some)

lemma record_failure_change:
  assumes "record_failure w i reason s = (Inr r, s')" "row_find tx_id i (transactions s) = Some x"
    "tx_status x = C_COMPLETED"
  shows "payment_change s s'"
  using assms(2,3)
  by (rule mark_change [where x' = "x\<lparr>activation_status := Some A_FAILED\<rparr>"])
    (use assms in \<open>auto simp: record_failure_def find_transaction_def run_simps get_by_id_Some payment_key_def
      booked_def\<close>)

lemma activate_change:
  assumes "activate w cfg i s = (Inr r, s')"
  shows "payment_change s s'"
  using assms
proof (cases rule: activation_shape)
  case (1 x)
  then show ?thesis by (intro alike_change) (simp add: alike_def)
next
  case (2 x sub c p sub' subs lg tr)
  show ?thesis
    using 2(2,3)
    by (rule mark_change [where x' = "x\<lparr>activation_status := Some A_ACTIVE, tx_activated_at := Some (now w)\<rparr>"];
        (subst 2(14))?) (simp_all add: payment_key_def booked_def)
qed

text \<open>Only a completed payment gets as far as provisioning.\<close>

lemma activation_failed:
  assumes "activate w cfg i s = (Inl (ActivationFailedError reason), u)"
  shows "\<exists>x. row_find tx_id i (transactions s) = Some x \<and> tx_status x = C_COMPLETED \<and>
    activation_status x \<noteq> Some A_ACTIVE"
  using assms
  by (auto simp: activate_def find_transaction_def bnd_Inl bnd_Inr thn_Inl thn_Inr get_by_id_Some
      split: if_splits)

lemma run_activation_change:
  assumes "run_activation w w' cfg i s = (r, s')"
  shows "payment_change s s'"
proof (cases "activate w cfg i s")
  case (Pair q u)
  have grow: "next_id s \<le> next_id u" using keepsD [OF ids_activate(1) Pair] by (simp add: ids_grow_def)
  let ?s0 = "rollback s u"
  have s0: "alike s ?s0" using rollback_elsewhere [OF grow] by (simp add: elsewhere_def)
  show ?thesis
  proof (cases q)
    case (Inr a)
    with Pair assms show ?thesis using activate_change by (auto simp: run_activation_def)
  next
    case (Inl e)
    show ?thesis
    proof (cases "\<exists>reason. e = ActivationFailedError reason")
      case True
      then obtain reason where e: "e = ActivationFailedError reason" by blast
      with Pair Inl obtain x where x: "row_find tx_id i (transactions ?s0) = Some x" "tx_status x = C_COMPLETED"
        using activation_failed by (fastforce simp: rollback_def)
      have "commit (record_failure w' i reason) ?s0 = (r, s')"
        using assms Pair Inl e by (simp add: run_activation_def)
      then have "payment_change ?s0 s'"
        using ids_activate(2) by (rule commit_change) (rule record_failure_change [OF _ x])
      with s0 show ?thesis by (rule change_alike) (simp add: alike_def)
    next
      case False
      with assms Pair Inl have "s' = ?s0" by (auto simp: run_activation_def split: err.splits)
      with s0 show ?thesis by (simp add: alike_change)
    qed
  qed
qed

lemma issue_alike: "issue_session w cfg router mac s = (Inr x, s') \<Longrightarrow> alike s s'"
  by (auto simp: issue_session_def Let_def run_simps alike_def booked_def)

lemma step_change:
  assumes "payment_step s s'" "payments_sound s"
  shows "payment_change s s'"
  using assms(1)
proof (cases rule: payment_step.cases)
  case collection
  then show ?thesis using ids_initiate_collection assms(2)
    by (blast intro: commit_change initiate_collection_change(1))
next
  case new_session
  then show ?thesis using ids_payment_requests(3) by (blast intro: commit_change alike_change issue_alike)
next
  case purchase
  then show ?thesis using ids_initiate_payment assms(2)
    by (blast intro: commit_change initiate_payment_change)
next
  case reconciliation
  then show ?thesis using ids_payment_requests(1) assms(2) by (blast intro: commit_change reconcile_change)
next
  case webhook
  then show ?thesis using ids_payment_requests(2) assms(2) by (blast intro: commit_change webhook_change)
next
  case activation
  then show ?thesis by (rule run_activation_change)
next
  case late_failure
  then show ?thesis using ids_activate(2) by (blast intro: commit_change record_failure_change)
next
  case other
  then show ?thesis by (auto simp: elsewhere_def intro: alike_change)
qed

lemma payments_reachable:
  assumes "payment_step\<^sup>*\<^sup>* s0 s" "payments_sound s0"
  shows "payments_sound s"
  using assms by (induction rule: rtranclp_induct) (blast intro: step_change payments_sound_change)+

subsection \<open>One attempt per session\<close>

text \<open>Neither a session nor a payment is added.\<close>

definition sessions_kept :: "db \<Rightarrow> db \<Rightarrow> bool" where
  "sessions_kept s s' \<longleftrightarrow> captive_sessions s' = captive_sessions s \<and>
     length (transactions s') = length (transactions s)"

interpretation sessions_kept: stable_relation sessions_kept
  by unfold_locales (auto simp: sessions_kept_def)

lemma kept_modify: "(\<And>s. captive_sessions (f s) = captive_sessions s) \<Longrightarrow>
    (\<And>s. transactions (f s) = transactions s) \<Longrightarrow> keeps sessions_kept (modify f)"
  by (rule sessions_kept.keeps_modify) (simp add: sessions_kept_def)

lemma kept_basic:
  "keeps sessions_kept (write_audit_log w t a act tt tg md)" "keeps sessions_kept fresh"
  "keeps sessions_kept (store v)" "keeps sessions_kept (update_transaction f x)"
  "keeps sessions_kept (collection_client cfg)"
  "keeps sessions_kept (create_order_minimal w i e n p am)" "keeps sessions_kept (wallet_payment w i r p)"
  "keeps sessions_kept (order_status w r)" "keeps sessions_kept (provision_access w cfg u q pw d up tm k)"
  by (rule keepsI, auto simp: sessions_kept_def run_simps wallet_payment_def order_status_def
      provision_access_result dest: store_state collection_client_state create_order_state collection_call_state)+

lemmas kept_rules = sessions_kept.keeps_rules kept_basic kept_modify

lemma kept_transition: "keeps sessions_kept (tx_transition flow w x st actor reason md f)"
  by (auto simp: tx_transition_def intro!: kept_rules)

lemma kept_finalize: "keeps sessions_kept (sp_finalize (flow_of w t) x d)"
proof (rule keepsI)
  fix s r s'
  assume run: "sp_finalize (flow_of w t) x d s = (r, s')"
  have "captive_sessions u = captive_sessions s \<and> transactions u = transactions s"
    if "process_collection w te g rt rf de s = (q, u)" for te g rt rf de q u
    using keepsD [OF process_collection_frame that] by (auto simp: wallet_frame_def)
  with run show "sessions_kept s s'"
    by (cases t) (auto simp: credit_tenant_wallet_def finalize_captive_payment_def bnd_def update_transaction_def
        thn_def modify_def ret_def sessions_kept_def split: prod.splits sum.splits)
qed

lemma kept_query: "keeps sessions_kept (query_and_apply (flow_of w t) w cfg x actor)"
  by (auto simp: query_and_apply_def apply_order_status_def Let_def split: sum.split list.split option.split
      intro!: kept_rules kept_transition kept_finalize)

lemma kept_activate: "keeps sessions_kept (activate w cfg i)" "keeps sessions_kept (record_failure w i reason)"
proof -
  have "keeps sessions_kept (activate_subscription w t a i)" for t a i
    by (auto simp: activate_subscription_def update_subscription_def intro!: kept_rules)
  then show "keeps sessions_kept (activate w cfg i)" "keeps sessions_kept (record_failure w i reason)"
    by (auto simp: activate_def record_failure_def find_transaction_def activate_paid_subscription_def
      scalar_one_def split: prod.split intro!: kept_rules)
qed

lemma kept_requests:
  "keeps sessions_kept (reconcile_transaction (flow_of w) (flow_of w t) w cfg i)"
  "keeps sessions_kept (process_webhook (flow_of w) (flow_of w t) w k cfg q)"
  by (auto simp: reconcile_transaction_def process_webhook_def Let_def
      collection_config_from_settings_def split: option.split
      intro!: kept_rules keeps_provider kept_query)

lemma kept_commit:
  "commit m s = (r, s') \<Longrightarrow> keeps sessions_kept m \<Longrightarrow> sessions_kept s s'"
  by (erule commit_cases) (auto simp: sessions_kept_def rollback_def dest: keepsD)

definition attempts :: "uuid \<Rightarrow> db \<Rightarrow> transaction list" where
  "attempts i s = filter (\<lambda>x. tx_captive_session x = Some i) (transactions s)"

text \<open>A payment's session is spent and of the payment's tenant, and no session has two payments.\<close>

definition sessions_sound :: "db \<Rightarrow> bool" where
  "sessions_sound s \<longleftrightarrow> distinct (map cs_id (captive_sessions s)) \<and>
     (\<forall>c \<in> set (captive_sessions s). cs_id c < next_id s) \<and>
     (\<forall>x \<in> set (transactions s). \<forall>i. tx_captive_session x = Some i \<longrightarrow>
        (\<exists>c \<in> set (captive_sessions s). cs_id c = i \<and> consumed_at c \<noteq> None \<and> cs_tenant c = tx_tenant x)) \<and>
     (\<forall>i. length (attempts i s) \<le> 1)"

lemma attempts_keys:
  assumes "map payment_key (transactions s') = map payment_key (transactions s)"
  shows "length (attempts i s') = length (attempts i s)"
proof -
  have "length (attempts i s) = length (filter (\<lambda>(_, _, _, _, _, _, _, _, _, j, _). j = Some i)
      (map payment_key (transactions s)))" for s
    by (simp add: attempts_def filter_map o_def payment_key_def)
  then show ?thesis by (simp only: assms)
qed

lemma sessions_sound_keys:
  assumes "sessions_sound s" "map payment_key (transactions s') = map payment_key (transactions s)"
    "captive_sessions s' = captive_sessions s" "next_id s \<le> next_id s'"
  shows "sessions_sound s'"
proof -
  have keys: "payment_key ` set (transactions s') = payment_key ` set (transactions s)"
    using arg_cong [OF assms(2), of set] by simp
  have "\<exists>y \<in> set (transactions s). payment_key y = payment_key x" if "x \<in> set (transactions s')" for x
  proof -
    from that have "payment_key x \<in> payment_key ` set (transactions s')" by (rule imageI)
    then have "payment_key x \<in> payment_key ` set (transactions s)" by (simp only: keys)
    then show ?thesis by fastforce
  qed
  then have "\<exists>c \<in> set (captive_sessions s'). cs_id c = i \<and> consumed_at c \<noteq> None \<and> cs_tenant c = tx_tenant x"
    if "x \<in> set (transactions s')" "tx_captive_session x = Some i" for x i
    using that assms(1,3) by (fastforce simp: sessions_sound_def payment_key_eq)
  then show ?thesis
    using assms attempts_keys [OF assms(2)] by (auto simp: sessions_sound_def)
qed

lemma moved_keys:
  assumes "payments_sound s" "x \<in> set (transactions s)" "payment_key x' = payment_key x"
  shows "map payment_key (row_put tx_id x' (transactions s)) = map payment_key (transactions s)"
proof -
  have "y = x" if "y \<in> set (transactions s)" "tx_id y = tx_id x" for y
    using that assms(1,2) by (auto simp: payments_sound_def distinct_map inj_on_def)
  then show ?thesis using assms(3) by (auto simp: row_put_def payment_key_eq)
qed

text \<open>A change that does not add a payment.\<close>

lemma sessions_sound_change:
  assumes "payment_change s s'" "payments_sound s" "sessions_sound s" "sessions_kept s s'"
  shows "sessions_sound s'"
  using assms(1)
proof (cases rule: payment_change.cases)
  case same
  with assms show ?thesis by (auto simp: sessions_kept_def intro: sessions_sound_keys)
next
  case (added x)
  with assms(4) show ?thesis by (simp add: sessions_kept_def)
next
  case (moved x x')
  with assms moved_keys [OF assms(2) moved(1,2)] show ?thesis
    by (auto simp: sessions_kept_def intro: sessions_sound_keys)
qed

text \<open>The two requests that add one.\<close>

lemma sessions_sound_collection:
  assumes "initiate_collection w cfg t actor amount cur ph c s = (Inr x, s')" "payments_sound s" "sessions_sound s"
  shows "sessions_sound s'"
proof -
  note added = initiate_collection_change(2,3,5) [OF assms(1,2)]
  have "next_id s \<le> next_id s'" using keepsD [OF ids_initiate_collection assms(1)] by (simp add: ids_grow_def)
  then show ?thesis using assms(3) added by (auto simp: sessions_sound_def attempts_def)
qed

lemma unspent_session:
  assumes "sessions_sound s" "row_find cs_id i (captive_sessions s) = Some c" "consumed_at c = None"
  shows "attempts (cs_id c) s = []"
proof -
  have c: "c \<in> set (captive_sessions s)" using assms(2) by (auto dest: row_find_Some)
  have "d = c" if "d \<in> set (captive_sessions s)" "cs_id d = cs_id c" for d
    using that c assms(1) by (auto simp: sessions_sound_def distinct_map inj_on_def)
  with assms show ?thesis by (fastforce simp: sessions_sound_def attempts_def filter_empty_conv)
qed

lemma sessions_sound_purchase:
  assumes run: "initiate_payment w cfg token pk ph s = (Inr r, s')" and ok: "payments_sound s" "sessions_sound s"
  shows "sessions_sound s'"
  using run
proof (cases rule: initiate_payment_shape)
  case 1
  with ok show ?thesis by simp
next
  case (2 cnt lg)
  with ok show ?thesis by (auto intro: sessions_sound_keys)
next
  case (3 session p m cnt u c t t')
  let ?s0 = "s\<lparr>counters := cnt\<rparr>"
  have ok0: "payments_sound ?s0" by (rule payments_sound_same [OF ok(1)]) (simp_all add: booked_def)
  note e = attempt_effect [OF 3(7,4,8) ok0]
  have ctx: "session \<in> set (captive_sessions s)" "attempts (cs_id session) s = []"
    using 3(3) unspent_session [OF ok(2)] by (auto simp: captive_context_Inr dest: row_find_Some)
  have sess: "captive_sessions s' = row_put cs_id (session\<lparr>consumed_at := Some (now w)\<rparr>) (captive_sessions s)"
    using e(11) by simp
  have grow: "next_id s \<le> next_id s'" using keepsD [OF ids_initiate_payment run] by (simp add: ids_grow_def)
  have keys: "map cs_id (captive_sessions s') = map cs_id (captive_sessions s)" by (simp add: sess)
  have spent: "\<exists>d \<in> set (captive_sessions s'). cs_id d = i \<and> consumed_at d \<noteq> None \<and> cs_tenant d = te"
    if "c \<in> set (captive_sessions s)" "cs_id c = i" "consumed_at c \<noteq> None" "cs_tenant c = te" for c i te
  proof (cases "cs_id c = cs_id session")
    case True
    then have "c = session" using that ctx(1) ok(2) by (auto simp: sessions_sound_def distinct_map inj_on_def)
    with that show ?thesis by (auto simp: sess row_put_def intro!: bexI [of _ "session\<lparr>consumed_at := Some (now w)\<rparr>"])
  next
    case False
    with that show ?thesis by (auto simp: sess row_put_def intro!: bexI [of _ c])
  qed
  have here: "\<exists>d \<in> set (captive_sessions s'). cs_id d = cs_id session \<and> consumed_at d \<noteq> None \<and>
      cs_tenant d = cs_tenant session"
    using ctx(1) by (auto simp: sess row_put_def intro!: bexI [of _ "session\<lparr>consumed_at := Some (now w)\<rparr>"])
  have "cs_id d < next_id s'" if "d \<in> set (captive_sessions s')" for d
  proof -
    have "cs_id d \<in> cs_id ` set (captive_sessions s)"
      using arg_cong [OF keys, of set] that by auto
    then show ?thesis using ok(2) grow by (fastforce simp: sessions_sound_def)
  qed
  moreover have "\<exists>d \<in> set (captive_sessions s'). cs_id d = i \<and> consumed_at d \<noteq> None \<and> cs_tenant d = tx_tenant x"
    if "x \<in> set (transactions s')" "tx_captive_session x = Some i" for x i
  proof (cases "x = t'")
    case True
    with that(2) here e(6,7) show ?thesis by auto
  next
    case False
    with that e(2) have "x \<in> set (transactions s)" by simp
    with that(2) ok(2) obtain c where "c \<in> set (captive_sessions s)" "cs_id c = i" "consumed_at c \<noteq> None"
      "cs_tenant c = tx_tenant x" by (fastforce simp: sessions_sound_def)
    then show ?thesis by (rule spent)
  qed
  moreover have "length (attempts i s') \<le> 1" for i
  proof -
    have "attempts i s' = attempts i s @ (if i = cs_id session then [t'] else [])"
      using e(2,6) by (auto simp: attempts_def)
    then show ?thesis using ctx(2) ok(2) by (auto simp: sessions_sound_def)
  qed
  moreover have "distinct (map cs_id (captive_sessions s'))"
    using ok(2) by (simp add: keys sessions_sound_def)
  ultimately show ?thesis unfolding sessions_sound_def by blast
qed

lemma sessions_sound_issue:
  assumes "issue_session w cfg router mac s = (Inr x, s')" "sessions_sound s"
  shows "sessions_sound s'"
proof -
  have "transactions s' = transactions s" "\<exists>c. captive_sessions s' = captive_sessions s @ [c] \<and>
      cs_id c = next_id s + 1" "next_id s' = next_id s + 2"
    using assms(1) by (auto simp: issue_session_def Let_def run_simps)
  with assms(2) show ?thesis by (fastforce simp: sessions_sound_def attempts_def)
qed

lemma sessions_sound_commit:
  assumes run: "commit m s = (r, s')" and "keeps ids_grow m" "sessions_sound s"
    and "\<And>x u. m s = (Inr x, u) \<Longrightarrow> sessions_sound u"
  shows "sessions_sound s'"
proof (rule commit_invariant [where I = sessions_sound, OF assms(1-3)])
  show "sessions_sound (rollback s u)" if "next_id s \<le> next_id u" for u
    by (rule sessions_sound_keys [OF assms(3)]) (use that in \<open>simp_all add: rollback_def\<close>)
qed (fact assms(4))

lemma run_activation_kept: "run_activation w w' cfg i s = (r, s') \<Longrightarrow> sessions_kept s s'"
proof (cases "activate w cfg i s")
  case (Pair q u)
  assume run: "run_activation w w' cfg i s = (r, s')"
  have undone: "sessions_kept s (rollback s u)" by (simp add: sessions_kept_def rollback_def)
  show ?thesis
  proof (cases q)
    case (Inl e)
    then show ?thesis
      using run Pair undone sessions_kept.trans [OF undone kept_commit [OF _ kept_activate(2)]]
      by (auto simp: run_activation_def split: err.splits)
  next
    case (Inr a)
    with run Pair keepsD [OF kept_activate(1) Pair] show ?thesis by (simp add: run_activation_def)
  qed
qed

lemma step_sessions:
  assumes step: "payment_step s s'" and ok: "payments_sound s" "sessions_sound s"
  shows "sessions_sound s'"
proof -
  note change = step_change [OF step ok(1)]
  show ?thesis
    using step
  proof (cases rule: payment_step.cases)
    case collection
    then show ?thesis using ids_initiate_collection ok
      by (blast intro: sessions_sound_commit sessions_sound_collection)
  next
    case new_session
    then show ?thesis using ids_payment_requests(3) ok by (blast intro: sessions_sound_commit sessions_sound_issue)
  next
    case purchase
    then show ?thesis using ids_initiate_payment ok
      by (blast intro: sessions_sound_commit sessions_sound_purchase)
  next
    case reconciliation
    then show ?thesis using kept_requests(1) ok change by (blast intro: sessions_sound_change kept_commit)
  next
    case webhook
    then show ?thesis using kept_requests(2) ok change by (blast intro: sessions_sound_change kept_commit)
  next
    case activation
    then show ?thesis using ok change by (blast intro: sessions_sound_change run_activation_kept)
  next
    case late_failure
    then show ?thesis using kept_activate(2) ok change by (blast intro: sessions_sound_change kept_commit)
  next
    case other
    with ok show ?thesis by (auto simp: elsewhere_def alike_def intro: sessions_sound_keys)
  qed
qed

lemma sessions_reachable:
  assumes "payment_step\<^sup>*\<^sup>* s0 s" "payments_sound s0" "sessions_sound s0"
  shows "sessions_sound s"
  using assms
  by (induction rule: rtranclp_induct) (blast intro: step_sessions payments_reachable)+

end
