(* ===== verification/Payments.thy ===== *)
theory Payments
  imports Payment_System
begin

text \<open>
  The properties of the payment requests: what a payment credits and when, what the provider's and
  a stranger's messages can do, what a captive session can start, and what happens between a
  verified payment and network access.
\<close>

subsection \<open>A concrete run\<close>

text \<open>
  A tenant with one router and one package of 40; a session is issued, a payment started on it,
  the provider reports it completed, and access is granted.
\<close>

definition portal_cfg :: settings where
  "portal_cfg = payout_cfg\<lparr>network_agent_configured := True,
     selcom_collection_base_url := Some ''https://x'', selcom_collection_api_key := Some ''k'',
     selcom_collection_api_secret := Some ''s'', selcom_collection_digest_method := Some ''HS256'',
     selcom_collection_vendor := Some ''v'', selcom_collection_enabled := True,
     selcom_collection_production_enabled := True\<rparr>"

definition portal_db :: db where
  "portal_db = empty_db\<lparr>terms_rows := [sample_terms], routers := [router_at 41 7],
     packages := [\<lparr>pk_id = 31, pk_tenant = 7, pk_name = ''hour'', pk_description = None, price_tzs = 40,
       duration_minutes = Some 1, bytes_limit = None, download_speed_kbps = Some 8, upload_speed_kbps = Some 4,
       device_limit = 1, simultaneous_sessions = 1,
       pk_activation_type = Pat_IMMEDIATE, pk_status = P_ACTIVE\<rparr>], next_id := 1\<rparr>"

definition portal_io :: io where
  "portal_io = sample_io\<lparr>now := seconds 600, resolve_token := (\<lambda>t. if t = ''T'' then Some 2 else None)\<rparr>"

definition paid_reply :: order_status_data where
  "paid_reply = \<lparr>os_order_id = Some ''CP-6'', os_amount = Some 40, os_payment_status = Some ''COMPLETED'',
     os_transid = Some ''P1'', os_channel = Some ''MPESA'', os_reference = None, os_currency = Some ''TZS''\<rparr>"

definition paid_io :: io where
  "paid_io = portal_io\<lparr>order_status_reply := Reply \<lparr>os_resultcode = Some ''000'', os_data = [paid_reply]\<rparr>\<rparr>"

definition waiting_payment :: transaction where
  "waiting_payment = new_transaction CAPTIVE_PORTAL_SELCOM_FLOW portal_io 7 7 ''CP-6'' 40 ''TZS'' ''255712345678''"

definition visited_db :: db where
  "visited_db = snd (commit (issue_session portal_io portal_cfg 41 None) portal_db)"

definition started_db :: db where
  "started_db = snd (commit (initiate_payment portal_io portal_cfg ''T'' 31 ''0712345678'') visited_db)"

definition settled_db :: db where
  "settled_db = snd (commit (reconcile_transaction (flow_of paid_io) (flow_of paid_io TT_CAPTIVE_PORTAL)
     paid_io portal_cfg 7) started_db)"

definition online_db :: db where
  "online_db = snd (run_activation portal_io portal_io portal_cfg 7 settled_db)"

lemma portal_run:
  "case commit (issue_session portal_io portal_cfg 41 None) portal_db of (r0, s0) \<Rightarrow>
   case commit (initiate_payment portal_io portal_cfg ''T'' 31 ''0712345678'') s0 of (r1, s1) \<Rightarrow>
   packages s0 = packages portal_db \<and> transactions s0 = [] \<and> provider_calls s0 = [] \<and> map cs_tenant (captive_sessions s0) = [7] \<and>
   \<not> isl r1 \<and> ir_status (projr r1) = ''pending'' \<and> map tx_status (transactions s1) = [C_STK_SENT] \<and>
   map tx_captive_session (transactions s1) = [Some 2] \<and>
   (case commit (reconcile_transaction (flow_of paid_io) (flow_of paid_io TT_CAPTIVE_PORTAL) paid_io portal_cfg 7) s1
    of (r2, s2) \<Rightarrow> \<not> isl r2 \<and> map tx_id (transactions s2) = [7] \<and> map tx_status (transactions s2) = [C_COMPLETED] \<and>
   map activation_status (transactions s2) = [Some A_PENDING] \<and>
   map (\<lambda>x. (tx_tenant x, tx_subscription x, tx_customer x)) (transactions s2) = [(7, Some 5, Some 4)] \<and>
   map (\<lambda>x. (sub_id x, sub_tenant x, sub_package x)) (subscriptions s2) = [(5, 7, 31)] \<and>
   map cu_id (customers s2) = [4] \<and> packages s2 = packages portal_db \<and>
   fst (run_activation (portal_io\<lparr>user_channel := AnswerLost\<rparr>) portal_io portal_cfg 7 s2) = Inr A_FAILED \<and>
   (case run_activation portal_io portal_io portal_cfg 7 s2 of (r3, s3) \<Rightarrow>
      r3 = Inr A_ACTIVE \<and> map tx_status (transactions s3) = [C_COMPLETED]))"
  by code_simp

lemmas run_here = portal_run [unfolded case_prod_beta, folded visited_db_def, folded started_db_def,
  folded settled_db_def, folded online_db_def]



lemma reached_here:
  "payment_step\<^sup>*\<^sup>* portal_db visited_db" "payment_step\<^sup>*\<^sup>* portal_db started_db" "payment_step\<^sup>*\<^sup>* portal_db settled_db"
  "payment_step\<^sup>*\<^sup>* portal_db online_db"
proof -
  have 1: "payment_step portal_db visited_db"
    unfolding visited_db_def by (rule payment_step.new_session) (rule prod.collapse [symmetric])
  have 2: "payment_step visited_db started_db"
    unfolding started_db_def by (rule payment_step.purchase) (rule prod.collapse [symmetric])
  have 3: "payment_step started_db settled_db"
    unfolding settled_db_def by (rule payment_step.reconciliation) (rule prod.collapse [symmetric])
  have 4: "payment_step settled_db online_db"
    unfolding online_db_def by (rule payment_step.activation) (rule prod.collapse [symmetric])
  from 1 show "payment_step\<^sup>*\<^sup>* portal_db visited_db" by blast
  from 1 2 show "payment_step\<^sup>*\<^sup>* portal_db started_db" by (meson rtranclp.simps)
  from this 3 show "payment_step\<^sup>*\<^sup>* portal_db settled_db" by (rule rtranclp.rtrancl_into_rtrancl)
  from this 4 show "payment_step\<^sup>*\<^sup>* portal_db online_db" by (rule rtranclp.rtrancl_into_rtrancl)
qed

lemma portal_start:
  "transactions portal_db = []" "ledger_entries portal_db = []" "captive_sessions portal_db = []"
  by (simp_all add: portal_db_def empty_db_def)

lemma sound_start:
  "transactions s = [] \<Longrightarrow> ledger_entries s = [] \<Longrightarrow> payments_sound s"
  "transactions s = [] \<Longrightarrow> captive_sessions s = [] \<Longrightarrow> sessions_sound s"
  by (simp_all add: payments_sound_def sessions_sound_def attempts_def booked_def)

subsection \<open>Money\<close>

text \<open>C6: Every payment is credited exactly once, and only when it completed: in every state that
  sessions, purchases, collections, reconciliations, webhooks and activations reach in any order, the
  ledger holds one collection entry over exactly its amount for each completed payment, none for any
  other, and no entry that is not of a completed payment.\<close>

theorem credited_once:
  assumes "transactions s0 = []" "ledger_entries s0 = []" "payment_step\<^sup>*\<^sup>* s0 s"
  shows "(\<forall>x \<in> set (transactions s). filter (\<lambda>(r, a). r = Some (tx_id x)) (booked s) =
      (if tx_status x = C_COMPLETED then [(Some (tx_id x), tx_amount x)] else [])) \<and>
    (\<forall>(r, a) \<in> set (booked s). \<exists>x \<in> set (transactions s).
       tx_status x = C_COMPLETED \<and> r = Some (tx_id x) \<and> a = tx_amount x)"
proof -
  have ok: "payments_sound s" using assms sound_start(1) by (blast intro: payments_reachable)
  have "\<exists>x \<in> set (transactions s). tx_status x = C_COMPLETED \<and> r = Some (tx_id x) \<and> a = tx_amount x"
    if entry: "(r, a) \<in> set (booked s)" for r a
  proof -
    from ok entry obtain x where x: "x \<in> set (transactions s)" "r = Some (tx_id x)"
      by (fastforce simp: payments_sound_def)
    with entry have "(r, a) \<in> set (bookings (tx_id x) s)" by (simp add: bookings_def)
    with ok x show ?thesis by (auto simp: payments_sound_def payment_ok_def split: if_splits)
  qed
  with ok show ?thesis by (auto simp: payments_sound_def payment_ok_def bookings_def)
qed

theorem credited_once_witness:
  "\<exists>x \<in> set (transactions online_db). tx_status x = C_COMPLETED \<and>
     filter (\<lambda>(r, a). r = Some (tx_id x)) (booked online_db) = [(Some (tx_id x), tx_amount x)]"
proof -
  have "\<exists>x \<in> set (transactions online_db). tx_status x = C_COMPLETED" using run_here by auto
  with credited_once [OF portal_start(1,2) reached_here(4)] show ?thesis by fastforce
qed

text \<open>C8: A captive session pays for at most one attempt: in every reachable state each session has at
  most one payment, of the session's own tenant, and presenting its token again is refused before
  anything is created or sent, whatever package and number come with it.\<close>

theorem session_single_use:
  assumes "transactions s0 = []" "ledger_entries s0 = []" "captive_sessions s0 = []"
    and "payment_step\<^sup>*\<^sup>* s0 s" "x \<in> set (transactions s)" "tx_captive_session x = Some i"
  shows "filter (\<lambda>y. tx_captive_session y = Some i) (transactions s) = [x] \<and>
    (\<exists>c. row_find cs_id i (captive_sessions s) = Some c \<and> cs_tenant c = tx_tenant x) \<and>
    (\<forall>w cfg token package_id phone. resolve_intent_token w cfg token = Some i \<longrightarrow>
       selcom_collection_enabled cfg \<longrightarrow> selcom_collection_production_enabled cfg \<longrightarrow>
       initiate_payment w cfg token package_id phone s =
         (Inl (DomainValidationError ''This payment session has expired''), s))"
proof -
  have ok: "sessions_sound s" using assms(1-4) sound_start by (blast intro: sessions_reachable)
  have "x \<in> set (attempts i s)" "length (attempts i s) \<le> 1"
    using ok assms(5,6) by (auto simp: sessions_sound_def attempts_def)
  then have "attempts i s = [x]" by (cases "attempts i s") auto
  moreover from ok assms(5,6) obtain c where c: "c \<in> set (captive_sessions s)" "cs_id c = i"
      "consumed_at c \<noteq> None" "cs_tenant c = tx_tenant x"
    by (fastforce simp: sessions_sound_def)
  then have find: "row_find cs_id i (captive_sessions s) = Some c"
    using ok row_find_distinct [of cs_id "captive_sessions s" c] by (simp add: sessions_sound_def)
  moreover have "initiate_payment w cfg token package_id phone s =
      (Inl (DomainValidationError ''This payment session has expired''), s)"
    if "resolve_intent_token w cfg token = Some i" "selcom_collection_enabled cfg"
      "selcom_collection_production_enabled cfg" for w cfg token package_id phone
  proof -
    have "resolve_session w cfg token s = (Inl (CaptiveSessionError ''Invalid or expired captive session''), s)"
      using that find c(3)
      by (simp add: resolve_session_def Let_def bnd_def thn_def gets_def require_def guard_def raise_def ret_def)
    then show ?thesis
      using that by (simp add: initiate_payment_def captive_context_def Let_def bnd_def except_def raise_def)
  qed
  ultimately show ?thesis using c(4) by (auto simp: attempts_def)
qed

theorem session_single_use_witness:
  "initiate_payment portal_io portal_cfg ''T'' 31 ''0712345678'' started_db =
     (Inl (DomainValidationError ''This payment session has expired''), started_db)"
proof -
  have "\<exists>x \<in> set (transactions started_db). tx_captive_session x = Some 2" using run_here by auto
  then obtain x where x: "x \<in> set (transactions started_db)" "tx_captive_session x = Some 2" by blast
  have "resolve_intent_token portal_io portal_cfg ''T'' = Some 2 \<and> selcom_collection_enabled portal_cfg \<and>
      selcom_collection_production_enabled portal_cfg"
    by (simp add: resolve_intent_token_def portal_io_def portal_cfg_def payout_cfg_def)
  with session_single_use [OF portal_start reached_here(2) x] show ?thesis by blast
qed







text \<open>C17: A webhook never decides anything itself. One that is not verified changes only the log of
  webhooks; a verified one does to the payment it names exactly what a reconciliation of that payment
  does, which asks the provider again, so that no amount, status or currency in its body matters.\<close>

theorem webhook_only_triggers:
  assumes run: "process_webhook (flow_of w) (flow_of w t) w k cfg q s = (Inr a, s')"
    and ids: "distinct (map tx_id (transactions s))"
  shows "(a \<noteq> Acknowledged \<longrightarrow> (\<exists>rows. s' = s\<lparr>next_id := next_id s + 1, webhook_rows := rows\<rparr>)) \<and>
    (a = Acknowledged \<longrightarrow> (\<exists>c. collection_config_from_settings cfg s = (Inr c, s) \<and> webhook_verified c k w q) \<and>
      (\<exists>x x' u v rows lg rows'. x \<in> set (transactions s) \<and> wr_order_id q = Some (Some (tx_reference x)) \<and>
         u = s\<lparr>next_id := next_id s + 1, webhook_rows := rows, audit_logs := lg\<rparr> \<and>
         reconcile_transaction (flow_of w) (flow_of w t) w cfg (tx_id x) u = (Inr x', v) \<and>
         s' = v\<lparr>webhook_rows := rows'\<rparr>))"
  using run
proof (cases rule: webhook_shape)
  case (1 c)
  then show ?thesis by auto
next
  case (2 c)
  then show ?thesis by auto
next
  case (3 c x t' x' rows lg u v rows')
  have find: "get_by_id tx_id tx_tenant None (tx_id x) (transactions u) = Some x"
    using 3(4,7) ids by (simp add: get_by_id_Some row_find_distinct)
  have "provider_for (flow_of w) (flow_of w t) x = ret (flow_of w t')"
    using 3(6) by (simp add: provider_for_def)
  then have "reconcile_transaction (flow_of w) (flow_of w t) w cfg (tx_id x) u = (Inr x', v)"
    using 3(8) find by (simp add: reconcile_transaction_def bnd_def gets_def require_def ret_def)
  with 3 show ?thesis by blast
qed

definition hook_crypto :: webhook_crypto where
  "hook_crypto = \<lparr>base64 = (\<lambda>t. t), digest_hs256 = (\<lambda>key msg. key @ msg), parse_iso = (\<lambda>_. Some (seconds 600))\<rparr>"

definition paid_webhook :: webhook_request where
  "paid_webhook = \<lparr>wr_headers = [(''Authorization'', ''SELCOM k''), (''Digest-Method'', ''HS256''), (''Timestamp'', ''t''),
       (''Digest'', ''stimestamp=t&o=1''), (''Signed-Fields'', ''o'')],
     wr_fields = [(''o'', ''1'')], wr_order_id = Some (Some ''CP-6'')\<rparr>"

definition waiting_db :: db where
  "waiting_db = portal_db\<lparr>next_id := 8, transactions := [waiting_payment]\<rparr>"

theorem webhook_only_triggers_witness:
  "\<exists>s' x' u v. process_webhook (flow_of paid_io) (flow_of paid_io TT_COLLECTION) paid_io hook_crypto portal_cfg
       paid_webhook waiting_db = (Inr Acknowledged, s') \<and>
     reconcile_transaction (flow_of paid_io) (flow_of paid_io TT_COLLECTION) paid_io portal_cfg 7 u = (Inr x', v) \<and>
     transactions s' = transactions v \<and> wallets s' = wallets v"
proof -
  have "case process_webhook (flow_of paid_io) (flow_of paid_io TT_COLLECTION) paid_io hook_crypto portal_cfg
      paid_webhook waiting_db of (r, s) \<Rightarrow> r = Inr Acknowledged" by code_simp
  then obtain s' where run: "process_webhook (flow_of paid_io) (flow_of paid_io TT_COLLECTION) paid_io hook_crypto
      portal_cfg paid_webhook waiting_db = (Inr Acknowledged, s')"
    by (auto split: prod.splits)
  have rows: "transactions waiting_db = [waiting_payment]" "tx_id waiting_payment = 7"
    by (simp_all add: waiting_db_def waiting_payment_def new_transaction_def)
  from webhook_only_triggers [OF run] obtain x x' u v rows' where
    "x \<in> set (transactions waiting_db)"
    "reconcile_transaction (flow_of paid_io) (flow_of paid_io TT_COLLECTION) paid_io portal_cfg (tx_id x) u = (Inr x', v)"
    "s' = v\<lparr>webhook_rows := rows'\<rparr>"
    by (auto simp: rows)
  with run show ?thesis by (auto simp: rows)
qed



subsection \<open>Access\<close>

text \<open>Only the activation itself reports ACTIVE; the record of a failure never does.\<close>

lemma run_activation_active:
  assumes run: "run_activation w w' cfg i s = (Inr A_ACTIVE, s')"
  shows "activate w cfg i s = (Inr A_ACTIVE, s')"
proof (cases "activate w cfg i s")
  case (Pair q u)
  show ?thesis
  proof (cases q)
    case (Inl e)
    have "fst (commit (record_failure w' i reason) t) \<noteq> Inr A_ACTIVE" for reason t
      by (auto simp: commit_def record_failure_def find_transaction_def bnd_def thn_def ret_def
          split: prod.splits sum.splits)
    with run Pair Inl show ?thesis by (auto simp: run_activation_def split: err.splits) (metis fst_conv)
  qed (use run Pair in \<open>simp add: run_activation_def\<close>)
qed

text \<open>C9: Access follows the money, and the customer can use what the screen shows: an activation that
  succeeds was of a completed payment, leaves every balance, the ledger and the payment's status alone,
  and afterwards RADIUS holds, for the customer's number, exactly one password and the group of the
  package paid for, the subscription runs from now for the package's duration unless it already ran, and
  the waiting screen shows exactly that
  number and that password.\<close>

theorem access_follows_payment:
  assumes run: "run_activation w w' cfg i s = (Inr A_ACTIVE, s')"
    and x: "row_find tx_id i (transactions s) = Some x" and fresh: "activation_status x \<noteq> Some A_ACTIVE"
    and screen: "hmac_sha256 v = hmac_sha256 w"
  shows "tx_status x = C_COMPLETED \<and> wallets s' = wallets s \<and> ledger_entries s' = ledger_entries s \<and>
    transactions s' = row_put tx_id (x\<lparr>activation_status := Some A_ACTIVE, tx_activated_at := Some (now w)\<rparr>)
      (transactions s) \<and>
    (\<exists>user secret p j sub sub'. passwords user (radius s') = [secret] \<and>
       groups user (radius s') = [radius_group_name (pk_id p)] \<and>
       tx_subscription x = Some j \<and> row_find sub_id j (subscriptions s) = Some sub \<and>
       row_find pk_id (sub_package sub) (packages s) = Some p \<and>
       row_find sub_id j (subscriptions s') = Some sub' \<and>
       sub' = (if sub_status sub = Sub_PENDING then sub\<lparr>sub_status := Sub_ACTIVE, sub_activated_at := Some (now w),
         sub_expires_at := expiry w p\<rparr> else sub) \<and>
       (let shown = get_payment_status v cfg (Some i) s' in
        pv_status shown = ''completed'' \<and> pv_activation shown = Some ''active'' \<and>
        pv_login_username shown = Some user \<and> pv_login_password shown = Some secret))"
  using run_activation_active [OF run]
proof (cases rule: activation_shape)
  case (1 y)
  with x fresh show ?thesis by simp
next
  case (2 y sub c p sub' sbs lg tr)
  let ?x = "x\<lparr>activation_status := Some A_ACTIVE, tx_activated_at := Some (now w)\<rparr>"
  let ?secret = "derive_radius_password w cfg (sub_id sub)"
  have y: "y = x" using 2(2) x by simp
  have same: "wallets s' = wallets s" "ledger_entries s' = ledger_entries s" "customers s' = customers s"
    "transactions s' = row_put tx_id ?x (transactions s)" "subscriptions s' = sbs"
    by (subst 2(14), simp add: y)+
  have put: "s\<lparr>radius := radius s'\<rparr> = s\<lparr>radius := granted (cu_phone c) (pk_id p) ?secret
      (synced (pk_id p) (reply_attributes (download_speed_kbps p) (upload_speed_kbps p)
        (case duration_minutes p of None \<Rightarrow> None | Some m \<Rightarrow> if m = 0 then None else Some (m * 60)))
        (simultaneous_sessions p) (radius s))\<rparr>"
    using 2(13) unfolding provision_access_Inr by (elim conjE)
  note radius = arg_cong [where f = radius, OF put, simplified]
  have access: "passwords (cu_phone c) (radius s') = [?secret]"
    "groups (cu_phone c) (radius s') = [radius_group_name (pk_id p)]" by (simp_all add: radius radius_rows)
  have id: "i = tx_id ?x" using x by (auto dest: row_find_Some)
  have sub: "row_find sub_id (sub_id sub) sbs = Some sub'"
    using 2(7,10,12) row_find_put_same [of sub_id sub' "subscriptions s" sub] by auto
  have "get_by_id tx_id tx_tenant None i (transactions s') = Some ?x"
    using row_find_put_same [of tx_id ?x "transactions s" x] x id by (simp add: same get_by_id_Some)
  moreover have "C_COMPLETED \<notin> set UNDER_REVIEW_STATUSES" "C_COMPLETED \<notin> set PUBLIC_FAILED_STATUSES"
    by (simp_all add: UNDER_REVIEW_STATUSES_def PUBLIC_FAILED_STATUSES_def)
  moreover have "derive_radius_password v cfg (sub_id sub) = ?secret"
    by (simp add: derive_radius_password_def screen)
  ultimately have "let shown = get_payment_status v cfg (Some i) s' in
        pv_status shown = ''completed'' \<and> pv_activation shown = Some ''active'' \<and>
        pv_login_username shown = Some (cu_phone c) \<and> pv_login_password shown = Some ?secret"
    using 2(3,5,6,8) same(3) by (simp add: get_payment_status_def status_of_def Let_def y)
  moreover have "sub' = (if sub_status sub = Sub_PENDING then sub\<lparr>sub_status := Sub_ACTIVE,
      sub_activated_at := Some (now w), sub_expires_at := expiry w p\<rparr> else sub)"
    using 2(11,12) by auto
  ultimately show ?thesis
    using 2(3,5,7,9) same sub access y by blast
qed

theorem access_follows_payment_witness:
  "\<exists>user secret. passwords user (radius online_db) = [secret] \<and>
     pv_login_username (get_payment_status portal_io portal_cfg (Some 7) online_db) = Some user \<and>
     pv_login_password (get_payment_status portal_io portal_cfg (Some 7) online_db) = Some secret"
proof -
  have run: "run_activation portal_io portal_io portal_cfg 7 settled_db = (Inr A_ACTIVE, online_db)"
    using run_here by (simp add: online_db_def prod_eq_iff)
  from run_here obtain x where "row_find tx_id 7 (transactions settled_db) = Some x"
    "activation_status x \<noteq> Some A_ACTIVE"
    by (auto simp: row_find_def map_eq_Cons_conv)
  from access_follows_payment [OF run this, of portal_io] show ?thesis by (auto simp: Let_def)
qed

lemma activate_Inr: "activate w cfg i s = (Inr r, s') \<Longrightarrow> r = A_ACTIVE"
  by (erule activation_shape) simp_all

text \<open>An activation that does not end in access changes at most the mark on the payment.\<close>

lemma failed_activation:
  assumes run: "run_activation w w' cfg i s = (r, s')" and failed: "r \<noteq> Inr A_ACTIVE"
  shows "wallets s' = wallets s \<and> ledger_entries s' = ledger_entries s \<and> customers s' = customers s \<and>
    subscriptions s' = subscriptions s \<and> packages s' = packages s \<and>
    (case r of
       Inl e \<Rightarrow> transactions s' = transactions s
     | Inr a \<Rightarrow> a = A_FAILED \<and> (\<exists>x. row_find tx_id i (transactions s) = Some x \<and> tx_status x = C_COMPLETED \<and>
         transactions s' = row_put tx_id (x\<lparr>activation_status := Some A_FAILED\<rparr>) (transactions s)))"
proof (cases "activate w cfg i s")
  case (Pair q u)
  let ?s0 = "rollback s u"
  from run Pair failed activate_Inr obtain e where q: "q = Inl e" by (cases q) (auto simp: run_activation_def)
  show ?thesis
  proof (cases "\<exists>reason. e = ActivationFailedError reason")
    case False
    with run Pair q have "r = Inl e" "s' = ?s0" by (auto simp: run_activation_def split: err.splits)
    then show ?thesis by (simp add: rollback_def)
  next
    case True
    then obtain reason where e: "e = ActivationFailedError reason" by blast
    obtain x where x: "row_find tx_id i (transactions s) = Some x" "tx_status x = C_COMPLETED"
      using activation_failed Pair q e by blast
    have "commit (record_failure w' i reason) ?s0 = (r, s')"
      using run Pair q e by (simp add: run_activation_def)
    moreover have "\<exists>lg. record_failure w' i reason ?s0 = (Inr A_FAILED, ?s0\<lparr>transactions :=
        row_put tx_id (x\<lparr>activation_status := Some A_FAILED\<rparr>) (transactions s), audit_logs := lg\<rparr>)"
      unfolding record_failure_def find_transaction_def bnd_Inr thn_Inr
      by (simp add: x(1) get_by_id_Some write_audit_log_run rollback_def del: append.simps) blast
    ultimately show ?thesis using x by (auto simp: commit_def rollback_def)
  qed
qed

text \<open>A failure to grant access never costs the payment: whatever goes wrong in an activation, no
  balance, ledger entry, customer or subscription changes and the payment stays completed; a
  provisioning failure marks it FAILED, keeps it on the list of the retry sweep, and the waiting screen
  still says it is paid, without showing credentials; any other failure leaves it as it was.\<close>

theorem failed_activation_keeps_payment:
  assumes run: "run_activation w w' cfg i s = (r, s')" and failed: "r \<noteq> Inr A_ACTIVE"
  shows "wallets s' = wallets s \<and> ledger_entries s' = ledger_entries s \<and> customers s' = customers s \<and>
    subscriptions s' = subscriptions s \<and>
    (case r of
       Inl e \<Rightarrow> transactions s' = transactions s
     | Inr a \<Rightarrow> a = A_FAILED \<and> (\<exists>x. row_find tx_id i (transactions s) = Some x \<and> tx_status x = C_COMPLETED \<and>
         transactions s' = row_put tx_id (x\<lparr>activation_status := Some A_FAILED\<rparr>) (transactions s)) \<and>
         i \<in> set (list_retryable (length (transactions s)) s') \<and>
         (let shown = get_payment_status v cfg (Some i) s' in
          pv_status shown = ''completed'' \<and> pv_activation shown = Some ''failed'' \<and>
          pv_login_username shown = None \<and> pv_login_password shown = None))"
proof (cases r)
  case (Inl e)
  with failed_activation [OF run failed] show ?thesis by simp
next
  case (Inr a)
  with failed_activation [OF run failed] obtain x where a: "a = A_FAILED"
    and x: "row_find tx_id i (transactions s) = Some x" "tx_status x = C_COMPLETED"
    and rows: "transactions s' = row_put tx_id (x\<lparr>activation_status := Some A_FAILED\<rparr>) (transactions s)" by auto
  let ?x = "x\<lparr>activation_status := Some A_FAILED\<rparr>"
  have id: "tx_id x = i" using x by (auto dest: row_find_Some)
  have find: "row_find tx_id i (transactions s') = Some ?x"
    using row_find_put_same [of tx_id ?x "transactions s" x] x id by (simp add: rows)
  then have get: "get_by_id tx_id tx_tenant None i (transactions s') = Some ?x" by (simp add: get_by_id_Some)
  have all: "list_retryable (length (transactions s)) s' = map tx_id (filter (\<lambda>x. tx_status x = C_COMPLETED \<and>
      activation_status x \<in> {Some A_PENDING, Some A_FAILED}) (transactions s'))"
    unfolding list_retryable_def using length_filter_le [of _ "transactions s'"] rows
    by (intro take_all) simp
  have "?x \<in> set (transactions s')" using find by (auto dest: row_find_Some)
  then have "i \<in> set (list_retryable (length (transactions s)) s')"
    unfolding all using x(2) id by (auto intro!: image_eqI [of _ _ ?x])
  moreover have "let shown = get_payment_status v cfg (Some i) s' in
        pv_status shown = ''completed'' \<and> pv_activation shown = Some ''failed'' \<and>
        pv_login_username shown = None \<and> pv_login_password shown = None"
    using get x(2) by (simp add: get_payment_status_def status_of_def Let_def UNDER_REVIEW_STATUSES_def
      PUBLIC_FAILED_STATUSES_def)
  ultimately show ?thesis using failed_activation [OF run failed] Inr a by simp
qed

theorem failed_activation_keeps_payment_witness:
  "\<exists>s'. run_activation (portal_io\<lparr>user_channel := AnswerLost\<rparr>) portal_io portal_cfg 7 settled_db = (Inr A_FAILED, s') \<and>
     wallets s' = wallets settled_db \<and> 7 \<in> set (list_retryable (length (transactions settled_db)) s')"
proof -
  obtain s' where run: "run_activation (portal_io\<lparr>user_channel := AnswerLost\<rparr>) portal_io portal_cfg 7 settled_db =
      (Inr A_FAILED, s')"
    using run_here by (metis prod.collapse)
  from failed_activation_keeps_payment [OF run] run show ?thesis by simp
qed

subsection \<open>Retrying\<close>

text \<open>A completed payment whose rows are there: its subscription, customer and package.\<close>

definition activatable :: "uuid \<Rightarrow> db \<Rightarrow> bool" where
  "activatable i s \<longleftrightarrow> (\<exists>x sub c p. row_find tx_id i (transactions s) = Some x \<and> tx_status x = C_COMPLETED \<and>
     tx_subscription x = Some (sub_id sub) \<and> tx_customer x = Some (cu_id c) \<and>
     row_find sub_id (sub_id sub) (subscriptions s) = Some sub \<and> row_find cu_id (cu_id c) (customers s) = Some c \<and>
     row_find pk_id (sub_package sub) (packages s) = Some p \<and> sub_tenant sub = tx_tenant x \<and>
     pk_tenant p = tx_tenant x \<and> 1 \<le> simultaneous_sessions p)"

lemma activate_succeeds:
  assumes "activatable i s" "group_channel w = Up" "user_channel w = Up" "describe_transport cfg \<noteq> ''unavailable''"
  shows "\<exists>s'. activate w cfg i s = (Inr A_ACTIVE, s')"
proof -
  from assms(1) obtain x and sub :: subscription and c p where
    x: "row_find tx_id i (transactions s) = Some x" "tx_status x = C_COMPLETED"
      "tx_subscription x = Some (sub_id sub)" "tx_customer x = Some (cu_id c)"
    and rows: "row_find sub_id (sub_id sub) (subscriptions s) = Some sub" "row_find cu_id (cu_id c) (customers s) = Some c"
      "row_find pk_id (sub_package sub) (packages s) = Some p" "sub_tenant sub = tx_tenant x"
      "pk_tenant p = tx_tenant x" "1 \<le> simultaneous_sessions p"
    by (auto simp: activatable_def)
  have "\<exists>sub' s1. activate_paid_subscription w x s = (Inr (x\<lparr>activation_status := Some A_ACTIVATING\<rparr>, sub', c, p), s1)"
  proof (cases "sub_status sub = Sub_PENDING")
    case True
    have "\<exists>sub' s1. activate_subscription w (tx_tenant x) None (sub_id sub) u = (Inr sub', s1)"
      if "subscriptions u = subscriptions s" "packages u = packages s" for u
      unfolding activate_subscription_def update_subscription_def bnd_Inr thn_Inr find_package_def
      using that rows True by (simp add: get_by_id_Some write_audit_log_run)
    then show ?thesis
      unfolding activate_paid_subscription_def scalar_one_def bnd_Inr thn_Inr
      using x rows True by simp
  next
    case False
    then show ?thesis
      unfolding activate_paid_subscription_def scalar_one_def bnd_Inr thn_Inr
      using x rows by simp
  qed
  then obtain sub' s1 where paid: "activate_paid_subscription w x s =
      (Inr (x\<lparr>activation_status := Some A_ACTIVATING\<rparr>, sub', c, p), s1)" by blast
  show ?thesis
  proof (cases "activation_status x = Some A_ACTIVE")
    case True
    then show ?thesis
      unfolding activate_def find_transaction_def bnd_Inr thn_Inr using x by (simp add: get_by_id_Some)
  next
    case False
    then show ?thesis
      unfolding activate_def find_transaction_def bnd_Inr thn_Inr
      using x paid rows(6) assms(2-4)
      by (simp add: get_by_id_Some bnd_Inr thn_Inr except_Inr provision_access_Inr write_audit_log_run)
  qed
qed

lemma activatable_run:
  assumes ready: "activatable i s" and run: "run_activation w w' cfg i s = (r, s')"
  shows "activatable i s'"
proof -
  from ready obtain x and sub :: subscription and c p where
    x: "row_find tx_id i (transactions s) = Some x" "tx_status x = C_COMPLETED"
      "tx_subscription x = Some (sub_id sub)" "tx_customer x = Some (cu_id c)"
    and rows: "row_find sub_id (sub_id sub) (subscriptions s) = Some sub" "row_find cu_id (cu_id c) (customers s) = Some c"
      "row_find pk_id (sub_package sub) (packages s) = Some p" "sub_tenant sub = tx_tenant x"
      "pk_tenant p = tx_tenant x" "1 \<le> simultaneous_sessions p"
    by (auto simp: activatable_def)
  have id: "tx_id x = i" using x(1) by (auto dest: row_find_Some)
  have marked: "row_find tx_id i (row_put tx_id y (transactions s)) = Some y" if "payment_key y = payment_key x" for y :: transaction
    using row_find_put_same [of tx_id y "transactions s" x] x(1) id that by (simp add: payment_key_eq)
  show ?thesis
  proof (cases "r = Inr A_ACTIVE")
    case False
    note kept = failed_activation [OF run this]
    have "transactions s' = transactions s \<or>
        transactions s' = row_put tx_id (x\<lparr>activation_status := Some A_FAILED\<rparr>) (transactions s)"
      using kept x(1) by (auto split: sum.splits)
    then have "\<exists>y. row_find tx_id i (transactions s') = Some y \<and> tx_status y = C_COMPLETED \<and> payment_key y = payment_key x"
      using x(1,2) marked [of "x\<lparr>activation_status := Some A_FAILED\<rparr>"] by (auto simp: payment_key_eq)
    then show ?thesis
      using kept x rows unfolding activatable_def by (auto simp: payment_key_eq intro!: exI [of _ sub] exI [of _ c])
  next
    case True
    with run have "activate w cfg i s = (Inr A_ACTIVE, s')" by (auto dest: run_activation_active)
    then show ?thesis
    proof (cases rule: activation_shape)
      case (1 y)
      with ready show ?thesis by simp
    next
      case (2 y sub1 c1 p1 sub' sbs lg tr)
      let ?y = "x\<lparr>activation_status := Some A_ACTIVE, tx_activated_at := Some (now w)\<rparr>"
      have y: "y = x" "sub1 = sub" using 2(2,5,7) x rows(1) by auto
      have same: "customers s' = customers s" "packages s' = packages s" "subscriptions s' = sbs"
        "transactions s' = row_put tx_id ?y (transactions s)"
        by (subst 2(14), simp add: y)+
      have "row_find sub_id (sub_id sub) sbs = Some sub'" "sub_package sub' = sub_package sub" "sub_tenant sub' = sub_tenant sub"
        using 2(10,12) rows(1) row_find_put_same [of sub_id sub' "subscriptions s" sub] by (auto simp: y)
      moreover have "row_find tx_id i (transactions s') = Some ?y"
        using marked [of ?y] by (simp add: same payment_key_eq)
      ultimately show ?thesis
        unfolding activatable_def same(1-3) using x rows 2(10) y
        by (intro exI [of _ ?y] exI [of _ sub'] exI [of _ c] exI [of _ p]) simp
    qed
  qed
qed

text \<open>C18: Access is only a matter of time: for a completed payment whose subscription, customer and
  package exist, an activation while RADIUS is reachable ends ACTIVE, whatever earlier attempts did:
  failed, cut off halfway, or carried out already.\<close>

theorem access_granted_after_retries:
  assumes "activatable i s" "group_channel w = Up" "user_channel w = Up" "describe_transport cfg \<noteq> ''unavailable''"
  shows "fst (run_activation w w' cfg i
    (fold (\<lambda>(v, v') u. snd (run_activation v v' cfg i u)) earlier s)) = Inr A_ACTIVE"
proof -
  have "activatable i (fold (\<lambda>(v, v') u. snd (run_activation v v' cfg i u)) earlier s)"
    using assms(1)
  proof (induction earlier arbitrary: s)
    case (Cons a earlier)
    obtain v v' where a: "a = (v, v')" by force
    have "activatable i (snd (run_activation v v' cfg i s))"
      using activatable_run [OF Cons.prems, of v v' cfg] by (cases "run_activation v v' cfg i s") simp
    from Cons.IH [OF this] show ?case by (simp add: a)
  qed simp
  from activate_succeeds [OF this assms(2-4)] show ?thesis
    by (auto simp: run_activation_def)
qed

theorem access_granted_after_retries_witness:
  "fst (run_activation portal_io portal_io portal_cfg 7
     (fold (\<lambda>(v, v') u. snd (run_activation v v' portal_cfg 7 u))
        [(portal_io\<lparr>group_channel := Down\<rparr>, portal_io), (portal_io\<lparr>user_channel := AnswerLost\<rparr>, portal_io)]
        settled_db)) = Inr A_ACTIVE"
proof (rule access_granted_after_retries)
  from run_here obtain x and sub :: subscription and c where
    "transactions settled_db = [x]" "subscriptions settled_db = [sub]" "customers settled_db = [c]"
    "tx_id x = 7" "tx_status x = C_COMPLETED" "tx_tenant x = 7" "tx_subscription x = Some 5" "tx_customer x = Some 4"
    "sub_id sub = 5" "sub_tenant sub = 7" "sub_package sub = 31" "cu_id c = 4" "packages settled_db = packages portal_db"
    by (auto simp: map_eq_Cons_conv)
  then show "activatable 7 settled_db"
    unfolding activatable_def by (intro exI [of _ x] exI [of _ sub] exI [of _ c]) (simp add: row_find_def portal_db_def)
qed (simp_all add: describe_transport_def portal_io_def sample_io_def portal_cfg_def)

end
