(* ===== verification/Rate_Limits.thy ===== *)
theory Rate_Limits
  imports Payments
begin












subsection \<open>The counters\<close>




lemma phone_number_key: "rate_key ''phone'' m b = rate_key ''phone'' n b \<longleftrightarrow> m = n"
  by (simp add: rate_key_def)


subsection \<open>Many purchases\<close>








end
