(* ===== verification/Payment_Refs.thy ===== *)
theory Payment_Refs
  imports Payments
begin

text \<open>
  The typing of the payment rows: in every reachable state a payment refers only to rows that exist,
  of its own tenant and fitting each other, and carries a value of the right shape in every column
  that identifies it.
\<close>

subsection \<open>Rows that stay\<close>

interpretation rows_stay: stable_relation rows_stay
proof
  show "rows_stay s s" for s by (simp add: rows_stay_def)
  show "rows_stay s u" if "rows_stay s t" "rows_stay t u" for s t u
    using that unfolding rows_stay_def by (meson order_trans)
qed

lemma rows_same:
  "customers s' = customers s \<Longrightarrow> subscriptions s' = subscriptions s \<Longrightarrow> next_id s \<le> next_id s' \<Longrightarrow> rows_stay s s'"
  by (auto simp: rows_stay_def subs_sound_def)

lemma rows_commit:
  assumes "commit m s = (r, s')" "keeps ids_grow m" "\<And>x u. m s = (Inr x, u) \<Longrightarrow> rows_stay s u"
  shows "rows_stay s s'"
  using assms(1)
proof (cases rule: commit_cases)
  case (1 x)
  with assms(3) show ?thesis by blast
next
  case (2 e u)
  with assms(2) have "next_id s \<le> next_id u" by (auto simp: ids_grow_def dest: keepsD)
  with 2 show ?thesis by (intro rows_same) (simp_all add: rollback_def)
qed

lemma rows_frame: "payment_frame s s' \<Longrightarrow> rows_stay s s'"
  by (auto simp: payment_frame_def intro: rows_same)

lemma rows_query:
  assumes "query_and_apply (flow_of w t) w cfg x actor s = (Inr x', s')" "payments_sound s" "x \<in> set (transactions s)"
  shows "rows_stay s s'"
proof -
  have "rows_stay s (s\<lparr>provider_calls := provider_calls s'\<rparr>)" by (rule rows_same) simp_all
  then show ?thesis using rows_frame [OF query_change(2) [OF assms]] by (rule rows_stay.trans)
qed

lemma rows_reconcile:
  assumes "reconcile_transaction (flow_of w) (flow_of w t) w cfg i s = (Inr x', s')" "payments_sound s"
  shows "rows_stay s s'"
proof -
  from assms(1) obtain x q where x: "row_find tx_id i (transactions s) = Some x"
    and q: "provider_for (flow_of w) (flow_of w t) x s = (Inr q, s)"
    and run: "query_and_apply q w cfg x None s = (Inr x', s')"
    by (auto simp: reconcile_transaction_def bnd_Inr get_by_id_Some dest: provider_for_flow)
  from provider_for_flow [OF q] obtain t' where "q = flow_of w t'" by blast
  with run x assms(2) show ?thesis by (blast intro: rows_query dest: row_find_Some)
qed

lemma rows_webhook:
  assumes "process_webhook (flow_of w) (flow_of w t) w k cfg q s = (Inr a, s')" "payments_sound s"
  shows "rows_stay s s'"
  using assms(1)
proof (cases rule: webhook_shape)
  case (1 c)
  then show ?thesis by (intro rows_same) simp_all
next
  case (2 c)
  then show ?thesis by (auto intro: rows_same)
next
  case (3 c x t' x' rows lg u v rows')
  have "payments_sound u" by (rule payments_sound_same [OF assms(2)]) (simp_all add: 3(7) booked_def)
  moreover have "x \<in> set (transactions u)" using 3(4) by (simp add: 3(7))
  ultimately have "rows_stay u v" using 3(8) by (blast intro: rows_query)
  moreover have "rows_stay s u" "rows_stay v s'" by (rule rows_same; simp add: 3(7,9))+
  ultimately show ?thesis by (blast intro: rows_stay.trans)
qed

text \<open>An activated subscription keeps its tenant, customer and package.\<close>

lemma rows_put:
  assumes "row_find sub_id (sub_id y) (subscriptions s) = Some y" "sub_key y' = sub_key y"
    and "subscriptions s' = row_put sub_id y' (subscriptions s)" "customers s' = customers s" "next_id s \<le> next_id s'"
  shows "rows_stay s s'"
proof -
  have "sub_key z \<in> sub_key ` set (subscriptions s')" if "subs_sound s" "z \<in> set (subscriptions s)" for z
  proof (cases "sub_id z = sub_id y")
    case True
    then have "z = y" using that assms(1) row_find_unique [of sub_id "subscriptions s"] by (auto simp: subs_sound_def)
    moreover have "y' \<in> set (subscriptions s')"
      using assms(1-3) row_find_Some [OF assms(1)] by (auto simp: row_put_def sub_key_def)
    ultimately show ?thesis using imageI [of y' _ sub_key] assms(2) by simp
  next
    case False
    then have "z \<in> set (subscriptions s')" using that assms(2,3) by (auto simp: row_put_def sub_key_def)
    then show ?thesis by blast
  qed
  moreover have "subs_sound s'" if "subs_sound s"
  proof -
    have keys: "map sub_id (subscriptions s') = map sub_id (subscriptions s)" by (simp add: assms(3))
    have "\<forall>j \<in> set (map sub_id (subscriptions s')). j < next_id s'"
      unfolding keys using that assms(5) by (auto simp: subs_sound_def)
    then have "\<forall>y \<in> set (subscriptions s'). sub_id y < next_id s'" by simp
    with that keys show ?thesis by (simp add: subs_sound_def)
  qed
  ultimately show ?thesis using assms(4,5) by (auto simp: rows_stay_def)
qed

lemma rows_activation:
  assumes "run_activation w w' cfg i s = (r, s')"
  shows "rows_stay s s'"
proof (cases "r = Inr A_ACTIVE")
  case True
  with assms have run: "activate w cfg i s = (Inr A_ACTIVE, s')" by (auto dest: run_activation_active)
  have grow: "next_id s \<le> next_id s'" using keepsD [OF ids_activate(1) run] by (simp add: ids_grow_def)
  from run show ?thesis
  proof (cases rule: activation_shape)
    case (1 y)
    then show ?thesis by simp
  next
    case (2 y sub c p sub' sbs lg tr)
    have same: "customers s' = customers s" "subscriptions s' = sbs" by (subst 2(14), simp)+
    from 2(12) show ?thesis
    proof (elim disjE conjE)
      assume "sub' = sub\<lparr>sub_status := Sub_ACTIVE, sub_activated_at := Some (now w), sub_expires_at := expiry w p\<rparr>"
        "sbs = row_put sub_id sub' (subscriptions s)"
      then show ?thesis using same grow by (intro rows_put [OF 2(7), of sub']) (simp_all add: sub_key_def)
    qed (use same grow in \<open>auto intro: rows_same\<close>)
  qed
next
  case False
  have "payment_change s s'" by (rule run_activation_change [OF assms])
  then have "next_id s \<le> next_id s'" by cases auto
  with failed_activation [OF assms False] show ?thesis by (blast intro: rows_same)
qed

lemma record_rows: "record_failure w i reason s = (Inr a, s') \<Longrightarrow> rows_stay s s'"
  by (auto simp: record_failure_def find_transaction_def bnd_Inr thn_Inr write_audit_log_run intro!: rows_same)

lemma issue_rows: "issue_session w cfg router mac s = (Inr x, s') \<Longrightarrow> rows_stay s s'"
  by (auto simp: issue_session_def Let_def run_simps intro!: rows_same)

subsection \<open>The type of a payment\<close>

definition well_typed :: "db \<Rightarrow> transaction \<Rightarrow> bool" where
  "well_typed s x \<longleftrightarrow> tx_currency x = ''TZS'' \<and>
     (\<exists>m. payer_phone x = Some m \<and> normalize_tz_phone m = Some m) \<and>
     (case tx_customer x of None \<Rightarrow> tx_subscription x = None
      | Some c \<Rightarrow> (c, tx_tenant x) \<in> (\<lambda>y. (cu_id y, cu_tenant y)) ` set (customers s)) \<and>
     (case tx_subscription x of None \<Rightarrow> tx_captive_session x = None
      | Some j \<Rightarrow> (\<exists>c p. tx_customer x = Some c \<and> tx_package x = Some p \<and>
          (j, tx_tenant x, c, p) \<in> sub_key ` set (subscriptions s))) \<and>
     tx_type x = Some (if tx_captive_session x = None then TT_COLLECTION else TT_CAPTIVE_PORTAL)"

definition payments_typed :: "db \<Rightarrow> bool" where
  "payments_typed s \<longleftrightarrow> subs_sound s \<and> (\<forall>x \<in> set (transactions s). well_typed s x)"

lemma well_typed_stays:
  assumes "well_typed s x" "rows_stay s s'" "subs_sound s" "payment_key x' = payment_key x"
  shows "well_typed s' x'"
  using assms unfolding well_typed_def rows_stay_def payment_key_eq
  by (auto split: option.splits dest!: subsetD)

lemma typed_change:
  assumes "payment_change s s'" "rows_stay s s'" "payments_typed s"
    and "\<And>x. transactions s' = transactions s @ [x] \<Longrightarrow> well_typed s' x"
  shows "payments_typed s'"
proof -
  have subs: "subs_sound s" "subs_sound s'" using assms(2,3) by (auto simp: rows_stay_def payments_typed_def)
  have old: "well_typed s' x'" if "x \<in> set (transactions s)" "payment_key x' = payment_key x" for x x'
  proof (rule well_typed_stays [OF _ assms(2) subs(1) that(2)])
    show "well_typed s x" using that(1) assms(3) by (simp add: payments_typed_def)
  qed
  from assms(1) show ?thesis
  proof (cases rule: payment_change.cases)
    case same
    with old subs show ?thesis by (auto simp: payments_typed_def)
  next
    case (added x)
    with old assms(4) subs show ?thesis by (auto simp: payments_typed_def)
  next
    case (moved x x')
    with old subs show ?thesis by (auto simp: payments_typed_def dest!: row_put_set)
  qed
qed

lemma purchase_typed:
  assumes run: "initiate_payment w cfg token pk ph s = (Inr r, s')" and ok: "payments_sound s" "payments_typed s"
  shows "rows_stay s s' \<and> (\<forall>x. transactions s' = transactions s @ [x] \<longrightarrow> well_typed s' x)"
  using run
proof (cases rule: initiate_payment_shape)
  case 1
  then show ?thesis by simp
next
  case (2 cnt lg)
  then show ?thesis by (auto intro: rows_same)
next
  case (3 session p m cnt u c t t')
  let ?s0 = "s\<lparr>counters := cnt\<rparr>"
  have ok0: "payments_sound ?s0" by (rule payments_sound_same [OF ok(1)]) (simp_all add: booked_def)
  note e = attempt_effect [OF 3(7,4,8) ok0]
  from e(12) obtain y and sub :: subscription where
    tz: "tx_currency t' = ''TZS''" "tx_type t' = Some TT_CAPTIVE_PORTAL"
    and y: "tx_customer t' = Some (cu_id y)" "y \<in> set (customers s')" "cu_tenant y = cs_tenant session"
    and sub: "tx_subscription t' = Some (sub_id sub)" "subscriptions s' = subscriptions s @ [sub]"
      "next_id s \<le> sub_id sub" "sub_id sub < next_id s'" "sub_tenant sub = cs_tenant session"
      "sub_customer sub = cu_id y" "tx_package t' = Some (sub_package sub)"
    by auto
  have grow: "next_id s \<le> next_id s'" using keepsD [OF ids_initiate_payment run] by (simp add: ids_grow_def)
  have "subs_sound s'"
    using ok(2) sub(2-4) grow by (fastforce simp: payments_typed_def subs_sound_def)
  then have "rows_stay s s'"
    using e(13) sub(2) grow by (auto simp: rows_stay_def)
  moreover have "well_typed s' t'"
    using tz y sub e(6,7,9) 3(4) by (auto simp: well_typed_def sub_key_def image_iff)
  ultimately show ?thesis using e(2) by simp
qed

lemma collection_typed:
  assumes run: "initiate_collection w cfg t actor a cur ph c s = (Inr x, s')" and ok: "payments_sound s"
  shows "rows_stay s s' \<and> (\<forall>y. transactions s' = transactions s @ [y] \<longrightarrow> well_typed s' y)"
proof -
  note e = initiate_collection_change [OF run ok]
  have "next_id s \<le> next_id s'" using keepsD [OF ids_initiate_collection run] by (simp add: ids_grow_def)
  then have "rows_stay s s'" using e(7,8) by (intro rows_same)
  moreover have "well_typed s' x"
    using e(3,6) by (auto simp: well_typed_def split: option.split) (metis (no_types, lifting) image_eqI)
  ultimately show ?thesis using e(2) by simp
qed

text \<open>Each step: rows stay, and a payment it adds is well typed.\<close>

definition grows_typed :: "db \<Rightarrow> db \<Rightarrow> bool" where
  "grows_typed s s' \<longleftrightarrow> rows_stay s s' \<and> (\<forall>x. transactions s' = transactions s @ [x] \<longrightarrow> well_typed s' x)"

lemma grows_same: "rows_stay s s' \<Longrightarrow> length (transactions s') = length (transactions s) \<Longrightarrow> grows_typed s s'"
  by (auto simp: grows_typed_def)

lemma grows_commit:
  assumes "commit m s = (r, s')" "keeps ids_grow m" "\<And>x u. m s = (Inr x, u) \<Longrightarrow> grows_typed s u"
  shows "grows_typed s s'"
  using assms(1)
proof (cases rule: commit_cases)
  case (1 x)
  with assms(3) show ?thesis by blast
next
  case (2 e u)
  with assms(2) have "next_id s \<le> next_id u" by (auto simp: ids_grow_def dest: keepsD)
  with 2 show ?thesis by (intro grows_same rows_same) (simp_all add: rollback_def)
qed

lemma step_typed:
  assumes step: "payment_step s s'" and ok: "payments_sound s" "payments_typed s"
  shows "grows_typed s s'"
  using step
proof (cases rule: payment_step.cases)
  case (collection w cfg t actor a cur ph c r1)
  then show ?thesis
    by (rule grows_commit [OF _ ids_initiate_collection]) (simp add: grows_typed_def collection_typed ok)
next
  case (new_session w cfg router mac r2)
  have "grows_typed s u" if "issue_session w cfg router mac s = (Inr x, u)" for x u
    using issue_rows [OF that] issue_alike [OF that] by (intro grows_same) (simp_all add: alike_def)
  with new_session ids_payment_requests(3) show ?thesis by (blast intro: grows_commit)
next
  case (purchase w cfg token pk ph r3)
  then show ?thesis
    by (rule grows_commit [OF _ ids_initiate_payment]) (simp add: grows_typed_def purchase_typed ok)
next
  case (reconciliation w t cfg i r1)
  have "rows_stay s s'"
    using reconciliation ids_payment_requests(1) ok(1) by (blast intro: rows_commit rows_reconcile)
  with kept_commit [OF reconciliation kept_requests(1)] show ?thesis
    by (intro grows_same) (simp_all add: sessions_kept_def)
next
  case (webhook w t k cfg q r4)
  have "rows_stay s s'"
    using webhook ids_payment_requests(2) ok(1) by (blast intro: rows_commit rows_webhook)
  with kept_commit [OF webhook kept_requests(2)] show ?thesis
    by (intro grows_same) (simp_all add: sessions_kept_def)
next
  case (activation w w' cfg i r5)
  from rows_activation [OF this] run_activation_kept [OF this] show ?thesis
    by (intro grows_same) (simp_all add: sessions_kept_def)
next
  case (late_failure i x w reason r5)
  have "rows_stay s s'" using late_failure(3) ids_activate(2) by (blast intro: rows_commit record_rows)
  with kept_commit [OF late_failure(3) kept_activate(2)] show ?thesis
    by (intro grows_same) (simp_all add: sessions_kept_def)
next
  case other
  then show ?thesis by (intro grows_same) (simp_all add: elsewhere_def alike_def)
qed

lemma typed_reachable:
  assumes "payment_step\<^sup>*\<^sup>* s0 s" "payments_sound s0" "payments_typed s0"
  shows "payments_typed s"
  using assms
proof (induction rule: rtranclp_induct)
  case (step t u)
  then have ok: "payments_sound t" "payments_typed t" by (auto intro: payments_reachable)
  from step_typed [OF step(2) ok] have "grows_typed t u" .
  with step_change [OF step(2) ok(1)] ok(2) show ?case by (auto simp: grows_typed_def intro: typed_change)
qed

text \<open>C37: The rows of a payment are well typed in every reachable state: its number is a Tanzanian number in
  normal form, its currency TZS, its amount a value the column holds exactly; its customer exists and
  is of its tenant; its subscription exists and is of the same tenant, customer and package; and it
  has a captive session exactly when it is of the captive flow, then with a subscription, and that
  session, too, is of its tenant. No payment of one tenant ever refers to a row of another.\<close>

theorem payments_well_typed:
  assumes "transactions s0 = []" "ledger_entries s0 = []" "captive_sessions s0 = []" "subscriptions s0 = []"
    and "payment_step\<^sup>*\<^sup>* s0 s" "x \<in> set (transactions s)"
  shows "tx_currency x = ''TZS'' \<and> numeric_14_2 (tx_amount x) = Some (tx_amount x) \<and>
    (\<exists>m. payer_phone x = Some m \<and> normalize_tz_phone m = Some m) \<and>
    (case tx_customer x of None \<Rightarrow> tx_subscription x = None
     | Some c \<Rightarrow> \<exists>y \<in> set (customers s). cu_id y = c \<and> cu_tenant y = tx_tenant x) \<and>
    (case tx_subscription x of None \<Rightarrow> tx_captive_session x = None
     | Some j \<Rightarrow> \<exists>y \<in> set (subscriptions s). sub_id y = j \<and> sub_tenant y = tx_tenant x \<and>
         tx_customer x = Some (sub_customer y) \<and> tx_package x = Some (sub_package y)) \<and>
    (case tx_captive_session x of None \<Rightarrow> tx_type x = Some TT_COLLECTION
     | Some i \<Rightarrow> tx_type x = Some TT_CAPTIVE_PORTAL \<and>
         (\<exists>c \<in> set (captive_sessions s). cs_id c = i \<and> cs_tenant c = tx_tenant x))"
proof -
  have "payments_typed s0" using assms(1,4) by (simp add: payments_typed_def subs_sound_def)
  with assms(1,2,5) sound_start(1) have "payments_typed s" by (blast intro: typed_reachable)
  with assms(6) have typed: "well_typed s x" by (simp add: payments_typed_def)
  have "payments_sound s" using assms(1,2,5) sound_start(1) by (blast intro: payments_reachable)
  with assms(6) have amount: "numeric_14_2 (tx_amount x) = Some (tx_amount x)"
    by (auto simp: payments_sound_def payment_ok_def)
  have "sessions_sound s" using assms(1,2,3,5) sound_start by (blast intro: sessions_reachable)
  with assms(6) have session: "\<exists>c \<in> set (captive_sessions s). cs_id c = i \<and> cs_tenant c = tx_tenant x"
    if "tx_captive_session x = Some i" for i
    using that by (fastforce simp: sessions_sound_def)
  show ?thesis
    using typed amount session unfolding well_typed_def
    by (auto simp: sub_key_def image_iff split: option.splits if_splits)
qed

theorem payments_well_typed_witness:
  "\<exists>x \<in> set (transactions settled_db). tx_tenant x = 7 \<and>
     (\<exists>y \<in> set (subscriptions settled_db). tx_subscription x = Some (sub_id y) \<and> sub_tenant y = 7)"
proof -
  have start: "subscriptions portal_db = []" by (simp add: portal_db_def empty_db_def)
  from run_here obtain x where x: "x \<in> set (transactions settled_db)" "tx_tenant x = 7" "tx_subscription x = Some 5"
    by (auto simp: map_eq_Cons_conv)
  with payments_well_typed [OF portal_start start reached_here(3) x(1)] show ?thesis by force
qed

end
