(* ===== verification/Request_Signing.thy ===== *)
theory Request_Signing
  imports Samples
begin

text \<open>
  The two internal request signatures: the API's requests to the network agent
  (\<^verbatim>\<open>integrations/network_agent/signing.py\<close>, checked by the agent's \<^verbatim>\<open>core/security.py\<close> with
  \<^verbatim>\<open>core/nonce_cache.py\<close>), and the worker's requests to the API (\<^verbatim>\<open>core/internal_auth.py\<close>, with Redis as the
  memory of nonces). SHA-256 and HMAC, as hexadecimal text, are a parameter; texts stand for their
  UTF-8 encoding. What both verifiers promise about replays is the locale \<open>replay_guard\<close>.
\<close>

subsection \<open>Messages\<close>

record crypto =
  sha256_hex :: "string \<Rightarrow> string"
  hmac_hex :: "string \<Rightarrow> string \<Rightarrow> string"

text \<open>Wall clock and monotonic clock, in microseconds; \<^verbatim>\<open>int(time.time())\<close> drops the fraction.\<close>

record clock =
  wall_clock :: time
  mono_clock :: time

definition unix_now :: "clock \<Rightarrow> int" where
  "unix_now c = wall_clock c div 1000000"

definition newline :: char where
  "newline = CHR 0x0A"

definition canonical_message :: "crypto \<Rightarrow> string \<Rightarrow> string \<Rightarrow> string \<Rightarrow> string \<Rightarrow> string \<Rightarrow> string" where
  "canonical_message k timestamp nonce meth path body =
     timestamp @ [newline] @ nonce @ [newline] @ upper meth @ [newline] @ path @ [newline] @ sha256_hex k body"

record signed_request =
  rq_timestamp :: "string option"
  rq_nonce :: "string option"
  rq_signature :: "string option"
  rq_method :: string
  rq_path :: string
  rq_query :: string
  rq_body :: string

definition sign_request :: "crypto \<Rightarrow> clock \<Rightarrow> string \<Rightarrow> string \<Rightarrow> string \<Rightarrow> string \<Rightarrow> string \<Rightarrow> signed_request" where
  "sign_request k c nonce key meth path body =
     (let timestamp = int_str (unix_now c) in
      \<lparr>rq_timestamp = Some timestamp, rq_nonce = Some nonce,
       rq_signature = Some (hmac_hex k key (canonical_message k timestamp nonce meth path body)),
       rq_method = meth, rq_path = path, rq_query = [], rq_body = body\<rparr>)"

text \<open>The worker signs the same way, with the secret of its own trust boundary.\<close>

definition sign_internal_request ::
    "crypto \<Rightarrow> clock \<Rightarrow> string \<Rightarrow> string \<Rightarrow> string \<Rightarrow> string \<Rightarrow> string \<Rightarrow> signed_request" where
  "sign_internal_request k c nonce secret meth path body =
     (let timestamp = int_str (unix_now c);
          message = canonical_message k timestamp nonce meth path body in
      \<lparr>rq_timestamp = Some timestamp, rq_nonce = Some nonce, rq_signature = Some (hmac_hex k secret message),
       rq_method = meth, rq_path = path, rq_query = [], rq_body = body\<rparr>)"

subsection \<open>The nonce cache\<close>

type_synonym nonces = "(string \<times> time) list"

definition purge_expired :: "time \<Rightarrow> nonces \<Rightarrow> nonces" where
  "purge_expired t seen = filter (\<lambda>(_, expires). \<not> expires \<le> t) seen"

definition seen_before :: "int \<Rightarrow> clock \<Rightarrow> string \<Rightarrow> nonces \<Rightarrow> bool \<times> nonces" where
  "seen_before ttl_seconds c nonce seen =
     (let live = purge_expired (mono_clock c) seen in
      if nonce \<in> fst ` set live then (True, live)
      else (False, live @ [(nonce, mono_clock c + seconds ttl_seconds)]))"

subsection \<open>The agent's check\<close>

record agent_settings =
  agent_api_key_current :: string
  agent_api_key_previous :: "string option"
  request_max_skew_seconds :: int
  nonce_cache_ttl_seconds :: int

definition active_signing_keys :: "agent_settings \<Rightarrow> string list" where
  "active_signing_keys cfg =
     agent_api_key_current cfg #
       (if truthy (agent_api_key_previous cfg) then [the (agent_api_key_previous cfg)] else [])"

fun signature_is_valid :: "crypto \<Rightarrow> string \<Rightarrow> string \<Rightarrow> string list \<Rightarrow> bool" where
  "signature_is_valid k message signature [] = False"
| "signature_is_valid k message signature (key # keys) =
     (if hmac_hex k key message = signature then True else signature_is_valid k message signature keys)"

text \<open>Every refusal is a 401 with a detail text; \<open>None\<close> is acceptance.\<close>

definition verify_agent_signature ::
    "crypto \<Rightarrow> agent_settings \<Rightarrow> clock \<Rightarrow> signed_request \<Rightarrow> nonces \<Rightarrow> string option \<times> nonces" where
  "verify_agent_signature k cfg c q seen =
     (if \<not> (truthy (rq_timestamp q) \<and> truthy (rq_nonce q) \<and> truthy (rq_signature q))
      then (Some ''Missing request signature headers'', seen)
      else case int_parse (the (rq_timestamp q)) of
        None \<Rightarrow> (Some ''Invalid timestamp'', seen)
      | Some request_time \<Rightarrow>
          if \<bar>unix_now c - request_time\<bar> > request_max_skew_seconds cfg
          then (Some ''Request timestamp outside allowed skew'', seen)
          else
            let path = (if rq_query q \<noteq> [] then rq_path q @ ''?'' @ rq_query q else rq_path q);
                message = canonical_message k (the (rq_timestamp q)) (the (rq_nonce q)) (rq_method q) path (rq_body q) in
            if \<not> signature_is_valid k message (the (rq_signature q)) (active_signing_keys cfg)
            then (Some ''Invalid signature'', seen)
            else case seen_before (nonce_cache_ttl_seconds cfg) c (the (rq_nonce q)) seen of
              (True, seen') \<Rightarrow> (Some ''Nonce already used (replay)'', seen')
            | (False, seen') \<Rightarrow> (None, seen'))"

subsection \<open>The API's check\<close>

definition NONCE_TTL_SECONDS :: int where
  "NONCE_TTL_SECONDS = 300"

definition NONCE_KEY_PREFIX :: string where
  "NONCE_KEY_PREFIX = ''internal-auth-nonce:''"

text \<open>\<^verbatim>\<open>SET key NX EX\<close> on Redis, whose clock is the monotonic one here: refused while the key lives.\<close>

definition set_nx_ex :: "clock \<Rightarrow> string \<Rightarrow> int \<Rightarrow> nonces \<Rightarrow> bool \<times> nonces" where
  "set_nx_ex c key ttl_seconds redis =
     (let live = filter (\<lambda>(_, expires). mono_clock c < expires) redis in
      if key \<in> fst ` set live then (False, live)
      else (True, live @ [(key, mono_clock c + seconds ttl_seconds)]))"

definition verify_internal_request ::
    "crypto \<Rightarrow> string \<Rightarrow> int \<Rightarrow> clock \<Rightarrow> signed_request \<Rightarrow> nonces \<Rightarrow> string option \<times> nonces" where
  "verify_internal_request k secret max_skew_seconds c q redis =
     (if \<not> (truthy (rq_timestamp q) \<and> truthy (rq_nonce q) \<and> truthy (rq_signature q))
      then (Some ''missing signature headers'', redis)
      else case int_parse (the (rq_timestamp q)) of
        None \<Rightarrow> (Some ''invalid timestamp'', redis)
      | Some request_time \<Rightarrow>
          if \<bar>unix_now c - request_time\<bar> > max_skew_seconds then (Some ''timestamp outside tolerance'', redis)
          else
            let expected = hmac_hex k secret (canonical_message k (the (rq_timestamp q)) (the (rq_nonce q))
                  (rq_method q) (rq_path q) (rq_body q)) in
            if expected \<noteq> the (rq_signature q) then (Some ''signature mismatch'', redis)
            else case set_nx_ex c (NONCE_KEY_PREFIX @ the (rq_nonce q)) NONCE_TTL_SECONDS redis of
              (False, redis') \<Rightarrow> (Some ''nonce already used'', redis')
            | (True, redis') \<Rightarrow> (None, redis'))"

text \<open>The dependency: the HTTP status it answers with, \<open>None\<close> when the request may proceed.\<close>

definition require_internal_auth ::
    "crypto \<Rightarrow> string option \<Rightarrow> int \<Rightarrow> clock \<Rightarrow> signed_request \<Rightarrow> nonces \<Rightarrow> nat option \<times> nonces" where
  "require_internal_auth k key max_skew_seconds c q redis =
     (if \<not> truthy key then (Some 503, redis)
      else case verify_internal_request k (the key) max_skew_seconds c q redis of
        (None, redis') \<Rightarrow> (None, redis')
      | (Some _, redis') \<Rightarrow> (Some 401, redis'))"

subsection \<open>What protects from replays\<close>

definition stamp :: "signed_request \<Rightarrow> string \<times> string" where
  "stamp q = (the (rq_timestamp q), the (rq_nonce q))"

text \<open>A sequence of requests with the time each arrives: the stamps of those accepted.\<close>

fun accepted :: "(clock \<Rightarrow> signed_request \<Rightarrow> nonces \<Rightarrow> 'e option \<times> nonces) \<Rightarrow> (clock \<times> signed_request) list \<Rightarrow>
    nonces \<Rightarrow> (string \<times> string) list" where
  "accepted verify [] seen = []"
| "accepted verify ((c, q) # rest) seen =
     (case verify c q seen of (answer, seen') \<Rightarrow>
        (if answer = None then [stamp q] else []) @ accepted verify rest seen')"

text \<open>The clocks run together, from a common start, and never back.\<close>

definition clocks_run :: "time \<Rightarrow> clock list \<Rightarrow> bool" where
  "clocks_run boot cs \<longleftrightarrow> sorted (map mono_clock cs) \<and> (\<forall>c \<in> set cs. wall_clock c = mono_clock c + boot)"

lemma unix_now_iff: "seconds m \<le> wall_clock c \<longleftrightarrow> m \<le> unix_now c"
proof -
  have "wall_clock c = unix_now c * 1000000 + wall_clock c mod 1000000" by (simp add: unix_now_def)
  moreover have "0 \<le> wall_clock c mod 1000000" "wall_clock c mod 1000000 < 1000000" by simp_all
  ultimately show ?thesis unfolding seconds_def by linarith
qed

locale replay_guard =
  fixes verify :: "clock \<Rightarrow> signed_request \<Rightarrow> nonces \<Rightarrow> 'e option \<times> nonces"
    and key :: "string \<Rightarrow> string" and skew ttl :: int
  assumes recent: "verify c q seen = (None, seen') \<Longrightarrow>
      \<exists>t. int_parse (fst (stamp q)) = Some t \<and> \<bar>unix_now c - t\<bar> \<le> skew \<and>
        (key (snd (stamp q)), mono_clock c + seconds ttl) \<in> set seen'"
    and unused: "verify c q seen = (None, seen') \<Longrightarrow> (key (snd (stamp q)), e) \<in> set seen \<Longrightarrow> e \<le> mono_clock c"
    and kept: "verify c q seen = (a, seen') \<Longrightarrow> (n, e) \<in> set seen \<Longrightarrow> mono_clock c < e \<Longrightarrow> (n, e) \<in> set seen'"
begin

text \<open>After the last instant at which its time stamp is within the skew, a request is refused.\<close>

lemma too_late:
  assumes "int_parse ts = Some t" "clocks_run boot (map fst es)"
    and "\<forall>c \<in> fst ` set es. seconds (t + skew + 1) - boot \<le> mono_clock c"
  shows "(ts, n) \<notin> set (accepted verify es seen)"
  using assms(2,3)
proof (induction es arbitrary: seen)
  case (Cons a es)
  obtain c q where a: "a = (c, q)" by (cases a)
  obtain r seen' where v: "verify c q seen = (r, seen')" by (cases "verify c q seen")
  have "t + skew + 1 \<le> unix_now c"
    using Cons.prems by (simp add: a clocks_run_def unix_now_iff [symmetric])
  then have "stamp q \<noteq> (ts, n)" if "r = None"
    using recent [OF v [unfolded that]] assms(1) by auto
  moreover have "(ts, n) \<notin> set (accepted verify es seen')"
    using Cons.prems by (intro Cons.IH) (simp_all add: clocks_run_def)
  ultimately show ?case by (cases r) (auto simp: a v)
qed simp

text \<open>While its nonce is remembered, too.\<close>

lemma remembered:
  assumes "int_parse ts = Some t" "clocks_run boot (map fst es)"
    and "(key n, e) \<in> set seen" "seconds (t + skew + 1) - boot \<le> e"
  shows "(ts, n) \<notin> set (accepted verify es seen)"
  using assms(2,3)
proof (induction es arbitrary: seen)
  case (Cons a es)
  obtain c q where a: "a = (c, q)" by (cases a)
  obtain r seen' where v: "verify c q seen = (r, seen')" by (cases "verify c q seen")
  show ?case
  proof (cases "mono_clock c < e")
    case True
    have "stamp q \<noteq> (ts, n)" if "r = None"
      using unused [OF v [unfolded that], of e] Cons.prems(2) True by auto
    moreover have "(key n, e) \<in> set seen'" using kept [OF v Cons.prems(2) True] .
    moreover have "(ts, n) \<notin> set (accepted verify es seen')" if "(key n, e) \<in> set seen'"
      using Cons.IH [OF _ that] Cons.prems(1) by (simp add: clocks_run_def)
    ultimately show ?thesis by (cases r) (auto simp: a v)
  next
    case False
    then have "\<forall>d \<in> fst ` set (a # es). seconds (t + skew + 1) - boot \<le> mono_clock d"
      using Cons.prems(1) assms(4) by (force simp: a clocks_run_def)
    with assms(1) Cons.prems(1) show ?thesis by (rule too_late)
  qed
qed simp

lemma accepted_once:
  assumes "clocks_run boot (map fst es)" "2 * skew + 1 \<le> ttl"
  shows "distinct (accepted verify es seen)"
  using assms(1)
proof (induction es arbitrary: seen)
  case (Cons a es)
  obtain c q where a: "a = (c, q)" by (cases a)
  obtain r seen' where v: "verify c q seen = (r, seen')" by (cases "verify c q seen")
  have rest: "distinct (accepted verify es seen')" using Cons by (simp add: clocks_run_def)
  show ?case
  proof (cases "r = None")
    case True
    with v have v: "verify c q seen = (None, seen')" by simp
    obtain ts n where s: "stamp q = (ts, n)" by (cases "stamp q")
    from recent [OF v] obtain t where t: "int_parse ts = Some t" "\<bar>unix_now c - t\<bar> \<le> skew"
      "(key n, mono_clock c + seconds ttl) \<in> set seen'" by (auto simp: s)
    have "t - skew \<le> unix_now c" using t(2) by linarith
    then have "seconds (t - skew) \<le> mono_clock c + boot"
      using Cons.prems by (simp add: unix_now_iff [symmetric] clocks_run_def a)
    then have "seconds (t + skew + 1) - boot \<le> mono_clock c + seconds ttl"
      using assms(2) by (simp add: seconds_def)
    moreover have "clocks_run boot (map fst es)" using Cons.prems by (simp add: clocks_run_def)
    ultimately have "(ts, n) \<notin> set (accepted verify es seen')" using remembered [OF t(1) _ t(3)] by blast
    with rest v show ?thesis by (simp add: a s)
  next
    case False
    then obtain e where "r = Some e" by auto
    with rest v show ?thesis by (simp add: a)
  qed
qed simp

end

subsection \<open>Both verifiers are guards\<close>

lemma set_purge_expired [simp]: "(n, e) \<in> set (purge_expired t seen) \<longleftrightarrow> (n, e) \<in> set seen \<and> t < e"
  by (auto simp: purge_expired_def)

lemma agent_accepts:
  assumes "verify_agent_signature k cfg c q seen = (None, seen')"
  shows "\<exists>t. int_parse (fst (stamp q)) = Some t \<and> \<bar>unix_now c - t\<bar> \<le> request_max_skew_seconds cfg"
    and "snd (stamp q) \<notin> fst ` set (purge_expired (mono_clock c) seen)"
    and "seen' = purge_expired (mono_clock c) seen @
      [(snd (stamp q), mono_clock c + seconds (nonce_cache_ttl_seconds cfg))]"
  using assms
  by (auto simp: verify_agent_signature_def stamp_def seen_before_def Let_def split: if_splits option.splits)

lemma agent_keeps:
  assumes "verify_agent_signature k cfg c q seen = (a, seen')" "(n, e) \<in> set seen" "mono_clock c < e"
  shows "(n, e) \<in> set seen'"
  using assms
  by (auto simp: verify_agent_signature_def seen_before_def Let_def split: if_splits option.splits)

interpretation agent: replay_guard "verify_agent_signature k cfg" "\<lambda>n. n"
    "request_max_skew_seconds cfg" "nonce_cache_ttl_seconds cfg" for k cfg
proof
  fix c q seen seen' e
  assume v: "verify_agent_signature k cfg c q seen = (None, seen')"
  show "\<exists>t. int_parse (fst (stamp q)) = Some t \<and> \<bar>unix_now c - t\<bar> \<le> request_max_skew_seconds cfg \<and>
      (snd (stamp q), mono_clock c + seconds (nonce_cache_ttl_seconds cfg)) \<in> set seen'"
    using agent_accepts(1,3) [OF v] by auto
  show "e \<le> mono_clock c" if "(snd (stamp q), e) \<in> set seen"
    using agent_accepts(2) [OF v] image_eqI [of _ fst "(snd (stamp q), e)"] that by (fastforce simp: not_less)
qed (rule agent_keeps)

lemma internal_accepts:
  assumes "verify_internal_request k secret skew c q redis = (None, redis')"
  shows "\<exists>t. int_parse (fst (stamp q)) = Some t \<and> \<bar>unix_now c - t\<bar> \<le> skew"
    and "(NONCE_KEY_PREFIX @ snd (stamp q), e) \<in> set redis \<Longrightarrow> e \<le> mono_clock c"
    and "(NONCE_KEY_PREFIX @ snd (stamp q), mono_clock c + seconds NONCE_TTL_SECONDS) \<in> set redis'"
  using assms
  by (force simp: verify_internal_request_def stamp_def set_nx_ex_def Let_def image_iff
      split: if_splits option.splits)+

lemma internal_keeps:
  assumes "verify_internal_request k secret skew c q redis = (a, redis')" "(n, e) \<in> set redis" "mono_clock c < e"
  shows "(n, e) \<in> set redis'"
  using assms
  by (auto simp: verify_internal_request_def set_nx_ex_def Let_def split: if_splits option.splits)

interpretation internal: replay_guard "verify_internal_request k secret skew" "\<lambda>n. NONCE_KEY_PREFIX @ n"
    skew NONCE_TTL_SECONDS for k secret skew
proof
  fix c q redis redis' e
  assume v: "verify_internal_request k secret skew c q redis = (None, redis')"
  show "\<exists>t. int_parse (fst (stamp q)) = Some t \<and> \<bar>unix_now c - t\<bar> \<le> skew \<and>
      (NONCE_KEY_PREFIX @ snd (stamp q), mono_clock c + seconds NONCE_TTL_SECONDS) \<in> set redis'"
    using internal_accepts(1,3) [OF v] by blast
  show "e \<le> mono_clock c" if "(NONCE_KEY_PREFIX @ snd (stamp q), e) \<in> set redis"
    using v that by (rule internal_accepts(2))
qed (rule internal_keeps)

subsection \<open>Sample\<close>

definition sample_crypto :: crypto where
  "sample_crypto = \<lparr>sha256_hex = filter (\<lambda>c. c \<noteq> newline), hmac_hex = (\<lambda>key m. key @ ''.'' @ m)\<rparr>"

definition sample_agent :: "int \<Rightarrow> agent_settings" where
  "sample_agent ttl = \<lparr>agent_api_key_current = ''new'', agent_api_key_previous = Some ''old'',
     request_max_skew_seconds = 300, nonce_cache_ttl_seconds = ttl\<rparr>"

definition at_second :: "int \<Rightarrow> clock" where
  "at_second t = \<lparr>wall_clock = seconds t, mono_clock = seconds t\<rparr>"

definition sample_request :: signed_request where
  "sample_request = sign_request sample_crypto (at_second 2) ''n'' ''old'' ''GET'' ''/p'' []"

definition sample_replay :: "(clock \<times> signed_request) list" where
  "sample_replay = [(at_second 1, sample_request), (at_second 5, sample_request)]"

lemma sample_replay_runs: "clocks_run 0 (map fst sample_replay)"
  by code_simp

text \<open>C34: Neither verifier ever accepts the same time stamp and nonce twice, however requests arrive and are
  repeated, provided its nonces live at least one second longer than twice the skew it tolerates: the API's
  300 seconds cover every skew up to 149 (its default is 90), the agent's depend on its settings.\<close>

theorem no_request_accepted_twice:
  assumes "clocks_run boot (map fst es)"
  shows "(2 * request_max_skew_seconds cfg < nonce_cache_ttl_seconds cfg \<longrightarrow>
      distinct (accepted (verify_agent_signature k cfg) es seen)) \<and>
    (2 * skew < 300 \<longrightarrow> distinct (accepted (verify_internal_request k secret skew) es seen))"
  using agent.accepted_once [OF assms] internal.accepted_once [OF assms] by (simp_all add: NONCE_TTL_SECONDS_def)

theorem no_request_accepted_twice_witness:
  "(distinct (accepted (verify_agent_signature sample_crypto (sample_agent 601)) sample_replay []) \<and>
    distinct (accepted (verify_internal_request sample_crypto ''old'' 90) sample_replay [])) \<and>
   accepted (verify_agent_signature sample_crypto (sample_agent 601)) sample_replay [] = [(''2'', ''n'')] \<and>
   accepted (verify_internal_request sample_crypto ''old'' 90) sample_replay [] = [(''2'', ''n'')]"
proof -
  have "accepted (verify_agent_signature sample_crypto (sample_agent 601)) sample_replay [] = [(''2'', ''n'')]"
    "accepted (verify_internal_request sample_crypto ''old'' 90) sample_replay [] = [(''2'', ''n'')]"
    by code_simp+
  moreover have "2 * request_max_skew_seconds (sample_agent 601) < nonce_cache_ttl_seconds (sample_agent 601)"
    by (simp add: sample_agent_def)
  ultimately show ?thesis
    using no_request_accepted_twice [OF sample_replay_runs, where cfg = "sample_agent 601" and skew = 90
        and secret = "''old''" and k = sample_crypto and seen = "[]"]
    by simp
qed

subsection \<open>Signing and verifying\<close>

lemma int_parse_int_str: "0 \<le> i \<Longrightarrow> int_parse (int_str i) = Some i"
  by (simp add: int_str_def int_parse_nat_str)

lemma truthy_Some [simp]: "truthy (Some s) \<longleftrightarrow> s \<noteq> []"
  by (cases s) (simp_all add: truthy_def)

lemma int_str_nonempty [simp]: "int_str i \<noteq> []"
  by (simp add: int_str_def)

lemma signature_is_valid_iff: "signature_is_valid k message s keys \<longleftrightarrow> (\<exists>key \<in> set keys. hmac_hex k key message = s)"
  by (induction keys) auto

lemma agent_takes_signed:
  assumes "key \<in> set (active_signing_keys cfg)" "\<And>m. hmac_hex k key m \<noteq> []" "n \<noteq> []" "0 \<le> unix_now d"
    and "\<bar>unix_now c - unix_now d\<bar> \<le> request_max_skew_seconds cfg"
    and "n \<notin> fst ` set (purge_expired (mono_clock c) seen)"
  shows "verify_agent_signature k cfg c (sign_request k d n key meth path body) seen =
    (None, purge_expired (mono_clock c) seen @ [(n, mono_clock c + seconds (nonce_cache_ttl_seconds cfg))])"
  using assms
  by (auto simp: verify_agent_signature_def sign_request_def Let_def int_parse_int_str signature_is_valid_iff
      seen_before_def)

lemma internal_takes_signed:
  assumes "\<And>m. hmac_hex k secret m \<noteq> []" "n \<noteq> []" "0 \<le> unix_now d" "\<bar>unix_now c - unix_now d\<bar> \<le> skew"
    and "\<And>e. (NONCE_KEY_PREFIX @ n, e) \<in> set redis \<Longrightarrow> e \<le> mono_clock c"
  shows "fst (verify_internal_request k secret skew c (sign_internal_request k d n secret meth path body) redis) = None"
  using assms
  by (force simp: verify_internal_request_def sign_internal_request_def Let_def int_parse_int_str set_nx_ex_def)

text \<open>C35: What the API signs the agent accepts, and what the worker signs the API accepts, when the clocks differ
  by at most the tolerated skew and the nonce is new: both sides build the same message, upper case of the
  method and digest of the body included, and a request signed under either of two rotating keys passes.\<close>

theorem signed_request_accepted:
  assumes "\<And>key m. hmac_hex k key m \<noteq> []" "n \<noteq> []" "0 \<le> unix_now d"
    and "\<bar>unix_now c - unix_now d\<bar> \<le> skew"
    and "\<And>e. (n, e) \<in> set seen \<Longrightarrow> e \<le> mono_clock c"
    and "\<And>e. (NONCE_KEY_PREFIX @ n, e) \<in> set redis \<Longrightarrow> e \<le> mono_clock c"
    and "key \<in> set (active_signing_keys cfg)" "request_max_skew_seconds cfg = skew"
  shows "fst (verify_agent_signature k cfg c (sign_request k d n key meth path body) seen) = None \<and>
    fst (verify_internal_request k secret skew c (sign_internal_request k d n secret meth path body) redis) = None \<and>
    (secret \<noteq> [] \<longrightarrow>
      fst (require_internal_auth k (Some secret) skew c (sign_internal_request k d n secret meth path body) redis) = None)"
proof -
  have "n \<notin> fst ` set (purge_expired (mono_clock c) seen)"
    using assms(5) by force
  then have agent: "fst (verify_agent_signature k cfg c (sign_request k d n key meth path body) seen) = None"
    using agent_takes_signed [of key cfg k n d c seen] assms by simp
  obtain redis' where "verify_internal_request k secret skew c
      (sign_internal_request k d n secret meth path body) redis = (None, redis')"
    using internal_takes_signed [of k secret n d c skew redis meth path body] assms(1-4,6) by (metis prod.collapse)
  with agent show ?thesis by (simp add: require_internal_auth_def)
qed

theorem signed_request_accepted_witness:
  "fst (verify_agent_signature sample_crypto (sample_agent 600) (at_second 0)
      (sign_request sample_crypto (at_second 2) ''n'' ''old'' ''get'' ''/p'' []) []) = None \<and>
   fst (require_internal_auth sample_crypto (Some ''key'') 300 (at_second 0)
      (sign_internal_request sample_crypto (at_second 2) ''n'' ''key'' ''get'' ''/p'' []) []) = None"
  using signed_request_accepted [of sample_crypto "''n''" "at_second 2" "at_second 0" 300 "[]" "[]" "''old''"
      "sample_agent 600" "''get''" "''/p''" "[]" "''key''"]
  by (simp add: sample_crypto_def sample_agent_def at_second_def unix_now_def seconds_def active_signing_keys_def)

text \<open>With the agent's default settings (a skew of 300 seconds, nonces kept 600: twice the skew, as its
  configuration asks) a request whose sender's clock runs the full skew ahead is accepted a second time when
  it is repeated after 600 seconds, up to 600.999: the agent compares whole seconds of its clock,
  but forgets the nonce by the exact time.\<close>

theorem default_nonce_lifetime_too_short:
  assumes "\<And>key m. hmac_hex k key m \<noteq> []" "n \<noteq> []" "key \<in> set (active_signing_keys cfg)"
    and "request_max_skew_seconds cfg = 300" "nonce_cache_ttl_seconds cfg = 600"
    and "0 \<le> unix_now c" "unix_now d = unix_now c + 300" "wall_clock c mod 1000000 + late < 1000000" "0 \<le> late"
    and q: "q = sign_request k d n key meth path body"
  shows "accepted (verify_agent_signature k cfg)
      [(c, q), (c\<lparr>wall_clock := wall_clock c + seconds 600 + late, mono_clock := mono_clock c + seconds 600 + late\<rparr>, q)] []
    = [stamp q, stamp q]"
proof -
  let ?c = "c\<lparr>wall_clock := wall_clock c + seconds 600 + late, mono_clock := mono_clock c + seconds 600 + late\<rparr>"
  have now: "unix_now ?c = unix_now c + 600"
    using assms(8,9) div_mult_mod_eq [of "wall_clock c" 1000000]
    unfolding unix_now_def
    by (intro int_div_pos_eq [where r = "wall_clock c mod 1000000 + late"]) (simp_all add: seconds_def)
  have "verify_agent_signature k cfg c q [] = (None, [(n, mono_clock c + seconds 600)])"
    unfolding q using agent_takes_signed [of key cfg k n d c "[]"] assms by (simp add: purge_expired_def)
  moreover have "fst (verify_agent_signature k cfg ?c q [(n, mono_clock c + seconds 600)]) = None"
    unfolding q using agent_takes_signed [of key cfg k n d ?c "[(n, mono_clock c + seconds 600)]"] assms now
    by (simp add: purge_expired_def)
  ultimately show ?thesis by (auto split: prod.splits)
qed

theorem default_nonce_lifetime_too_short_witness:
  "accepted (verify_agent_signature sample_crypto (sample_agent 600))
      [(at_second 0, sign_request sample_crypto (at_second 300) ''n'' ''new'' ''GET'' ''/p'' []),
       ((at_second 0)\<lparr>wall_clock := seconds 600, mono_clock := seconds 600\<rparr>,
        sign_request sample_crypto (at_second 300) ''n'' ''new'' ''GET'' ''/p'' [])] []
   = replicate 2 (stamp (sign_request sample_crypto (at_second 300) ''n'' ''new'' ''GET'' ''/p'' []))"
  using default_nonce_lifetime_too_short [of sample_crypto "''n''" "''new''" "sample_agent 600"
      "at_second 0" "at_second 300" 0 _ "''GET''" "''/p''" "[]", OF _ _ _ _ _ _ _ _ _ refl]
  by (simp add: sample_crypto_def sample_agent_def at_second_def unix_now_def seconds_def active_signing_keys_def
      numeral_2_eq_2)

subsection \<open>What a signature covers\<close>

lemma append_sep_inj: "x @ c # xs = y @ c # ys \<Longrightarrow> c \<notin> set x \<Longrightarrow> c \<notin> set y \<Longrightarrow> x = y \<and> xs = ys"
  by (induction x arbitrary: y) (case_tac y; auto)+

lemma append_sep_inj_last: "xs @ c # x = ys @ c # y \<Longrightarrow> c \<notin> set x \<Longrightarrow> c \<notin> set y \<Longrightarrow> x = y \<and> xs = ys"
  using append_sep_inj [of "rev x" c "rev xs" "rev y" "rev ys"]
  by (metis (no_types, lifting) append.assoc append_Cons append_Nil rev.simps(2) rev_append rev_rev_ident set_rev)

text \<open>Two requests with the same signed message are the same request: the message determines time stamp,
  nonce, method (up to case), path and digest of the body, whatever the path contains, as long as the
  headers, the method and the hexadecimal digest have no line breaks.\<close>

theorem signed_message_determines_request:
  assumes "canonical_message k ts n meth path body = canonical_message k ts' n' meth' path' body'"
    and "newline \<notin> set ts" "newline \<notin> set ts'" "newline \<notin> set n" "newline \<notin> set n'"
    and "newline \<notin> set (upper meth)" "newline \<notin> set (upper meth')"
    and "\<And>b. newline \<notin> set (sha256_hex k b)"
  shows "ts = ts' \<and> n = n' \<and> upper meth = upper meth' \<and> path = path' \<and> sha256_hex k body = sha256_hex k body'"
proof -
  have eq: "ts @ newline # n @ newline # upper meth @ newline # path @ newline # sha256_hex k body =
      ts' @ newline # n' @ newline # upper meth' @ newline # path' @ newline # sha256_hex k body'"
    using assms(1) by (simp add: canonical_message_def)
  note 1 = append_sep_inj [OF eq assms(2,3)]
  note 2 = append_sep_inj [OF conjunct2 [OF 1] assms(4,5)]
  note 3 = append_sep_inj [OF conjunct2 [OF 2] assms(6,7)]
  note 4 = append_sep_inj_last [OF conjunct2 [OF 3] assms(8,8)]
  show ?thesis using 1 2 3 4 by blast
qed

theorem signed_message_determines_request_witness:
  "''1'' = ''1'' \<and> ''n'' = ''n'' \<and> upper ''get'' = upper ''GET'' \<and> ''/p'' = ''/p'' \<and>
   sha256_hex sample_crypto ''ab'' = sha256_hex sample_crypto (''a'' @ [newline] @ ''b'')"
  by (rule signed_message_determines_request) (simp add: sample_crypto_def | code_simp)+

end
