(* ===== verification/Access_Control.thy ===== *)
theory Access_Control
  imports Samples
begin

text \<open>
  Who may call what: \<^verbatim>\<open>core/roles.py\<close>, \<^verbatim>\<open>core/security.py\<close>, \<^verbatim>\<open>core/context.py\<close>. The verification of a
  bearer token against the published keys of the identity provider is a parameter: it gives the
  claims of a valid token and nothing for any other. Tenant and roles are read from the database on
  every request.
\<close>

subsection \<open>Roles\<close>

fun role_value :: "role \<Rightarrow> string" where
  "role_value SUPER_ADMIN = ''SUPER_ADMIN''"
| "role_value TENANT_OWNER = ''TENANT_OWNER''"
| "role_value TENANT_ADMIN = ''TENANT_ADMIN''"
| "role_value ACCOUNTANT = ''ACCOUNTANT''"
| "role_value NETWORK_TECHNICIAN = ''NETWORK_TECHNICIAN''"
| "role_value CUSTOMER_CARE = ''CUSTOMER_CARE''"
| "role_value CASHIER = ''CASHIER''"
| "role_value CUSTOMER = ''CUSTOMER''"

definition TENANT_STAFF_ROLES :: "role list" where
  "TENANT_STAFF_ROLES =
     [TENANT_OWNER, TENANT_ADMIN, ACCOUNTANT, NETWORK_TECHNICIAN, CUSTOMER_CARE, CASHIER]"

definition MANAGEMENT_ROLES :: "role list" where
  "MANAGEMENT_ROLES = [TENANT_OWNER, TENANT_ADMIN]"

definition FINANCE_ROLES :: "role list" where
  "FINANCE_ROLES = [TENANT_OWNER, TENANT_ADMIN, ACCOUNTANT]"

definition FRONTLINE_ROLES :: "role list" where
  "FRONTLINE_ROLES = [TENANT_OWNER, TENANT_ADMIN, CUSTOMER_CARE, CASHIER]"

definition NETWORK_ROLES :: "role list" where
  "NETWORK_ROLES = [TENANT_OWNER, TENANT_ADMIN, NETWORK_TECHNICIAN]"

subsection \<open>The caller\<close>

text \<open>The claims used: the subject, \<open>None\<close> when it is missing or no UUID, and an e-mail address.\<close>

record token_claims =
  claim_sub :: "uuid option"
  claim_email :: "string option"

record authenticated_user =
  user_id :: uuid
  user_email :: "string option"
  user_tenant :: "uuid option"
  user_tenant_status :: "tenant_status option"
  user_roles :: "role set"

definition has_role :: "authenticated_user \<Rightarrow> role list \<Rightarrow> bool" where
  "has_role u allowed \<longleftrightarrow> (\<exists>r \<in> set allowed. r \<in> user_roles u)"

definition is_super_admin :: "authenticated_user \<Rightarrow> bool" where
  "is_super_admin u \<longleftrightarrow> SUPER_ADMIN \<in> user_roles u"

definition roles_of :: "uuid \<Rightarrow> db \<Rightarrow> role set" where
  "roles_of i s =
     pro_role ` {a \<in> set (profile_roles s). pro_profile a = i \<and> pro_role a \<in> set (seeded_roles s)}"

definition get_current_user :: "(string \<Rightarrow> token_claims option) \<Rightarrow> string option \<Rightarrow> authenticated_user op" where
  "get_current_user decode_token credentials =
     (case credentials of
        None \<Rightarrow> raise (HttpError 401 ''Missing Authorization header'')
      | Some token \<Rightarrow>
          bnd (require (HttpError 401 ''Invalid or expired authentication token'') (decode_token token)) (\<lambda>claims.
          bnd (require (UnhandledError ''ValueError'') (claim_sub claims)) (\<lambda>i.
          bnd (gets (\<lambda>s. row_find pr_id i (profiles s))) (\<lambda>found.
          bnd (require (HttpError 403 ''No profile found for this account'') found) (\<lambda>profile.
          bnd (gets (roles_of i)) (\<lambda>roles.
          bnd (gets (\<lambda>s. case pr_tenant profile of None \<Rightarrow> None
                 | Some t \<Rightarrow> map_option tn_status (row_find tn_id t (tenants s)))) (\<lambda>status.
          ret \<lparr>user_id = i,
               user_email = (if truthy (pr_email profile) then pr_email profile else claim_email claims),
               user_tenant = pr_tenant profile, user_tenant_status = status, user_roles = roles\<rparr>)))))))"

subsection \<open>The dependencies of the routes\<close>

definition require_role :: "role list \<Rightarrow> authenticated_user \<Rightarrow> authenticated_user op" where
  "require_role allowed u = thn (guard (has_role u allowed) (HttpError 403 ''Insufficient permissions'')) (ret u)"

record tenant_context =
  ctx_tenant :: uuid
  ctx_user :: authenticated_user

definition get_tenant_context :: "authenticated_user \<Rightarrow> tenant_context op" where
  "get_tenant_context u =
     (case user_tenant u of
        None \<Rightarrow> raise (HttpError 403 ''This account is not scoped to a tenant'')
      | Some t \<Rightarrow>
          thn (guard (user_tenant_status u = Some Tn_ACTIVE) (HttpError 403 ''Tenant account is not active''))
            (ret \<lparr>ctx_tenant = t, ctx_user = u\<rparr>))"

definition require_tenant_role :: "role list \<Rightarrow> authenticated_user \<Rightarrow> tenant_context op" where
  "require_tenant_role allowed u =
     bnd (get_tenant_context u) (\<lambda>ctx.
     thn (guard (has_role (ctx_user ctx) allowed) (HttpError 403 ''Insufficient permissions'')) (ret ctx))"

text \<open>
  A tenant's route and a platform route: the dependencies, then the handler, which passes on the
  tenant of the context and the identity of the caller.
\<close>

definition tenant_route ::
    "(string \<Rightarrow> token_claims option) \<Rightarrow> role list \<Rightarrow> string option \<Rightarrow> (uuid \<Rightarrow> uuid \<Rightarrow> 'a op) \<Rightarrow> 'a op" where
  "tenant_route decode_token allowed credentials handler =
     bnd (get_current_user decode_token credentials) (\<lambda>u.
     bnd (require_tenant_role allowed u) (\<lambda>ctx.
     handler (ctx_tenant ctx) (user_id (ctx_user ctx))))"

definition admin_route ::
    "(string \<Rightarrow> token_claims option) \<Rightarrow> string option \<Rightarrow> (uuid \<Rightarrow> 'a op) \<Rightarrow> 'a op" where
  "admin_route decode_token credentials handler =
     bnd (get_current_user decode_token credentials) (\<lambda>u.
     bnd (require_role [SUPER_ADMIN] u) (\<lambda>u.
     handler (user_id u)))"

subsection \<open>What lets a request pass\<close>

text \<open>What the database says of a caller: staff of an active tenant in one of the allowed roles.\<close>

definition staff_of :: "role list \<Rightarrow> uuid \<Rightarrow> uuid \<Rightarrow> db \<Rightarrow> bool" where
  "staff_of allowed t i s \<longleftrightarrow>
     (\<exists>p. row_find pr_id i (profiles s) = Some p \<and> pr_tenant p = Some t) \<and>
     (\<exists>tn. row_find tn_id t (tenants s) = Some tn \<and> tn_status tn = Tn_ACTIVE) \<and>
     (\<exists>r \<in> set allowed. r \<in> roles_of i s)"

lemma get_current_user_Some:
  assumes "decode_token token = Some claims" "claim_sub claims = Some i" "row_find pr_id i (profiles s) = Some p"
  obtains u where "get_current_user decode_token (Some token) s = (Inr u, s)" "user_id u = i"
    "user_tenant u = pr_tenant p" "user_roles u = roles_of i s"
    "user_tenant_status u = (case pr_tenant p of None \<Rightarrow> None
       | Some t \<Rightarrow> map_option tn_status (row_find tn_id t (tenants s)))"
  using assms by (auto simp: get_current_user_def)

lemma get_current_user_Inr:
  assumes "get_current_user decode_token credentials s = (Inr u, s')"
  obtains token claims p where "credentials = Some token" "decode_token token = Some claims"
    "claim_sub claims = Some (user_id u)" "row_find pr_id (user_id u) (profiles s) = Some p" "s' = s"
    "user_tenant u = pr_tenant p" "user_roles u = roles_of (user_id u) s"
    "user_tenant_status u = (case pr_tenant p of None \<Rightarrow> None
       | Some t \<Rightarrow> map_option tn_status (row_find tn_id t (tenants s)))"
  using assms by (fastforce simp: get_current_user_def run_simps split: option.splits)

lemma get_current_user_Inl:
  assumes "get_current_user decode_token credentials s = (Inl e, s')"
  shows "s' = s \<and> e \<in> {HttpError 401 ''Missing Authorization header'',
    HttpError 401 ''Invalid or expired authentication token'', UnhandledError ''ValueError'',
    HttpError 403 ''No profile found for this account''}"
  using assms by (auto simp: get_current_user_def run_simps split: option.splits)

lemma require_tenant_role_Inr:
  "require_tenant_role allowed u s = (Inr ctx, s') \<longleftrightarrow>
     s' = s \<and> user_tenant u = Some (ctx_tenant ctx) \<and> ctx_user ctx = u \<and> tenant_context.more ctx = () \<and>
     user_tenant_status u = Some Tn_ACTIVE \<and> has_role u allowed"
  by (cases ctx) (auto simp: require_tenant_role_def get_tenant_context_def run_simps split: option.splits)

lemma require_tenant_role_Inl:
  assumes "require_tenant_role allowed u s = (Inl e, s')"
  shows "s' = s \<and> e \<in> HttpError 403 ` UNIV"
  using assms by (auto simp: require_tenant_role_def get_tenant_context_def run_simps split: option.splits)

definition caller_of :: "(string \<Rightarrow> token_claims option) \<Rightarrow> string option \<Rightarrow> uuid option" where
  "caller_of decode_token credentials =
     (case credentials of None \<Rightarrow> None
      | Some token \<Rightarrow> (case decode_token token of None \<Rightarrow> None | Some claims \<Rightarrow> claim_sub claims))"

lemma staff_passes:
  assumes "caller_of decode_token credentials = Some i" "staff_of allowed t i s"
  shows "tenant_route decode_token allowed credentials handler s = handler t i s"
proof -
  from assms(1) obtain token claims where token: "credentials = Some token"
    "decode_token token = Some claims" "claim_sub claims = Some i"
    by (auto simp: caller_of_def split: option.splits)
  from assms(2) obtain p tn where p: "row_find pr_id i (profiles s) = Some p" "pr_tenant p = Some t"
    and tn: "row_find tn_id t (tenants s) = Some tn" "tn_status tn = Tn_ACTIVE"
    and r: "\<exists>r \<in> set allowed. r \<in> roles_of i s" by (auto simp: staff_of_def)
  obtain u where u: "get_current_user decode_token credentials s = (Inr u, s)" "user_id u = i"
    "user_tenant u = Some t" "user_roles u = roles_of i s" "user_tenant_status u = Some Tn_ACTIVE"
    using get_current_user_Some [where decode_token = decode_token, OF token(2,3) p(1)] p tn token(1) by auto
  have "require_tenant_role allowed u s = (Inr \<lparr>ctx_tenant = t, ctx_user = u\<rparr>, s)"
    using u r by (simp add: require_tenant_role_Inr has_role_def)
  with u show ?thesis by (simp add: tenant_route_def)
qed

lemma others_refused:
  assumes "\<And>i t. caller_of decode_token credentials = Some i \<Longrightarrow> \<not> staff_of allowed t i s"
  shows "\<exists>e. tenant_route decode_token allowed credentials handler s = (Inl e, s) \<and>
    snd (error_response e) \<in> {401, 403, 500}"
proof -
  obtain q u where q: "get_current_user decode_token credentials s = (q, u)" by fastforce
  show ?thesis
  proof (cases q)
    case (Inl e)
    with get_current_user_Inl q have "u = s" "snd (error_response e) \<in> {401, 403, 500}" by fastforce+
    with q Inl show ?thesis by (simp add: tenant_route_def)
  next
    case (Inr x)
    with q have q: "get_current_user decode_token credentials s = (Inr x, u)" by simp
    from q obtain token claims p where x: "credentials = Some token" "decode_token token = Some claims"
      "claim_sub claims = Some (user_id x)" "row_find pr_id (user_id x) (profiles s) = Some p" "u = s"
      "user_tenant x = pr_tenant p" "user_roles x = roles_of (user_id x) s"
      "user_tenant_status x = (case pr_tenant p of None \<Rightarrow> None
         | Some t \<Rightarrow> map_option tn_status (row_find tn_id t (tenants s)))"
      by (rule get_current_user_Inr)
    have "caller_of decode_token credentials = Some (user_id x)" using x by (simp add: caller_of_def)
    from assms [OF this] have no: "\<not> staff_of allowed t (user_id x) s" for t .
    obtain r v where r: "require_tenant_role allowed x s = (r, v)" by fastforce
    have "staff_of allowed (ctx_tenant ctx) (user_id x) s" if "r = Inr ctx" for ctx
      using r x that by (auto simp: require_tenant_role_Inr staff_of_def has_role_def split: option.splits)
    with no have "\<not> (\<exists>ctx. r = Inr ctx)" by blast
    then obtain e where e: "r = Inl e" by (cases r) auto
    with require_tenant_role_Inl r have "v = s" "e \<in> HttpError 403 ` UNIV" by blast+
    with q r e x(5) show ?thesis by (auto simp: tenant_route_def)
  qed
qed

text \<open>C19: What a tenant's route does is decided by the database alone: it serves exactly the callers whose
  token is valid and whose profile, at this moment, belongs to a tenant that is active and has one of the
  roles the route allows, and hands the service that tenant and that caller; whatever else a token claims
  is ignored. Everybody else is refused before any service code runs, without any effect.\<close>

theorem tenant_access_from_database:
  "(caller_of decode_token credentials = Some i \<and> staff_of allowed t i s \<longrightarrow>
      tenant_route decode_token allowed credentials handler s = handler t i s) \<and>
   ((\<nexists>i t. caller_of decode_token credentials = Some i \<and> staff_of allowed t i s) \<longrightarrow>
      (\<exists>e. tenant_route decode_token allowed credentials handler s = (Inl e, s) \<and>
        snd (error_response e) \<in> {401, 403, 500}))"
  using staff_passes [of decode_token credentials i allowed t s handler]
    others_refused [of decode_token credentials allowed s handler] by blast

text \<open>A valid token for every text, naming caller 3; tenant 7 of the sample database, suspended or active.\<close>

definition sample_token :: "string \<Rightarrow> token_claims option" where
  "sample_token t = Some \<lparr>claim_sub = Some 3, claim_email = None\<rparr>"

definition staffed_db :: "tenant_status \<Rightarrow> db" where
  "staffed_db status = payout_db\<lparr>
     tenants := [\<lparr>tn_id = 7, tn_name = ''Net'', tn_slug = ''net'', tn_details = None, tn_status = status,
       accepted_terms_at = None, accepted_privacy_at = None, tn_logo_url = None, tn_brand_color = None,
       tn_created_at = 0\<rparr>],
     profile_roles := [\<lparr>pro_profile = 3, pro_role = TENANT_OWNER, pro_tenant = Some 7\<rparr>]\<rparr>"

lemma staffed: "staff_of [TENANT_OWNER] 7 3 (staffed_db Tn_ACTIVE)"
  by (auto simp: staff_of_def staffed_db_def payout_db_def funded_db_def empty_db_def row_find_def roles_of_def
      image_iff)

lemma locked: "\<not> staff_of allowed t 3 (staffed_db Tn_SUSPENDED)"
  by (simp add: staff_of_def staffed_db_def payout_db_def row_find_def)

theorem tenant_access_from_database_witness:
  "tenant_route sample_token [TENANT_OWNER] (Some ''x'') (\<lambda>t i. ret (t, i)) (staffed_db Tn_ACTIVE) =
     (Inr (7, 3), staffed_db Tn_ACTIVE) \<and>
   (\<exists>e. tenant_route sample_token [TENANT_OWNER] (Some ''x'') (\<lambda>t i. ret (t, i)) (staffed_db Tn_SUSPENDED) =
     (Inl e, staffed_db Tn_SUSPENDED))"
proof -
  have c: "caller_of sample_token (Some ''x'') = Some 3" by (simp add: caller_of_def sample_token_def)
  have "tenant_route sample_token [TENANT_OWNER] (Some ''x'') (\<lambda>t i. ret (t, i)) (staffed_db Tn_ACTIVE) =
      ret (7, 3) (staffed_db Tn_ACTIVE)"
    using tenant_access_from_database c staffed by blast
  moreover have "\<nexists>i t. caller_of sample_token (Some ''x'') = Some i \<and>
      staff_of [TENANT_OWNER] t i (staffed_db Tn_SUSPENDED)"
    using c locked by auto
  then have "\<exists>e. tenant_route sample_token [TENANT_OWNER] (Some ''x'') (\<lambda>t i. ret (t, i)) (staffed_db Tn_SUSPENDED) =
      (Inl e, staffed_db Tn_SUSPENDED)"
    using tenant_access_from_database by blast
  ultimately show ?thesis by (simp add: ret_def)
qed

end
