(* ===== verification/Onboarding.thy ===== *)
theory Onboarding
  imports Payouts Access_Control
begin

text \<open>
  Client registration, \<^verbatim>\<open>services/onboarding.py\<close> with its request model in \<^verbatim>\<open>schemas/onboarding.py\<close>. The
  account at Supabase is created first, in a transaction of its own that the trigger
  \<open>handle_new_auth_user\<close> extends by a profile row; then the tenant and everything that belongs to it in one
  transaction of the API, undone by deleting the account; then the e-mails.
\<close>

subsection \<open>The request\<close>

record registration =
  reg_first_name :: string
  reg_last_name :: string
  work_email :: string
  reg_phone :: string
  reg_password :: string
  confirm_password :: string
  trading_name :: string
  reg_legal_name :: "string option"
  reg_business_type :: business_type
  reg_business_email :: string
  reg_business_phone :: string
  reg_tin :: "string option"
  reg_business_license_number :: "string option"
  reg_region :: "string option"
  reg_district :: "string option"
  reg_ward :: "string option"
  reg_street_area :: "string option"
  reg_business_address :: string
  reg_contact_name :: "string option"
  reg_contact_position :: "string option"
  reg_contact_phone :: "string option"
  reg_contact_email :: "string option"
  accept_terms :: bool
  accept_privacy :: bool

definition is_alpha :: "char \<Rightarrow> bool" where
  "is_alpha c \<longleftrightarrow> (65 \<le> code c \<and> code c \<le> 90) \<or> (97 \<le> code c \<and> code c \<le> 122)"

definition sized :: "nat \<Rightarrow> nat \<Rightarrow> string \<Rightarrow> bool" where
  "sized least most s \<longleftrightarrow> least \<le> length s \<and> length s \<le> most"

definition at_most :: "nat \<Rightarrow> string option \<Rightarrow> bool" where
  "at_most most s = (case s of None \<Rightarrow> True | Some t \<Rightarrow> length t \<le> most)"

definition registration_valid :: "registration \<Rightarrow> bool" where
  "registration_valid p \<longleftrightarrow>
     sized 1 100 (reg_first_name p) \<and> sized 1 100 (reg_last_name p) \<and> sized 9 20 (reg_phone p) \<and>
     sized 8 128 (reg_password p) \<and> sized 8 128 (confirm_password p) \<and>
     sized 2 200 (trading_name p) \<and> at_most 200 (reg_legal_name p) \<and> sized 9 20 (reg_business_phone p) \<and>
     at_most 50 (reg_tin p) \<and> at_most 100 (reg_business_license_number p) \<and>
     at_most 100 (reg_region p) \<and> at_most 100 (reg_district p) \<and> at_most 100 (reg_ward p) \<and>
     at_most 200 (reg_street_area p) \<and> sized 1 500 (reg_business_address p) \<and>
     at_most 200 (reg_contact_name p) \<and> at_most 100 (reg_contact_position p) \<and>
     at_most 20 (reg_contact_phone p) \<and>
     (\<exists>c \<in> set (reg_password p). is_digit c) \<and> (\<exists>c \<in> set (reg_password p). is_alpha c) \<and>
     reg_password p = confirm_password p \<and> accept_terms p \<and> accept_privacy p"

text \<open>The phone numbers in normal form; one that cannot be normalised is a validation error.\<close>

definition normalized_phones :: "registration \<Rightarrow> (string \<times> string \<times> string option) option" where
  "normalized_phones p =
     (case (normalize_tz_phone (reg_phone p), normalize_tz_phone (reg_business_phone p)) of
        (Some owner, Some business) \<Rightarrow>
          if truthy (reg_contact_phone p)
          then map_option (\<lambda>contact. (owner, business, Some contact)) (normalize_tz_phone (the (reg_contact_phone p)))
          else Some (owner, business, None)
      | _ \<Rightarrow> None)"

subsection \<open>The name in addresses\<close>

definition slug_char :: "char \<Rightarrow> bool" where
  "slug_char c \<longleftrightarrow> is_digit c \<or> (97 \<le> code c \<and> code c \<le> 122)"

text \<open>\<^verbatim>\<open>re.sub(r"[^a-z0-9]+", "-", s)\<close>: a run of other characters becomes one dash.\<close>

fun dashed :: "bool \<Rightarrow> string \<Rightarrow> string" where
  "dashed in_run [] = []"
| "dashed in_run (c # s) =
     (if slug_char c then c # dashed False s
      else if in_run then dashed True s else CHR ''-'' # dashed True s)"

definition strip_dashes :: "string \<Rightarrow> string" where
  "strip_dashes s = rstrip (\<lambda>c. c = CHR ''-'') (dropWhile (\<lambda>c. c = CHR ''-'') s)"

definition slugify :: "io \<Rightarrow> string \<Rightarrow> string" where
  "slugify w name =
     (let stem = strip_dashes (dashed False (lower (strip name)));
          base = (if stem = [] then ''tenant'' else stem)
      in take 40 base @ ''-'' @ slug_suffix w)"

subsection \<open>Supabase\<close>

fun mentions :: "string \<Rightarrow> string \<Rightarrow> bool" where
  "mentions word [] = (word = [])"
| "mentions word (c # s) = (starts_with word (c # s) \<or> mentions word s)"

definition invited_profile :: "uuid \<Rightarrow> string \<Rightarrow> string \<Rightarrow> profile" where
  "invited_profile i email full_name =
     \<lparr>pr_id = i, pr_tenant = None, pr_email = Some email, pr_full_name = Some full_name, pr_first_name = None,
      pr_last_name = None, pr_phone = None, pr_status = ''invited''\<rparr>"

text \<open>A new account, and the profile row its trigger inserts unless there is one.\<close>

definition handle_new_auth_user :: "uuid \<Rightarrow> string \<Rightarrow> string \<Rightarrow> db \<Rightarrow> db" where
  "handle_new_auth_user i email full_name s =
     s\<lparr>profiles := (if i \<in> pr_id ` set (profiles s) then profiles s
                    else profiles s @ [invited_profile i email full_name])\<rparr>"

definition add_auth_user :: "string \<Rightarrow> string \<Rightarrow> uuid op" where
  "add_auth_user email full_name =
     bnd fresh (\<lambda>i.
     thn (modify (\<lambda>s. handle_new_auth_user i email full_name
            (s\<lparr>auth_users := auth_users s @ [\<lparr>su_id = i, su_email = email, su_confirmed = False\<rparr>]\<rparr>)))
       (ret i))"

definition create_user :: "io \<Rightarrow> string \<Rightarrow> string \<Rightarrow> uuid op" where
  "create_user w email full_name =
     (case create_user_answer w of
        Answered \<Rightarrow> add_auth_user email full_name
      | Refused m \<Rightarrow>
          raise (if mentions ''already'' (lower m) \<or> mentions ''exists'' (lower m)
                 then ConflictError ''An account with this email already exists''
                 else DomainValidationError ''Could not create account'')
      | NoAnswer applied \<Rightarrow>
          thn (whenever applied (bnd (add_auth_user email full_name) (\<lambda>_. ret ()))) (raise (UnhandledError ''httpx'')))"

text \<open>Deleting an account deletes its profile and roles; the status of the answer is not looked at.\<close>

definition remove_auth_user :: "uuid \<Rightarrow> db \<Rightarrow> db" where
  "remove_auth_user i s =
     s\<lparr>auth_users := filter (\<lambda>u. su_id u \<noteq> i) (auth_users s),
       profiles := filter (\<lambda>p. pr_id p \<noteq> i) (profiles s),
       profile_roles := filter (\<lambda>r. pro_profile r \<noteq> i) (profile_roles s)\<rparr>"

definition delete_user :: "io \<Rightarrow> uuid \<Rightarrow> unit op" where
  "delete_user w i =
     (case delete_user_answer w of
        Answered \<Rightarrow> modify (remove_auth_user i)
      | Refused m \<Rightarrow> ret ()
      | NoAnswer applied \<Rightarrow>
          thn (whenever applied (modify (remove_auth_user i))) (raise (UnhandledError ''httpx'')))"

subsection \<open>The tenant and what belongs to it\<close>

definition details_of :: "registration \<Rightarrow> string \<Rightarrow> string option \<Rightarrow> business_details" where
  "details_of p business_phone contact_phone =
     \<lparr>bd_legal_name = reg_legal_name p, bd_type = reg_business_type p, bd_email = reg_business_email p,
      bd_phone = business_phone, bd_tin = reg_tin p,
      bd_license_number = reg_business_license_number p, bd_region = reg_region p,
      bd_district = reg_district p, bd_ward = reg_ward p, bd_street_area = reg_street_area p,
      bd_address = reg_business_address p, bd_contact_name = reg_contact_name p,
      bd_contact_position = reg_contact_position p, bd_contact_phone = contact_phone,
      bd_contact_email = reg_contact_email p\<rparr>"

definition new_tenant :: "io \<Rightarrow> registration \<Rightarrow> uuid \<Rightarrow> string \<Rightarrow> string option \<Rightarrow> tenant" where
  "new_tenant w p t business_phone contact_phone =
     \<lparr>tn_id = t, tn_name = trading_name p, tn_slug = slugify w (trading_name p),
      tn_details = Some (details_of p business_phone contact_phone), tn_status = Tn_PENDING_VERIFICATION,
      accepted_terms_at = Some (now w), accepted_privacy_at = Some (now w), tn_logo_url = None,
      tn_brand_color = None, tn_created_at = now w\<rparr>"

definition full_name_of :: "registration \<Rightarrow> string" where
  "full_name_of p = strip (reg_first_name p @ '' '' @ reg_last_name p)"

definition claimed :: "registration \<Rightarrow> uuid \<Rightarrow> string \<Rightarrow> profile \<Rightarrow> profile" where
  "claimed p t owner_phone x =
     x\<lparr>pr_tenant := Some t, pr_first_name := Some (reg_first_name p), pr_last_name := Some (reg_last_name p),
       pr_full_name := Some (full_name_of p), pr_phone := Some owner_phone, pr_status := ''active''\<rparr>"

definition new_verification :: "io \<Rightarrow> uuid \<Rightarrow> verification" where
  "new_verification w t =
     \<lparr>vf_tenant = t, vf_status = Vf_PENDING_VERIFICATION, vf_submitted_at = Some (now w), email_verified_at = None,
      vf_reviewed_at = None, vf_reviewed_by = None, approved_at = None, rejected_at = None,
      rejection_reason = None, more_information_message = None\<rparr>"

definition create_local_records ::
    "io \<Rightarrow> registration \<Rightarrow> uuid \<Rightarrow> string \<times> string \<times> string option \<Rightarrow> (uuid \<times> uuid) op" where
  "create_local_records w p owner = (\<lambda>(owner_phone, business_phone, contact_phone).
     bnd fresh (\<lambda>t.
     let x = new_tenant w p t business_phone contact_phone in
     bnd (gets (\<lambda>s. tn_slug x \<in> tn_slug ` set (tenants s))) (\<lambda>taken.
     thn (guard (\<not> taken) DbError)
     (thn (modify (\<lambda>s. s\<lparr>tenants := tenants s @ [x]\<rparr>))
     (bnd (gets (\<lambda>s. row_find pr_id owner (profiles s))) (\<lambda>found.
      bnd (require (DomainValidationError ''Account provisioning did not complete'') found) (\<lambda>profile.
      thn (modify (\<lambda>s. s\<lparr>profiles := row_put pr_id (claimed p t owner_phone profile) (profiles s)\<rparr>))
     (bnd (gets (\<lambda>s. TENANT_OWNER \<in> set (seeded_roles s))) (\<lambda>seeded.
      thn (guard seeded (DomainValidationError ''TENANT_OWNER role is not seeded''))
     (thn (modify (\<lambda>s. s\<lparr>
             profile_roles := profile_roles s @ [\<lparr>pro_profile = owner, pro_role = TENANT_OWNER, pro_tenant = Some t\<rparr>],
             verification_rows := verification_rows s @ [new_verification w t],
             tenant_settings_rows := tenant_settings_rows s @ [t],
             flags_rows := flags_rows s @ [\<lparr>ff_tenant = t, collection_enabled = False, payout_enabled = False\<rparr>]\<rparr>))
     (bnd (get_or_create_wallet t) (\<lambda>_.
      thn (write_audit_log w (Some t) (Some owner) ''TENANT_REGISTERED'' (Some ''tenant'') (Some t)
             [(''business_type'', MStr (business_type_value (reg_business_type p))),
              (''region'', case reg_region p of None \<Rightarrow> MNull | Some r \<Rightarrow> MStr r),
              (''district'', case reg_district p of None \<Rightarrow> MNull | Some r \<Rightarrow> MStr r)])
     (thn (write_audit_log w (Some t) (Some owner) ''PROFILE_CREATED'' (Some ''profile'') (Some owner) [])
     (ret (t, owner)))))))))))))))"

subsection \<open>E-mails\<close>

definition record_email_event ::
    "io \<Rightarrow> uuid \<Rightarrow> string \<Rightarrow> email_event_type \<Rightarrow> mail_result \<Rightarrow> unit op" where
  "record_email_event w tenant recipient ty result =
     modify (\<lambda>s. s\<lparr>email_events := email_events s @
       [\<lparr>ee_tenant = Some tenant, ee_recipient = recipient, ee_type = ty,
         ee_message_id = mail_message_id result,
         ee_status = (if mail_sent result then Es_SENT else Es_FAILED),
         ee_sent_at = (if mail_sent result then Some (now w) else None),
         ee_failed_at = (if mail_sent result then None else Some (now w)),
         ee_error = mail_error result\<rparr>]\<rparr>)"

definition failed_mail :: "string \<Rightarrow> mail_result" where
  "failed_mail reason = \<lparr>mail_sent = False, mail_message_id = None, mail_error = Some reason\<rparr>"

definition send_verification_email :: "io \<Rightarrow> uuid \<Rightarrow> uuid \<Rightarrow> string \<Rightarrow> bool op" where
  "send_verification_email w tenant owner email =
     (case link_answer w of
        NoAnswer _ \<Rightarrow> raise (UnhandledError ''httpx'')
      | Refused m \<Rightarrow>
          thn (commit (record_email_event w tenant email Em_VERIFY_EMAIL (failed_mail m))) (ret False)
      | Answered \<Rightarrow>
          thn (commit
                (thn (record_email_event w tenant email Em_VERIFY_EMAIL (mail w))
                   (write_audit_log w (Some tenant) (Some owner) ''EMAIL_VERIFICATION_SENT'' (Some ''tenant'')
                      (Some tenant) [])))
            (ret (mail_sent (mail w))))"

definition send_admin_new_tenant_email :: "io \<Rightarrow> settings \<Rightarrow> mail_result" where
  "send_admin_new_tenant_email w cfg =
     (if truthy (super_admin_review_email cfg) then admin_mail w
      else failed_mail ''SUPER_ADMIN_REVIEW_EMAIL is not configured'')"

definition send_onboarding_emails :: "io \<Rightarrow> settings \<Rightarrow> registration \<Rightarrow> uuid \<times> uuid \<Rightarrow> unit op" where
  "send_onboarding_emails w cfg p = (\<lambda>(tenant, owner).
     bnd (send_verification_email w tenant owner (work_email p)) (\<lambda>_.
     commit (record_email_event w tenant ''super-admin-review'' Em_NEW_TENANT_ADMIN_ALERT
               (send_admin_new_tenant_email w cfg))))"

subsection \<open>Registration\<close>

definition email_in_use :: "string \<Rightarrow> db \<Rightarrow> bool" where
  "email_in_use email s \<longleftrightarrow> Some email \<in> pr_email ` set (profiles s)"

definition register :: "io \<Rightarrow> settings \<Rightarrow> registration \<Rightarrow> (uuid \<times> uuid) op" where
  "register w cfg p =
     bnd (gets (email_in_use (work_email p))) (\<lambda>used.
     thn (guard (\<not> used) (ConflictError ''An account with this email already exists''))
     (bnd (require (DomainValidationError ''Enter a valid Tanzania mobile number'') (normalized_phones p)) (\<lambda>phones.
      bnd (create_user w (work_email p) (full_name_of p)) (\<lambda>owner.
      bnd (except (commit (create_local_records w p owner phones))
             (\<lambda>e. thn (delete_user w owner) (raise e))) (\<lambda>result.
      thn (send_onboarding_emails w cfg p result)
        (ret result))))))"

definition register_route :: "io \<Rightarrow> settings \<Rightarrow> registration \<Rightarrow> (uuid \<times> uuid) op" where
  "register_route w cfg p =
     thn (guard (registration_valid p) (HttpError 422 ''Request validation failed'')) (register w cfg p)"

text \<open>Without an account, or without a tenant, the answer is the same as after a mail was sent.\<close>

definition resend_verification_by_email :: "io \<Rightarrow> string \<Rightarrow> bool op" where
  "resend_verification_by_email w email =
     bnd (gets (\<lambda>s. find (\<lambda>x. pr_email x = Some email) (profiles s))) (\<lambda>found.
     case found of
       None \<Rightarrow> ret True
     | Some x \<Rightarrow> (case pr_tenant x of
           None \<Rightarrow> ret True
         | Some t \<Rightarrow> send_verification_email w t (pr_id x) email))"

subsection \<open>The account's status\<close>

definition email_confirmed :: "io \<Rightarrow> uuid \<Rightarrow> bool op" where
  "email_confirmed w owner =
     (case get_user_answer w of
        NoAnswer _ \<Rightarrow> raise (UnhandledError ''httpx'')
      | Refused m \<Rightarrow> ret False
      | Answered \<Rightarrow> gets (\<lambda>s. case row_find su_id owner (auth_users s) of None \<Rightarrow> False | Some u \<Rightarrow> su_confirmed u))"

definition get_account_status ::
    "io \<Rightarrow> uuid \<Rightarrow> uuid \<Rightarrow> (tenant_status \<times> bool \<times> verification option) op" where
  "get_account_status w tenant owner =
     bnd (gets (\<lambda>s. row_find tn_id tenant (tenants s))) (\<lambda>x.
     let status = (case x of None \<Rightarrow> Tn_PENDING_VERIFICATION | Some x \<Rightarrow> tn_status x) in
     bnd (email_confirmed w owner) (\<lambda>confirmed.
     bnd (gets (\<lambda>s. row_find vf_tenant tenant (verification_rows s))) (\<lambda>found.
     case found of
       None \<Rightarrow> ret (status, confirmed, None)
     | Some v \<Rightarrow>
         if confirmed \<and> email_verified_at v = None then
           let v' = v\<lparr>email_verified_at := Some (now w)\<rparr> in
           thn (commit
                 (thn (modify (\<lambda>s. s\<lparr>verification_rows := row_put vf_tenant v' (verification_rows s)\<rparr>))
                    (write_audit_log w (Some tenant) (Some owner) ''EMAIL_VERIFIED'' (Some ''tenant'') (Some tenant) [])))
             (ret (status, confirmed, Some v'))
         else ret (status, confirmed, Some v))))"

text \<open>The owner follows the link of the verification mail; this happens at Supabase.\<close>

definition confirm_email :: "uuid \<Rightarrow> db \<Rightarrow> db" where
  "confirm_email i s =
     s\<lparr>auth_users := map (\<lambda>u. if su_id u = i then u\<lparr>su_confirmed := True\<rparr> else u) (auth_users s)\<rparr>"

subsection \<open>One registration\<close>

text \<open>Identifiers of accounts and tenants are those already given out.\<close>

definition accounts_below :: "db \<Rightarrow> bool" where
  "accounts_below s \<longleftrightarrow>
     (\<forall>u \<in> set (auth_users s). su_id u < next_id s) \<and> (\<forall>x \<in> set (profiles s). pr_id x < next_id s) \<and>
     (\<forall>r \<in> set (profile_roles s). pro_profile r < next_id s) \<and> (\<forall>x \<in> set (wallets s). wal_tenant x < next_id s) \<and>
     (\<forall>x \<in> set (tenants s). tn_id x < next_id s) \<and>
     (\<forall>x \<in> set (flags_rows s). ff_tenant x < next_id s) \<and>
     (\<forall>x \<in> set (verification_rows s). vf_tenant x < next_id s)"

text \<open>The account and its unclaimed profile, as the first step leaves them.\<close>

definition signed_up :: "registration \<Rightarrow> uuid \<Rightarrow> db \<Rightarrow> db" where
  "signed_up p i s = s\<lparr>next_id := Suc i,
     auth_users := auth_users s @ [\<lparr>su_id = i, su_email = work_email p, su_confirmed = False\<rparr>],
     profiles := profiles s @ [invited_profile i (work_email p) (full_name_of p)]\<rparr>"

lemma add_auth_user_run:
  assumes "accounts_below s"
  shows "add_auth_user (work_email p) (full_name_of p) s = (Inr (next_id s), signed_up p (next_id s) s)"
proof -
  have "next_id s \<notin> pr_id ` set (profiles s)" using assms by (auto simp: accounts_below_def)
  then show ?thesis
    by (simp add: add_auth_user_def comp_defs fresh_def handle_new_auth_user_def signed_up_def)
qed

lemma remove_signed_up:
  assumes "accounts_below s" "n = next_id s"
  shows "remove_auth_user n (signed_up p n s\<lparr>next_id := m\<rparr>) = s\<lparr>next_id := m\<rparr>"
proof -
  have "filter (\<lambda>u. su_id u \<noteq> n) (auth_users s) = auth_users s" "filter (\<lambda>x. pr_id x \<noteq> n) (profiles s) = profiles s"
    "filter (\<lambda>r. pro_profile r \<noteq> n) (profile_roles s) = profile_roles s"
    using assms by (auto simp: accounts_below_def filter_id_conv)
  then show ?thesis by (simp add: remove_auth_user_def signed_up_def invited_profile_def)
qed

text \<open>Everything a registered tenant has, and nothing it may use.\<close>

definition registration_entries :: "io \<Rightarrow> registration \<Rightarrow> uuid \<Rightarrow> uuid \<Rightarrow> audit_log list" where
  "registration_entries w p t owner =
     [\<lparr>au_tenant = Some t, au_actor = Some owner, au_action = ''TENANT_REGISTERED'',
       au_target_type = Some ''tenant'', au_target = Some t,
       au_metadata = [(''business_type'', MStr (business_type_value (reg_business_type p))),
          (''region'', case reg_region p of None \<Rightarrow> MNull | Some r \<Rightarrow> MStr r),
          (''district'', case reg_district p of None \<Rightarrow> MNull | Some r \<Rightarrow> MStr r)],
       au_created_at = now w\<rparr>,
      \<lparr>au_tenant = Some t, au_actor = Some owner, au_action = ''PROFILE_CREATED'',
       au_target_type = Some ''profile'', au_target = Some owner, au_metadata = [], au_created_at = now w\<rparr>]"

definition opened :: "io \<Rightarrow> registration \<Rightarrow> string \<times> string \<times> string option \<Rightarrow> db \<Rightarrow> db" where
  "opened w p = (\<lambda>(owner_phone, business_phone, contact_phone) s.
     let owner = next_id s; t = Suc owner in
     s\<lparr>next_id := Suc (Suc t),
       auth_users := auth_users s @ [\<lparr>su_id = owner, su_email = work_email p, su_confirmed = False\<rparr>],
       profiles := profiles s @ [claimed p t owner_phone (invited_profile owner (work_email p) (full_name_of p))],
       profile_roles := profile_roles s @ [\<lparr>pro_profile = owner, pro_role = TENANT_OWNER, pro_tenant = Some t\<rparr>],
       tenants := tenants s @ [new_tenant w p t business_phone contact_phone],
       verification_rows := verification_rows s @ [new_verification w t],
       tenant_settings_rows := tenant_settings_rows s @ [t],
       flags_rows := flags_rows s @ [\<lparr>ff_tenant = t, collection_enabled = False, payout_enabled = False\<rparr>],
       wallets := wallets s @ [new_wallet (Suc t) t],
       audit_logs := audit_logs s @ registration_entries w p t owner\<rparr>)"

lemma create_local_opens:
  assumes below: "accounts_below s"
    and run: "create_local_records w p (next_id s) phones (signed_up p (next_id s) s) = (Inr r, u)"
  shows "r = (Suc (next_id s), next_id s) \<and> u = opened w p phones s \<and> TENANT_OWNER \<in> set (seeded_roles s) \<and>
    slugify w (trading_name p) \<notin> tn_slug ` set (tenants s)"
proof -
  obtain op bp cp where ph: "phones = (op, bp, cp)" by (cases phones)
  have fresh_wallet: "wallet_of (Suc (next_id s)) v = None" if "wallets v = wallets s" for v
    using below that by (auto simp: wallet_of_None accounts_below_def)
  have owner: "next_id s \<notin> pr_id ` set (profiles s)" using below by (auto simp: accounts_below_def)
  have found: "row_find pr_id (next_id s) (profiles s @ [invited_profile (next_id s) e f]) =
      Some (invited_profile (next_id s) e f)" for e f
    using owner unfolding row_find_None [symmetric] by (simp add: row_find_def find_append invited_profile_def)
  have put: "row_put pr_id (claimed p t op (invited_profile (next_id s) e f))
      (profiles s @ [invited_profile (next_id s) e f]) =
      profiles s @ [claimed p t op (invited_profile (next_id s) e f)]" for t e f
    using owner by (auto simp: row_put_def claimed_def invited_profile_def image_iff intro!: map_idI)
  show ?thesis
    using run
    by (auto simp: create_local_records_def ph run_simps Let_def signed_up_def found put opened_def
        wallet_row_def with_wallet_def fresh_wallet new_tenant_def registration_entries_def)
qed

lemma create_local_fails:
  assumes "create_local_records w p owner phones s = (Inl e, u)"
  shows "commit (create_local_records w p owner phones) s = (Inl e, s\<lparr>next_id := next_id u\<rparr>)"
  using assms
  by (cases phones) (auto simp: create_local_records_def run_simps Let_def commit_def rollback_def comp_defs
      fresh_def write_audit_log_def split: if_splits option.splits)

text \<open>The e-mails leave accounts and tenants alone, and stop only when the link request gets no answer.\<close>

definition mailed :: "db \<Rightarrow> db \<Rightarrow> bool" where
  "mailed s s' \<longleftrightarrow> s' = s\<lparr>email_events := email_events s', audit_logs := audit_logs s'\<rparr> \<and>
     (\<exists>es as. email_events s' = email_events s @ es \<and> audit_logs s' = audit_logs s @ as \<and>
       (\<forall>a \<in> set as. au_action a = ''EMAIL_VERIFICATION_SENT''))"

lemma mailed_same:
  assumes "mailed s s'"
  shows "tenants s' = tenants s" "profiles s' = profiles s" "profile_roles s' = profile_roles s"
    "flags_rows s' = flags_rows s" "verification_rows s' = verification_rows s" "wallets s' = wallets s"
    "auth_users s' = auth_users s" "next_id s' = next_id s" "seeded_roles s' = seeded_roles s"
proof -
  obtain es as where "s' = s\<lparr>email_events := es, audit_logs := as\<rparr>" using assms unfolding mailed_def by blast
  then show "tenants s' = tenants s" "profiles s' = profiles s" "profile_roles s' = profile_roles s"
    "flags_rows s' = flags_rows s" "verification_rows s' = verification_rows s" "wallets s' = wallets s"
    "auth_users s' = auth_users s" "next_id s' = next_id s" "seeded_roles s' = seeded_roles s"
    by simp_all
qed

lemma send_verification_email_run:
  assumes "send_verification_email w t owner email s = (r, s')"
  shows "mailed s s' \<and> (\<forall>e. r = Inl e \<longrightarrow> s' = s \<and> e = UnhandledError ''httpx'' \<and> link_answer w \<in> range NoAnswer)"
  using assms
  by (auto simp: send_verification_email_def mailed_def comp_defs commit_def record_email_event_def
      write_audit_log_def split: auth_answer.splits)

lemma send_onboarding_emails_run:
  assumes "send_onboarding_emails w cfg p (t, owner) s = (r, s')"
  shows "mailed s s' \<and> (r = Inr () \<or> r = Inl (UnhandledError ''httpx'') \<and> link_answer w \<in> range NoAnswer)"
  using assms
  by (auto simp: send_onboarding_emails_def send_verification_email_def mailed_def comp_defs commit_def
      record_email_event_def write_audit_log_def split: auth_answer.splits)

lemma create_user_run:
  assumes "accounts_below s" "create_user w (work_email p) (full_name_of p) s = (r, s')"
  shows "r = Inr (next_id s) \<and> s' = signed_up p (next_id s) s \<and> create_user_answer w = Answered \<or>
    (\<exists>e. r = Inl e \<and> (s' = s \<or> s' = signed_up p (next_id s) s \<and> create_user_answer w = NoAnswer True))"
  using assms(2)
  by (auto simp: create_user_def run_simps add_auth_user_run [OF assms(1)] whenever_def
      split: auth_answer.splits if_splits)

lemma ids_get_wallet: "keeps ids_grow (get_or_create_wallet t)"
  by (rule keepsI) (auto simp: ids_grow_def with_wallet_def split: option.splits)

lemma ids_local: "keeps ids_grow (create_local_records w p owner phones)"
  by (cases phones) (auto simp: create_local_records_def Let_def intro!: ids_rules ids_get_wallet ids_modify)

text \<open>The account is there with its tenant, or the transaction is undone and the account deleted again, or left.\<close>

lemma create_tenant_run:
  assumes below: "accounts_below s" and n: "n = next_id s"
    and run: "except (commit (create_local_records w p n phones))
      (\<lambda>e. thn (delete_user w n) (raise e)) (signed_up p n s) = (r, s')"
  shows "r = Inr (Suc n, n) \<and> s' = opened w p phones s \<or>
    (\<exists>e. r = Inl e \<and> n < next_id s' \<and> (s' = s\<lparr>next_id := next_id s'\<rparr> \<or>
       s' = signed_up p n s\<lparr>next_id := next_id s'\<rparr> \<and> delete_user_answer w \<notin> {Answered, NoAnswer True}))"
proof -
  let ?u = "signed_up p n s"
  obtain q v where q: "create_local_records w p n phones ?u = (q, v)" by fastforce
  show ?thesis
  proof (cases q)
    case (Inr x)
    with q n create_local_opens [OF below] have "x = (Suc n, n) \<and> v = opened w p phones s" by blast
    with q Inr run show ?thesis by (auto simp: except_def commit_def)
  next
    case (Inl e)
    with q have "commit (create_local_records w p n phones) ?u = (Inl e, ?u\<lparr>next_id := next_id v\<rparr>)"
      by (simp add: create_local_fails)
    with run have "thn (delete_user w n) (raise e) (?u\<lparr>next_id := next_id v\<rparr>) = (r, s')"
      by (simp add: except_def)
    moreover have "n < next_id v" using keepsD [OF ids_local q] by (simp add: ids_grow_def signed_up_def)
    ultimately show ?thesis
      using remove_signed_up [OF below n]
      by (auto simp: delete_user_def comp_defs split: auth_answer.splits if_splits)
  qed
qed

lemma register_outcome:
  assumes "accounts_below s" "register w cfg p s = (r, s')"
  shows "(\<exists>phones. normalized_phones p = Some phones \<and> mailed (opened w p phones s) s' \<and>
      (r = Inr (Suc (next_id s), next_id s) \<or>
       r = Inl (UnhandledError ''httpx'') \<and> link_answer w \<in> range NoAnswer)) \<or>
    (\<exists>e. r = Inl e \<and> next_id s \<le> next_id s' \<and>
      (s' = s\<lparr>next_id := next_id s'\<rparr> \<or>
       s' = signed_up p (next_id s) s\<lparr>next_id := next_id s'\<rparr> \<and> next_id s < next_id s' \<and>
       (create_user_answer w = NoAnswer True \<or>
        create_user_answer w = Answered \<and> delete_user_answer w \<notin> {Answered, NoAnswer True})))"
proof -
  consider e where "r = Inl e" "s' = s"
    | phones where "normalized_phones p = Some phones"
      "bnd (create_user w (work_email p) (full_name_of p)) (\<lambda>owner.
         bnd (except (commit (create_local_records w p owner phones))
           (\<lambda>e. thn (delete_user w owner) (raise e))) (\<lambda>result.
         thn (send_onboarding_emails w cfg p result) (ret result))) s = (r, s')"
    using assms(2) by (cases r) (auto simp: register_def run_simps)
  then show ?thesis
  proof cases
    case 1
    then show ?thesis by simp
  next
    case 2
    obtain q u where q: "create_user w (work_email p) (full_name_of p) s = (q, u)" by fastforce
    from create_user_run [OF assms(1) q] show ?thesis
    proof (elim disjE conjE exE)
      fix e assume "q = Inl e" "u = s"
      with q 2 show ?thesis by auto
    next
      fix e assume "q = Inl e" "u = signed_up p (next_id s) s" "create_user_answer w = NoAnswer True"
      with q 2 show ?thesis by (auto simp: signed_up_def)
    next
      assume ok: "q = Inr (next_id s)" "u = signed_up p (next_id s) s" "create_user_answer w = Answered"
      obtain q' u' where q': "except (commit (create_local_records w p (next_id s) phones))
           (\<lambda>e. thn (delete_user w (next_id s)) (raise e)) (signed_up p (next_id s) s) = (q', u')" by fastforce
      from create_tenant_run [OF assms(1) refl q'] show ?thesis
      proof (elim disjE conjE exE)
        assume t: "q' = Inr (Suc (next_id s), next_id s)" "u' = opened w p phones s"
        obtain m v where "send_onboarding_emails w cfg p (Suc (next_id s), next_id s) u' = (m, v)" by fastforce
        with send_onboarding_emails_run [OF this] 2 q ok q' t show ?thesis by (auto simp: thn_def)
      qed (use 2 q ok q' in auto)
    qed
  qed
qed


subsection \<open>Sample registration\<close>

definition sample_registration :: registration where
  "sample_registration =
     \<lparr>reg_first_name = ''Asha'', reg_last_name = ''J'', work_email = ''a@n.tz'', reg_phone = ''0712345678'',
      reg_password = ''passw0rd'', confirm_password = ''passw0rd'', trading_name = ''A & B Net'',
      reg_legal_name = None, reg_business_type = Bt_WISP, reg_business_email = ''b@n.tz'',
      reg_business_phone = ''+255 754 123 456'', reg_tin = None, reg_business_license_number = None,
      reg_region = None, reg_district = None, reg_ward = None, reg_street_area = None,
      reg_business_address = ''x'', reg_contact_name = None, reg_contact_position = None,
      reg_contact_phone = None, reg_contact_email = None, accept_terms = True, accept_privacy = True\<rparr>"

definition lost_io :: io where
  "lost_io = sample_io\<lparr>slug_suffix := ''a'', delete_user_answer := Refused ''500''\<rparr>"

lemma sample_below: "accounts_below (empty_db\<lparr>next_id := 1\<rparr>)" "accounts_below (empty_db\<lparr>next_id := 1, seeded_roles := []\<rparr>)"
  by (simp_all add: accounts_below_def empty_db_def)

lemma sample_registers:
  "\<exists>s'. register sample_io payout_cfg sample_registration (empty_db\<lparr>next_id := 1\<rparr>) = (Inr (2, 1), s') \<and>
     map tn_slug (tenants s') = [''a-b-net-a1b2c3''] \<and> length (email_events s') = 2"
proof -
  have "(case register sample_io payout_cfg sample_registration (empty_db\<lparr>next_id := 1\<rparr>) of
      (r, s') \<Rightarrow> r = Inr (2, 1) \<and> map tn_slug (tenants s') = [''a-b-net-a1b2c3''] \<and> length (email_events s') = 2)"
    by code_simp
  then show ?thesis by (auto split: prod.splits)
qed

lemma sample_orphan:
  "\<exists>e s'. register lost_io payout_cfg sample_registration (empty_db\<lparr>next_id := 1, seeded_roles := []\<rparr>) = (Inl e, s') \<and>
     auth_users s' = [\<lparr>su_id = 1, su_email = ''a@n.tz'', su_confirmed = False\<rparr>] \<and> tenants s' = []"
proof -
  have "(case register lost_io payout_cfg sample_registration (empty_db\<lparr>next_id := 1, seeded_roles := []\<rparr>) of
      (r, s') \<Rightarrow> r = Inl (DomainValidationError ''TENANT_OWNER role is not seeded'') \<and>
        auth_users s' = [\<lparr>su_id = 1, su_email = ''a@n.tz'', su_confirmed = False\<rparr>] \<and> tenants s' = [])"
    by code_simp
  then show ?thesis by (auto split: prod.splits)
qed


subsection \<open>What a new account may do\<close>

lemma registered:
  assumes "accounts_below s" "register w cfg p s = (Inr (t, owner), s')"
  obtains phones where "t = Suc (next_id s)" "owner = next_id s" "mailed (opened w p phones s) s'"
  using register_outcome [OF assms] by auto

lemma opened_rows:
  assumes "accounts_below s" "mailed (opened w p phones s) s'" "n = next_id s"
  shows "row_find tn_id (Suc n) (tenants s') =
      Some (new_tenant w p (Suc n) (fst (snd phones)) (snd (snd phones)))"
    and "row_find pr_id n (profiles s') =
      Some (claimed p (Suc n) (fst phones) (invited_profile n (work_email p) (full_name_of p)))"
    and "find_flags (Suc n) s' = Some \<lparr>ff_tenant = Suc n, collection_enabled = False, payout_enabled = False\<rparr>"
    and "balance b (Suc n) s' = 0"
proof -
  have none: "row_find tn_id (Suc n) (tenants s) = None" "row_find pr_id n (profiles s) = None"
    "find_flags (Suc n) s = None" "wallet_of (Suc n) s = None"
    using assms(1,3) by (auto simp: row_find_None wallet_of_None find_flags_def find_None_iff accounts_below_def)
  obtain op bp cp where ph: "phones = (op, bp, cp)" by (cases phones)
  note same = mailed_same [OF assms(2)]
  show "row_find tn_id (Suc n) (tenants s') =
      Some (new_tenant w p (Suc n) (fst (snd phones)) (snd (snd phones)))"
    using none(1) assms(3) by (simp add: same opened_def Let_def ph row_find_def find_append new_tenant_def)
  show "row_find pr_id n (profiles s') =
      Some (claimed p (Suc n) (fst phones) (invited_profile n (work_email p) (full_name_of p)))"
    using none(2) assms(3)
    by (simp add: same opened_def Let_def ph row_find_def find_append claimed_def invited_profile_def)
  show "find_flags (Suc n) s' = Some \<lparr>ff_tenant = Suc n, collection_enabled = False, payout_enabled = False\<rparr>"
    using none(3) assms(3) by (simp add: same opened_def Let_def ph find_flags_def find_append)
  show "balance b (Suc n) s' = 0"
    using none(4) assms(3) by (simp add: same opened_def Let_def ph balance_def wallet_of_def find_append)
qed

text \<open>A freshly registered account can do nothing until a person has reviewed it: every route of a tenant
  refuses its owner whatever the token says, a withdrawal is refused, both financial flags are off and every
  balance is zero.\<close>

theorem new_tenant_waits_for_review:
  assumes "accounts_below s" "register w cfg p s = (Inr (t, owner), s')"
  shows "(caller_of decode_token credentials = Some owner \<longrightarrow>
      (\<exists>e. tenant_route decode_token allowed credentials handler s' = (Inl e, s'))) \<and>
    (\<exists>e. request_withdrawal w' cfg' t actor dest amount s' = (Inl e, s')) \<and>
    find_flags t s' = Some \<lparr>ff_tenant = t, collection_enabled = False, payout_enabled = False\<rparr> \<and>
    balance b t s' = 0"
proof -
  obtain phones where t: "t = Suc (next_id s)" "owner = next_id s" and m: "mailed (opened w p phones s) s'"
    using registered [OF assms] .
  note rows = opened_rows [OF assms(1) m refl, folded t]
  have "\<not> staff_of allowed u owner s'" for u
    using rows(1,2) by (auto simp: staff_of_def claimed_def new_tenant_def)
  then have "\<exists>e. tenant_route decode_token allowed credentials handler s' = (Inl e, s')"
    if "caller_of decode_token credentials = Some owner"
    using that others_refused [of decode_token credentials allowed s' handler] by force
  moreover obtain q u where q: "request_gates w' cfg' t actor dest amount s' = (q, u)" by fastforce
  have "\<exists>e. q = Inl e \<and> u = s'"
    using q rows(3) by (cases q) (auto simp: request_gates_def run_simps)
  with q have "\<exists>e. request_withdrawal w' cfg' t actor dest amount s' = (Inl e, s')"
    by (auto simp: request_withdrawal_def)
  ultimately show ?thesis using rows(3,4) by simp
qed

theorem new_tenant_waits_for_review_witness:
  "\<exists>s'. register sample_io payout_cfg sample_registration (empty_db\<lparr>next_id := 1\<rparr>) = (Inr (2, 1), s') \<and>
     balance B_AVAILABLE 2 s' = 0 \<and> (\<exists>e. request_withdrawal sample_io payout_cfg 2 1 0 5 s' = (Inl e, s'))"
  using sample_registers new_tenant_waits_for_review [OF sample_below(1)] by blast

text \<open>An account left behind without a tenant blocks its e-mail address for good: every later registration
  with it is refused, asking for the verification mail again reports success and does nothing, and no route
  of a tenant serves its owner. None of these requests changes anything, so they may be repeated for ever.\<close>

theorem orphaned_account_is_stuck:
  assumes "accounts_below s" "register w cfg p s = (Inl e, s')"
    and "auth_users s' \<noteq> auth_users s" "tenants s' = tenants s"
    and "work_email p' = work_email p" "caller_of decode_token credentials = Some (next_id s)"
  shows "register w' cfg' p' s' = (Inl (ConflictError ''An account with this email already exists''), s') \<and>
    resend_verification_by_email w' (work_email p) s' = (Inr True, s') \<and>
    (\<exists>e. tenant_route decode_token allowed credentials handler s' = (Inl e, s'))"
proof -
  have unused: "\<not> email_in_use (work_email p) s"
    using assms(2,3) by (auto simp: register_def run_simps)
  have "\<not> mailed (opened w p phones s) s'" for phones
    using mailed_same(1) [of "opened w p phones s" s'] assms(4) by (auto simp: opened_def Let_def split: prod.splits)
  moreover have "s' \<noteq> s\<lparr>next_id := next_id s'\<rparr>"
  proof
    assume "s' = s\<lparr>next_id := next_id s'\<rparr>"
    from arg_cong [OF this, of auth_users] assms(3) show False by simp
  qed
  ultimately have s': "s' = signed_up p (next_id s) s\<lparr>next_id := next_id s'\<rparr>"
    using register_outcome [OF assms(1,2)] by blast
  from arg_cong [OF this, of profiles]
  have "profiles s' = profiles s @ [invited_profile (next_id s) (work_email p) (full_name_of p)]"
    by (simp add: signed_up_def)
  moreover have "find (\<lambda>x. pr_email x = Some (work_email p)) (profiles s) = None"
    using unused by (force simp: find_None_iff email_in_use_def)
  moreover have "row_find pr_id (next_id s) (profiles s) = None"
    using assms(1) by (auto simp: row_find_None accounts_below_def)
  ultimately have found: "find (\<lambda>x. pr_email x = Some (work_email p)) (profiles s') =
      Some (invited_profile (next_id s) (work_email p) (full_name_of p))"
    "row_find pr_id (next_id s) (profiles s') = Some (invited_profile (next_id s) (work_email p) (full_name_of p))"
    and used: "email_in_use (work_email p) s'"
    by (simp_all add: find_append row_find_def invited_profile_def email_in_use_def)
  have "\<not> staff_of allowed t (next_id s) s'" for t
    using found(2) by (auto simp: staff_of_def invited_profile_def)
  then have "\<exists>e. tenant_route decode_token allowed credentials handler s' = (Inl e, s')"
    using others_refused [of decode_token credentials allowed s' handler] assms(6) by force
  with used found assms(5) show ?thesis
    by (simp add: register_def resend_verification_by_email_def comp_defs invited_profile_def)
qed

theorem orphaned_account_is_stuck_witness:
  "\<exists>s'. auth_users s' = [\<lparr>su_id = 1, su_email = ''a@n.tz'', su_confirmed = False\<rparr>] \<and>
     register sample_io payout_cfg sample_registration s' =
       (Inl (ConflictError ''An account with this email already exists''), s') \<and>
     resend_verification_by_email sample_io ''a@n.tz'' s' = (Inr True, s')"
proof -
  obtain e s' where run: "register lost_io payout_cfg sample_registration
      (empty_db\<lparr>next_id := 1, seeded_roles := []\<rparr>) = (Inl e, s')"
    and left: "auth_users s' = [\<lparr>su_id = 1, su_email = ''a@n.tz'', su_confirmed = False\<rparr>]" "tenants s' = []"
    using sample_orphan by blast
  have "work_email sample_registration = ''a@n.tz''" by (simp add: sample_registration_def)
  with orphaned_account_is_stuck [OF sample_below(2) run, of sample_registration
      "\<lambda>_. Some \<lparr>claim_sub = Some 1, claim_email = None\<rparr>" "Some []" sample_io payout_cfg]
  show ?thesis using left by (auto simp: empty_db_def caller_of_def)
qed

end
