(* ===== verification/Tenant_Review.thy ===== *)
theory Tenant_Review
  imports Onboarding "HOL-Library.Option_ord"
begin

text \<open>
  The review of tenants by the platform, \<^verbatim>\<open>services/admin_tenants.py\<close>: approve, reject, ask for more
  information, suspend, reactivate, and the two financial flags; the review queue and the detail page.
  Together with registration these are all the requests that change a tenant's standing; the audit
  trail tells that standing completely.
\<close>

subsection \<open>The decisions\<close>

definition find_verification :: "uuid \<Rightarrow> db \<Rightarrow> verification option" where
  "find_verification t s = find (\<lambda>v. vf_tenant v = t) (verification_rows s)"

text \<open>The profile that has claimed the tenant longest.\<close>

definition find_owner :: "uuid \<Rightarrow> db \<Rightarrow> profile option" where
  "find_owner t s = find (\<lambda>x. pr_tenant x = Some t) (profiles s)"

definition get_tenant_and_owner :: "uuid \<Rightarrow> (tenant \<times> verification \<times> profile option) op" where
  "get_tenant_and_owner t =
     bnd (gets (\<lambda>s. row_find tn_id t (tenants s))) (\<lambda>x.
     bnd (require (NotFoundError ''Tenant not found'') x) (\<lambda>x.
     bnd (gets (find_verification t)) (\<lambda>v.
     bnd (require (DomainValidationError ''Tenant has no verification record'') v) (\<lambda>v.
     bnd (gets (find_owner t)) (\<lambda>owner.
     ret (x, v, owner))))))"

definition put_tenant :: "tenant \<Rightarrow> unit op" where
  "put_tenant x = modify (\<lambda>s. s\<lparr>tenants := row_put tn_id x (tenants s)\<rparr>)"

definition put_verification :: "verification \<Rightarrow> unit op" where
  "put_verification v = modify (\<lambda>s. s\<lparr>verification_rows := row_put vf_tenant v (verification_rows s)\<rparr>)"

definition audit_tenant :: "io \<Rightarrow> uuid \<Rightarrow> uuid \<Rightarrow> string \<Rightarrow> (string \<times> meta) list \<Rightarrow> unit op" where
  "audit_tenant w t actor action metadata =
     write_audit_log w (Some t) (Some actor) action (Some ''tenant'') (Some t) metadata"

text \<open>The mail after the decision is committed; what becomes of it is recorded.\<close>

definition notify_owner :: "io \<Rightarrow> uuid \<Rightarrow> profile option \<Rightarrow> email_event_type \<Rightarrow> unit op" where
  "notify_owner w t owner ty =
     (case owner of
        Some x \<Rightarrow> whenever (truthy (pr_email x)) (commit (record_email_event w t (the (pr_email x)) ty (mail w)))
      | None \<Rightarrow> ret ())"

definition approve :: "io \<Rightarrow> uuid \<Rightarrow> uuid \<Rightarrow> tenant op" where
  "approve w t actor =
     bnd (commit
       (bnd (get_tenant_and_owner t) (\<lambda>(x, v, owner).
        let x' = x\<lparr>tn_status := Tn_ACTIVE\<rparr> in
        thn (put_tenant x')
       (thn (put_verification (v\<lparr>vf_status := Vf_APPROVED, vf_reviewed_at := Some (now w),
               vf_reviewed_by := Some actor, approved_at := Some (now w)\<rparr>))
       (thn (audit_tenant w t actor ''TENANT_REVIEWED'' [(''decision'', MStr ''APPROVED'')])
       (thn (audit_tenant w t actor ''TENANT_APPROVED'' [])
       (ret (x', owner)))))))) (\<lambda>(x', owner).
     thn (notify_owner w t owner Em_TENANT_APPROVED) (ret x'))"

definition reject :: "io \<Rightarrow> uuid \<Rightarrow> uuid \<Rightarrow> string \<Rightarrow> tenant op" where
  "reject w t actor reason =
     bnd (commit
       (bnd (get_tenant_and_owner t) (\<lambda>(x, v, owner).
        let x' = x\<lparr>tn_status := Tn_REJECTED\<rparr> in
        thn (put_tenant x')
       (thn (put_verification (v\<lparr>vf_status := Vf_REJECTED, vf_reviewed_at := Some (now w),
               vf_reviewed_by := Some actor, rejected_at := Some (now w), rejection_reason := Some reason\<rparr>))
       (thn (audit_tenant w t actor ''TENANT_REVIEWED'' [(''decision'', MStr ''REJECTED''), (''reason'', MStr reason)])
       (thn (audit_tenant w t actor ''TENANT_REJECTED'' [(''reason'', MStr reason)])
       (ret (x', owner)))))))) (\<lambda>(x', owner).
     thn (notify_owner w t owner Em_TENANT_REJECTED) (ret x'))"

definition request_more_information :: "io \<Rightarrow> uuid \<Rightarrow> uuid \<Rightarrow> string \<Rightarrow> tenant op" where
  "request_more_information w t actor message =
     bnd (commit
       (bnd (get_tenant_and_owner t) (\<lambda>(x, v, owner).
        let x' = x\<lparr>tn_status := Tn_MORE_INFORMATION_REQUIRED\<rparr> in
        thn (put_tenant x')
       (thn (put_verification (v\<lparr>vf_status := Vf_MORE_INFORMATION_REQUIRED, vf_reviewed_at := Some (now w),
               vf_reviewed_by := Some actor, more_information_message := Some message\<rparr>))
       (thn (audit_tenant w t actor ''MORE_INFORMATION_REQUESTED'' [(''message'', MStr message)])
       (ret (x', owner))))))) (\<lambda>(x', owner).
     thn (notify_owner w t owner Em_MORE_INFORMATION_REQUIRED) (ret x'))"

text \<open>Suspending and reactivating look at the review record only after they have committed.\<close>

definition switch_status ::
    "io \<Rightarrow> uuid \<Rightarrow> uuid \<Rightarrow> tenant_status \<Rightarrow> string \<Rightarrow> (string \<times> meta) list \<Rightarrow> tenant op" where
  "switch_status w t actor status action metadata =
     bnd (gets (\<lambda>s. row_find tn_id t (tenants s))) (\<lambda>x.
     bnd (require (NotFoundError ''Tenant not found'') x) (\<lambda>x.
     let x' = x\<lparr>tn_status := status\<rparr> in
     thn (put_tenant x')
    (thn (audit_tenant w t actor action metadata)
    (ret x'))))"

definition suspend :: "io \<Rightarrow> uuid \<Rightarrow> uuid \<Rightarrow> string option \<Rightarrow> tenant op" where
  "suspend w t actor reason =
     bnd (commit (switch_status w t actor Tn_SUSPENDED ''TENANT_SUSPENDED''
            (if truthy reason then [(''reason'', MStr (the reason))] else []))) (\<lambda>x'.
     bnd (get_tenant_and_owner t) (\<lambda>(_, _, owner).
     thn (notify_owner w t owner Em_TENANT_SUSPENDED) (ret x')))"

definition reactivate :: "io \<Rightarrow> uuid \<Rightarrow> uuid \<Rightarrow> tenant op" where
  "reactivate w t actor =
     bnd (commit (switch_status w t actor Tn_ACTIVE ''TENANT_REACTIVATED'' [])) (\<lambda>x'.
     bnd (get_tenant_and_owner t) (\<lambda>(_, _, owner).
     thn (notify_owner w t owner Em_TENANT_REACTIVATED) (ret x')))"

definition get_flags :: "uuid \<Rightarrow> feature_flags op" where
  "get_flags t =
     bnd (gets (find_flags t)) (\<lambda>f.
     require (DomainValidationError ''Tenant has no feature flags record'') f)"

definition put_flags :: "feature_flags \<Rightarrow> unit op" where
  "put_flags f = modify (\<lambda>s. s\<lparr>flags_rows := row_put ff_tenant f (flags_rows s)\<rparr>)"

definition set_collection_enabled :: "io \<Rightarrow> uuid \<Rightarrow> uuid \<Rightarrow> bool \<Rightarrow> feature_flags op" where
  "set_collection_enabled w t actor enabled =
     commit
       (bnd (get_flags t) (\<lambda>f.
        let f' = f\<lparr>collection_enabled := enabled\<rparr> in
        thn (put_flags f')
       (thn (audit_tenant w t actor
               (if enabled then ''TENANT_COLLECTION_ENABLED'' else ''TENANT_COLLECTION_DISABLED'') [])
       (ret f'))))"

definition set_payout_enabled :: "io \<Rightarrow> uuid \<Rightarrow> uuid \<Rightarrow> bool \<Rightarrow> feature_flags op" where
  "set_payout_enabled w t actor enabled =
     commit
       (bnd (get_flags t) (\<lambda>f.
        let f' = f\<lparr>payout_enabled := enabled\<rparr> in
        thn (put_flags f')
       (thn (audit_tenant w t actor
               (if enabled then ''TENANT_PAYOUT_ENABLED'' else ''TENANT_PAYOUT_DISABLED'') [])
       (ret f'))))"

subsection \<open>The queue and the detail page\<close>

record queue_row =
  q_id :: uuid
  q_business_name :: string
  q_owner_name :: "string option"
  q_owner_email :: "string option"
  q_owner_missing :: bool
  q_business_type :: "business_type option"
  q_region :: "string option"
  q_email_verified :: bool
  q_submitted_at :: "time option"
  q_status :: tenant_status

text \<open>The outer joins: a tenant with each of its profiles and review records, or with none.\<close>

definition or_none :: "'a list \<Rightarrow> 'a option list" where
  "or_none xs = (if xs = [] then [None] else List.map Some xs)"

definition queue_join :: "db \<Rightarrow> tenant \<Rightarrow> queue_row list" where
  "queue_join s x =
     [\<lparr>q_id = tn_id x, q_business_name = tn_name x, q_owner_name = Option.bind p pr_full_name,
       q_owner_email = Option.bind p pr_email, q_owner_missing = (Option.bind p pr_email = None),
       q_business_type = map_option bd_type (tn_details x), q_region = Option.bind (tn_details x) bd_region,
       q_email_verified = (Option.bind v email_verified_at \<noteq> None),
       q_submitted_at = Option.bind v vf_submitted_at, q_status = tn_status x\<rparr>.
      p \<leftarrow> or_none (filter (\<lambda>p. pr_tenant p = Some (tn_id x)) (profiles s)),
      v \<leftarrow> or_none (filter (\<lambda>v. vf_tenant v = tn_id x) (verification_rows s))]"

text \<open>The first row of each tenant.\<close>

fun first_rows :: "uuid list \<Rightarrow> queue_row list \<Rightarrow> queue_row list" where
  "first_rows seen [] = []"
| "first_rows seen (r # rs) =
     (if q_id r \<in> set seen then first_rows seen rs else r # first_rows (q_id r # seen) rs)"

text \<open>\<^verbatim>\<open>ORDER BY submitted_at DESC\<close>: rows without a time come first.\<close>

definition list_queue :: "string option \<Rightarrow> db \<Rightarrow> queue_row list" where
  "list_queue status_filter s =
     (let rows = concat (map (queue_join s) (tenants s));
          ordered = sort_key (\<lambda>r. map_option uminus (q_submitted_at r)) rows;
          wanted = (if truthy status_filter \<and> status_filter \<noteq> Some ''all''
                    then filter (\<lambda>r. tenant_status_value (q_status r) = the status_filter) ordered else ordered)
      in first_rows [] wanted)"

record tenant_detail =
  td_tenant :: tenant
  td_owner_name :: "string option"
  td_owner_email :: "string option"
  td_owner_phone :: "string option"
  td_owner_missing :: bool
  td_contact_name :: "string option"
  td_email_verified :: bool
  td_verification :: verification
  td_collection_enabled :: bool
  td_payout_enabled :: bool
  td_recent :: "audit_log list"

definition get_detail :: "uuid \<Rightarrow> tenant_detail op" where
  "get_detail t =
     bnd (get_tenant_and_owner t) (\<lambda>(x, v, owner).
     bnd (gets (find_flags t)) (\<lambda>flags.
     bnd (gets (\<lambda>s. take 20 (sort_key (\<lambda>a. - au_created_at a)
            (filter (\<lambda>a. au_tenant a = Some t) (audit_logs s))))) (\<lambda>recent.
     let contact = Option.bind (tn_details x) bd_contact_name in
     ret \<lparr>td_tenant = x, td_owner_name = Option.bind owner pr_full_name,
          td_owner_email = Option.bind owner pr_email, td_owner_phone = Option.bind owner pr_phone,
          td_owner_missing = (owner = None),
          td_contact_name = (if truthy contact then contact else Option.bind owner pr_full_name),
          td_email_verified = (email_verified_at v \<noteq> None), td_verification = v,
          td_collection_enabled = (case flags of None \<Rightarrow> False | Some f \<Rightarrow> collection_enabled f),
          td_payout_enabled = (case flags of None \<Rightarrow> False | Some f \<Rightarrow> payout_enabled f),
          td_recent = recent\<rparr>)))"

subsection \<open>What the audit trail says\<close>

text \<open>The last entry about a tenant that says something: its status, its review, its two flags.\<close>

fun last_word :: "(string \<Rightarrow> 'v option) \<Rightarrow> uuid \<Rightarrow> audit_log list \<Rightarrow> 'v option" where
  "last_word word t [] = None"
| "last_word word t (a # as) =
     (case last_word word t as of
        Some v \<Rightarrow> Some v
      | None \<Rightarrow> if au_target_type a = Some ''tenant'' \<and> au_target a = Some t then word (au_action a) else None)"

fun says :: "(string \<times> 'v) list \<Rightarrow> string \<Rightarrow> 'v option" where
  "says [] a = None"
| "says ((b, v) # bs) a = (if a = b then Some v else says bs a)"

definition says_status :: "string \<Rightarrow> tenant_status option" where
  "says_status = says [(''TENANT_REGISTERED'', Tn_PENDING_VERIFICATION), (''TENANT_APPROVED'', Tn_ACTIVE),
     (''TENANT_REJECTED'', Tn_REJECTED), (''MORE_INFORMATION_REQUESTED'', Tn_MORE_INFORMATION_REQUIRED),
     (''TENANT_SUSPENDED'', Tn_SUSPENDED), (''TENANT_REACTIVATED'', Tn_ACTIVE)]"

definition says_review :: "string \<Rightarrow> verification_status option" where
  "says_review = says [(''TENANT_REGISTERED'', Vf_PENDING_VERIFICATION), (''TENANT_APPROVED'', Vf_APPROVED),
     (''TENANT_REJECTED'', Vf_REJECTED), (''MORE_INFORMATION_REQUESTED'', Vf_MORE_INFORMATION_REQUIRED)]"

definition says_collection :: "string \<Rightarrow> bool option" where
  "says_collection = says [(''TENANT_REGISTERED'', False), (''TENANT_COLLECTION_ENABLED'', True),
     (''TENANT_COLLECTION_DISABLED'', False)]"

definition says_payout :: "string \<Rightarrow> bool option" where
  "says_payout = says [(''TENANT_REGISTERED'', False), (''TENANT_PAYOUT_ENABLED'', True),
     (''TENANT_PAYOUT_DISABLED'', False)]"

definition ACCOUNT_ACTIONS :: "string list" where
  "ACCOUNT_ACTIONS = [''TENANT_REGISTERED'', ''TENANT_APPROVED'', ''TENANT_REJECTED'', ''MORE_INFORMATION_REQUESTED'',
     ''TENANT_SUSPENDED'', ''TENANT_REACTIVATED'', ''TENANT_COLLECTION_ENABLED'', ''TENANT_COLLECTION_DISABLED'',
     ''TENANT_PAYOUT_ENABLED'', ''TENANT_PAYOUT_DISABLED'']"

lemma last_word_append:
  "last_word word t (logs @ as) = (case last_word word t as of None \<Rightarrow> last_word word t logs | Some v \<Rightarrow> Some v)"
  by (induction logs) (auto split: option.splits)

text \<open>
  A column of a table whose value for every row is what the trail says last of the row's tenant. Entries
  with other actions say nothing; entries about one tenant say nothing of another.
\<close>

definition told :: "(string \<Rightarrow> 'v option) \<Rightarrow> ('r \<Rightarrow> uuid) \<Rightarrow> ('r \<Rightarrow> 'v) \<Rightarrow> 'r list \<Rightarrow> audit_log list \<Rightarrow> bool" where
  "told word key val rows logs \<longleftrightarrow> (\<forall>r \<in> set rows. last_word word (key r) logs = Some (val r))"

locale told_column =
  fixes word :: "string \<Rightarrow> 'v option" and key :: "'r \<Rightarrow> uuid" and val :: "'r \<Rightarrow> 'v"
  assumes silent: "a \<notin> set ACCOUNT_ACTIONS \<Longrightarrow> word a = None"
begin

lemma other_tenant:
  assumes "\<forall>a \<in> set as. au_target a = Some t \<or> au_action a \<notin> set ACCOUNT_ACTIONS" "u \<noteq> t"
  shows "last_word word u (logs @ as) = last_word word u logs"
proof -
  have "last_word word u as = None"
    using assms(1)
  proof (induction as)
    case (Cons a as)
    then show ?case using assms(2) silent [of "au_action a"] by auto
  qed simp
  then show ?thesis by (simp add: last_word_append)
qed

lemma told_change:
  assumes "told word key val rows logs"
    and "\<forall>a \<in> set as. au_target a = Some t \<or> au_action a \<notin> set ACCOUNT_ACTIONS"
    and "\<And>r. r \<in> set rows' \<Longrightarrow> key r \<noteq> t \<and> r \<in> set rows \<or> key r = t \<and> last_word word t (logs @ as) = Some (val r)"
  shows "told word key val rows' (logs @ as)"
  using assms(1,3) other_tenant [OF assms(2)] unfolding told_def by fastforce

lemma told_put:
  assumes "told word key val rows logs" "last_word word (key r) as = Some (val r)"
    and "\<forall>a \<in> set as. au_target a = Some (key r) \<or> au_action a \<notin> set ACCOUNT_ACTIONS"
  shows "told word key val (row_put key r rows) (logs @ as)"
  using assms by (intro told_change) (auto simp: row_put_def last_word_append)

lemma told_new:
  assumes "told word key val rows logs" "last_word word (key r) as = Some (val r)" "key r \<notin> key ` set rows"
    and "\<forall>a \<in> set as. au_target a = Some (key r) \<or> au_action a \<notin> set ACCOUNT_ACTIONS"
  shows "told word key val (rows @ [r]) (logs @ as)"
  using assms by (intro told_change) (auto simp: last_word_append image_iff)

lemma told_same:
  assumes "told word key val rows logs" "last_word word t as = None"
    and "\<forall>a \<in> set as. au_target a = Some t \<or> au_action a \<notin> set ACCOUNT_ACTIONS"
    and "\<And>r. r \<in> set rows' \<Longrightarrow> \<exists>r' \<in> set rows. key r' = key r \<and> val r' = val r"
  shows "told word key val rows' (logs @ as)"
proof -
  have "last_word word (key r) (logs @ as) = Some (val r)" if "r \<in> set rows'" for r
    using assms(4) [OF that] assms(1,2) other_tenant [OF assms(3), of "key r" logs]
    by (cases "key r = t") (auto simp: told_def last_word_append)
  then show ?thesis by (simp add: told_def)
qed

lemma told_keep:
  assumes "told word key val rows logs" "last_word word (key r) as = None"
    and "g \<in> set rows" "key g = key r" "val g = val r"
    and "\<forall>a \<in> set as. au_target a = Some (key r) \<or> au_action a \<notin> set ACCOUNT_ACTIONS"
  shows "told word key val (row_put key r rows) (logs @ as)"
proof (rule told_change [OF assms(1,6)])
  have "last_word word (key r) logs = Some (val r)" using assms(1,3-5) by (auto simp: told_def)
  then show "key x \<noteq> key r \<and> x \<in> set rows \<or> key x = key r \<and> last_word word (key r) (logs @ as) = Some (val x)"
    if "x \<in> set (row_put key r rows)" for x
    using that assms(2) by (auto simp: row_put_def last_word_append split: if_splits)
qed

text \<open>Entries that say nothing of any tenant.\<close>

lemma told_quiet:
  assumes "told word key val rows logs" "\<forall>a \<in> set as. au_action a \<notin> set ACCOUNT_ACTIONS"
    and "\<And>r. r \<in> set rows' \<Longrightarrow> \<exists>r' \<in> set rows. key r' = key r \<and> val r' = val r"
  shows "told word key val rows' (logs @ as)"
proof -
  have "last_word word u (logs @ as) = last_word word u logs" for u
    using other_tenant [of as "Suc u" u] assms(2) by simp
  then show ?thesis using assms(1,3) by (fastforce simp: told_def)
qed

end

lemma says_silent: "a \<notin> fst ` set ws \<Longrightarrow> says ws a = None"
  by (induction ws) auto

interpretation status: told_column says_status tn_id tn_status
  by unfold_locales (auto simp: says_status_def ACCOUNT_ACTIONS_def intro!: says_silent)

interpretation review: told_column says_review vf_tenant vf_status
  by unfold_locales (auto simp: says_review_def ACCOUNT_ACTIONS_def intro!: says_silent)

interpretation collection: told_column says_collection ff_tenant collection_enabled
  by unfold_locales (auto simp: says_collection_def ACCOUNT_ACTIONS_def intro!: says_silent)

interpretation payout: told_column says_payout ff_tenant payout_enabled
  by unfold_locales (auto simp: says_payout_def ACCOUNT_ACTIONS_def intro!: says_silent)

subsection \<open>All requests on accounts\<close>

text \<open>
  Any other request or event leaves the standing of every tenant alone and writes no such entry;
  every request draws new identifiers only.
\<close>

definition unrelated :: "db \<Rightarrow> db \<Rightarrow> bool" where
  "unrelated s s' \<longleftrightarrow>
     tenants s' = tenants s \<and> verification_rows s' = verification_rows s \<and> flags_rows s' = flags_rows s \<and>
     accounts_below s' \<and> (\<exists>as. audit_logs s' = audit_logs s @ as \<and> (\<forall>a \<in> set as. au_action a \<notin> set ACCOUNT_ACTIONS))"

inductive account_step :: "db \<Rightarrow> db \<Rightarrow> bool" where
  registering: "register_route w cfg p s = (r, s') \<Longrightarrow> account_step s s'"
| resending: "resend_verification_by_email w email s = (r, s') \<Longrightarrow> account_step s s'"
| asking: "get_account_status w t owner s = (r, s') \<Longrightarrow> account_step s s'"
| confirming: "account_step s (confirm_email i s)"
| approving: "approve w t actor s = (r, s') \<Longrightarrow> account_step s s'"
| rejecting: "reject w t actor reason s = (r, s') \<Longrightarrow> account_step s s'"
| inquiring: "request_more_information w t actor message s = (r, s') \<Longrightarrow> account_step s s'"
| suspending: "suspend w t actor why s = (r, s') \<Longrightarrow> account_step s s'"
| reactivating: "reactivate w t actor s = (r, s') \<Longrightarrow> account_step s s'"
| collecting: "set_collection_enabled w t actor enabled s = (r, s') \<Longrightarrow> account_step s s'"
| paying_out: "set_payout_enabled w t actor enabled s = (r, s') \<Longrightarrow> account_step s s'"
| unrelating: "unrelated s s' \<Longrightarrow> account_step s s'"

definition standing_told :: "db \<Rightarrow> bool" where
  "standing_told s \<longleftrightarrow> accounts_below s \<and>
     told says_status tn_id tn_status (tenants s) (audit_logs s) \<and>
     told says_review vf_tenant vf_status (verification_rows s) (audit_logs s) \<and>
     told says_collection ff_tenant collection_enabled (flags_rows s) (audit_logs s) \<and>
     told says_payout ff_tenant payout_enabled (flags_rows s) (audit_logs s)"

text \<open>Entries that say nothing.\<close>

lemma quiet_told:
  assumes "standing_told s" "tenants s' = tenants s" "flags_rows s' = flags_rows s"
    and "audit_logs s' = audit_logs s @ as" "\<forall>a \<in> set as. au_action a \<notin> set ACCOUNT_ACTIONS"
    and rows: "\<And>v. v \<in> set (verification_rows s') \<Longrightarrow>
      \<exists>v' \<in> set (verification_rows s). vf_tenant v' = vf_tenant v \<and> vf_status v' = vf_status v"
    and "accounts_below s'"
  shows "standing_told s'"
  using assms(1,5,7) rows unfolding standing_told_def assms(2,3,4)
  by (auto intro!: status.told_quiet review.told_quiet collection.told_quiet payout.told_quiet)

lemma told_mailed:
  assumes "standing_told s" "mailed s s'"
  shows "standing_told s'"
proof -
  obtain as where as: "audit_logs s' = audit_logs s @ as" "\<forall>a \<in> set as. au_action a = ''EMAIL_VERIFICATION_SENT''"
    using assms(2) by (auto simp: mailed_def)
  note same = mailed_same [OF assms(2)]
  have "accounts_below s'" using assms(1) same by (simp add: standing_told_def accounts_below_def)
  with assms(1) as same show ?thesis by (intro quiet_told [of s s' as]) (auto simp: ACCOUNT_ACTIONS_def)
qed

lemma notify_run: "notify_owner w t owner ty s = (r, s') \<Longrightarrow> r = Inr () \<and> mailed s s'"
  by (auto simp: notify_owner_def mailed_def comp_defs commit_def record_email_event_def split: option.splits if_splits)

lemma rollback_same [simp]: "rollback s s = s"
  by (simp add: rollback_def)

lemma get_tenant_and_owner_Inr:
  "get_tenant_and_owner t s = (Inr (x, v, owner), s') \<longleftrightarrow> s' = s \<and> row_find tn_id t (tenants s) = Some x \<and>
     find_verification t s = Some v \<and> owner = find_owner t s"
  by (auto simp: get_tenant_and_owner_def run_simps)

lemma get_tenant_and_owner_Inl: "get_tenant_and_owner t s = (Inl e, s') \<Longrightarrow> s' = s"
  by (auto simp: get_tenant_and_owner_def run_simps)

text \<open>A decision of the review: both rows and the entries that say so.\<close>

definition entry :: "io \<Rightarrow> uuid \<Rightarrow> uuid \<Rightarrow> string \<Rightarrow> (string \<times> meta) list \<Rightarrow> audit_log" where
  "entry w t actor action metadata =
     \<lparr>au_tenant = Some t, au_actor = Some actor, au_action = action, au_target_type = Some ''tenant'',
      au_target = Some t, au_metadata = metadata, au_created_at = now w\<rparr>"

definition reviewed :: "tenant \<Rightarrow> verification \<Rightarrow> audit_log list \<Rightarrow> db \<Rightarrow> db" where
  "reviewed x v as s = s\<lparr>tenants := row_put tn_id x (tenants s),
     verification_rows := row_put vf_tenant v (verification_rows s), audit_logs := audit_logs s @ as\<rparr>"

lemma below_put:
  assumes "accounts_below s" "row_find tn_id t (tenants s) = Some x" "tn_id x' = t"
  shows "accounts_below (s\<lparr>tenants := row_put tn_id x' (tenants s), audit_logs := as\<rparr>)"
  using assms row_find_Some [OF assms(2)] by (auto simp: accounts_below_def dest!: row_put_set)

lemma find_verification_Some: "find_verification t s = Some v \<Longrightarrow> v \<in> set (verification_rows s) \<and> vf_tenant v = t"
  by (auto simp: find_verification_def find_Some_iff)

lemma told_reviewed:
  assumes "standing_told s" "row_find tn_id t (tenants s) = Some x" "find_verification t s = Some v"
    and "tn_id x' = t" "vf_tenant v' = t" "\<forall>a \<in> set as. au_target a = Some t"
    and "last_word says_status t as = Some (tn_status x')" "last_word says_review t as = Some (vf_status v')"
    and "last_word says_collection t as = None" "last_word says_payout t as = None"
  shows "standing_told (reviewed x' v' as s)"
proof -
  have t: "x \<in> set (tenants s)" "tn_id x = t" "v \<in> set (verification_rows s)" "vf_tenant v = t"
    using row_find_Some [OF assms(2)] find_verification_Some [OF assms(3)] by auto
  have "accounts_below (reviewed x' v' as s)"
    using assms(1,4,5) t by (auto simp: standing_told_def accounts_below_def reviewed_def dest!: row_put_set)
  moreover have "told says_status tn_id tn_status (row_put tn_id x' (tenants s)) (audit_logs s @ as)"
    "told says_review vf_tenant vf_status (row_put vf_tenant v' (verification_rows s)) (audit_logs s @ as)"
    "told says_collection ff_tenant collection_enabled (flags_rows s) (audit_logs s @ as)"
    "told says_payout ff_tenant payout_enabled (flags_rows s) (audit_logs s @ as)"
    using assms unfolding standing_told_def
    by (auto intro!: status.told_put review.told_put collection.told_same [where t = t] payout.told_same [where t = t])
  ultimately show ?thesis by (simp add: standing_told_def reviewed_def)
qed

lemma approve_run:
  assumes "approve w t actor s = (r, s')"
  shows "s' = s \<and> (\<exists>e. r = Inl e) \<or> (\<exists>x v. row_find tn_id t (tenants s) = Some x \<and> find_verification t s = Some v \<and>
    r = Inr (x\<lparr>tn_status := Tn_ACTIVE\<rparr>) \<and>
    mailed (reviewed (x\<lparr>tn_status := Tn_ACTIVE\<rparr>)
      (v\<lparr>vf_status := Vf_APPROVED, vf_reviewed_at := Some (now w), vf_reviewed_by := Some actor, approved_at := Some (now w)\<rparr>)
      [entry w t actor ''TENANT_REVIEWED'' [(''decision'', MStr ''APPROVED'')], entry w t actor ''TENANT_APPROVED'' []] s) s')"
  using assms
  by (cases r) (auto simp: approve_def run_simps commit_Inr commit_Inl get_tenant_and_owner_Inr Let_def
      put_tenant_def put_verification_def audit_tenant_def entry_def reviewed_def
      dest!: get_tenant_and_owner_Inl notify_run)

lemma reject_run:
  assumes "reject w t actor reason s = (r, s')"
  shows "s' = s \<and> (\<exists>e. r = Inl e) \<or> (\<exists>x v. row_find tn_id t (tenants s) = Some x \<and> find_verification t s = Some v \<and>
    r = Inr (x\<lparr>tn_status := Tn_REJECTED\<rparr>) \<and>
    mailed (reviewed (x\<lparr>tn_status := Tn_REJECTED\<rparr>)
      (v\<lparr>vf_status := Vf_REJECTED, vf_reviewed_at := Some (now w), vf_reviewed_by := Some actor,
         rejected_at := Some (now w), rejection_reason := Some reason\<rparr>)
      [entry w t actor ''TENANT_REVIEWED'' [(''decision'', MStr ''REJECTED''), (''reason'', MStr reason)],
       entry w t actor ''TENANT_REJECTED'' [(''reason'', MStr reason)]] s) s')"
  using assms
  by (cases r) (auto simp: reject_def run_simps commit_Inr commit_Inl get_tenant_and_owner_Inr Let_def
      put_tenant_def put_verification_def audit_tenant_def entry_def reviewed_def
      dest!: get_tenant_and_owner_Inl notify_run)

lemma inquire_run:
  assumes "request_more_information w t actor message s = (r, s')"
  shows "s' = s \<and> (\<exists>e. r = Inl e) \<or> (\<exists>x v. row_find tn_id t (tenants s) = Some x \<and> find_verification t s = Some v \<and>
    r = Inr (x\<lparr>tn_status := Tn_MORE_INFORMATION_REQUIRED\<rparr>) \<and>
    mailed (reviewed (x\<lparr>tn_status := Tn_MORE_INFORMATION_REQUIRED\<rparr>)
      (v\<lparr>vf_status := Vf_MORE_INFORMATION_REQUIRED, vf_reviewed_at := Some (now w), vf_reviewed_by := Some actor,
         more_information_message := Some message\<rparr>)
      [entry w t actor ''MORE_INFORMATION_REQUESTED'' [(''message'', MStr message)]] s) s')"
  using assms
  by (cases r) (auto simp: request_more_information_def run_simps commit_Inr commit_Inl get_tenant_and_owner_Inr Let_def
      put_tenant_def put_verification_def audit_tenant_def entry_def reviewed_def
      dest!: get_tenant_and_owner_Inl notify_run)

text \<open>A change of status alone.\<close>

definition switched :: "tenant \<Rightarrow> audit_log \<Rightarrow> db \<Rightarrow> db" where
  "switched x a s = s\<lparr>tenants := row_put tn_id x (tenants s), audit_logs := audit_logs s @ [a]\<rparr>"

lemma mailed_refl [simp]: "mailed s s"
  by (simp add: mailed_def)

lemma get_tenant_and_owner_missing:
  "get_tenant_and_owner t s = (Inl e, s') \<Longrightarrow> row_find tn_id t (tenants s) = Some x \<Longrightarrow>
     s' = s \<and> find_verification t s = None \<and> e = DomainValidationError ''Tenant has no verification record''"
  by (auto simp: get_tenant_and_owner_def run_simps)

lemma switched_find:
  assumes "row_find tn_id t (tenants s) = Some x" "tn_id x' = t"
  shows "row_find tn_id t (tenants (switched x' a s)) = Some x'"
    and "find_verification t (switched x' a s) = find_verification t s"
  using row_find_put_same [of tn_id x' "tenants s" x] assms by (simp_all add: switched_def find_verification_def)

lemma switch_status_Inl:
  "switch_status w t actor st action md s = (Inl e, s') \<Longrightarrow> s' = s \<and> row_find tn_id t (tenants s) = None"
  by (auto simp: switch_status_def run_simps Let_def put_tenant_def audit_tenant_def)

lemma switch_status_Inr:
  "switch_status w t actor st action md s = (Inr x', s') \<Longrightarrow> \<exists>x. row_find tn_id t (tenants s) = Some x \<and>
     x' = x\<lparr>tn_status := st\<rparr> \<and> s' = switched (x\<lparr>tn_status := st\<rparr>) (entry w t actor action md) s"
  by (auto simp: switch_status_def run_simps Let_def put_tenant_def audit_tenant_def switched_def entry_def)

text \<open>The status changes whether or not there is a review record; without one the answer is an error.\<close>

lemma switch_run:
  assumes "bnd (commit (switch_status w t actor st action md)) (\<lambda>x'.
     bnd (get_tenant_and_owner t) (\<lambda>(_, _, owner). thn (notify_owner w t owner ty) (ret x'))) s = (r, s')"
  shows "s' = s \<and> row_find tn_id t (tenants s) = None \<and> (\<exists>e. r = Inl e) \<or>
    (\<exists>x. row_find tn_id t (tenants s) = Some x \<and> mailed (switched (x\<lparr>tn_status := st\<rparr>) (entry w t actor action md) s) s' \<and>
    r = (if find_verification t s = None then Inl (DomainValidationError ''Tenant has no verification record'')
         else Inr (x\<lparr>tn_status := st\<rparr>)))"
proof -
  obtain q u where q: "switch_status w t actor st action md s = (q, u)" by fastforce
  show ?thesis
  proof (cases q)
    case (Inl e)
    with q have "u = s \<and> row_find tn_id t (tenants s) = None" by (blast dest: switch_status_Inl)
    with q Inl assms show ?thesis by (auto simp: commit_def bnd_def)
  next
    case (Inr x')
    with q obtain x where x: "row_find tn_id t (tenants s) = Some x" "x' = x\<lparr>tn_status := st\<rparr>"
      "u = switched (x\<lparr>tn_status := st\<rparr>) (entry w t actor action md) s"
      by (blast dest: switch_status_Inr)
    have "tn_id x' = t" using row_find_Some [OF x(1)] x(2) by simp
    note find = switched_find [OF x(1) this, folded x(2)]
    have "bnd (get_tenant_and_owner t) (\<lambda>(_, _, owner). thn (notify_owner w t owner ty) (ret x')) u = (r, s')"
      using assms q Inr by (simp add: bnd_run [OF commit_Inr [THEN iffD2]])
    then show ?thesis
      using find x
      by (cases r) (auto simp: run_simps get_tenant_and_owner_Inr dest!: get_tenant_and_owner_missing notify_run)
  qed
qed

lemmas suspend_run = switch_run [where st = Tn_SUSPENDED and action = "''TENANT_SUSPENDED''"
    and ty = Em_TENANT_SUSPENDED and md = "if truthy why then [(''reason'', MStr (the why))] else []" for why,
    folded suspend_def]

lemmas reactivate_run = switch_run [where st = Tn_ACTIVE and action = "''TENANT_REACTIVATED''"
    and ty = Em_TENANT_REACTIVATED and md = "[]", folded reactivate_def]

lemma told_switched:
  assumes "standing_told s" "row_find tn_id t (tenants s) = Some x" "tn_id x' = t" "au_target a = Some t"
    and "au_target_type a = Some ''tenant''" "says_status (au_action a) = Some (tn_status x')"
    and "says_review (au_action a) = None" "says_collection (au_action a) = None" "says_payout (au_action a) = None"
  shows "standing_told (switched x' a s)"
proof -
  have "accounts_below (switched x' a s)"
    using assms(1,3) row_find_Some [OF assms(2)]
    by (auto simp: standing_told_def accounts_below_def switched_def dest!: row_put_set)
  moreover have "told says_status tn_id tn_status (row_put tn_id x' (tenants s)) (audit_logs s @ [a])"
    "told says_review vf_tenant vf_status (verification_rows s) (audit_logs s @ [a])"
    "told says_collection ff_tenant collection_enabled (flags_rows s) (audit_logs s @ [a])"
    "told says_payout ff_tenant payout_enabled (flags_rows s) (audit_logs s @ [a])"
    using assms unfolding standing_told_def
    by (auto intro!: status.told_put review.told_same [where t = t] collection.told_same [where t = t]
        payout.told_same [where t = t])
  ultimately show ?thesis by (simp add: standing_told_def switched_def)
qed

lemma find_flags_Some: "find_flags t s = Some f \<Longrightarrow> f \<in> set (flags_rows s) \<and> ff_tenant f = t"
  by (auto simp: find_flags_def find_Some_iff)

lemma told_flags:
  assumes "standing_told s" "find_flags t s = Some f" "ff_tenant f' = t" "au_target a = Some t"
    and "au_target_type a = Some ''tenant''" "says_status (au_action a) = None" "says_review (au_action a) = None"
    and c: "says_collection (au_action a) = Some (collection_enabled f') \<or>
      says_collection (au_action a) = None \<and> collection_enabled f = collection_enabled f'"
    and p: "says_payout (au_action a) = Some (payout_enabled f') \<or>
      says_payout (au_action a) = None \<and> payout_enabled f = payout_enabled f'"
  shows "standing_told (s\<lparr>flags_rows := row_put ff_tenant f' (flags_rows s), audit_logs := audit_logs s @ [a]\<rparr>)"
proof -
  note f = find_flags_Some [OF assms(2)]
  have "accounts_below (s\<lparr>flags_rows := row_put ff_tenant f' (flags_rows s), audit_logs := audit_logs s @ [a]\<rparr>)"
    using assms(1,3) f by (auto simp: standing_told_def accounts_below_def dest!: row_put_set)
  moreover have "told says_status tn_id tn_status (tenants s) (audit_logs s @ [a])"
    "told says_review vf_tenant vf_status (verification_rows s) (audit_logs s @ [a])"
    using assms unfolding standing_told_def
    by (auto intro!: status.told_same [where t = t] review.told_same [where t = t])
  moreover have "told says_collection ff_tenant collection_enabled (row_put ff_tenant f' (flags_rows s)) (audit_logs s @ [a])"
    using c
  proof
    assume "says_collection (au_action a) = Some (collection_enabled f')"
    with assms show ?thesis by (intro collection.told_put) (auto simp: standing_told_def)
  qed (use assms f in \<open>intro collection.told_keep [of _ _ _ _ f], auto simp: standing_told_def\<close>)
  moreover have "told says_payout ff_tenant payout_enabled (row_put ff_tenant f' (flags_rows s)) (audit_logs s @ [a])"
    using p
  proof
    assume "says_payout (au_action a) = Some (payout_enabled f')"
    with assms show ?thesis by (intro payout.told_put) (auto simp: standing_told_def)
  qed (use assms f in \<open>intro payout.told_keep [of _ _ _ _ f], auto simp: standing_told_def\<close>)
  ultimately show ?thesis by (simp add: standing_told_def)
qed

lemma set_flag_run:
  assumes "set_collection_enabled w t actor enabled s = (r, s') \<or> set_payout_enabled w t actor enabled s = (r, s')"
    and "standing_told s"
  shows "standing_told s'"
proof -
  consider "s' = s" | f f' a where "find_flags t s = Some f" "ff_tenant f' = t" "au_target a = Some t"
      "au_target_type a = Some ''tenant''" "s' = s\<lparr>flags_rows := row_put ff_tenant f' (flags_rows s), audit_logs := audit_logs s @ [a]\<rparr>"
      "f' = f\<lparr>collection_enabled := enabled\<rparr> \<and> au_action a =
         (if enabled then ''TENANT_COLLECTION_ENABLED'' else ''TENANT_COLLECTION_DISABLED'') \<or>
       f' = f\<lparr>payout_enabled := enabled\<rparr> \<and> au_action a =
         (if enabled then ''TENANT_PAYOUT_ENABLED'' else ''TENANT_PAYOUT_DISABLED'')"
  proof (cases "find_flags t s")
    case None
    with assms(1) that(1) show ?thesis
      by (auto simp: set_collection_enabled_def set_payout_enabled_def get_flags_def comp_defs commit_def)
  next
    case (Some f)
    note f = find_flags_Some [OF Some]
    from assms(1) show ?thesis
    proof
      assume "set_collection_enabled w t actor enabled s = (r, s')"
      with Some f show ?thesis
        by (intro that(2) [of f "f\<lparr>collection_enabled := enabled\<rparr>" "entry w t actor
              (if enabled then ''TENANT_COLLECTION_ENABLED'' else ''TENANT_COLLECTION_DISABLED'') []"])
          (auto simp: set_collection_enabled_def get_flags_def comp_defs commit_def put_flags_def audit_tenant_def
            write_audit_log_def entry_def Let_def)
    next
      assume "set_payout_enabled w t actor enabled s = (r, s')"
      with Some f show ?thesis
        by (intro that(2) [of f "f\<lparr>payout_enabled := enabled\<rparr>" "entry w t actor
              (if enabled then ''TENANT_PAYOUT_ENABLED'' else ''TENANT_PAYOUT_DISABLED'') []"])
          (auto simp: set_payout_enabled_def get_flags_def comp_defs commit_def put_flags_def audit_tenant_def
            write_audit_log_def entry_def Let_def)
    qed
  qed
  then show ?thesis
  proof cases
    case 2
    then show ?thesis
      unfolding 2(5)
      by (cases enabled; intro told_flags [OF assms(2) 2(1-4)])
        (auto simp: says_status_def says_review_def says_collection_def says_payout_def)
  qed (use assms(2) in simp)
qed

lemma told_opened:
  assumes "standing_told s"
  shows "standing_told (opened w p phones s)"
proof -
  obtain op bp cp where ph: "phones = (op, bp, cp)" by (cases phones)
  let ?t = "Suc (next_id s)" and ?as = "registration_entries w p (Suc (next_id s)) (next_id s)"
  have below: "accounts_below s" using assms by (simp add: standing_told_def)
  have new: "?t \<notin> tn_id ` set (tenants s)" "?t \<notin> vf_tenant ` set (verification_rows s)"
    "?t \<notin> ff_tenant ` set (flags_rows s)"
    using below by (auto simp: accounts_below_def)
  have "accounts_below (opened w p phones s)"
    using below unfolding ph
    by (auto simp: accounts_below_def opened_def Let_def new_tenant_def new_verification_def claimed_def
        invited_profile_def)
  moreover have words: "last_word says_status ?t ?as = Some Tn_PENDING_VERIFICATION"
    "last_word says_review ?t ?as = Some Vf_PENDING_VERIFICATION"
    "last_word says_collection ?t ?as = Some False" "last_word says_payout ?t ?as = Some False"
    by (simp_all add: registration_entries_def says_status_def says_review_def says_collection_def says_payout_def)
  have targets: "\<forall>a \<in> set ?as. au_target a = Some ?t \<or> au_action a \<notin> set ACCOUNT_ACTIONS"
    by (simp add: registration_entries_def ACCOUNT_ACTIONS_def)
  have "told says_status tn_id tn_status (tenants s @ [new_tenant w p ?t bp cp]) (audit_logs s @ ?as)"
    "told says_review vf_tenant vf_status (verification_rows s @ [new_verification w ?t]) (audit_logs s @ ?as)"
    using assms new words targets unfolding standing_told_def
    by (auto simp: new_tenant_def new_verification_def intro!: status.told_new review.told_new)
  moreover have "told says_collection ff_tenant collection_enabled
      (flags_rows s @ [\<lparr>ff_tenant = ?t, collection_enabled = False, payout_enabled = False\<rparr>]) (audit_logs s @ ?as)"
    "told says_payout ff_tenant payout_enabled
      (flags_rows s @ [\<lparr>ff_tenant = ?t, collection_enabled = False, payout_enabled = False\<rparr>]) (audit_logs s @ ?as)"
    using assms new words targets unfolding standing_told_def
    by (auto intro!: collection.told_new payout.told_new)
  ultimately show ?thesis by (simp add: standing_told_def ph opened_def Let_def)
qed

lemma told_register:
  assumes "standing_told s" "register w cfg p s = (r, s')"
  shows "standing_told s'"
proof -
  have below: "accounts_below s" using assms(1) by (simp add: standing_told_def)
  have signed: "standing_told (signed_up p (next_id s) s\<lparr>next_id := m\<rparr>)" if "next_id s < m" for m
    using assms(1) that by (auto simp: standing_told_def accounts_below_def signed_up_def invited_profile_def)
  have moved: "standing_told (s\<lparr>next_id := m\<rparr>)" if "next_id s \<le> m" for m
    using assms(1) that by (auto simp: standing_told_def accounts_below_def)
  from register_outcome [OF below assms(2)] consider
      phones where "mailed (opened w p phones s) s'"
    | "s' = s\<lparr>next_id := next_id s'\<rparr>" "next_id s \<le> next_id s'"
    | "s' = signed_up p (next_id s) s\<lparr>next_id := next_id s'\<rparr>" "next_id s < next_id s'"
    by blast
  then show ?thesis
  proof cases
    case 1
    from told_mailed [OF told_opened [OF assms(1)] this] show ?thesis .
  next
    case 2
    from moved [OF 2(2)] show ?thesis by (subst 2(1))
  next
    case 3
    from signed [OF 3(2)] show ?thesis by (subst 3(1))
  qed
qed

lemma told_status:
  assumes "standing_told s" "get_account_status w t owner s = (r, s')"
  shows "standing_told s'"
proof -
  have "s' = s \<or> (\<exists>v. row_find vf_tenant t (verification_rows s) = Some v \<and>
      s' = s\<lparr>verification_rows := row_put vf_tenant (v\<lparr>email_verified_at := Some (now w)\<rparr>) (verification_rows s),
        audit_logs := audit_logs s @ [entry w t owner ''EMAIL_VERIFIED'' []]\<rparr>)"
    using assms(2)
    by (auto simp: get_account_status_def email_confirmed_def comp_defs commit_def write_audit_log_def entry_def Let_def
        split: auth_answer.splits option.splits if_splits)
  then show ?thesis
  proof (elim disjE exE conjE)
    fix v
    assume v: "row_find vf_tenant t (verification_rows s) = Some v"
      and s': "s' = s\<lparr>verification_rows := row_put vf_tenant (v\<lparr>email_verified_at := Some (now w)\<rparr>) (verification_rows s),
        audit_logs := audit_logs s @ [entry w t owner ''EMAIL_VERIFIED'' []]\<rparr>"
    note found = row_find_Some [OF v]
    have "accounts_below s'"
      using assms(1) found s' by (auto simp: standing_told_def accounts_below_def dest!: row_put_set)
    moreover have "\<exists>y \<in> set (verification_rows s). vf_tenant y = vf_tenant x \<and> vf_status y = vf_status x"
      if "x \<in> set (verification_rows s')" for x
      using that found s' by (auto dest!: row_put_set)
    ultimately show ?thesis
      using assms(1) s' by (intro quiet_told [of s s']) (auto simp: entry_def ACCOUNT_ACTIONS_def)
  qed (use assms(1) in simp)
qed

lemma told_resend:
  assumes "standing_told s" "resend_verification_by_email w email s = (r, s')"
  shows "standing_told s'"
proof -
  have "mailed s s'"
    using assms(2)
    by (auto simp: resend_verification_by_email_def run_simps bnd_def gets_def
        split: option.splits dest!: send_verification_email_run)
  with assms(1) show ?thesis by (rule told_mailed)
qed

lemmas says_defs = says_status_def says_review_def says_collection_def says_payout_def

lemma told_decision:
  assumes "standing_told s" "approve w t actor s = (r, s') \<or> reject w t actor text s = (r, s') \<or>
    request_more_information w t actor text s = (r, s')"
  shows "standing_told s'"
proof -
  have "s' = s \<or> (\<exists>x v x' v' as. row_find tn_id t (tenants s) = Some x \<and> find_verification t s = Some v \<and>
      tn_id x' = t \<and> vf_tenant v' = t \<and> mailed (reviewed x' v' as s) s' \<and> (\<forall>a \<in> set as. au_target a = Some t) \<and>
      last_word says_status t as = Some (tn_status x') \<and> last_word says_review t as = Some (vf_status v') \<and>
      last_word says_collection t as = None \<and> last_word says_payout t as = None)"
    using assms(2)
  proof (elim disjE)
    assume "approve w t actor s = (r, s')"
    from approve_run [OF this] show ?thesis
      by (elim disjE exE conjE; (simp; fail)?)
        (rule disjI2, intro exI conjI, assumption+, auto simp: entry_def says_defs dest!: row_find_Some find_verification_Some)
  next
    assume "reject w t actor text s = (r, s')"
    from reject_run [OF this] show ?thesis
      by (elim disjE exE conjE; (simp; fail)?)
        (rule disjI2, intro exI conjI, assumption+, auto simp: entry_def says_defs dest!: row_find_Some find_verification_Some)
  next
    assume "request_more_information w t actor text s = (r, s')"
    from inquire_run [OF this] show ?thesis
      by (elim disjE exE conjE; (simp; fail)?)
        (rule disjI2, intro exI conjI, assumption+, auto simp: entry_def says_defs dest!: row_find_Some find_verification_Some)
  qed
  then show ?thesis using told_reviewed [OF assms(1)] told_mailed assms(1) by blast
qed

lemmas told_decisions = told_decision [OF _ disjI1] told_decision [OF _ disjI2, OF _ disjI1]
  told_decision [OF _ disjI2, OF _ disjI2]

lemma told_suspend:
  assumes "standing_told s" "suspend w t actor why s = (r, s')"
  shows "standing_told s'"
  using suspend_run [OF assms(2)]
proof (elim disjE exE conjE)
  fix x assume x: "row_find tn_id t (tenants s) = Some x"
    and m: "mailed (switched (x\<lparr>tn_status := Tn_SUSPENDED\<rparr>)
      (entry w t actor ''TENANT_SUSPENDED'' (if truthy why then [(''reason'', MStr (the why))] else [])) s) s'"
  show ?thesis
    by (rule told_mailed [OF told_switched [OF assms(1) x] m])
      (use row_find_Some [OF x] in \<open>simp_all add: entry_def says_defs\<close>)
qed (use assms(1) in simp)

lemma told_reactivate:
  assumes "standing_told s" "reactivate w t actor s = (r, s')"
  shows "standing_told s'"
  using reactivate_run [OF assms(2)]
proof (elim disjE exE conjE)
  fix x assume x: "row_find tn_id t (tenants s) = Some x"
    and m: "mailed (switched (x\<lparr>tn_status := Tn_ACTIVE\<rparr>) (entry w t actor ''TENANT_REACTIVATED'' []) s) s'"
  show ?thesis
    by (rule told_mailed [OF told_switched [OF assms(1) x] m])
      (use row_find_Some [OF x] in \<open>simp_all add: entry_def says_defs\<close>)
qed (use assms(1) in simp)

lemma told_step:
  assumes "account_step s s'" "standing_told s"
  shows "standing_told s'"
  using assms
proof cases
  case (registering w cfg p r)
  then have "s' = s \<or> (\<exists>r. register w cfg p s = (r, s'))"
    by (cases r) (auto simp: register_route_def run_simps)
  with told_register assms(2) show ?thesis by blast
next
  case (confirming i)
  with assms(2) show ?thesis by (auto simp: standing_told_def accounts_below_def confirm_email_def)
next
  case unrelating
  then obtain as where "audit_logs s' = audit_logs s @ as" "\<forall>a \<in> set as. au_action a \<notin> set ACCOUNT_ACTIONS"
    "tenants s' = tenants s" "verification_rows s' = verification_rows s" "flags_rows s' = flags_rows s" "accounts_below s'"
    by (auto simp: unrelated_def)
  with assms(2) show ?thesis by (intro quiet_told [of s s' as]) auto
qed (blast intro: told_resend [OF assms(2)] told_status [OF assms(2)] told_decisions [OF assms(2)]
    told_suspend [OF assms(2)] told_reactivate [OF assms(2)] set_flag_run [OF _ assms(2)])+

lemma told_reachable: "account_step\<^sup>*\<^sup>* s0 s \<Longrightarrow> standing_told s0 \<Longrightarrow> standing_told s"
  by (induction rule: rtranclp_induct) (auto intro: told_step)

text \<open>C21: The audit trail decides a tenant's standing: in every state the requests on accounts reach from an
  empty platform, in any order and interleaved with anything else, the status of a tenant, the result
  of its review and both of its financial flags are what the last entry about it says. In particular a
  tenant can take payouts only while the last decision recorded about that was to enable them;
  approving, suspending or reactivating it never does.\<close>

theorem account_history_decides:
  assumes "tenants s0 = []" "verification_rows s0 = []" "flags_rows s0 = []" "accounts_below s0"
    and "account_step\<^sup>*\<^sup>* s0 s"
  shows "(\<forall>x \<in> set (tenants s). last_word says_status (tn_id x) (audit_logs s) = Some (tn_status x)) \<and>
    (\<forall>v \<in> set (verification_rows s). last_word says_review (vf_tenant v) (audit_logs s) = Some (vf_status v)) \<and>
    (\<forall>f \<in> set (flags_rows s).
       last_word says_collection (ff_tenant f) (audit_logs s) = Some (collection_enabled f) \<and>
       last_word says_payout (ff_tenant f) (audit_logs s) = Some (payout_enabled f))"
proof -
  have "standing_told s0" using assms(1-4) by (simp add: standing_told_def told_def)
  with assms(5) have "standing_told s" by (rule told_reachable)
  then show ?thesis by (simp add: standing_told_def told_def)
qed

text \<open>The sample registration, approved by administrator 9 and enabled for payouts.\<close>

definition reviewed_run :: "((err + feature_flags) \<times> db) option" where
  "reviewed_run =
     (case register_route sample_io payout_cfg sample_registration (empty_db\<lparr>next_id := 1\<rparr>) of
        (Inl _, _) \<Rightarrow> None
      | (Inr _, s1) \<Rightarrow> (case approve sample_io 2 9 s1 of
            (Inl _, _) \<Rightarrow> None
          | (Inr _, s2) \<Rightarrow> Some (set_payout_enabled sample_io 2 9 True s2)))"

lemma reviewed_run_ok:
  "case reviewed_run of Some (Inr f, s) \<Rightarrow> payout_enabled f \<and> flags_rows s = [f] \<and> ff_tenant f = 2 \<and>
     map tn_status (tenants s) = [Tn_ACTIVE] | _ \<Rightarrow> False"
  by code_simp

lemma reviewed_run_steps: "\<exists>f s. reviewed_run = Some (Inr f, s) \<and> account_step\<^sup>*\<^sup>* (empty_db\<lparr>next_id := 1\<rparr>) s"
proof -
  obtain r1 s1 where 1: "register_route sample_io payout_cfg sample_registration (empty_db\<lparr>next_id := 1\<rparr>) = (r1, s1)"
    by fastforce
  obtain r2 s2 where 2: "approve sample_io 2 9 s1 = (r2, s2)" by fastforce
  obtain r3 s3 where 3: "set_payout_enabled sample_io 2 9 True s2 = (r3, s3)" by fastforce
  have "account_step\<^sup>*\<^sup>* (empty_db\<lparr>next_id := 1\<rparr>) s3"
    using registering [OF 1] approving [OF 2] paying_out [OF 3] by (meson rtranclp.intros)
  moreover have run: "reviewed_run = (case r1 of Inl _ \<Rightarrow> None | Inr _ \<Rightarrow>
      (case r2 of Inl _ \<Rightarrow> None | Inr _ \<Rightarrow> Some (r3, s3)))"
    by (simp only: reviewed_run_def 1 2 3 prod.case split: sum.split)
  have "\<exists>f. reviewed_run = Some (Inr f, s3)"
    using reviewed_run_ok unfolding run by (cases r1; cases r2; cases r3) auto
  ultimately show ?thesis by blast
qed

theorem account_history_decides_witness:
  "\<exists>s. account_step\<^sup>*\<^sup>* (empty_db\<lparr>next_id := 1\<rparr>) s \<and> tenants s \<noteq> [] \<and>
     last_word says_payout 2 (audit_logs s) = Some True"
proof -
  obtain f s where run: "reviewed_run = Some (Inr f, s)" "account_step\<^sup>*\<^sup>* (empty_db\<lparr>next_id := 1\<rparr>) s"
    using reviewed_run_steps by blast
  have f: "flags_rows s = [f]" "payout_enabled f" "ff_tenant f = 2" "map tn_status (tenants s) = [Tn_ACTIVE]"
    using reviewed_run_ok by (simp_all add: run(1))
  have "accounts_below (empty_db\<lparr>next_id := 1\<rparr>)" by (rule sample_below(1))
  from account_history_decides [OF _ _ _ this run(2)] run(2) f show ?thesis
    by (intro exI [of _ s]) (auto simp: empty_db_def)
qed

lemma find_verification_put:
  assumes "find_verification t s = Some v" "vf_tenant v' = t" "verification_rows s' = row_put vf_tenant v' (verification_rows s)"
  shows "find_verification t s' = Some v'"
  using row_find_put_same [of vf_tenant v' "verification_rows s" v] assms
  by (simp add: find_verification_def row_find_def)

lemma row_find_reviewed:
  assumes "row_find tn_id t (tenants s) = Some x" "tn_id x' = t" "tenants s' = row_put tn_id x' (tenants s)"
  shows "row_find tn_id t (tenants s') = Some x'"
  using row_find_put_same [of tn_id x' "tenants s" x] assms by simp

text \<open>A suspension takes effect at once and completely for the tenant's staff: whoever belongs to the tenant
  is refused by every route of a tenant from then on, whatever their roles and tokens, without any effect,
  also when the suspension itself answered with an error because the tenant has no review record.\<close>

theorem suspension_locks_out:
  assumes "suspend w t actor why s = (r, s')" "s' \<noteq> s"
    and "caller_of decode_token credentials = Some i" "row_find pr_id i (profiles s) = Some p" "pr_tenant p = Some t"
  shows "\<exists>e. tenant_route decode_token allowed credentials handler s' = (Inl e, s')"
proof -
  from suspend_run [OF assms(1)] assms(2) obtain x where x: "row_find tn_id t (tenants s) = Some x"
    and m: "mailed (switched (x\<lparr>tn_status := Tn_SUSPENDED\<rparr>)
      (entry w t actor ''TENANT_SUSPENDED'' (if truthy why then [(''reason'', MStr (the why))] else [])) s) s'"
    by blast
  have "row_find tn_id t (tenants s') = Some (x\<lparr>tn_status := Tn_SUSPENDED\<rparr>)"
    using x row_find_Some [OF x] mailed_same(1) [OF m] by (intro row_find_reviewed [OF x]) (auto simp: switched_def)
  moreover have "profiles s' = profiles s" using mailed_same(2) [OF m] by (simp add: switched_def)
  ultimately have "\<not> staff_of allowed u i s'" for u using assms(4,5) by (auto simp: staff_of_def)
  then show ?thesis using others_refused [of decode_token credentials allowed s' handler] assms(3) by force
qed

theorem suspension_locks_out_witness:
  "\<exists>r s' e. suspend sample_io 7 9 None (staffed_db Tn_ACTIVE) = (r, s') \<and>
     tenant_route sample_token [TENANT_OWNER] (Some ''x'') (\<lambda>t i. ret ()) s' = (Inl e, s')"
proof -
  obtain r s' where run: "suspend sample_io 7 9 None (staffed_db Tn_ACTIVE) = (r, s')" by fastforce
  have "case suspend sample_io 7 9 None (staffed_db Tn_ACTIVE) of (r, s') \<Rightarrow> map tn_status (tenants s') = [Tn_SUSPENDED]"
    by code_simp
  with run have "map tn_status (tenants s') = [Tn_SUSPENDED]" by simp
  then have "s' \<noteq> staffed_db Tn_ACTIVE" by (auto simp: staffed_db_def)
  moreover have "caller_of sample_token (Some ''x'') = Some 3" by (simp add: caller_of_def sample_token_def)
  moreover obtain p where "row_find pr_id 3 (profiles (staffed_db Tn_ACTIVE)) = Some p" "pr_tenant p = Some 7"
    using staffed by (auto simp: staff_of_def)
  ultimately show ?thesis using suspension_locks_out [OF run] run by blast
qed

text \<open>Reactivating asks for nothing: it makes active any tenant there is, also one whose application was
  rejected (or never looked at), and leaves the review record as it was. Its staff, whose roles were
  given at registration, are served from then on.\<close>

theorem reactivation_skips_review:
  assumes "reject w t actor reason s = (Inr x, s1)" "reactivate w' t actor' s1 = (r, s2)"
    and "row_find pr_id i (profiles s) = Some p" "pr_tenant p = Some t" "\<exists>a \<in> set allowed. a \<in> roles_of i s"
    and "caller_of decode_token credentials = Some i"
  shows "tenant_route decode_token allowed credentials handler s2 = handler t i s2 \<and>
    (\<exists>v. find_verification t s2 = Some v \<and> vf_status v = Vf_REJECTED \<and> rejection_reason v = Some reason)"
proof -
  from reject_run [OF assms(1)] obtain y v where y: "row_find tn_id t (tenants s) = Some y"
    and v: "find_verification t s = Some v"
    and m: "mailed (reviewed (y\<lparr>tn_status := Tn_REJECTED\<rparr>)
      (v\<lparr>vf_status := Vf_REJECTED, vf_reviewed_at := Some (now w), vf_reviewed_by := Some actor,
         rejected_at := Some (now w), rejection_reason := Some reason\<rparr>)
      [entry w t actor ''TENANT_REVIEWED'' [(''decision'', MStr ''REJECTED''), (''reason'', MStr reason)],
       entry w t actor ''TENANT_REJECTED'' [(''reason'', MStr reason)]] s) s1" by auto
  note one = mailed_same [OF m, unfolded reviewed_def, simplified]
  have found: "row_find tn_id t (tenants s1) = Some (y\<lparr>tn_status := Tn_REJECTED\<rparr>)"
    using row_find_Some [OF y] one(1) by (intro row_find_reviewed [OF y]) auto
  have rejected: "\<exists>v. find_verification t s1 = Some v \<and> vf_status v = Vf_REJECTED \<and> rejection_reason v = Some reason"
    using find_verification_Some [OF v] find_verification_put [OF v _ one(5)] by simp
  from reactivate_run [OF assms(2)] found obtain a where
    m2: "mailed (switched (y\<lparr>tn_status := Tn_ACTIVE\<rparr>) a s1) s2"
    using rejected by auto
  note two = mailed_same [OF m2, unfolded switched_def, simplified]
  have "row_find tn_id t (tenants s2) = Some (y\<lparr>tn_status := Tn_ACTIVE\<rparr>)"
    using row_find_Some [OF y] two(1) by (intro row_find_reviewed [OF found]) auto
  then have "staff_of allowed t i s2"
    using assms(3-5) one two by (auto simp: staff_of_def roles_of_def)
  then have "tenant_route decode_token allowed credentials handler s2 = handler t i s2"
    using assms(6) by (intro staff_passes)
  moreover have "find_verification t s2 = find_verification t s1" using two(5) by (simp add: find_verification_def)
  ultimately show ?thesis using rejected by simp
qed

theorem reactivation_skips_review_witness:
  "\<exists>s2. tenant_route sample_token [TENANT_OWNER] (Some ''x'') (\<lambda>t i. ret t) s2 = (Inr 7, s2) \<and>
     (\<exists>v. find_verification 7 s2 = Some v \<and> vf_status v = Vf_REJECTED \<and> rejection_reason v = Some ''forged papers'')"
proof -
  have "case reject sample_io 7 9 ''forged papers'' (staffed_db Tn_ACTIVE) of (Inr x, s1) \<Rightarrow> True | _ \<Rightarrow> False"
    by code_simp
  then obtain x s1 where one: "reject sample_io 7 9 ''forged papers'' (staffed_db Tn_ACTIVE) = (Inr x, s1)"
    by (auto split: prod.splits sum.splits)
  obtain r s2 where two: "reactivate sample_io 7 9 s1 = (r, s2)" by fastforce
  have "caller_of sample_token (Some ''x'') = Some 3" by (simp add: caller_of_def sample_token_def)
  moreover obtain p where "row_find pr_id 3 (profiles (staffed_db Tn_ACTIVE)) = Some p" "pr_tenant p = Some 7"
    "\<exists>a \<in> set [TENANT_OWNER]. a \<in> roles_of 3 (staffed_db Tn_ACTIVE)"
    using staffed by (auto simp: staff_of_def)
  ultimately show ?thesis
    using reactivation_skips_review [OF one two, of 3 _ "[TENANT_OWNER]" sample_token "Some ''x''" "\<lambda>t i. ret t"]
    by (auto simp: ret_def)
qed

text \<open>The queue: every tenant appears exactly once, whatever profiles and review records it has or lacks.\<close>

lemma first_rows_distinct: "distinct (map q_id (first_rows seen rs)) \<and> q_id ` set (first_rows seen rs) = q_id ` set rs - set seen"
  by (induction rs arbitrary: seen) auto

lemma or_none_nonempty [simp]: "or_none xs \<noteq> []"
  by (simp add: or_none_def)

lemma queue_join_ids: "q_id ` set (queue_join s x) = {tn_id x}"
proof -
  obtain p where "p \<in> set (or_none (filter (\<lambda>p. pr_tenant p = Some (tn_id x)) (profiles s)))"
    using or_none_nonempty by (metis last_in_set)
  moreover obtain v where "v \<in> set (or_none (filter (\<lambda>v. vf_tenant v = tn_id x) (verification_rows s)))"
    using or_none_nonempty by (metis last_in_set)
  ultimately have "set (queue_join s x) \<noteq> {}" by (force simp: queue_join_def)
  then obtain r where "r \<in> set (queue_join s x)" by (meson all_not_in_conv)
  moreover have "\<forall>r \<in> set (queue_join s x). q_id r = tn_id x" by (auto simp: queue_join_def)
  ultimately show ?thesis by (auto intro!: image_eqI [of _ q_id r])
qed

lemma queue_join_status: "r \<in> set (queue_join s x) \<Longrightarrow> q_status r = tn_status x"
  by (auto simp: queue_join_def)

definition wanted :: "string option \<Rightarrow> tenant_status \<Rightarrow> bool" where
  "wanted status_filter st =
     (if truthy status_filter \<and> status_filter \<noteq> Some ''all'' then tenant_status_value st = the status_filter else True)"

text \<open>The review queue lists every tenant exactly once, or with a filter every tenant of that status and
  no other, also a tenant without an owner's profile, with several, or without a review record.\<close>

theorem queue_lists_every_tenant_once:
  "distinct (map q_id (list_queue status_filter s)) \<and>
    q_id ` set (list_queue status_filter s) =
      tn_id ` {x \<in> set (tenants s). wanted status_filter (tn_status x)}"
proof -
  have "q_id ` set (list_queue status_filter s) =
      q_id ` {r \<in> \<Union> (set ` queue_join s ` set (tenants s)). wanted status_filter (q_status r)}"
    by (auto simp: list_queue_def Let_def first_rows_distinct wanted_def)
  also have "\<dots> = tn_id ` {x \<in> set (tenants s). wanted status_filter (tn_status x)}"
  proof (intro equalityI subsetI)
    fix i assume "i \<in> q_id ` {r \<in> \<Union> (set ` queue_join s ` set (tenants s)). wanted status_filter (q_status r)}"
    then obtain r x where "x \<in> set (tenants s)" "r \<in> set (queue_join s x)" "wanted status_filter (q_status r)" "i = q_id r"
      by auto
    with queue_join_ids [of s x] queue_join_status [of r s x]
    show "i \<in> tn_id ` {x \<in> set (tenants s). wanted status_filter (tn_status x)}"
      by (intro image_eqI [of _ _ x]) auto
  next
    fix i assume "i \<in> tn_id ` {x \<in> set (tenants s). wanted status_filter (tn_status x)}"
    then obtain x where x: "x \<in> set (tenants s)" "i = tn_id x" "wanted status_filter (tn_status x)" by auto
    from queue_join_ids [of s x] obtain r where "r \<in> set (queue_join s x)" "q_id r = tn_id x" by (metis image_iff singletonI)
    with x queue_join_status [of r s x]
    show "i \<in> q_id ` {r \<in> \<Union> (set ` queue_join s ` set (tenants s)). wanted status_filter (q_status r)}"
      by (intro image_eqI [of _ _ r]) auto
  qed
  finally show ?thesis by (simp add: list_queue_def Let_def first_rows_distinct)
qed

end
