(* ===== verification/Tenant_Gates.thy ===== *)
theory Tenant_Gates
  imports Payments Tenant_Review
begin

text \<open>
  Where a tenant's standing matters and where it does not: the payment requests, unlike the routes of
  a tenant's staff, never look at the tenant's status nor at its flags.
\<close>

subsection \<open>Operations that do not look\<close>

text \<open>
  An operation is blind to a change of the state when it does the same before and after it: the same
  answer, and the same state up to that change.
\<close>

definition blind :: "('s \<Rightarrow> 's) \<Rightarrow> ('s, 'e, 'a) comp \<Rightarrow> bool" where
  "blind f m \<longleftrightarrow> (\<forall>s. m (f s) = apsnd f (m s))"

named_theorems blind_intros \<open>compositional rules of blind\<close>

lemma blindD: "blind f m \<Longrightarrow> m (f s) = apsnd f (m s)"
  by (simp add: blind_def)

lemma blind_ret [blind_intros]: "blind f (ret x)" and blind_raise [blind_intros]: "blind f (raise e)"
  by (simp_all add: blind_def ret_def raise_def)

lemma blind_gets [blind_intros]: "(\<And>s. g (f s) = g s) \<Longrightarrow> blind f (gets g)"
  by (simp add: blind_def gets_def)

lemma blind_modify [blind_intros]: "(\<And>s. h (f s) = f (h s)) \<Longrightarrow> blind f (modify h)"
  by (simp add: blind_def modify_def)

lemma blind_lift [blind_intros]: "blind f (lift q)"
  by (simp add: blind_def lift_def)

lemma blind_guard [blind_intros]: "blind f (guard b e)" and blind_require [blind_intros]: "blind f (require e q)"
  by (simp_all add: guard_def require_def blind_ret blind_raise split: option.split)

lemma blind_bnd [blind_intros]:
  assumes "blind f m" "\<And>x. blind f (g x)"
  shows "blind f (bnd m g)"
  unfolding blind_def
proof
  fix s
  obtain q u where "m s = (q, u)" by fastforce
  with assms show "bnd m g (f s) = apsnd f (bnd m g s)" by (cases q) (simp_all add: bnd_def blindD)
qed

lemma blind_thn [blind_intros]: "blind f m \<Longrightarrow> blind f n \<Longrightarrow> blind f (thn m n)"
  by (simp add: thn_def blind_bnd)

lemma blind_except [blind_intros]:
  assumes "blind f m" "\<And>e. blind f (h e)"
  shows "blind f (except m h)"
  unfolding blind_def
proof
  fix s
  obtain q u where "m s = (q, u)" by fastforce
  with assms show "except m h (f s) = apsnd f (except m h s)" by (cases q) (simp_all add: except_def blindD)
qed

lemma blind_whenever [blind_intros]: "blind f m \<Longrightarrow> blind f (whenever b m)"
  by (simp add: whenever_def blind_ret)

lemma blind_commit:
  assumes "blind f m" "\<And>s u. rollback (f s) (f u) = f (rollback s u)"
  shows "blind f (commit m)"
  unfolding blind_def
proof
  fix s
  obtain q u where "m s = (q, u)" by fastforce
  with assms show "commit m (f s) = apsnd f (commit m s)" by (cases q) (simp_all add: commit_def blindD)
qed

subsection \<open>The payment requests\<close>

definition standing :: "tenant list \<Rightarrow> feature_flags list \<Rightarrow> db \<Rightarrow> db" where
  "standing T F s = s\<lparr>tenants := T, flags_rows := F\<rparr>"

lemma blind_fresh [blind_intros]: "blind (standing T F) fresh"
  by (simp add: blind_def fresh_def standing_def)

lemma blind_store [blind_intros]: "blind f (store x)" "blind f (store_option y)"
  by (auto simp: store_def store_option_def split: option.split intro!: blind_intros)

lemma blind_audit [blind_intros]: "blind (standing T F) (write_audit_log w t a act tt tg md)"
  by (auto simp: write_audit_log_def standing_def intro!: blind_intros)

lemma blind_record [blind_intros]: "blind (standing T F) (record_call c)"
  by (auto simp: record_call_def standing_def intro!: blind_intros)

lemma standing_select [simp]:
  "wallets (standing T F s) = wallets s" "terms_rows (standing T F s) = terms_rows s"
  "transactions (standing T F s) = transactions s" "packages (standing T F s) = packages s"
  "customers (standing T F s) = customers s" "subscriptions (standing T F s) = subscriptions s"
  "captive_sessions (standing T F s) = captive_sessions s" "routers (standing T F s) = routers s"
  "counters (standing T F s) = counters s" "ledger_entries (standing T F s) = ledger_entries s"
  by (simp_all add: standing_def)

lemma standing_update [simp]:
  "(standing T F s)\<lparr>wallets := ws\<rparr> = standing T F (s\<lparr>wallets := ws\<rparr>)"
  "(standing T F s)\<lparr>transactions := ts\<rparr> = standing T F (s\<lparr>transactions := ts\<rparr>)"
  "(standing T F s)\<lparr>customers := cs\<rparr> = standing T F (s\<lparr>customers := cs\<rparr>)"
  "(standing T F s)\<lparr>subscriptions := ss\<rparr> = standing T F (s\<lparr>subscriptions := ss\<rparr>)"
  "(standing T F s)\<lparr>captive_sessions := cap\<rparr> = standing T F (s\<lparr>captive_sessions := cap\<rparr>)"
  "(standing T F s)\<lparr>ledger_entries := ls\<rparr> = standing T F (s\<lparr>ledger_entries := ls\<rparr>)"
  "(standing T F s)\<lparr>counters := cn\<rparr> = standing T F (s\<lparr>counters := cn\<rparr>)"
  by (simp_all add: standing_def)

lemma blind_rows [blind_intros]:
  "blind (standing T F) (update_transaction f x)" "blind (standing T F) (insert_transaction x)"
  "blind (standing T F) (update_subscription g y)" "blind (standing T F) (insert_customer c)"
  "blind (standing T F) (find_transaction i)" "blind (standing T F) (consume_session w cs)"
  "blind (standing T F) (modify (put_wallet wal))"
  by (auto simp: update_transaction_def insert_transaction_def update_subscription_def insert_customer_def
      find_transaction_def consume_session_def put_wallet_def intro!: blind_intros)

lemma blind_transition [blind_intros]: "blind (standing T F) (tx_transition flow w x st actor reason md f)"
  by (auto simp: tx_transition_def intro!: blind_intros)

lemma blind_calls [blind_intros]:
  "blind (standing T F) (collection_client cfg)" "blind (standing T F) (create_order_minimal w i e n p a)"
  "blind (standing T F) (wallet_payment w i r p)" "blind (standing T F) (order_status w r)"
  by (auto simp: collection_client_def create_order_minimal_def wallet_payment_def order_status_def collection_call_def
      collection_config_from_settings_def collection_require_configured_def split: option.split reply.split intro!: blind_intros)

lemma blind_send [blind_intros]: "blind (standing T F) (create_order_and_send_stk flow w cfg x actor n e m a)"
  by (auto simp: create_order_and_send_stk_def tx_fail_def Let_def split: sum.split intro!: blind_intros)

lemma blind_hit [blind_intros]: "blind (standing T F) (hit w key limit window)"
  by (auto simp: hit_def counter_value_def intro!: blind_intros)

lemma blind_dimensions [blind_intros]: "blind (standing T F) (check_dimensions w window ds)"
proof (induction ds)
  case (Cons d ds)
  obtain a b c where "d = (a, b, c)" by (cases d)
  moreover have "blind (standing T F) (if allowed then check_dimensions w window ds else ret (Some a))" for allowed
    using Cons by (simp add: blind_ret)
  ultimately show ?case using Cons by (simp add: blind_bnd blind_hit)
qed (simp add: blind_ret)

lemma blind_attempt [blind_intros]: "blind (standing T F) (open_attempt w session p m)"
  by (auto simp: open_attempt_def get_or_create_by_phone_def create_awaiting_payment_def insert_subscription_def
      subscription_gates_def find_customer_def find_package_def customer_by_phone_def new_reference_def Let_def
      split: option.split intro!: blind_intros)

lemma blind_issue: "blind (standing T F) (issue_session w cfg router mac)"
  by (auto simp: issue_session_def Let_def intro!: blind_intros)

lemma blind_initiate: "blind (standing T F) (initiate_payment w cfg token pk ph)"
  by (auto simp: initiate_payment_def Let_def captive_context_def resolve_session_def start_attempt_def check_rate_def
      find_package_def find_active_captive_attempt_def
      validate_package_ownership_def split: option.split err.split prod.split intro!: blind_intros)

lemma blind_credit [blind_intros]: "blind (standing T F) (sp_finalize (flow_of w t) x d)"
  by (cases t) (auto simp: credit_tenant_wallet_def finalize_captive_payment_def process_collection_def
      require_active_terms_def get_active_terms_def locked_wallet_def get_or_create_wallet_def wallet_of_def
      move_bucket_def create_entry_def Let_def
      split: option.split prod.split intro!: blind_intros)

lemma blind_query [blind_intros]: "blind (standing T F) (query_and_apply (flow_of w t) w cfg x actor)"
  by (auto simp: query_and_apply_def apply_order_status_def Let_def split: sum.split list.split option.split
      intro!: blind_intros)

lemma bnd_ret: "bnd (ret q) g = g q" and bnd_raise: "bnd (raise e) g = raise e"
  by (simp_all add: bnd_def ret_def raise_def fun_eq_iff)

lemma blind_owner:
  "blind (standing T F) (bnd (provider_for (flow_of w) (flow_of w t) x) (\<lambda>q. query_and_apply q w cfg y None))"
  by (simp add: provider_for_def bnd_ret bnd_raise blind_query blind_raise split: option.split)

lemma blind_reconcile: "blind (standing T F) (reconcile_transaction (flow_of w) (flow_of w t) w cfg i)"
  by (auto simp: reconcile_transaction_def intro!: blind_intros blind_owner)

subsection \<open>Collections go on\<close>

text \<open>What the platform decides about a tenant does not reach its payments: a captive session is issued, a
  purchase started and an order's outcome applied, with its push to the customer and its credit to the
  wallet, exactly as if every tenant had any other status and any other flags; a tenant that is
  suspended, rejected or never reviewed, or whose collections were never enabled or are disabled
  again, sells access as before.\<close>

theorem payments_ignore_standing:
  "commit (issue_session w cfg router mac) (standing T F s) = apsnd (standing T F) (commit (issue_session w cfg router mac) s) \<and>
   commit (initiate_payment w cfg token package_id phone) (standing T F s) =
     apsnd (standing T F) (commit (initiate_payment w cfg token package_id phone) s) \<and>
   commit (reconcile_transaction (flow_of w) (flow_of w t) w cfg i) (standing T F s) =
     apsnd (standing T F) (commit (reconcile_transaction (flow_of w) (flow_of w t) w cfg i) s)"
proof -
  have roll: "rollback (standing T F s) (standing T F u) = standing T F (rollback s u)" for s u
    by (simp add: rollback_def standing_def)
  show ?thesis
    by (intro conjI blindD blind_commit [OF _ roll] blind_issue blind_initiate blind_reconcile)
qed

end
