(* ===== verification/Worker_Sweeps.thy ===== *)
theory Worker_Sweeps
  imports Payout_Hazards Payments Request_Signing
begin

text \<open>
  The background worker: its client for the API's internal routes
  (\<^verbatim>\<open>integrations/internal_web/client.py\<close>), those routes (\<^verbatim>\<open>api/v1/internal_disbursements.py\<close>,
  \<^verbatim>\<open>internal_collections.py\<close>), and the two reconciliation sweeps (\<^verbatim>\<open>tasks/reconciliation.py\<close>,
  \<^verbatim>\<open>tasks/collections.py\<close>), down to what a rollback does to the rows a sweep has loaded.

  The worker's session and the API's work on the same database. What SQLAlchemy does is a parameter:
  \<open>expires\<close> says whether the rollback of an open transaction expires the objects loaded in it (the
  library documents that it does, whatever \<^verbatim>\<open>expire_on_commit\<close> says), and reading an attribute of an
  expired object outside an awaited call raises.
\<close>

subsection \<open>The internal routes\<close>

record internal_settings =
  internal_web_base_url :: "string option"
  internal_worker_web_hmac_key :: "string option"
  internal_request_max_skew_seconds :: int
  api_v1_prefix :: string

text \<open>The API's state: its database, and the nonces Redis remembers.\<close>

type_synonym web = "db \<times> nonces"

definition internal_route ::
    "crypto \<Rightarrow> internal_settings \<Rightarrow> 'a op \<Rightarrow> clock \<Rightarrow> signed_request \<Rightarrow> web \<Rightarrow> (nat + 'a) \<times> web" where
  "internal_route k cfg service c q s =
     (case require_internal_auth k (internal_worker_web_hmac_key cfg)
             (internal_request_max_skew_seconds cfg) c q (snd s) of
        (Some status, seen) \<Rightarrow> (Inl status, (fst s, seen))
      | (None, seen) \<Rightarrow>
          (case commit service (fst s) of
             (Inl e, d) \<Rightarrow> (Inl (snd (error_response e)), (d, seen))
           | (Inr x, d) \<Rightarrow> (Inr x, (d, seen))))"

definition reconcile_disbursement :: "io \<Rightarrow> settings \<Rightarrow> uuid \<Rightarrow> (uuid \<times> string \<times> bool) op" where
  "reconcile_disbursement w cfg i =
     bnd (reconcile_if_pending w cfg i) (\<lambda>(x, reconciled).
     ret (wd_id x, withdrawal_status_value (wd_status x), reconciled))"


subsection \<open>The worker's client\<close>

datatype internal_error = InternalWebNotConfigured | InternalWebTransportError string | InternalWebError string

text \<open>
  One attempt to deliver a request: the worker's clock and nonce when it signs, whether request and
  answer get through, the API's clock when it arrives, and what the API obtains from outside then.
\<close>

record delivery =
  dl_signed :: clock
  dl_nonce :: string
  dl_channel :: channel
  dl_arrival :: clock
  dl_io :: io

definition MAX_ATTEMPTS :: nat where
  "MAX_ATTEMPTS = 2"

definition answered :: "nat + 'a \<Rightarrow> internal_error + 'a" where
  "answered r =
     (case r of
        Inl status \<Rightarrow> Inl (InternalWebError (if status = 404 then ''Unknown id'' else ''Internal web returned''))
      | Inr x \<Rightarrow> Inr x)"

text \<open>Only a failure of the transport is tried again; the API may have done the work all the same.\<close>

fun post_attempts :: "(delivery \<Rightarrow> 'w \<Rightarrow> (nat + 'a) \<times> 'w) \<Rightarrow> delivery list \<Rightarrow> 'w \<Rightarrow> (internal_error + 'a) \<times> 'w" where
  "post_attempts send [] s = (Inl (InternalWebTransportError ''Internal web request failed''), s)"
| "post_attempts send (d # ds) s =
     (case dl_channel d of
        Up \<Rightarrow> (case send d s of (r, s') \<Rightarrow> (answered r, s'))
      | Down \<Rightarrow> post_attempts send ds s
      | AnswerLost \<Rightarrow> post_attempts send ds (snd (send d s)))"

definition post_json ::
    "crypto \<Rightarrow> string \<Rightarrow> string \<Rightarrow> string \<Rightarrow> (delivery \<Rightarrow> signed_request \<Rightarrow> 'w \<Rightarrow> (nat + 'a) \<times> 'w) \<Rightarrow>
     (nat \<Rightarrow> delivery) \<Rightarrow> 'w \<Rightarrow> (internal_error + 'a) \<times> 'w" where
  "post_json k hmac_key path body route ds =
     post_attempts
       (\<lambda>d. route d (sign_internal_request k (dl_signed d) (dl_nonce d) hmac_key ''POST'' path body))
       (map ds [1..<MAX_ATTEMPTS + 1])"

definition client_configured :: "internal_settings \<Rightarrow> bool" where
  "client_configured cfg \<longleftrightarrow> truthy (internal_web_base_url cfg) \<and> truthy (internal_worker_web_hmac_key cfg)"

definition json_id :: "string \<Rightarrow> uuid \<Rightarrow> string" where
  "json_id field i = ''{\"'' @ field @ ''\": \"'' @ id_text i @ ''\"}''"

text \<open>\<open>wk\<close> are the settings of the worker, \<open>web\<close> and \<open>cfg\<close> those of the API.\<close>

definition ask_withdrawal ::
    "crypto \<Rightarrow> internal_settings \<Rightarrow> internal_settings \<Rightarrow> settings \<Rightarrow> (nat \<Rightarrow> delivery) \<Rightarrow> uuid \<Rightarrow> web \<Rightarrow>
     (internal_error + (uuid \<times> string \<times> bool)) \<times> web" where
  "ask_withdrawal k wk web cfg ds i =
     post_json k (the (internal_worker_web_hmac_key wk))
       (api_v1_prefix wk @ ''/internal/disbursements/reconcile'') (json_id ''withdrawal_id'' i)
       (\<lambda>d q. internal_route k web (reconcile_disbursement (dl_io d) cfg i) (dl_arrival d) q) ds"


subsection \<open>The worker's session\<close>

record session =
  in_transaction :: bool
  expired :: bool

definition session_commit :: "session \<Rightarrow> session" where
  "session_commit z = z\<lparr>in_transaction := False\<rparr>"

definition session_rollback :: "bool \<Rightarrow> session \<Rightarrow> session" where
  "session_rollback expires z =
     z\<lparr>in_transaction := False, expired := expired z \<or> (in_transaction z \<and> expires)\<rparr>"

subsection \<open>The sweeps\<close>

record tally =
  ty_resolved :: nat
  ty_still_pending :: nat
  ty_failed :: nat
  ty_alerted :: nat

definition no_tally :: tally where
  "no_tally = \<lparr>ty_resolved = 0, ty_still_pending = 0, ty_failed = 0, ty_alerted = 0\<rparr>"

text \<open>
  The loop over the listed rows: read the row's status, ask the API, count, alert when nothing
  changed, commit; an exception is rolled back, counted and logged with the row's id. \<open>None\<close> is an
  exception no handler of the loop catches: reading a row that has expired.
\<close>

fun sweep_rows ::
    "bool \<Rightarrow> ('r \<Rightarrow> 'w \<Rightarrow> (internal_error + string) \<times> 'w) \<Rightarrow> ('r \<Rightarrow> string) \<Rightarrow>
     ('r \<Rightarrow> 'w \<Rightarrow> (err + bool) \<times> 'w) \<Rightarrow> 'r list \<Rightarrow> tally \<Rightarrow> session \<Rightarrow> 'w \<Rightarrow> tally option \<times> 'w" where
  "sweep_rows expires ask status alert [] n z s = (Some n, s)"
| "sweep_rows expires ask status alert (x # rest) n z s =
     (if expired z then (None, s)
      else case ask x s of
        (Inl e, s') \<Rightarrow>
          let z' = session_rollback expires z in
          if expired z' then (None, s')
          else sweep_rows expires ask status alert rest (n\<lparr>ty_failed := ty_failed n + 1\<rparr>) z' s'
      | (Inr answer, s') \<Rightarrow>
          if answer \<noteq> status x
          then sweep_rows expires ask status alert rest (n\<lparr>ty_resolved := ty_resolved n + 1\<rparr>)
                 (session_commit z) s'
          else let n' = n\<lparr>ty_still_pending := ty_still_pending n + 1\<rparr> in
            case alert x s' of
              (Inl e, s'') \<Rightarrow>
                let z' = session_rollback expires (z\<lparr>in_transaction := True\<rparr>) in
                if expired z' then (None, s'')
                else sweep_rows expires ask status alert rest (n'\<lparr>ty_failed := ty_failed n' + 1\<rparr>) z' s''
            | (Inr sent, s'') \<Rightarrow>
                sweep_rows expires ask status alert rest
                  (if sent then n'\<lparr>ty_alerted := ty_alerted n' + 1\<rparr> else n') (session_commit z) s'')"

text \<open>What the sweep uses of an answer.\<close>

definition reported :: "('a \<Rightarrow> string) \<Rightarrow> ('w \<Rightarrow> (internal_error + 'a) \<times> 'w) \<Rightarrow> 'w \<Rightarrow> (internal_error + string) \<times> 'w" where
  "reported status m s = (case m s of (Inl e, s') \<Rightarrow> (Inl e, s') | (Inr x, s') \<Rightarrow> (Inr (status x), s'))"

text \<open>The first query of the task opened a transaction; nothing has expired yet.\<close>

definition listed_session :: session where
  "listed_session = \<lparr>in_transaction = True, expired = False\<rparr>"

definition worker_does :: "'a op \<Rightarrow> web \<Rightarrow> (err + 'a) \<times> web" where
  "worker_does m s = (case commit m (fst s) of (r, d) \<Rightarrow> (r, (d, snd s)))"

definition sweep_metadata :: "nat \<Rightarrow> tally \<Rightarrow> (string \<times> meta) list" where
  "sweep_metadata scanned n =
     [(''scanned'', MInt (int scanned)), (''resolved'', MInt (int (ty_resolved n))),
      (''still_pending'', MInt (int (ty_still_pending n))), (''failed'', MInt (int (ty_failed n)))]"

definition finish_sweep :: "io \<Rightarrow> string \<Rightarrow> (string \<times> meta) list \<Rightarrow> web \<Rightarrow> web" where
  "finish_sweep w action metadata s =
     snd (worker_does (write_audit_log w None None action None None metadata) s)"

definition reconcile_pending_withdrawals ::
    "bool \<Rightarrow> crypto \<Rightarrow> internal_settings \<Rightarrow> internal_settings \<Rightarrow> settings \<Rightarrow> (uuid \<Rightarrow> nat \<Rightarrow> delivery) \<Rightarrow>
     (uuid \<Rightarrow> io) \<Rightarrow> io \<Rightarrow> web \<Rightarrow> nat option \<times> web" where
  "reconcile_pending_withdrawals expires k wk web cfg ds wa w s =
     (let pending = list_reconcilable_withdrawals (fst s); scanned = length pending in
      if \<not> client_configured wk then
        (Some scanned, finish_sweep w ''withdrawal.reconciliation_swept''
           (sweep_metadata scanned (no_tally\<lparr>ty_failed := scanned\<rparr>) @
            [(''alerted'', MInt 0), (''error'', MStr ''internal_web_not_configured'')]) s)
      else case sweep_rows expires
             (\<lambda>x. reported (\<lambda>(i, status, reconciled). status)
                (ask_withdrawal k wk web cfg (ds (wd_id x)) (wd_id x)))
             (\<lambda>x. withdrawal_status_value (wd_status x))
             (\<lambda>x. worker_does (maybe_alert_stale (wa (wd_id x)) cfg x))
             pending no_tally listed_session s of
        (None, s') \<Rightarrow> (None, s')
      | (Some n, s') \<Rightarrow>
          (Some scanned, finish_sweep w ''withdrawal.reconciliation_swept''
             (sweep_metadata scanned n @ [(''alerted'', MInt (int (ty_alerted n)))]) s'))"


subsection \<open>Examples\<close>

definition open_row :: withdrawal where
  "open_row = draft_row\<lparr>wd_status := W_PROCESSING, submitted_at := Some (seconds 1000000)\<rparr>"

definition open_db :: db where
  "open_db = draft_db\<lparr>withdrawals := [open_row]\<rparr>"

definition two_open_db :: db where
  "two_open_db = draft_db\<lparr>
     wallets := [funded_wallet\<lparr>available_balance_tzs := 20, reserved_balance_tzs := 80\<rparr>],
     withdrawals := [open_row, open_row\<lparr>wd_id := 90, idempotency_key := ''91''\<rparr>]\<rparr>"

definition paid_out_io :: io where
  "paid_out_io = sample_io\<lparr>query_reply := Reply \<lparr>qr_resultcode = Some ''000'', qr_message = None, qr_data = None\<rparr>\<rparr>"

definition internal_cfg :: internal_settings where
  "internal_cfg = \<lparr>internal_web_base_url = Some ''http://web'', internal_worker_web_hmac_key = Some ''hk'',
     internal_request_max_skew_seconds = 90, api_v1_prefix = ''/api/v1''\<rparr>"

definition deliver :: "io \<Rightarrow> channel \<Rightarrow> uuid \<Rightarrow> nat \<Rightarrow> delivery" where
  "deliver w ch i n = \<lparr>dl_signed = at_second 5, dl_nonce = id_text i @ ''-'' @ id_text n, dl_channel = ch,
     dl_arrival = at_second 6, dl_io = w\<rparr>"

lemma open_good: "good open_db"
proof -
  have "column_value (bucket b (funded_wallet\<lparr>available_balance_tzs := 60, reserved_balance_tzs := 40\<rparr>))" for b
    by (cases b) (simp_all add: funded_wallet_def column_value_def)
  then have "wallets_ok open_db"
    by (simp add: wallets_ok_def open_db_def draft_db_def payout_db_def) (simp add: funded_wallet_def)
  moreover have "id_text 101 = ''101''" by code_simp
  ultimately show ?thesis
    by (auto simp: good_def open_db_def open_row_def draft_row_def new_withdrawal_def draft_db_def
        intro!: exI [of _ "101 :: nat"])
qed

lemma open_sweep:
  "(case reconcile_pending_withdrawals True sample_crypto internal_cfg internal_cfg payout_cfg
       (deliver paid_out_io Up) (\<lambda>_. sample_io) sample_io (open_db, []) of
     (r, (s, seen)) \<Rightarrow> r = Some 1 \<and> map wd_status (withdrawals s) = [W_SUCCESS] \<and>
       balance B_TOTAL_DISBURSED 7 s = 40 \<and> transfers (provider_calls s) = [])"
  by code_simp

text \<open>With two open withdrawals and the API unreachable for the first, the second is never asked about;
  if a rollback expired nothing, it would have been settled.\<close>

lemma outage_example:
  "(case reconcile_pending_withdrawals True sample_crypto internal_cfg internal_cfg payout_cfg
       (\<lambda>i. deliver paid_out_io (if i = 100 then Down else Up) i) (\<lambda>_. sample_io) sample_io (two_open_db, []) of
     (r, (s, seen)) \<Rightarrow> r = None \<and> map wd_status (withdrawals s) = [W_PROCESSING, W_PROCESSING] \<and>
       audit_logs s = [] \<and> seen = [])"
  "(case reconcile_pending_withdrawals False sample_crypto internal_cfg internal_cfg payout_cfg
       (\<lambda>i. deliver paid_out_io (if i = 100 then Down else Up) i) (\<lambda>_. sample_io) sample_io (two_open_db, []) of
     (r, (s, seen)) \<Rightarrow> r = Some 2 \<and> map wd_status (withdrawals s) = [W_PROCESSING, W_SUCCESS])"
  by code_simp+

subsection \<open>What every request of a sweep keeps, the sweep keeps\<close>

context stable_relation
begin

lemma keeps_attempts:
  assumes "\<And>d. keeps R (send d)"
  shows "keeps R (post_attempts send ds)"
proof (rule keepsI)
  fix s r s'
  assume "post_attempts send ds s = (r, s')"
  then show "R s s'"
  proof (induction ds arbitrary: s)
    case (Cons d ds)
    obtain q u where q: "send d s = (q, u)" by (cases "send d s")
    with assms have "R s u" by (rule keepsD)
    with Cons q show ?case by (auto split: channel.splits intro: trans)
  qed simp
qed

lemma keeps_post: "(\<And>d q. keeps R (route d q)) \<Longrightarrow> keeps R (post_json k key path body route ds)"
  by (simp add: post_json_def keeps_attempts)

lemma sweep_keeps:
  assumes "\<And>x. keeps R (ask x)" "\<And>x. keeps R (alert x)"
    and "sweep_rows expires ask status alert xs n z s = (r, s')"
  shows "R s s'"
  using assms(3)
proof (induction xs arbitrary: n z s)
  case (Cons x xs)
  obtain a u where a: "ask x s = (a, u)" by (cases "ask x s")
  obtain b v where b: "alert x u = (b, v)" by (cases "alert x u")
  have "R s u" "R u v" using keepsD [OF assms(1) a] keepsD [OF assms(2) b] .
  with Cons a b show ?case
    by (auto simp: Let_def split: sum.splits if_splits intro: trans)
qed simp

end

lemma route_keeps:
  assumes "\<And>d r d'. commit m d = (r, d') \<Longrightarrow> Q d d'" "\<And>d. Q d d"
  shows "keeps (\<lambda>s s'. Q (fst s) (fst s')) (internal_route k cfg m c q)"
  using assms by (intro keepsI) (auto simp: internal_route_def split: prod.splits option.splits sum.splits)

lemma worker_keeps:
  assumes "\<And>d r d'. commit m d = (r, d') \<Longrightarrow> Q d d'"
  shows "keeps (\<lambda>s s'. Q (fst s) (fst s')) (worker_does m)"
  using assms by (intro keepsI) (auto simp: worker_does_def split: prod.splits)

lemma keeps_reported: "keeps R m \<Longrightarrow> keeps R (reported f m)"
  by (intro keepsI) (auto simp: reported_def split: prod.splits sum.splits dest: keepsD)

subsection \<open>Sweeps of withdrawals are runs of the payout machine\<close>

text \<open>\<open>S0\<close> is any sound start; beside the machine's runs, no transfer is handed to the provider.\<close>

definition audit_only :: "db \<Rightarrow> db \<Rightarrow> bool" where
  "audit_only s s' \<longleftrightarrow> (\<exists>xs. s' = s\<lparr>audit_logs := xs\<rparr>)"

lemma audit_onlyI: "audit_only s (s\<lparr>audit_logs := xs\<rparr>)"
  by (auto simp: audit_only_def)

interpretation audit_only: stable_relation audit_only
proof
  fix s t u :: db
  show "audit_only s s" using audit_onlyI [of s "audit_logs s"] by simp
  show "audit_only s t \<Longrightarrow> audit_only t u \<Longrightarrow> audit_only s u"
    by (auto simp: audit_only_def intro: audit_onlyI)
qed

lemma audit_only_audit: "keeps audit_only (write_audit_log w t a act tt tg md)"
  by (rule keepsI) (auto simp: run_simps intro: audit_onlyI)

lemma alert_audit_only: "keeps audit_only (maybe_alert_stale w cfg x)"
  by (auto simp: maybe_alert_stale_def Let_def split: option.split withdrawal_status.split
      intro!: audit_only.keeps_rules audit_only_audit)

lemma rollback_audit_only: "audit_only s u \<Longrightarrow> rollback s u = s"
  by (auto simp: audit_only_def rollback_def)

lemma commit_audit_only: "commit m s = (r, s') \<Longrightarrow> keeps audit_only m \<Longrightarrow> audit_only s s'"
  by (erule commit_cases) (auto dest: keepsD simp: rollback_audit_only)

definition machine_run :: "db \<Rightarrow> db \<Rightarrow> bool" where
  "machine_run s s' \<longleftrightarrow> transfers (provider_calls s') = transfers (provider_calls s) \<and>
     (\<forall>S0. reached S0 s \<longrightarrow> reached S0 s')"

interpretation machine_run: stable_relation "\<lambda>s s' :: web. machine_run (fst s) (fst s')"
  by unfold_locales (auto simp: machine_run_def)

lemma audit_machine_run: "audit_only s s' \<Longrightarrow> machine_run s s'"
  by (auto simp: audit_only_def machine_run_def reached_def good_def payouts_of_def wallets_ok_def)

text \<open>A query is the only call a reconciliation makes.\<close>

definition no_transfer :: "db \<Rightarrow> db \<Rightarrow> bool" where
  "no_transfer s s' \<longleftrightarrow> transfers (provider_calls s') = transfers (provider_calls s)"

interpretation no_transfer: stable_relation no_transfer
  by unfold_locales (auto simp: no_transfer_def)

lemma no_transfer_frame: "keeps wallet_frame m \<Longrightarrow> keeps no_transfer m"
  by (rule keepsI) (auto simp: no_transfer_def dest!: keepsD frame_rows)

lemma no_transfer_update: "keeps no_transfer (update_withdrawal f x)"
  by (rule keepsI) (auto simp: no_transfer_def update_withdrawal_def run_simps)

lemma no_transfer_modify: "(\<And>s. provider_calls (f s) = provider_calls s) \<Longrightarrow> keeps no_transfer (modify f)"
  by (rule no_transfer.keeps_modify) (simp add: no_transfer_def)

lemmas no_transfer_basic = no_transfer.keeps_rules no_transfer_update no_transfer_modify
  no_transfer_frame [OF release.run_frame] no_transfer_frame [OF disburse.run_frame]

lemma no_transfer_transition: "keeps no_transfer (transition w x b actor reason md)"
  by (auto simp: transition_def create_event_def write_audit_log_def intro!: no_transfer_basic)

lemma no_transfer_apply: "keeps no_transfer (apply_provider_result w x rc m a c t r actor)"
  by (auto simp: apply_provider_result_def note_result_def fail_withdrawal_def Let_def
      split: selcom_outcome.split option.split intro!: no_transfer_basic no_transfer_transition)

lemma no_transfer_query: "keeps no_transfer (transaction_query w c key)"
  by (rule keepsI) (auto simp: transaction_query_def no_transfer_def dest!: call_state)

lemma no_transfer_config: "keeps no_transfer (business_config_from_settings cfg)"
  by (auto simp: business_config_from_settings_def uncaught_def split: option.split intro!: no_transfer_basic)

lemma no_transfer_reconcile: "keeps no_transfer (reconcile_disbursement w cfg i)"
  by (auto simp: reconcile_disbursement_def reconcile_if_pending_def reconcile_locked_def find_withdrawal_def
      Let_def split: sum.split prod.split
      intro!: no_transfer_basic no_transfer_config no_transfer_query no_transfer_apply)

lemma ids_disbursement: "keeps ids_grow (reconcile_disbursement w cfg i)"
  by (auto simp: reconcile_disbursement_def split: prod.split intro!: ids_grow.keeps_rules ids_requests)

lemma disbursement_at: "triple (reached S0) (reconcile_disbursement w cfg i) (\<lambda>_. reached S0)"
  unfolding reconcile_disbursement_def
  by (rule triple_bnd [OF reconcile_if_pending_at]) (auto intro!: triple_ret)

lemma disbursement_machine_run:
  assumes "commit (reconcile_disbursement w cfg i) s = (r, s')"
  shows "machine_run s s'"
proof -
  have calls: "transfers (provider_calls s') = transfers (provider_calls s)"
    using assms by (cases rule: commit_cases)
      (auto dest!: keepsD [OF no_transfer_reconcile] simp: no_transfer_def rollback_def)
  with assms have "perform (reconcile_disbursement w cfg i) s s'" by (auto simp: perform_def)
  with calls show ?thesis
    by (auto simp: machine_run_def intro: perform_reached [OF _ disbursement_at ids_disbursement])
qed

lemma ask_withdrawal_run:
  "keeps (\<lambda>s s'. machine_run (fst s) (fst s')) (ask_withdrawal k wk web cfg ds i)"
  unfolding ask_withdrawal_def
  by (rule machine_run.keeps_post, rule route_keeps) (erule disbursement_machine_run, simp add: machine_run_def)

lemma alert_run: "keeps (\<lambda>s s'. machine_run (fst s) (fst s')) (worker_does (maybe_alert_stale w cfg x))"
  by (intro worker_keeps audit_machine_run) (rule commit_audit_only [OF _ alert_audit_only])

lemma finish_audit_only: "audit_only (fst s) (fst (finish_sweep w action md s))"
  by (auto simp: finish_sweep_def worker_does_def commit_def write_audit_log_def modify_def intro: audit_onlyI)

lemma withdrawal_sweep_run:
  assumes "reconcile_pending_withdrawals expires k wk web cfg ds wa w s = (r, s')"
  shows "machine_run (fst s) (fst s')"
proof -
  note finish = audit_machine_run [OF finish_audit_only]
  show ?thesis
  proof (cases "client_configured wk")
    case False
    with assms show ?thesis by (auto simp: reconcile_pending_withdrawals_def Let_def intro!: finish)
  next
    case True
    let ?ask = "\<lambda>x. reported (\<lambda>(i, status, reconciled). status)
        (ask_withdrawal k wk web cfg (ds (wd_id x)) (wd_id x))"
    have ask: "keeps (\<lambda>s s'. machine_run (fst s) (fst s')) (?ask x)" for x
      by (rule keeps_reported [OF ask_withdrawal_run])
    obtain n u where sw: "sweep_rows expires ?ask (\<lambda>x. withdrawal_status_value (wd_status x))
        (\<lambda>x. worker_does (maybe_alert_stale (wa (wd_id x)) cfg x))
        (list_reconcilable_withdrawals (fst s)) no_tally listed_session s = (n, u)" (is "?sweep = _")
      by (cases ?sweep)
    from machine_run.sweep_keeps [OF ask alert_run sw] have "machine_run (fst s) (fst u)" .
    with assms True sw finish [of u] show ?thesis
      by (auto simp: reconcile_pending_withdrawals_def Let_def split: option.splits
          intro: machine_run.trans)
  qed
qed

subsection \<open>Sweeps of collections are payment requests\<close>








subsection \<open>When a sweep ends\<close>

lemma sweep_rows_total:
  assumes "\<And>x s. \<not> isl (fst (alert x s))" "\<not> expired z" "\<not> in_transaction z"
  shows "fst (sweep_rows expires ask status alert xs n z s) \<noteq> None"
  using assms(2,3)
proof (induction xs arbitrary: n z s)
  case (Cons x xs)
  have "\<not> isl (fst (alert x u))" for u by (rule assms(1))
  with Cons show ?case
    by (auto simp: session_rollback_def session_commit_def Let_def split: prod.split sum.split)
      (metis fst_conv isl_def)
qed simp

lemma alert_never_fails: "\<not> isl (fst (worker_does (maybe_alert_stale w cfg x) s))"
  by (auto simp: worker_does_def commit_def maybe_alert_stale_def Let_def comp_defs write_audit_log_def
      split: prod.splits sum.splits option.splits if_splits)

lemma first_row_decides:
  assumes "\<And>x s. \<not> isl (fst (alert x s))"
  shows "sweep_rows expires ask status alert xs n listed_session s = (None, s') \<longleftrightarrow>
    expires \<and> (\<exists>x rest e. xs = x # rest \<and> ask x s = (Inl e, s'))"
proof (cases xs)
  case (Cons x rest)
  obtain a u where a: "ask x s = (a, u)" by (cases "ask x s")
  obtain b v where b: "alert x u = (b, v)" by (cases "alert x u")
  with assms [of x u] obtain sent where sent: "b = Inr sent" by (cases b) auto
  have total: "sweep_rows ex ask status alert rest m z t \<noteq> (None, s')"
    if "\<not> expired z" "\<not> in_transaction z" for ex m z t
  proof
    assume "sweep_rows ex ask status alert rest m z t = (None, s')"
    then have "fst (sweep_rows ex ask status alert rest m z t) = None" by simp
    then show False by (rule notE [rotated]) (rule sweep_rows_total [OF assms that])
  qed
  show ?thesis
    using a b sent by (cases a)
      (auto simp: Cons listed_session_def session_rollback_def session_commit_def Let_def total)
qed simp

lemma reported_Inl: "reported f m s = (Inl e, s') \<longleftrightarrow> m s = (Inl e, s')"
  by (auto simp: reported_def split: prod.splits sum.splits)

text \<open>C22: The sweep of withdrawals dies exactly when it is configured, its first listed withdrawal cannot be
  reconciled (the API cannot be reached, refuses or fails), and a rollback expires the loaded rows, as
  SQLAlchemy documents: the handler of that exception reads the row it has just expired. Nothing is then
  done for any other withdrawal, and the database is as that one request left it, without the sweep's
  record. If the first one succeeds, no failure of a later one stops the sweep.\<close>

theorem first_failure_ends_sweep:
  "reconcile_pending_withdrawals expires k wk web cfg ds wa w s = (None, s') \<longleftrightarrow>
     expires \<and> client_configured wk \<and>
     (\<exists>x rest e. list_reconcilable_withdrawals (fst s) = x # rest \<and>
        ask_withdrawal k wk web cfg (ds (wd_id x)) (wd_id x) s = (Inl e, s'))"
proof -
  define sweep where "sweep = sweep_rows expires
    (\<lambda>x. reported (\<lambda>(i, status, reconciled). status) (ask_withdrawal k wk web cfg (ds (wd_id x)) (wd_id x)))
    (\<lambda>x. withdrawal_status_value (wd_status x)) (\<lambda>x. worker_does (maybe_alert_stale (wa (wd_id x)) cfg x))
    (list_reconcilable_withdrawals (fst s)) no_tally listed_session s"
  have "reconcile_pending_withdrawals expires k wk web cfg ds wa w s = (None, s') \<longleftrightarrow>
      client_configured wk \<and> sweep = (None, s')"
    by (auto simp: reconcile_pending_withdrawals_def sweep_def Let_def split: prod.splits option.splits)
  also have "sweep = (None, s') \<longleftrightarrow> expires \<and> (\<exists>x rest e. list_reconcilable_withdrawals (fst s) = x # rest \<and>
      ask_withdrawal k wk web cfg (ds (wd_id x)) (wd_id x) s = (Inl e, s'))"
    unfolding sweep_def first_row_decides [OF alert_never_fails] reported_Inl ..
  finally show ?thesis by blast
qed

text \<open>C23: Whatever the provider and the network answer, a sweep of the withdrawals hands the provider no
  transfer, and is a run of the payout machine: only allowed status changes, with money held, released
  and paid accordingly.\<close>

theorem sweep_only_asks:
  assumes "reconcile_pending_withdrawals expires k wk web cfg ds wa w s = (r, s')" "good (fst s)"
  shows "transfers (provider_calls (fst s')) = transfers (provider_calls (fst s)) \<and>
    spec_step\<^sup>*\<^sup>* (payouts_of (fst s)) (payouts_of (fst s')) \<and> good (fst s')"
proof -
  have "reached (payouts_of (fst s)) (fst s)" using assms(2) by (simp add: reached_def)
  with withdrawal_sweep_run [OF assms(1)] show ?thesis by (auto simp: machine_run_def reached_def)
qed

theorem sweep_only_asks_witness:
  "\<exists>s. spec_step\<^sup>*\<^sup>* (payouts_of open_db) (payouts_of s) \<and> map wd_status (withdrawals s) = [W_SUCCESS] \<and>
     transfers (provider_calls s) = []"
proof -
  obtain r s seen where run: "reconcile_pending_withdrawals True sample_crypto internal_cfg internal_cfg payout_cfg
      (deliver paid_out_io Up) (\<lambda>_. sample_io) sample_io (open_db, []) = (r, (s, seen))"
    by (rule prod_cases3)
  with open_sweep have "map wd_status (withdrawals s) = [W_SUCCESS]" "transfers (provider_calls s) = []"
    by simp_all
  moreover from sweep_only_asks [OF run] open_good
  have "spec_step\<^sup>*\<^sup>* (payouts_of open_db) (payouts_of s)" by simp
  ultimately show ?thesis by (intro exI [of _ s] conjI)
qed

subsection \<open>An answer that is lost\<close>

definition deliver_withdrawal ::
    "crypto \<Rightarrow> internal_settings \<Rightarrow> internal_settings \<Rightarrow> settings \<Rightarrow> uuid \<Rightarrow> delivery \<Rightarrow> web \<Rightarrow>
     (nat + (uuid \<times> string \<times> bool)) \<times> web" where
  "deliver_withdrawal k wk web cfg i d =
     internal_route k web (reconcile_disbursement (dl_io d) cfg i) (dl_arrival d)
       (sign_internal_request k (dl_signed d) (dl_nonce d) (the (internal_worker_web_hmac_key wk)) ''POST''
          (api_v1_prefix wk @ ''/internal/disbursements/reconcile'') (json_id ''withdrawal_id'' i))"

lemma ask_withdrawal_attempts:
  "ask_withdrawal k wk web cfg ds i = post_attempts (deliver_withdrawal k wk web cfg i) [ds 1, ds 2]"
  by (simp add: ask_withdrawal_def post_json_def MAX_ATTEMPTS_def deliver_withdrawal_def [abs_def] upt_rec
      numeral_2_eq_2)

lemma reconciled_row:
  assumes "reconcile_if_pending w cfg i s = (Inr (x, b), s')" "good s"
  shows "row_find wd_id i (withdrawals s') = Some x"
proof -
  let ?S = "payouts_of s"
  have s: "reached ?S s" using assms(2) by (simp add: reached_def)
  obtain y u where y: "find_withdrawal None i s = (Inr y, u)"
    and run: "(if wd_status y \<notin> {W_PROCESSING, W_AMBIGUOUS} then ret (y, False)
      else bnd (reconcile_locked w cfg y None) (\<lambda>x'. ret (x', True))) u = (Inr (x, b), s')"
    using assms(1) by (auto simp: reconcile_if_pending_def run_simps)
  have at: "holding ?S y u" using tripleD [OF find_withdrawal_at s y] by simp
  have i: "wd_id y = i"
    using y by (auto simp: find_withdrawal_def run_simps get_by_id_Some dest: row_find_Some)
  show ?thesis
  proof (cases "wd_status y \<in> {W_PROCESSING, W_AMBIGUOUS}")
    case True
    with run have "reconcile_locked w cfg y None u = (Inr x, s')" by (auto simp: run_simps)
    from tripleD [OF reconcile_locked_at at this] i show ?thesis
      by (auto simp: resolved_def holding_def identity_simps)
  next
    case False
    with run at i show ?thesis by (simp add: holding_def)
  qed
qed

text \<open>If the API settles a withdrawal but its answer is lost, the repeated request changes nothing more and
  tells the worker the status the first one reached.\<close>

theorem lost_answer_is_harmless:
  assumes "good (fst s)" "dl_channel (ds 1) = AnswerLost" "dl_channel (ds 2) = Up"
    and first: "deliver_withdrawal k wk web cfg i (ds 1) s = (Inr (i, status, True), s1)"
    and settled: "status \<notin> {''PROCESSING'', ''AMBIGUOUS''}"
    and second: "deliver_withdrawal k wk web cfg i (ds 2) s1 = (Inr answer, s2)"
  shows "ask_withdrawal k wk web cfg ds i s = (Inr (i, status, False), s2) \<and> fst s2 = fst s1"
proof -
  from first obtain x where run: "reconcile_if_pending (dl_io (ds 1)) cfg i (fst s) = (Inr (x, True), fst s1)"
    and x: "status = withdrawal_status_value (wd_status x)"
    by (auto simp: deliver_withdrawal_def internal_route_def reconcile_disbursement_def commit_Inr run_simps
        split: prod.splits option.splits sum.splits)
  note row = reconciled_row [OF run assms(1)]
  have "wd_status x \<notin> {W_PROCESSING, W_AMBIGUOUS}" using settled x by auto
  with row have again: "reconcile_disbursement w cfg i (fst s1) = (Inr (i, status, False), fst s1)" for w
    by (auto simp: reconcile_disbursement_def reconcile_if_pending_def find_withdrawal_def get_by_id_def
        comp_defs x dest: row_find_Some)
  have "answer = (i, status, False) \<and> fst s2 = fst s1"
    using second by (auto simp: deliver_withdrawal_def internal_route_def commit_def again
        split: prod.splits option.splits)
  then show ?thesis
    using assms(2,3) first second by (simp add: ask_withdrawal_attempts answered_def)
qed

theorem lost_answer_is_harmless_witness:
  "\<exists>s2. ask_withdrawal sample_crypto internal_cfg internal_cfg payout_cfg
      (\<lambda>n. deliver paid_out_io (if n = 1 then AnswerLost else Up) 100 n) 100 (open_db, [])
    = (Inr (100, ''SUCCESS'', False), s2)"
proof -
  let ?ds = "\<lambda>n. deliver paid_out_io (if n = 1 then AnswerLost else Up) 100 n"
  let ?go = "deliver_withdrawal sample_crypto internal_cfg internal_cfg payout_cfg 100"
  have "(case ?go (?ds 1) (open_db, []) of (a, s1) \<Rightarrow> a = Inr (100, ''SUCCESS'', True) \<and>
      (case ?go (?ds 2) s1 of (b, s2) \<Rightarrow> \<not> isl b))"
    by code_simp
  moreover obtain a s1 where one: "?go (?ds 1) (open_db, []) = (a, s1)" by (rule prod.exhaust)
  moreover obtain b s2 where two: "?go (?ds 2) s1 = (b, s2)" by (rule prod.exhaust)
  ultimately have "a = Inr (100, ''SUCCESS'', True)" "\<not> isl b" by simp_all
  then obtain c where "a = Inr (100, ''SUCCESS'', True)" "b = Inr c" by (cases b) auto
  from lost_answer_is_harmless [OF _ _ _ one [unfolded this(1)] _ two [unfolded this(2)]] open_good show ?thesis
    by (simp add: deliver_def)
qed

end
