(* ===== verification/Ip_Address.thy ===== *)
theory Ip_Address
  imports Py_Text "HOL-Library.Word"
begin

text \<open>
  The part of Python's \<^verbatim>\<open>ipaddress\<close> module the API and the network agent use: reading and writing
  IPv4 addresses and networks, membership, the list of usable hosts, for both versions of the
  protocol. The textual form of IPv6 addresses (which differs between versions of Python) is a
  parameter, and scope identifiers (\<^verbatim>\<open>%eth0\<close>) are left out.
\<close>

unbundle bit_operations_syntax

datatype ip_addr = V4 "32 word" | V6 "128 word"

datatype ip_network = Net4 "32 word" nat | Net6 "128 word" nat

record v6_text =
  v6_read :: "string \<Rightarrow> 128 word option"
  v6_show :: "128 word \<Rightarrow> string"

subsection \<open>IPv4 text\<close>

definition parse_octet :: "string \<Rightarrow> nat option" where
  "parse_octet s =
     (if s \<noteq> [] \<and> list_all is_digit s \<and> length s \<le> 3 \<and> (s = ''0'' \<or> hd s \<noteq> CHR ''0'') \<and> digits_value s \<le> 255
      then Some (digits_value s) else None)"

definition ip4_value :: "nat \<Rightarrow> nat \<Rightarrow> nat \<Rightarrow> nat \<Rightarrow> nat" where
  "ip4_value a b c d = 256 * (256 * (256 * a + b) + c) + d"

definition parse_ipv4 :: "string \<Rightarrow> 32 word option" where
  "parse_ipv4 s =
     (case map parse_octet (split_on (CHR ''.'') s) of
        [Some a, Some b, Some c, Some d] \<Rightarrow> Some (of_nat (ip4_value a b c d))
      | _ \<Rightarrow> None)"

definition octets :: "32 word \<Rightarrow> nat list" where
  "octets a = map (\<lambda>k. unat a div 256 ^ k mod 256) [3, 2, 1, 0]"

definition show_ipv4 :: "32 word \<Rightarrow> string" where
  "show_ipv4 a = join ''.'' (map nat_str (octets a))"

subsection \<open>Addresses\<close>

definition ip_address :: "v6_text \<Rightarrow> string \<Rightarrow> ip_addr option" where
  "ip_address t s =
     (case parse_ipv4 s of Some a \<Rightarrow> Some (V4 a) | None \<Rightarrow> map_option V6 (v6_read t s))"

fun show_address :: "v6_text \<Rightarrow> ip_addr \<Rightarrow> string" where
  "show_address t (V4 a) = show_ipv4 a"
| "show_address t (V6 a) = v6_show t a"

subsection \<open>Networks\<close>

definition hostmask :: "nat \<Rightarrow> 'a::len word" where
  "hostmask p = mask (LENGTH('a) - p)"

definition netmask :: "nat \<Rightarrow> 'a::len word" where
  "netmask p = NOT (hostmask p)"

text \<open>After the slash: a prefix length, or for IPv4 a netmask or hostmask in dotted form.\<close>

definition parse_prefix :: "nat \<Rightarrow> string \<Rightarrow> nat option" where
  "parse_prefix longest s =
     (if s \<noteq> [] \<and> list_all is_digit s \<and> digits_value s \<le> longest then Some (digits_value s) else None)"

definition parse_mask4 :: "string \<Rightarrow> nat option" where
  "parse_mask4 s =
     (case parse_ipv4 s of
        None \<Rightarrow> None
      | Some m \<Rightarrow>
          (case find (\<lambda>p. netmask p = m) [0..<33] of
             Some p \<Rightarrow> Some p
           | None \<Rightarrow> find (\<lambda>p. netmask p = NOT m) [0..<33]))"

definition parse_network4 :: "string \<Rightarrow> ip_network option" where
  "parse_network4 s =
     (case split_on (CHR ''/'') s of
        [a] \<Rightarrow> map_option (\<lambda>a. Net4 a 32) (parse_ipv4 a)
      | [a, m] \<Rightarrow>
          (case (parse_ipv4 a, case parse_prefix 32 m of Some p \<Rightarrow> Some p | None \<Rightarrow> parse_mask4 m) of
             (Some a, Some p) \<Rightarrow> Some (Net4 (a AND netmask p) p)
           | _ \<Rightarrow> None)
      | _ \<Rightarrow> None)"

definition parse_network6 :: "v6_text \<Rightarrow> string \<Rightarrow> ip_network option" where
  "parse_network6 t s =
     (case split_on (CHR ''/'') s of
        [a] \<Rightarrow> map_option (\<lambda>a. Net6 a 128) (v6_read t a)
      | [a, m] \<Rightarrow>
          (case (v6_read t a, parse_prefix 128 m) of
             (Some a, Some p) \<Rightarrow> Some (Net6 (a AND netmask p) p)
           | _ \<Rightarrow> None)
      | _ \<Rightarrow> None)"

text \<open>\<^verbatim>\<open>ip_network(s, strict=False)\<close>: host bits are cleared.\<close>

definition ip_network :: "v6_text \<Rightarrow> string \<Rightarrow> ip_network option" where
  "ip_network t s = (case parse_network4 s of Some n \<Rightarrow> Some n | None \<Rightarrow> parse_network6 t s)"

fun show_network :: "v6_text \<Rightarrow> ip_network \<Rightarrow> string" where
  "show_network t (Net4 a p) = show_ipv4 a @ ''/'' @ nat_str p"
| "show_network t (Net6 a p) = v6_show t a @ ''/'' @ nat_str p"

fun prefixlen :: "ip_network \<Rightarrow> nat" where
  "prefixlen (Net4 a p) = p"
| "prefixlen (Net6 a p) = p"

fun in_network :: "ip_addr \<Rightarrow> ip_network \<Rightarrow> bool" where
  "in_network (V4 a) (Net4 n p) \<longleftrightarrow> a AND netmask p = n"
| "in_network (V6 a) (Net6 n p) \<longleftrightarrow> a AND netmask p = n"
| "in_network _ _ \<longleftrightarrow> False"

text \<open>
  The usable hosts: all but the first and last address, or with IPv6 all but the first; both addresses
  of a network of two, the one of a network of one.
\<close>

definition word_range :: "nat \<Rightarrow> nat \<Rightarrow> 'a::len word list" where
  "word_range lo hi = map of_nat [lo..<hi]"

fun hosts :: "ip_network \<Rightarrow> ip_addr list" where
  "hosts (Net4 n p) =
     (let lo = unat n; hi = unat (n OR hostmask p) in
      map V4 (if p \<ge> 31 then word_range lo (hi + 1) else word_range (lo + 1) hi))"
| "hosts (Net6 n p) =
     (let lo = unat n; hi = unat (n OR hostmask p) in
      map V6 (if p \<ge> 127 then word_range lo (hi + 1) else word_range (lo + 1) (hi + 1)))"

subsection \<open>Reading back what was written\<close>

lemma split_on_nonempty [simp]: "split_on c s \<noteq> []"
  by (induction s) (auto split: list.splits)

lemma split_on_plain: "c \<notin> set w \<Longrightarrow> split_on c w = [w]"
  by (induction w) auto

lemma split_on_append: "c \<notin> set w \<Longrightarrow> split_on c (w @ c # s) = w # split_on c s"
  by (induction w) auto

lemma split_on_join: "ws \<noteq> [] \<Longrightarrow> \<forall>w \<in> set ws. c \<notin> set w \<Longrightarrow> split_on c (join [c] ws) = ws"
  by (induction "[c]" ws rule: join.induct) (simp_all add: split_on_plain split_on_append)

lemma nat_str_all_digits: "list_all is_digit (nat_str n)"
  using nat_str_digits [of n] by (simp add: list_all_iff)

lemma nat_str_small:
  "n < 10 \<Longrightarrow> nat_str n = [digit_char n]"
  "10 \<le> n \<Longrightarrow> nat_str n = nat_str (n div 10) @ [digit_char (n mod 10)]"
  by (subst nat_str.simps, simp)+

lemma nat_str_hd: "0 < n \<Longrightarrow> hd (nat_str n) \<noteq> CHR ''0''"
proof (induction n rule: nat_str.induct)
  case (1 n)
  have "digit_char d \<noteq> CHR ''0''" if "0 < d" "d < 10" for d
  proof
    assume "digit_char d = CHR ''0''"
    then have "code (digit_char d) = 48" by (simp add: code_def)
    with that show False by simp
  qed
  with 1 show ?case
    by (cases "n < 10") (auto simp: nat_str_small)
qed

lemma nat_str_short: "n \<le> 255 \<Longrightarrow> length (nat_str n) \<le> 3"
  by (cases "n < 10"; cases "n < 100") (auto simp: nat_str_small)

lemma parse_octet_nat_str: "n \<le> 255 \<Longrightarrow> parse_octet (nat_str n) = Some n"
proof (cases "n = 0")
  case True
  moreover have "parse_octet (nat_str 0) = Some 0" by code_simp
  ultimately show ?thesis by simp
next
  case False
  assume "n \<le> 255"
  with False show ?thesis
    by (simp add: parse_octet_def nat_str_all_digits nat_str_short nat_str_hd digits_value_nat_str)
qed

lemma nat_str_no_dot: "CHR ''.'' \<notin> set (nat_str n)" "CHR ''/'' \<notin> set (nat_str n)"
  using nat_str_digits [of n] by (auto simp: is_digit_def code_def)

lemma octets_value:
  "ip4_value (unat a div 256 ^ 3 mod 256) (unat a div 256 ^ 2 mod 256) (unat a div 256 mod 256)
     (unat a mod 256) = unat (a :: 32 word)"
proof -
  have "unat a < 256 ^ 4" using unsigned_less [of a] by simp
  then have "unat a div 256 ^ 3 < 256" by (simp add: less_mult_imp_div_less)
  then have "unat a div 256 ^ 3 mod 256 = unat a div 256 div 256 div 256"
    by (simp add: div_mult2_eq [symmetric])
  moreover have "unat a div 256 ^ 2 = unat a div 256 div 256" by (simp add: div_mult2_eq [symmetric])
  ultimately show ?thesis
    by (simp add: ip4_value_def)
qed

theorem ipv4_roundtrip: "parse_ipv4 (show_ipv4 a) = Some a"
proof -
  have "split_on (CHR ''.'') (show_ipv4 a) = map nat_str (octets a)"
    unfolding show_ipv4_def by (rule split_on_join) (auto simp: octets_def nat_str_no_dot)
  moreover have "unat a div n mod 256 \<le> 255" "unat a mod 256 \<le> 255" for n
    by (simp_all add: less_Suc_eq_le [symmetric])
  ultimately show ?thesis
    using octets_value [of a] by (simp add: parse_ipv4_def octets_def parse_octet_nat_str)
qed

lemma show_ipv4_inject [simp]: "show_ipv4 a = show_ipv4 b \<longleftrightarrow> a = b"
  by (metis ipv4_roundtrip option.inject)

lemma show_ipv4_nonempty [simp]: "show_ipv4 a \<noteq> []"
proof
  assume "show_ipv4 a = []"
  moreover have "parse_ipv4 [] = None" by code_simp
  ultimately show False using ipv4_roundtrip [of a] by simp
qed

lemma ip_address_show4 [simp]: "ip_address t (show_ipv4 a) = Some (V4 a)"
  by (simp add: ip_address_def ipv4_roundtrip)

subsection \<open>Networks as intervals of numbers\<close>

lemma unat_hostmask: "unat (hostmask p :: 'a::len word) = 2 ^ (LENGTH('a) - p) - 1"
proof -
  let ?k = "LENGTH('a) - p"
  have "unat (take_bit ?k (-1 :: 'a word)) = take_bit ?k (unat (-1 :: 'a word))" by (rule unsigned_take_bit_eq)
  also have "\<dots> = mask ?k" by (simp add: unsigned_minus_1_eq_mask take_bit_of_mask)
  also have "\<dots> = 2 ^ ?k - 1" by (simp add: mask_nat_def)
  finally show ?thesis by (simp add: hostmask_def)
qed

lemma unat_netmask_and: "unat (a AND netmask p :: 'a::len word) = unat a - unat a mod 2 ^ (LENGTH('a) - p)"
proof -
  let ?k = "LENGTH('a) - p"
  have "take_bit ?k a + (a AND NOT (mask ?k)) = take_bit ?k a OR (a AND NOT (mask ?k))"
    by (rule disjunctive_add_eq_or) (auto intro!: bit_eqI simp: bit_simps)
  also have "\<dots> = a" by (auto intro!: bit_eqI simp: bit_simps)
  finally have "a AND netmask p = a - take_bit ?k a" by (simp add: netmask_def hostmask_def algebra_simps)
  moreover have "unat (take_bit ?k a) = take_bit ?k (unat a)" by (rule unsigned_take_bit_eq)
  then have "unat (take_bit ?k a) = unat a mod 2 ^ ?k" by (simp only: take_bit_eq_mod)
  ultimately show ?thesis by (simp add: unat_sub word_le_nat_alt)
qed

text \<open>A network address has no host bits.\<close>

fun net_ok :: "ip_network \<Rightarrow> bool" where
  "net_ok (Net4 n p) \<longleftrightarrow> p \<le> 32 \<and> n AND netmask p = n"
| "net_ok (Net6 n p) \<longleftrightarrow> p \<le> 128 \<and> n AND netmask p = n"

lemma find_upt: "find P [i..<j] = Some x \<Longrightarrow> x < j"
  by (auto simp: find_Some_iff)

lemma parse_mask4_bound: "parse_mask4 s = Some p \<Longrightarrow> p \<le> 32"
  by (auto simp: parse_mask4_def split: option.splits dest!: find_upt)

lemma netmask_idem: "(a AND netmask p) AND netmask p = a AND netmask p"
  by (simp add: and.assoc)

lemma netmask_all [simp]: "netmask 32 = (-1 :: 32 word)" "netmask 128 = (-1 :: 128 word)"
  by (simp_all add: netmask_def hostmask_def)

lemma parse_network4_ok: "parse_network4 s = Some n \<Longrightarrow> net_ok n \<and> (\<exists>a p. n = Net4 a p)"
  by (auto simp: parse_network4_def parse_prefix_def netmask_idem split: list.splits option.splits if_splits
      dest: parse_mask4_bound)

lemma ip_network_ok: "ip_network t s = Some n \<Longrightarrow> net_ok n"
  by (auto simp: ip_network_def parse_network6_def parse_prefix_def netmask_idem dest: parse_network4_ok
      split: list.splits option.splits if_splits)

lemma net_block:
  assumes "n AND netmask p = (n :: 'a::len word)"
  shows "2 ^ (LENGTH('a) - p) dvd unat n"
    and "unat (n OR hostmask p) = unat n + 2 ^ (LENGTH('a) - p) - 1"
proof -
  let ?k = "LENGTH('a) - p"
  have "unat n mod 2 ^ ?k = 0"
    using unat_netmask_and [of n p, unfolded assms] mod_less_eq_dividend [of "unat n" "2 ^ ?k"] by linarith
  then show dvd: "2 ^ ?k dvd unat n" by auto
  have "n AND hostmask p = (n AND netmask p) AND hostmask p" by (simp add: assms)
  also have "\<dots> = 0" by (simp add: netmask_def and.assoc)
  finally have "unat n AND unat (hostmask p :: 'a word) = 0" by (metis unsigned_0 unsigned_and_eq)
  then have "unat (n OR hostmask p) = unat n + unat (hostmask p :: 'a word)"
    by (simp add: unsigned_or_eq disjunctive_add_eq_or)
  then show "unat (n OR hostmask p) = unat n + 2 ^ ?k - 1" by (simp add: unat_hostmask)
qed

lemma net_block_fits:
  assumes "n AND netmask p = (n :: 'a::len word)" "p \<le> LENGTH('a)"
  shows "unat n + 2 ^ (LENGTH('a) - p) \<le> 2 ^ LENGTH('a)"
proof -
  let ?k = "LENGTH('a) - p"
  obtain q where q: "unat n = 2 ^ ?k * q" using net_block(1) [OF assms(1)] by (auto elim: dvdE)
  have "unat n < 2 ^ LENGTH('a)" by simp
  also have "(2 :: nat) ^ LENGTH('a) = 2 ^ ?k * 2 ^ p"
    using assms(2) by (simp add: power_add [symmetric])
  finally have "q + 1 \<le> 2 ^ p" by (simp add: q)
  then have "2 ^ ?k * (q + 1) \<le> 2 ^ ?k * 2 ^ p" by (rule mult_left_mono) simp
  with assms(2) q show ?thesis by (simp add: power_add [symmetric] algebra_simps)
qed

lemma block_member:
  assumes "n AND netmask p = (n :: 'a::len word)"
    and "unat n \<le> unat a" "unat a < unat n + 2 ^ (LENGTH('a) - p)"
  shows "a AND netmask p = n"
proof -
  let ?m = "2 ^ (LENGTH('a) - p) :: nat"
  obtain q where q: "unat n = ?m * q" using net_block(1) [OF assms(1)] by (auto elim: dvdE)
  have "unat a div ?m = q"
    by (rule div_nat_eqI) (use assms(2,3) q in \<open>simp_all add: algebra_simps\<close>)
  with q have "unat a - unat a mod ?m = unat n" by (simp add: minus_mod_eq_mult_div)
  with unat_netmask_and [of a p] have "unat (a AND netmask p) = unat n" by simp
  then show ?thesis by (simp add: unsigned_word_eqI)
qed

lemma word_range_distinct:
  assumes "hi \<le> 2 ^ LENGTH('a)"
  shows "distinct (word_range lo hi :: 'a::len word list)"
proof -
  have "inj_on (of_nat :: nat \<Rightarrow> 'a word) {lo..<hi}"
  proof (rule inj_onI)
    fix i j assume "i \<in> {lo..<hi}" "j \<in> {lo..<hi}" "(of_nat i :: 'a word) = of_nat j"
    then have "unat (of_nat i :: 'a word) = unat (of_nat j :: 'a word)" "i < 2 ^ LENGTH('a)" "j < 2 ^ LENGTH('a)"
      using assms by auto
    then show "i = j" by (simp add: unsigned_of_nat take_bit_nat_eq_self)
  qed
  then show ?thesis by (simp add: word_range_def distinct_map)
qed

lemma word_range_bounds:
  assumes "a \<in> set (word_range lo hi :: 'a::len word list)" "hi \<le> 2 ^ LENGTH('a)"
  shows "lo \<le> unat a \<and> unat a < hi"
  using assms by (auto simp: word_range_def unsigned_of_nat take_bit_nat_eq_self)

text \<open>The usable hosts are listed once each, and lie in the network.\<close>

lemma hosts_distinct: "net_ok n \<Longrightarrow> distinct (hosts n)"
proof (cases n)
  case (Net4 b p)
  assume "net_ok n"
  with Net4 have b: "b AND netmask p = b" "p \<le> 32" by simp_all
  have "unat (b OR hostmask p) + 1 \<le> 2 ^ LENGTH(32)"
    using net_block_fits [OF b(1)] net_block(2) [OF b(1)] b(2) by simp
  then show ?thesis
    by (auto simp: Net4 Let_def distinct_map inj_on_def intro!: word_range_distinct)
next
  case (Net6 b p)
  assume "net_ok n"
  with Net6 have b: "b AND netmask p = b" "p \<le> 128" by simp_all
  have "unat (b OR hostmask p) + 1 \<le> 2 ^ LENGTH(128)"
    using net_block_fits [OF b(1)] net_block(2) [OF b(1)] b(2) by simp
  then show ?thesis
    by (auto simp: Net6 Let_def distinct_map inj_on_def intro!: word_range_distinct)
qed

lemma hosts_in_network: "net_ok n \<Longrightarrow> a \<in> set (hosts n) \<Longrightarrow> in_network a n"
proof (cases n)
  case (Net4 b p)
  assume n: "net_ok n" "a \<in> set (hosts n)"
  with Net4 obtain x where a: "a = V4 x" and x: "x \<in> set (if p \<ge> 31 then word_range (unat b) (unat (b OR hostmask p) + 1)
      else word_range (unat b + 1) (unat (b OR hostmask p)))"
    by (auto simp: Let_def)
  have b: "b AND netmask p = b" "p \<le> 32" using n(1) Net4 by simp_all
  note fits = net_block_fits [OF b(1)] net_block(2) [OF b(1)]
  have "unat b \<le> unat x \<and> unat x < unat b + 2 ^ (32 - p)"
    using x fits b(2) by (auto split: if_splits dest!: word_range_bounds)
  with block_member [OF b(1), of x] show ?thesis by (simp add: Net4 a)
next
  case (Net6 b p)
  assume n: "net_ok n" "a \<in> set (hosts n)"
  with Net6 obtain x where a: "a = V6 x" and x: "x \<in> set (if p \<ge> 127 then word_range (unat b) (unat (b OR hostmask p) + 1)
      else word_range (unat b + 1) (unat (b OR hostmask p) + 1))"
    by (auto simp: Let_def)
  have b: "b AND netmask p = b" "p \<le> 128" using n(1) Net6 by simp_all
  note fits = net_block_fits [OF b(1)] net_block(2) [OF b(1)]
  have "unat b \<le> unat x \<and> unat x < unat b + 2 ^ (128 - p)"
    using x fits b(2) by (auto split: if_splits dest!: word_range_bounds)
  with block_member [OF b(1), of x] show ?thesis by (simp add: Net6 a)
qed

end
