(* ===== verification/Router_Setup.thy ===== *)
theory Router_Setup
  imports Ip_Address Samples
begin

text \<open>
  The network inventory and the Add Router wizard: \<^verbatim>\<open>services/locations.py\<close>,
  \<^verbatim>\<open>services/network_routers.py\<close>, \<^verbatim>\<open>services/router_provisioning.py\<close>,
  \<^verbatim>\<open>repositories/network.py\<close> and \<^verbatim>\<open>core/router_token.py\<close>. Key generation, the encryption of secrets
  and the router token (Fernet) are parameters; everything the wizard computes itself is here, the
  generated RouterOS and server texts included.
\<close>

subsection \<open>Locations and routers\<close>

definition get_location :: "uuid \<Rightarrow> uuid \<Rightarrow> location op" where
  "get_location tenant i =
     bnd (gets (\<lambda>s. get_by_id lc_id lc_tenant (Some tenant) i (locations s)))
       (require (NotFoundError ''Location not found''))"

definition create_location ::
    "io \<Rightarrow> uuid \<Rightarrow> uuid \<Rightarrow> string \<Rightarrow> string option \<Rightarrow> string option \<Rightarrow> string option \<Rightarrow> location op" where
  "create_location w tenant actor name region city address =
     bnd fresh (\<lambda>i.
     let x = \<lparr>lc_id = i, lc_tenant = tenant, lc_name = name, lc_region = region, lc_city = city,
           lc_address = address, lc_status = ''active''\<rparr>
     in thn (modify (\<lambda>s. s\<lparr>locations := locations s @ [x]\<rparr>))
       (thn (write_audit_log w (Some tenant) (Some actor) ''location.created'' (Some ''location'') (Some i) [])
        (ret x)))"

definition get_router :: "uuid \<Rightarrow> uuid \<Rightarrow> router_row op" where
  "get_router tenant i =
     bnd (gets (\<lambda>s. get_by_id rt_id rt_tenant (Some tenant) i (routers s)))
       (require (NotFoundError ''Router not found''))"

text \<open>The foreign key on the location asks only that the location exists.\<close>

definition create_router ::
    "io \<Rightarrow> uuid \<Rightarrow> uuid \<Rightarrow> string \<Rightarrow> uuid option \<Rightarrow> string option \<Rightarrow> string option \<Rightarrow> string option \<Rightarrow>
     router_row op" where
  "create_router w tenant actor name location_id model management_ip mac_address =
     bnd (gets (\<lambda>s. map lc_id (locations s))) (\<lambda>known.
     thn (guard (case location_id of None \<Rightarrow> True | Some l \<Rightarrow> l \<in> set known) DbError)
     (bnd fresh (\<lambda>i.
     let x = \<lparr>rt_id = i, rt_tenant = tenant, rt_name = name, rt_location = location_id, rt_model = model,
           rt_management_ip = management_ip, rt_mac_address = mac_address, rt_status = ''unknown'',
           rt_last_seen_at = None, provisioning_status = ''in_progress'', hotspot_network_cidr = None,
           hotspot_gateway_ip = None, hotspot_dns_servers = None, wireguard_public_key = None,
           wireguard_tunnel_ip = None, wireguard_private_key_encrypted = None, radius_secret_encrypted = None\<rparr>
     in thn (modify (\<lambda>s. s\<lparr>routers := routers s @ [x]\<rparr>))
       (thn (write_audit_log w (Some tenant) (Some actor) ''router.created'' (Some ''router'') (Some i) [])
        (ret x)))))"

text \<open>\<^verbatim>\<open>repo.update\<close> of a router; the tunnel address is UNIQUE over all tenants.\<close>

definition update_router :: "(router_row \<Rightarrow> router_row) \<Rightarrow> router_row \<Rightarrow> router_row op" where
  "update_router f x =
     bnd (gets routers) (\<lambda>rows.
     thn (guard (list_all (\<lambda>y. rt_id y = rt_id x \<or> wireguard_tunnel_ip (f x) = None \<or>
             wireguard_tunnel_ip y \<noteq> wireguard_tunnel_ip (f x)) rows) DbError)
     (thn (modify (\<lambda>s. s\<lparr>routers := row_put rt_id (f x) (routers s)\<rparr>))
      (ret (f x))))"

definition audit_router :: "io \<Rightarrow> uuid \<Rightarrow> uuid \<Rightarrow> string \<Rightarrow> router_row \<Rightarrow> (string \<times> meta) list \<Rightarrow> unit op" where
  "audit_router w tenant actor action x metadata =
     write_audit_log w (Some tenant) (Some actor) action (Some ''router'') (Some (rt_id x)) metadata"

definition value_error :: err where
  "value_error = UnhandledError ''ValueError''"

subsection \<open>The network configuration\<close>

record network_config =
  nc_network_cidr :: string
  nc_gateway_ip :: string
  nc_dns_servers :: "string list"

definition set_network_config ::
    "v6_text \<Rightarrow> io \<Rightarrow> uuid \<Rightarrow> uuid \<Rightarrow> uuid \<Rightarrow> string \<Rightarrow> string \<Rightarrow> string list \<Rightarrow> network_config op" where
  "set_network_config t w tenant actor i network_cidr gateway_ip dns_servers =
     bnd (get_router tenant i) (\<lambda>x.
     bnd (require value_error (ip_network t network_cidr)) (\<lambda>network.
     bnd (require value_error (ip_address t gateway_ip)) (\<lambda>gateway.
     thn (guard (in_network gateway network) (DomainValidationError ''gateway_ip is not inside network_cidr''))
     (bnd (update_router (\<lambda>x. x\<lparr>hotspot_network_cidr := Some (show_network t network),
             hotspot_gateway_ip := Some (show_address t gateway),
             hotspot_dns_servers := Some (join '','' dns_servers)\<rparr>) x) (\<lambda>x'.
     thn (audit_router w tenant actor ''router.network_config_set'' x' [])
     (ret \<lparr>nc_network_cidr = show_network t network, nc_gateway_ip = show_address t gateway,
           nc_dns_servers = dns_servers\<rparr>))))))"

subsection \<open>WireGuard\<close>

definition next_wireguard_tunnel_ip :: "v6_text \<Rightarrow> string \<Rightarrow> string op" where
  "next_wireguard_tunnel_ip t subnet =
     bnd (require value_error (ip_network t subnet)) (\<lambda>network.
     bnd (gets (\<lambda>s. filter (\<lambda>ip. ip \<noteq> []) (concat (map (\<lambda>x. case wireguard_tunnel_ip x of
            None \<Rightarrow> [] | Some ip \<Rightarrow> [ip]) (routers s))))) (\<lambda>texts.
     bnd (require value_error (those (map (ip_address t) texts))) (\<lambda>assigned.
     case find (\<lambda>h. h \<notin> set assigned) (tl (hosts network)) of
       Some h \<Rightarrow> ret (show_address t h)
     | None \<Rightarrow> raise value_error)))"

definition lf :: char where
  "lf = CHR 0x0A"

definition backslash :: char where
  "backslash = CHR 0x5C"

record wireguard_config =
  wg_tunnel_ip :: string
  wg_router_private_key :: string
  wg_router_public_key :: string
  wg_server_public_key :: string
  wg_server_endpoint :: string
  wg_allowed_ips :: string
  wg_router_config_script :: string
  wg_server_peer_block :: string

definition wireguard_script :: "string \<Rightarrow> string \<Rightarrow> string \<Rightarrow> string \<Rightarrow> string \<Rightarrow> string" where
  "wireguard_script private_key server_key endpoint allowed_ips tunnel_ip =
     (let parts = split_on (CHR '':'') endpoint in
      ''/interface/wireguard add name=wg-radius listen-port=51820 private-key=\"'' @ private_key @ ''\"'' @ [lf] @
      ''/interface/wireguard/peers add interface=wg-radius '' @ [backslash, lf] @
      ''    public-key=\"'' @ server_key @ ''\" '' @ [backslash, lf] @
      ''    endpoint-address='' @ hd parts @ '' endpoint-port='' @ last parts @ '' '' @ [backslash, lf] @
      ''    allowed-address='' @ allowed_ips @ '' persistent-keepalive=25s'' @ [lf] @
      ''/ip/address add address='' @ tunnel_ip @ ''/32 interface=wg-radius'')"

definition server_peer_block :: "string \<Rightarrow> string \<Rightarrow> string \<Rightarrow> string" where
  "server_peer_block name public_key tunnel_ip =
     ''[Peer]'' @ [lf] @ ''# '' @ name @ [lf] @ ''PublicKey = '' @ public_key @ [lf] @
     ''AllowedIPs = '' @ tunnel_ip @ ''/32''"

definition generate_wireguard_config ::
    "v6_text \<Rightarrow> io \<Rightarrow> settings \<Rightarrow> uuid \<Rightarrow> uuid \<Rightarrow> uuid \<Rightarrow> wireguard_config op" where
  "generate_wireguard_config t w cfg tenant actor i =
     thn (guard (truthy (wireguard_server_public_key cfg) \<and> truthy (wireguard_server_endpoint cfg))
            (DomainValidationError ''WIREGUARD_SERVER_PUBLIC_KEY / WIREGUARD_SERVER_ENDPOINT are not configured''))
     (bnd (get_router tenant i) (\<lambda>x.
     bnd (next_wireguard_tunnel_ip t (wireguard_server_subnet cfg)) (\<lambda>tunnel_ip.
     let (private_key, public_key) = wireguard_keys w;
         server_key = the (wireguard_server_public_key cfg); endpoint = the (wireguard_server_endpoint cfg);
         allowed_ips = wireguard_server_subnet cfg
     in bnd (update_router (\<lambda>x. x\<lparr>wireguard_public_key := Some public_key,
               wireguard_tunnel_ip := Some tunnel_ip,
               wireguard_private_key_encrypted := Some (encrypt_secret w private_key)\<rparr>) x) (\<lambda>x'.
        thn (audit_router w tenant actor ''router.wireguard_config_generated'' x'
               [(''tunnel_ip'', MStr tunnel_ip)])
        (ret \<lparr>wg_tunnel_ip = tunnel_ip, wg_router_private_key = private_key,
              wg_router_public_key = public_key, wg_server_public_key = server_key,
              wg_server_endpoint = endpoint, wg_allowed_ips = allowed_ips,
              wg_router_config_script = wireguard_script private_key server_key endpoint allowed_ips tunnel_ip,
              wg_server_peer_block = server_peer_block (rt_name x') public_key tunnel_ip\<rparr>)))))"

subsection \<open>RADIUS\<close>

record radius_config =
  rc_secret :: string
  rc_router_config_script :: string
  rc_nas_client_block :: string

definition radius_script :: "string \<Rightarrow> string \<Rightarrow> string" where
  "radius_script server_ip secret =
     ''/radius add service=hotspot address='' @ server_ip @ '' secret=\"'' @ secret @
     ''\" authentication-port=1812 accounting-port=1813'' @ [lf] @
     ''/ip/hotspot/profile set [find] use-radius=yes''"

definition nas_client_block :: "string \<Rightarrow> string \<Rightarrow> string \<Rightarrow> string" where
  "nas_client_block name tunnel_ip secret =
     ''client '' @ name @ '' {'' @ [lf] @
     ''    ipaddr     = '' @ tunnel_ip @ [lf] @
     ''    secret     = '' @ secret @ [lf] @
     ''    shortname  = '' @ name @ [lf] @
     ''    nas_type   = mikrotik'' @ [lf] @
     ''    require_message_authenticator = yes'' @ [lf] @ ''}''"

definition generate_radius_config ::
    "v6_text \<Rightarrow> io \<Rightarrow> settings \<Rightarrow> uuid \<Rightarrow> uuid \<Rightarrow> uuid \<Rightarrow> radius_config op" where
  "generate_radius_config t w cfg tenant actor i =
     bnd (get_router tenant i) (\<lambda>x.
     thn (guard (truthy (wireguard_tunnel_ip x))
            (DomainValidationError ''Generate the WireGuard configuration first''))
     (bnd (require value_error (ip_network t (wireguard_server_subnet cfg))) (\<lambda>network.
     bnd (require (UnhandledError ''StopIteration'') (case hosts network of [] \<Rightarrow> None | h # _ \<Rightarrow> Some h))
       (\<lambda>server.
     bnd (update_router (\<lambda>x. x\<lparr>radius_secret_encrypted := Some (encrypt_secret w (radius_secret w))\<rparr>) x) (\<lambda>x'.
     thn (audit_router w tenant actor ''router.radius_config_generated'' x' [])
     (ret \<lparr>rc_secret = radius_secret w,
           rc_router_config_script = radius_script (show_address t server) (radius_secret w),
           rc_nas_client_block = nas_client_block (rt_name x') (the (wireguard_tunnel_ip x')) (radius_secret w)\<rparr>))))))"

subsection \<open>Hotspot and walled garden\<close>

text \<open>The addresses handed to clients: from the second usable host to the last.\<close>

definition hotspot_pool :: "ip_network \<Rightarrow> (ip_addr \<times> ip_addr) option" where
  "hotspot_pool network =
     (let hs = hosts network in
      if hs = [] then None else Some (if length hs > 1 then hs ! 1 else hs ! 0, last hs))"

definition hotspot_script :: "v6_text \<Rightarrow> ip_network \<Rightarrow> ip_addr \<times> ip_addr \<Rightarrow> string \<Rightarrow> string \<Rightarrow> string" where
  "hotspot_script t network pool gateway dns_servers =
     ''/ip/pool add name=hotspot-pool ranges='' @ show_address t (fst pool) @ ''-'' @
       show_address t (snd pool) @ [lf] @
     ''/ip/address add address='' @ gateway @ ''/'' @ nat_str (prefixlen network) @
       '' interface=bridge-hotspot'' @ [lf] @
     ''/ip/dhcp-server/network add address='' @ show_network t network @ '' gateway='' @ gateway @
       '' dns-server='' @ dns_servers @ [lf] @
     ''/ip/hotspot/profile add name=infinity-radius hotspot-address='' @ gateway @
       '' dns-name=hotspot.local use-radius=yes'' @ [lf] @
     ''/ip/hotspot add name=infinity-radius interface=bridge-hotspot address-pool=hotspot-pool '' @
       ''profile=infinity-radius''"

definition generate_hotspot_config :: "v6_text \<Rightarrow> io \<Rightarrow> uuid \<Rightarrow> uuid \<Rightarrow> uuid \<Rightarrow> string op" where
  "generate_hotspot_config t w tenant actor i =
     bnd (get_router tenant i) (\<lambda>x.
     thn (guard (truthy (hotspot_network_cidr x) \<and> truthy (hotspot_gateway_ip x))
            (DomainValidationError ''Set the network configuration first''))
     (bnd (require value_error (ip_network t (the (hotspot_network_cidr x)))) (\<lambda>network.
     bnd (require (UnhandledError ''IndexError'') (hotspot_pool network)) (\<lambda>pool.
     thn (audit_router w tenant actor ''router.hotspot_config_generated'' x [])
     (ret (hotspot_script t network pool (the (hotspot_gateway_ip x))
             (case hotspot_dns_servers x of None \<Rightarrow> [] | Some d \<Rightarrow> d)))))))"

definition walled_garden_domains :: "settings \<Rightarrow> string list" where
  "walled_garden_domains cfg =
     map the (filter truthy [public_captive_portal_domain cfg, public_api_domain cfg])"

definition generate_walled_garden_rules ::
    "io \<Rightarrow> settings \<Rightarrow> uuid \<Rightarrow> uuid \<Rightarrow> uuid \<Rightarrow> (string list \<times> string) op" where
  "generate_walled_garden_rules w cfg tenant actor i =
     bnd (get_router tenant i) (\<lambda>x.
     let domains = walled_garden_domains cfg in
     thn (guard (domains \<noteq> [])
            (DomainValidationError ''PUBLIC_CAPTIVE_PORTAL_DOMAIN / PUBLIC_API_DOMAIN are not configured''))
     (thn (audit_router w tenant actor ''router.walled_garden_generated'' x
             (map (\<lambda>d. (''domains'', MStr d)) domains))
      (ret (domains, join [lf] (map (\<lambda>d. ''/ip/hotspot/walled-garden add dst-host='' @ d @ '' action=allow'')
              domains)))))"

subsection \<open>The router token\<close>

text \<open>Fernet under the router token key, as a pair of functions on texts.\<close>

record fernet =
  fernet_encrypt :: "string \<Rightarrow> string"
  fernet_decrypt :: "string \<Rightarrow> string option"

definition create_router_token :: "fernet \<Rightarrow> uuid \<Rightarrow> string" where
  "create_router_token f i = fernet_encrypt f (id_text i)"

definition parse_id :: "string \<Rightarrow> uuid option" where
  "parse_id s = (if s \<noteq> [] \<and> list_all is_digit s \<and> id_text (digits_value s) = s then Some (digits_value s) else None)"

definition resolve_router_token :: "fernet \<Rightarrow> string \<Rightarrow> uuid option" where
  "resolve_router_token f token = Option.bind (fernet_decrypt f token) parse_id"

definition get_public_token :: "fernet \<Rightarrow> settings \<Rightarrow> uuid \<Rightarrow> uuid \<Rightarrow> (string \<times> string) op" where
  "get_public_token f cfg tenant i =
     bnd (get_router tenant i) (\<lambda>x.
     let token = create_router_token f (rt_id x);
         portal_domain = (if truthy (public_captive_portal_domain cfg) then the (public_captive_portal_domain cfg)
           else ''<captive-portal-domain>'')
     in ret (token, ''https://'' @ portal_domain @ ''/captive-portal?router='' @ token @
          ''&mac=$(mac)&dst=$(link-orig)&login=$(link-login-only)''))"

definition complete_provisioning :: "io \<Rightarrow> uuid \<Rightarrow> uuid \<Rightarrow> uuid \<Rightarrow> router_row op" where
  "complete_provisioning w tenant actor i =
     bnd (get_router tenant i) (\<lambda>x.
     bnd (update_router (\<lambda>x. x\<lparr>provisioning_status := ''completed''\<rparr>) x) (\<lambda>x'.
     thn (audit_router w tenant actor ''router.provisioning_completed'' x' [])
     (ret x')))"

subsection \<open>What the requests do to the routers\<close>

lemma update_router_run:
  "update_router f x s = (Inr y, s') \<longleftrightarrow> y = f x \<and> s' = s\<lparr>routers := row_put rt_id (f x) (routers s)\<rparr> \<and>
     list_all (\<lambda>y. rt_id y = rt_id x \<or> wireguard_tunnel_ip (f x) = None \<or>
       wireguard_tunnel_ip y \<noteq> wireguard_tunnel_ip (f x)) (routers s)"
  by (auto simp: update_router_def run_simps)

lemma get_router_run:
  "get_router tenant i s = (Inr x, s') \<longleftrightarrow> s' = s \<and> row_find rt_id i (routers s) = Some x \<and> rt_tenant x = tenant"
  by (auto simp: get_router_def run_simps get_by_id_Some)

lemma audit_router_run:
  "audit_router w tenant actor action x md s = (r, s') \<Longrightarrow> r = Inr () \<and> routers s' = routers s \<and> next_id s' = next_id s"
  by (auto simp: audit_router_def run_simps)

text \<open>A request changes no router, adds one without a tunnel, or rewrites one.\<close>

inductive inventory_change :: "(router_row \<Rightarrow> router_row \<Rightarrow> bool) \<Rightarrow> db \<Rightarrow> db \<Rightarrow> bool" for P where
  same: "routers s' = routers s \<Longrightarrow> next_id s \<le> next_id s' \<Longrightarrow> inventory_change P s s'"
| added: "routers s' = routers s @ [x] \<Longrightarrow> rt_id x = next_id s \<Longrightarrow> next_id s' = next_id s + 1 \<Longrightarrow>
    wireguard_tunnel_ip x = None \<Longrightarrow> inventory_change P s s'"
| rewritten: "row_find rt_id (rt_id x) (routers s) = Some x \<Longrightarrow> rt_id x' = rt_id x \<Longrightarrow> P x x' \<Longrightarrow>
    routers s' = row_put rt_id x' (routers s) \<Longrightarrow> next_id s' = next_id s \<Longrightarrow> inventory_change P s s'"

definition keeps_tunnel :: "router_row \<Rightarrow> router_row \<Rightarrow> bool" where
  "keeps_tunnel x x' \<longleftrightarrow> wireguard_tunnel_ip x' = wireguard_tunnel_ip x"

lemma update_change:
  assumes "update_router f x s = (Inr y, u)" "row_find rt_id i (routers s) = Some x"
    and "routers s' = routers u" "next_id s' = next_id u" "rt_id (f x) = rt_id x" "P x (f x)"
  shows "inventory_change P s s'"
  using assms by (intro inventory_change.rewritten [of x s "f x"]) (auto simp: update_router_run dest: row_find_Some)

lemma network_config_change:
  assumes "set_network_config t w tenant actor i cidr gateway dns s = (Inr r, s')"
  shows "inventory_change keeps_tunnel s s'"
  using assms
  by (auto simp: set_network_config_def bnd_Inr thn_Inr get_router_run elim!: update_change dest!: audit_router_run)
    (simp_all add: keeps_tunnel_def)

lemma radius_config_change:
  assumes "generate_radius_config t w cfg tenant actor i s = (Inr r, s')"
  shows "inventory_change keeps_tunnel s s'"
  using assms
  by (auto simp: generate_radius_config_def bnd_Inr thn_Inr get_router_run elim!: update_change dest!: audit_router_run)
    (simp_all add: keeps_tunnel_def)

lemma complete_change:
  assumes "complete_provisioning w tenant actor i s = (Inr r, s')"
  shows "inventory_change keeps_tunnel s s'"
  using assms
  by (auto simp: complete_provisioning_def bnd_Inr thn_Inr get_router_run elim!: update_change dest!: audit_router_run)
    (simp_all add: keeps_tunnel_def)

lemma quiet_changes:
  "generate_hotspot_config t w tenant actor i s = (Inr r1, s') \<Longrightarrow> inventory_change P s s'"
  "generate_walled_garden_rules w cfg tenant actor i s = (Inr r2, s') \<Longrightarrow> inventory_change P s s'"
  "create_location w tenant actor name region city address s = (Inr r3, s') \<Longrightarrow> inventory_change P s s'"
  by (rule inventory_change.same; auto simp: generate_hotspot_config_def generate_walled_garden_rules_def
      create_location_def Let_def run_simps get_router_run dest!: audit_router_run)+

lemma create_router_change:
  "create_router w tenant actor name l model ip mac s = (Inr r, s') \<Longrightarrow> inventory_change P s s'"
  by (rule inventory_change.added [where x = r])
    (auto simp: create_router_def Let_def run_simps split: option.splits)

subsection \<open>Tunnel addresses\<close>

definition tunnels :: "db \<Rightarrow> string list" where
  "tunnels s = List.map_filter wireguard_tunnel_ip (routers s)"

lemma set_tunnels: "ip \<in> set (tunnels s) \<longleftrightarrow> (\<exists>x \<in> set (routers s). wireguard_tunnel_ip x = Some ip)"
  by (force simp: tunnels_def map_filter_def)

lemma those_Some: "those xs = Some ys \<longleftrightarrow> xs = map Some ys"
  by (induction xs arbitrary: ys) (auto split: option.splits)

lemma hosts4: "h \<in> set (hosts (Net4 n p)) \<Longrightarrow> \<exists>a. h = V4 a"
  by (auto simp: Let_def)

declare hosts.simps [simp del]

lemma in_tl: "h \<in> set (tl hs) \<Longrightarrow> h \<in> set hs"
  by (cases hs) auto

lemma find_in: "find P xs = Some x \<Longrightarrow> x \<in> set xs \<and> P x"
  by (auto simp: find_Some_iff)

lemma map_preimage: "set ys \<subseteq> f ` A \<Longrightarrow> \<exists>xs. ys = map f xs \<and> set xs \<subseteq> A"
proof (induction ys)
  case (Cons y ys)
  then obtain x xs where "y = f x" "x \<in> A" "ys = map f xs" "set xs \<subseteq> A" by auto
  then show ?case by (intro exI [of _ "x # xs"]) simp
qed simp

text \<open>The texts of IPv4 hosts determine them.\<close>

lemma show_hosts4:
  assumes "h \<in> set (hosts (Net4 n p))"
  shows "ip_address t (show_address t h) = Some h" "show_address t h \<noteq> []"
  using hosts4 [OF assms] by auto

lemma show_hosts4_inj: "inj_on (show_address t) (set (hosts (Net4 n p)))"
  using show_hosts4(1) by (metis inj_onI option.inject)

lemma assigned_texts:
  "concat (map (\<lambda>x. case wireguard_tunnel_ip x of None \<Rightarrow> [] | Some ip \<Rightarrow> [ip]) (routers s)) = tunnels s"
proof -
  have "concat (map (\<lambda>x. case wireguard_tunnel_ip x of None \<Rightarrow> [] | Some ip \<Rightarrow> [ip]) rows) =
      List.map_filter wireguard_tunnel_ip rows" for rows
    by (induction rows) (auto simp: map_filter_def)
  then show ?thesis by (simp add: tunnels_def)
qed

text \<open>All tunnel addresses are hosts of the server's subnet, the server's own excepted, and all different.\<close>

definition tunnels_ok :: "v6_text \<Rightarrow> ip_network \<Rightarrow> db \<Rightarrow> bool" where
  "tunnels_ok t net s \<longleftrightarrow> distinct (map rt_id (routers s)) \<and> (\<forall>x \<in> set (routers s). rt_id x < next_id s) \<and>
     distinct (tunnels s) \<and> set (tunnels s) \<subseteq> show_address t ` set (tl (hosts net))"

lemma next_ip_run:
  assumes net: "ip_network t subnet = Some (Net4 n p)" and ok: "tunnels_ok t (Net4 n p) s"
  shows "next_wireguard_tunnel_ip t subnet s =
    (case find (\<lambda>h. show_address t h \<notin> set (tunnels s)) (tl (hosts (Net4 n p))) of
       Some h \<Rightarrow> (Inr (show_address t h), s) | None \<Rightarrow> (Inl value_error, s))"
proof -
  let ?H = "tl (hosts (Net4 n p))"
  have tl: "h \<in> set ?H \<Longrightarrow> h \<in> set (hosts (Net4 n p))" for h by (rule in_tl)
  from ok have sub: "set (tunnels s) \<subseteq> show_address t ` set ?H" by (simp add: tunnels_ok_def)
  have full: "filter (\<lambda>ip. ip \<noteq> []) (tunnels s) = tunnels s"
  proof (intro filter_True ballI)
    fix ip assume "ip \<in> set (tunnels s)"
    with sub obtain h where "ip = show_address t h" "h \<in> set ?H" by blast
    then show "ip \<noteq> []" using show_hosts4(2) [OF tl] by simp
  qed
  obtain hs where hs: "tunnels s = map (show_address t) hs" "set hs \<subseteq> set ?H"
    using map_preimage [OF sub] by blast
  then have those: "those (map (ip_address t) (tunnels s)) = Some hs"
    using show_hosts4(1) [of _ n p t] tl by (auto simp: those_Some)
  have "(h \<notin> set hs) = (show_address t h \<notin> set (tunnels s))" if "h \<in> set ?H" for h
    using that hs tl inj_on_image_mem_iff [OF show_hosts4_inj, of h n p "set hs" t] by auto
  then have "find (\<lambda>h. h \<notin> set hs) ?H = find (\<lambda>h. show_address t h \<notin> set (tunnels s)) ?H"
    by (intro find_cong) auto
  then show ?thesis
    by (simp add: next_wireguard_tunnel_ip_def net assigned_texts full those comp_defs del: hosts.simps
        split: option.split)
qed

text \<open>One request of the wizard, or any other request, which leaves the routers alone.\<close>

inductive wizard_step :: "v6_text \<Rightarrow> settings \<Rightarrow> db \<Rightarrow> db \<Rightarrow> bool" for t cfg where
  location: "commit (create_location w tenant actor name region city address) s = (r1, s') \<Longrightarrow> wizard_step t cfg s s'"
| router: "commit (create_router w tenant actor name l model ip mac) s = (r2, s') \<Longrightarrow> wizard_step t cfg s s'"
| network: "commit (set_network_config t w tenant actor i cidr gateway dns) s = (r3, s') \<Longrightarrow> wizard_step t cfg s s'"
| wireguard: "commit (generate_wireguard_config t w cfg tenant actor i) s = (r4, s') \<Longrightarrow> wizard_step t cfg s s'"
| radius: "commit (generate_radius_config t w cfg tenant actor i) s = (r5, s') \<Longrightarrow> wizard_step t cfg s s'"
| hotspot: "commit (generate_hotspot_config t w tenant actor i) s = (r6, s') \<Longrightarrow> wizard_step t cfg s s'"
| garden: "commit (generate_walled_garden_rules w cfg tenant actor i) s = (r7, s') \<Longrightarrow> wizard_step t cfg s s'"
| complete: "commit (complete_provisioning w tenant actor i) s = (r2, s') \<Longrightarrow> wizard_step t cfg s s'"
| other: "routers s' = routers s \<Longrightarrow> next_id s \<le> next_id s' \<Longrightarrow> wizard_step t cfg s s'"

text \<open>An address nobody has.\<close>

definition takes_free :: "v6_text \<Rightarrow> ip_network \<Rightarrow> db \<Rightarrow> router_row \<Rightarrow> router_row \<Rightarrow> bool" where
  "takes_free t net s x x' \<longleftrightarrow>
     (\<exists>h \<in> set (tl (hosts net)). wireguard_tunnel_ip x' = Some (show_address t h) \<and>
        show_address t h \<notin> set (tunnels s))"

lemma map_filter_id: "List.map_filter g rows = List.map_filter id (map g rows)"
  by (induction rows) (auto split: option.splits)

lemma tunnels_put:
  assumes "row_find rt_id (rt_id x) (routers s) = Some x" "rt_id x' = rt_id x" "keeps_tunnel x x'"
    and "distinct (map rt_id (routers s))" "routers s' = row_put rt_id x' (routers s)"
  shows "tunnels s' = tunnels s"
proof -
  have "map wireguard_tunnel_ip (row_put rt_id x' (routers s)) = map wireguard_tunnel_ip (routers s)"
  proof (rule row_put_map)
    fix y assume "y \<in> set (routers s)" "rt_id y = rt_id x'"
    with assms(2) have "y = x" using row_find_unique [OF assms(4,1)] by simp
    with assms(3) show "wireguard_tunnel_ip y = wireguard_tunnel_ip x'" by (simp add: keeps_tunnel_def)
  qed
  then show ?thesis by (simp add: tunnels_def assms(5) map_filter_id [of wireguard_tunnel_ip])
qed

lemma distinct_put:
  assumes "distinct (List.map_filter g rows)" "g x' = Some v" "v \<notin> set (List.map_filter g rows)"
    "distinct (map key rows)"
  shows "distinct (List.map_filter g (row_put key x' rows))"
  using assms(1,3,4)
proof (induction rows)
  case (Cons y rows)
  have sub: "set (List.map_filter g (row_put key x' rows)) \<subseteq> insert v (set (List.map_filter g rows))"
    using assms(2) by (force simp: map_filter_def row_put_def)
  show ?case
  proof (cases "key y = key x'")
    case True
    with Cons.prems have "row_put key x' rows = rows" by (intro row_put_absent) auto
    with True Cons.prems assms(2) show ?thesis by (auto simp: row_put_Cons map_filter_simps split: option.splits)
  next
    case False
    with Cons sub show ?thesis by (auto simp: row_put_Cons map_filter_simps split: option.splits)
  qed
qed (simp add: map_filter_simps)

lemma put_tunnels:
  assumes "wireguard_tunnel_ip x' = Some v"
  shows "set (List.map_filter wireguard_tunnel_ip (row_put rt_id x' rows))
    \<subseteq> insert v (set (List.map_filter wireguard_tunnel_ip rows))"
  using assms by (force simp: map_filter_def row_put_def)

lemma tunnels_change:
  assumes "inventory_change (\<lambda>x x'. keeps_tunnel x x' \<or> takes_free t net s x x') s s'" "tunnels_ok t net s"
  shows "tunnels_ok t net s'"
  using assms(1)
proof cases
  case same
  then show ?thesis using assms(2) by (auto simp: tunnels_ok_def tunnels_def)
next
  case (added x)
  then show ?thesis using assms(2) by (auto simp: tunnels_ok_def tunnels_def map_filter_def)
next
  case (rewritten x x')
  have ok: "distinct (map rt_id (routers s))" "\<forall>x \<in> set (routers s). rt_id x < next_id s"
    "distinct (tunnels s)" "set (tunnels s) \<subseteq> show_address t ` set (tl (hosts net))"
    using assms(2) by (simp_all add: tunnels_ok_def)
  have x: "x \<in> set (routers s)" using rewritten(1) by (auto dest: row_find_Some)
  have ids: "\<forall>y \<in> set (routers s'). rt_id y < next_id s'"
    using ok(2) x rewritten(2,4,5) by (auto dest!: row_put_set)
  from rewritten(3) show ?thesis
  proof
    assume "keeps_tunnel x x'"
    from tunnels_put [OF rewritten(1,2) this ok(1) rewritten(4)] ok ids rewritten(4) show ?thesis
      by (simp add: tunnels_ok_def)
  next
    assume "takes_free t net s x x'"
    then obtain h where h: "h \<in> set (tl (hosts net))" "wireguard_tunnel_ip x' = Some (show_address t h)"
      "show_address t h \<notin> set (tunnels s)" by (auto simp: takes_free_def)
    have "distinct (tunnels s')"
      using distinct_put [where g = wireguard_tunnel_ip and key = rt_id, OF _ h(2) _ ok(1)] ok(3) h(3) by (simp add: tunnels_def rewritten(4))
    moreover have "set (tunnels s') \<subseteq> insert (show_address t h) (set (tunnels s))"
      unfolding tunnels_def rewritten(4) by (rule put_tunnels [OF h(2)])
    ultimately show ?thesis using ok h(1) ids by (auto simp: tunnels_ok_def rewritten(4))
  qed
qed

lemma inventory_weaken: "inventory_change P s s' \<Longrightarrow> (\<And>x x'. P x x' \<Longrightarrow> Q x x') \<Longrightarrow> inventory_change Q s s'"
  by (erule inventory_change.cases) (auto intro: inventory_change.intros)

definition with_wireguard :: "io \<Rightarrow> string \<Rightarrow> router_row \<Rightarrow> router_row" where
  "with_wireguard w ip x = x\<lparr>wireguard_public_key := Some (snd (wireguard_keys w)), wireguard_tunnel_ip := Some ip,
     wireguard_private_key_encrypted := Some (encrypt_secret w (fst (wireguard_keys w)))\<rparr>"

lemma wireguard_run:
  assumes "generate_wireguard_config t w cfg tenant actor i s = (Inr r, s')"
  obtains x ip u y v where "row_find rt_id i (routers s) = Some x" "rt_tenant x = tenant"
    "next_wireguard_tunnel_ip t (wireguard_server_subnet cfg) s = (Inr ip, u)"
    "update_router (with_wireguard w ip) x u = (Inr y, v)" "routers s' = routers v" "next_id s' = next_id v"
    "wg_tunnel_ip r = ip"
proof -
  obtain a b where k: "wireguard_keys w = (a, b)" by fastforce
  from assms obtain x ip u y v where "row_find rt_id i (routers s) = Some x" "rt_tenant x = tenant"
    and ip: "next_wireguard_tunnel_ip t (wireguard_server_subnet cfg) s = (Inr ip, u)"
    and upd: "update_router (\<lambda>x. x\<lparr>wireguard_public_key := Some b, wireguard_tunnel_ip := Some ip,
      wireguard_private_key_encrypted := Some (encrypt_secret w a)\<rparr>) x u = (Inr y, v)"
    and rest: "routers s' = routers v" "next_id s' = next_id v" "wg_tunnel_ip r = ip"
    by (auto simp: generate_wireguard_config_def bnd_Inr thn_Inr get_router_run Let_def k dest!: audit_router_run)
  moreover have same: "(\<lambda>x. x\<lparr>wireguard_public_key := Some b, wireguard_tunnel_ip := Some ip,
      wireguard_private_key_encrypted := Some (encrypt_secret w a)\<rparr>) = with_wireguard w ip"
    by (simp add: fun_eq_iff with_wireguard_def k)
  ultimately show thesis by (intro that [OF _ _ ip upd [unfolded same] rest])
qed

lemma wireguard_change:
  assumes net: "ip_network t (wireguard_server_subnet cfg) = Some (Net4 n p)" and ok: "tunnels_ok t (Net4 n p) s"
    and run: "generate_wireguard_config t w cfg tenant actor i s = (Inr r, s')"
  shows "inventory_change (takes_free t (Net4 n p) s) s s'"
  using run
proof (rule wireguard_run)
  fix x ip u y v
  assume x: "row_find rt_id i (routers s) = Some x"
    and ip: "next_wireguard_tunnel_ip t (wireguard_server_subnet cfg) s = (Inr ip, u)"
    and upd: "update_router (with_wireguard w ip) x u = (Inr y, v)" "routers s' = routers v" "next_id s' = next_id v"
  define found where "found = find (\<lambda>h. show_address t h \<notin> set (tunnels s)) (tl (hosts (Net4 n p)))"
  have "next_wireguard_tunnel_ip t (wireguard_server_subnet cfg) s =
      (case found of Some h \<Rightarrow> (Inr (show_address t h), s) | None \<Rightarrow> (Inl value_error, s))"
    unfolding found_def by (rule next_ip_run [OF net ok])
  with ip obtain h where found: "found = Some h" and h: "ip = show_address t h" "u = s"
    by (cases found) simp_all
  from find_in [OF found [unfolded found_def]] have free: "h \<in> set (tl (hosts (Net4 n p)))"
    "show_address t h \<notin> set (tunnels s)" by simp_all
  show ?thesis
    by (rule update_change [OF upd(1) [unfolded h(2)] x upd(2,3)])
      (use free in \<open>auto simp: with_wireguard_def takes_free_def h(1)\<close>)
qed

lemma commit_inventory:
  assumes "commit m s = (r, s')" "\<And>x u. m s = (Inr x, u) \<Longrightarrow> inventory_change P s u" "keeps ids_grow m"
  shows "inventory_change P s s'"
  using assms(1)
proof (cases rule: commit_cases)
  case (1 x)
  then show ?thesis using assms(2) by blast
next
  case (2 e u)
  with assms(3) have "next_id s \<le> next_id u" by (auto simp: ids_grow_def dest: keepsD)
  with 2 show ?thesis by (intro inventory_change.same) (simp_all add: rollback_def)
qed

lemma ids_wizard:
  "keeps ids_grow (create_location w tenant actor name region city address)"
  "keeps ids_grow (create_router w tenant actor name l model ip mac)"
  "keeps ids_grow (set_network_config t w tenant actor i cidr gateway dns)"
  "keeps ids_grow (generate_wireguard_config t w cfg tenant actor i)"
  "keeps ids_grow (generate_radius_config t w cfg tenant actor i)"
  "keeps ids_grow (generate_hotspot_config t w tenant actor i)"
  "keeps ids_grow (generate_walled_garden_rules w cfg tenant actor i)"
  "keeps ids_grow (complete_provisioning w tenant actor i)"
  by (auto simp: create_location_def create_router_def set_network_config_def generate_wireguard_config_def
      next_wireguard_tunnel_ip_def generate_radius_config_def generate_hotspot_config_def
      generate_walled_garden_rules_def complete_provisioning_def get_router_def update_router_def audit_router_def
      Let_def split: prod.split option.split intro!: ids_rules ids_modify)

lemma wizard_tunnels:
  assumes net: "ip_network t (wireguard_server_subnet cfg) = Some (Net4 n p)"
    and step: "wizard_step t cfg s s'" and ok: "tunnels_ok t (Net4 n p) s"
  shows "tunnels_ok t (Net4 n p) s'"
proof (rule tunnels_change [OF _ ok])
  let ?P = "\<lambda>x x'. keeps_tunnel x x' \<or> takes_free t (Net4 n p) s x x'"
  have weak: "inventory_change ?P s u" if "inventory_change keeps_tunnel s u" for u
    by (rule inventory_weaken [OF that]) simp
  from step show "inventory_change ?P s s'"
  proof cases
    case wireguard
    from this show ?thesis
      by (rule commit_inventory) (erule inventory_weaken [OF wireguard_change [OF net ok]], simp, rule ids_wizard)
  next
    case other
    then show ?thesis by (rule inventory_change.same)
  qed (erule commit_inventory; (rule ids_wizard)?; erule quiet_changes create_router_change
      weak [OF network_config_change] weak [OF radius_config_change] weak [OF complete_change])+
qed

lemma wizard_reaches:
  assumes "ip_network t (wireguard_server_subnet cfg) = Some (Net4 n p)"
    and "(wizard_step t cfg)\<^sup>*\<^sup>* s0 s" "tunnels_ok t (Net4 n p) s0"
  shows "tunnels_ok t (Net4 n p) s"
  using assms(2,3) by (induction rule: rtranclp_induct) (auto intro: wizard_tunnels [OF assms(1)])

definition no_tunnels :: "db \<Rightarrow> bool" where
  "no_tunnels s \<longleftrightarrow> distinct (map rt_id (routers s)) \<and>
     (\<forall>x \<in> set (routers s). rt_id x < next_id s \<and> wireguard_tunnel_ip x = None)"

lemma no_tunnels_ok: "no_tunnels s \<Longrightarrow> tunnels_ok t net s"
  by (auto simp: no_tunnels_def tunnels_ok_def tunnels_def map_filter_def)

subsection \<open>Examples\<close>

definition no_v6 :: v6_text where
  "no_v6 = \<lparr>v6_read = (\<lambda>_. None), v6_show = (\<lambda>_. [])\<rparr>"

definition wizard_cfg :: settings where
  "wizard_cfg = payout_cfg\<lparr>wireguard_server_public_key := Some ''srv'',
     wireguard_server_endpoint := Some ''vpn.example:51820'', wireguard_server_subnet := ''10.90.0.0/29''\<rparr>"

definition two_routers_db :: db where
  "two_routers_db = empty_db\<lparr>routers := [router_at 41 7, router_at 42 8]\<rparr>"

definition first_tunnel_db :: db where
  "first_tunnel_db = snd (commit (generate_wireguard_config no_v6 sample_io wizard_cfg 7 3 41) two_routers_db)"

definition both_tunnels_db :: db where
  "both_tunnels_db = snd (commit (generate_wireguard_config no_v6 sample_io wizard_cfg 8 4 42) first_tunnel_db)"

lemma wizard_subnet: "ip_network no_v6 (wireguard_server_subnet wizard_cfg) = Some (Net4 173670400 29)"
proof -
  have "map parse_octet (split_on (CHR ''.'') ''10.90.0.0'') = [Some 10, Some 90, Some 0, Some 0]" by code_simp
  then have "parse_ipv4 ''10.90.0.0'' = Some 173670400" by (simp add: parse_ipv4_def ip4_value_def)
  moreover have "split_on (CHR ''/'') (wireguard_server_subnet wizard_cfg) = [''10.90.0.0'', ''29'']"
    "parse_prefix 32 ''29'' = Some 29" by code_simp+
  moreover have "173670400 AND netmask 29 = (173670400 :: 32 word)"
    by (simp add: netmask_def hostmask_def mask_eq_exp_minus_1)
  ultimately show ?thesis by (simp add: ip_network_def parse_network4_def)
qed

lemma wizard_hosts: "tl (hosts (Net4 173670400 29)) =
    map V4 [173670402, 173670403, 173670404, 173670405, 173670406]"
  by (simp add: hosts.simps hostmask_def mask_eq_exp_minus_1 word_range_def upt_rec_numeral)

lemma shown: "show_ipv4 173670402 = ''10.90.0.2''" "show_ipv4 173670403 = ''10.90.0.3''"
  by (simp add: show_ipv4_def octets_def, code_simp)+

lemma two_routers_fresh: "no_tunnels two_routers_db"
  by (auto simp: no_tunnels_def two_routers_db_def router_at_def empty_db_def)

lemma first_next: "next_wireguard_tunnel_ip no_v6 (wireguard_server_subnet wizard_cfg) two_routers_db =
    (Inr ''10.90.0.2'', two_routers_db)"
  by (subst next_ip_run [OF wizard_subnet no_tunnels_ok [OF two_routers_fresh]])
    (simp add: wizard_hosts shown two_routers_db_def router_at_def tunnels_def map_filter_def)

lemma wizard_keys: "truthy (wireguard_server_public_key wizard_cfg)" "truthy (wireguard_server_endpoint wizard_cfg)"
  by (simp_all add: wizard_cfg_def truthy_def)

lemma sample_wireguard:
  assumes "next_wireguard_tunnel_ip no_v6 (wireguard_server_subnet wizard_cfg) s = (Inr ip, s)"
    and "row_find rt_id i (routers s) = Some x" "rt_tenant x = tenant" "ip \<notin> set (tunnels s)"
  shows "routers (snd (commit (generate_wireguard_config no_v6 sample_io wizard_cfg tenant actor i) s)) =
    row_put rt_id (with_wireguard sample_io ip x) (routers s)"
proof -
  have keys: "wireguard_keys sample_io = (''priv'', ''pub'')" by (simp add: sample_io_def)
  have free: "list_all (\<lambda>y. rt_id y = rt_id x \<or> wireguard_tunnel_ip y \<noteq> Some ip) (routers s)"
    using assms(4) by (auto simp: list_all_iff set_tunnels)
  show ?thesis
    using free by (simp add: generate_wireguard_config_def commit_def comp_defs wizard_keys assms(1-3) get_router_def
      get_by_id_def require_def update_router_def keys audit_router_def write_audit_log_def with_wireguard_def Let_def)
qed

lemma first_tunnel: "routers first_tunnel_db =
    [with_wireguard sample_io ''10.90.0.2'' (router_at 41 7), router_at 42 8]"
  unfolding first_tunnel_db_def
  by (subst sample_wireguard [OF first_next, where x = "router_at 41 7"])
    (simp_all add: two_routers_db_def router_at_def tunnels_def map_filter_def row_put_def row_find_def with_wireguard_def)

lemma first_step: "wizard_step no_v6 wizard_cfg two_routers_db first_tunnel_db"
  unfolding first_tunnel_db_def by (rule wizard_step.wireguard) (rule prod.collapse [symmetric])

lemma second_next: "next_wireguard_tunnel_ip no_v6 (wireguard_server_subnet wizard_cfg) first_tunnel_db =
    (Inr ''10.90.0.3'', first_tunnel_db)"
  by (subst next_ip_run [OF wizard_subnet wizard_tunnels [OF wizard_subnet first_step no_tunnels_ok [OF two_routers_fresh]]])
    (simp add: wizard_hosts shown first_tunnel router_at_def with_wireguard_def tunnels_def map_filter_def)

lemma both_tunnels: "routers both_tunnels_db =
    [with_wireguard sample_io ''10.90.0.2'' (router_at 41 7), with_wireguard sample_io ''10.90.0.3'' (router_at 42 8)]"
  unfolding both_tunnels_db_def
  by (subst sample_wireguard [OF second_next, where x = "router_at 42 8"])
    (simp_all add: first_tunnel router_at_def tunnels_def map_filter_def row_put_def row_find_def with_wireguard_def)

lemma both_reached: "(wizard_step no_v6 wizard_cfg)\<^sup>*\<^sup>* two_routers_db both_tunnels_db"
proof -
  have "wizard_step no_v6 wizard_cfg first_tunnel_db both_tunnels_db"
    unfolding both_tunnels_db_def by (rule wizard_step.wireguard) (rule prod.collapse [symmetric])
  with first_step show ?thesis by (meson rtranclp.simps)
qed

subsection \<open>Properties\<close>

text \<open>C32: Over any sequence of wizard requests of all tenants, each router's tunnel address is a usable host of the
  VPN's subnet, never the first one, which is the server's, and no other router has it.\<close>

theorem tunnel_addresses_unique:
  assumes "ip_network t (wireguard_server_subnet cfg) = Some (Net4 n p)" "no_tunnels s0"
    and "(wizard_step t cfg)\<^sup>*\<^sup>* s0 s" "x \<in> set (routers s)" "wireguard_tunnel_ip x = Some ip"
  shows "(\<exists>h \<in> set (hosts (Net4 n p)). ip = show_address t h \<and> in_network h (Net4 n p) \<and>
      ip \<noteq> show_address t (hd (hosts (Net4 n p)))) \<and>
    (\<forall>y \<in> set (routers s). wireguard_tunnel_ip y = Some ip \<longrightarrow> y = x)"
proof -
  let ?N = "Net4 n p"
  have ok: "tunnels_ok t ?N s" by (rule wizard_reaches [OF assms(1,3) no_tunnels_ok [OF assms(2)]])
  have net: "net_ok ?N" by (rule ip_network_ok [OF assms(1)])
  from assms(4,5) have "ip \<in> set (tunnels s)" by (auto simp: set_tunnels)
  with ok obtain h where h: "h \<in> set (tl (hosts ?N))" "ip = show_address t h" by (auto simp: tunnels_ok_def)
  obtain g where g: "hosts ?N = g # tl (hosts ?N)" using h(1) by (cases "hosts ?N") auto
  have "h \<noteq> g" using h(1) hosts_distinct [OF net] by (subst (asm) g) auto
  moreover have "h \<in> set (hosts ?N)" using h(1) by (rule in_tl)
  moreover have "g \<in> set (hosts ?N)" by (subst g) simp
  ultimately have "ip \<noteq> show_address t g"
    using show_hosts4_inj [of t n p] h(2) by (auto dest: inj_onD)
  with h(2) \<open>h \<in> set (hosts ?N)\<close> hosts_in_network [OF net] g
  have one: "\<exists>h \<in> set (hosts ?N). ip = show_address t h \<and> in_network h ?N \<and> ip \<noteq> show_address t (hd (hosts ?N))"
    by (metis list.sel(1))
  have inj: "inj_on wireguard_tunnel_ip (set (filter (\<lambda>y. wireguard_tunnel_ip y \<noteq> None) (routers s)))"
    using ok by (auto simp: tunnels_ok_def tunnels_def map_filter_def distinct_map inj_on_def)
  have "y = x" if "y \<in> set (routers s)" "wireguard_tunnel_ip y = Some ip" for y
    by (rule inj_onD [OF inj]) (use that assms(4,5) in simp_all)
  with one show ?thesis by blast
qed

theorem tunnel_addresses_unique_witness:
  "with_wireguard sample_io ''10.90.0.2'' (router_at 41 7) \<in> set (routers both_tunnels_db) \<and>
   in_network (V4 173670402) (Net4 173670400 29) \<and>
   ''10.90.0.2'' \<noteq> show_address no_v6 (hd (hosts (Net4 173670400 29)))"
proof -
  let ?x = "with_wireguard sample_io ''10.90.0.2'' (router_at 41 7)"
  have x: "?x \<in> set (routers both_tunnels_db)" "wireguard_tunnel_ip ?x = Some ''10.90.0.2''"
    by (simp_all add: both_tunnels) (simp add: with_wireguard_def)
  from tunnel_addresses_unique [OF wizard_subnet two_routers_fresh both_reached x]
  obtain h where h: "h \<in> set (hosts (Net4 173670400 29))" "''10.90.0.2'' = show_address no_v6 h"
    "in_network h (Net4 173670400 29)" "''10.90.0.2'' \<noteq> show_address no_v6 (hd (hosts (Net4 173670400 29)))"
    by blast
  moreover have "h = V4 173670402" using hosts4 [OF h(1)] h(2) by (auto simp: shown(1) [symmetric])
  ultimately show ?thesis using x(1) by simp
qed

lemma network_text_read [simp]:
  assumes "net_ok (Net4 n p)"
  shows "ip_network t (show_network t (Net4 n p)) = Some (Net4 n p)"
proof -
  have "CHR ''/'' \<notin> set (show_ipv4 n)"
    by (simp add: show_ipv4_def octets_def nat_str_no_dot)
  then have "split_on (CHR ''/'') (show_ipv4 n @ CHR ''/'' # nat_str p) = [show_ipv4 n, nat_str p]"
    by (simp add: split_on_append split_on_plain nat_str_no_dot)
  moreover have "parse_prefix 32 (nat_str p) = Some p"
    using assms nat_str_all_digits [of p] by (simp add: parse_prefix_def digits_value_nat_str)
  ultimately show ?thesis
    using assms by (simp add: ip_network_def parse_network4_def ipv4_roundtrip)
qed

lemma hosts_ends:
  assumes "net_ok (Net4 n p)" "p \<le> 30"
  shows "hotspot_pool (Net4 n p) = Some (V4 (n + 2), V4 ((n OR hostmask p) - 1))"
proof -
  have n: "n AND netmask p = n" "p \<le> 32" using assms by simp_all
  have "2 ^ 2 \<le> (2 :: nat) ^ (32 - p)" by (rule power_increasing) (use assms in simp_all)
  then have four: "4 \<le> (2 :: nat) ^ (32 - p)" by simp
  let ?lo = "unat n" and ?hi = "unat (n OR hostmask p)"
  have hi: "?hi = ?lo + 2 ^ (32 - p) - 1" using net_block(2) [OF n(1)] by simp
  with four have gap: "?lo + 3 \<le> ?hi" by simp
  have hs: "hosts (Net4 n p) = map V4 (word_range (?lo + 1) ?hi)"
    using assms(2) by (simp add: hosts.simps Let_def)
  have "hosts (Net4 n p) ! 1 = V4 (of_nat (?lo + 2))"
    using gap by (simp add: hs word_range_def del: of_nat_add)
  moreover have "last (hosts (Net4 n p)) = V4 (of_nat (?hi - 1))"
    using gap by (simp add: hs word_range_def last_map)
  moreover have "of_nat (?hi - 1) = (n OR hostmask p) - (1 :: 32 word)"
    using gap by (simp add: of_nat_diff)
  moreover have "length (hosts (Net4 n p)) > 1" using gap by (simp add: hs word_range_def)
  ultimately show ?thesis by (auto simp: hotspot_pool_def Let_def)
qed

lemma pool_range:
  assumes "net_ok (Net4 n p)" "p \<le> 30" "in_network (V4 g) (Net4 n p)"
  shows "n + 2 \<le> g \<and> g \<le> (n OR hostmask p) - 1 \<longleftrightarrow> g \<notin> {n, n + 1, n OR hostmask p}"
proof -
  have n: "n AND netmask p = n" "p \<le> 32" using assms by simp_all
  have "2 ^ 2 \<le> (2 :: nat) ^ (32 - p)" by (rule power_increasing) (use assms in simp_all)
  then have four: "4 \<le> (2 :: nat) ^ (32 - p)" by simp
  have fits: "unat n + 2 ^ (32 - p) \<le> 2 ^ 32" using net_block_fits [OF n(1)] n(2) by simp
  have hi: "unat (n OR hostmask p) = unat n + 2 ^ (32 - p) - 1" using net_block(2) [OF n(1)] by simp
  have "unat g - unat g mod 2 ^ (32 - p) = unat n"
    using unat_netmask_and [of g p] assms(3) by simp
  moreover have "unat g mod 2 ^ (32 - p) < 2 ^ (32 - p)" by simp
  moreover have "unat g mod 2 ^ (32 - p) \<le> unat g" by (rule mod_less_eq_dividend)
  ultimately have g: "unat n \<le> unat g" "unat g < unat n + 2 ^ (32 - p)" by linarith+
  have "unat (n + 1) = unat n + 1" "unat (n + 2) = unat n + 2"
    using fits four by (subst unat_add_lem [THEN iffD1]; simp)+
  moreover have "unat ((n OR hostmask p) - 1) = unat (n OR hostmask p) - 1"
    using hi four by (subst unat_sub) (auto simp: word_le_nat_alt)
  ultimately show ?thesis
    using g hi four by (auto simp: word_le_nat_alt word_unat_eq_iff) linarith
qed

lemma truthy_given: "truthy (Some s) \<longleftrightarrow> s \<noteq> []"
  by (cases s) (simp_all add: truthy_def)

lemma show_network_nonempty [simp]: "show_network t (Net4 n p) \<noteq> []"
  by simp

lemma configured_hotspot:
  assumes "set_network_config t w tenant actor i cidr gateway dns s = (Inr c, s')"
    and "ip_network t cidr = Some (Net4 n p)" "p \<le> 30" "ip_address t gateway = Some (V4 g)"
  shows "in_network (V4 g) (Net4 n p)"
    and "fst (generate_hotspot_config t w' tenant actor' i s') =
      Inr (hotspot_script t (Net4 n p) (V4 (n + 2), V4 ((n OR hostmask p) - 1)) (show_ipv4 g) (join '','' dns))"
proof -
  have net: "net_ok (Net4 n p)" by (rule ip_network_ok [OF assms(2)])
  from assms show "in_network (V4 g) (Net4 n p)"
    by (auto simp: set_network_config_def bnd_Inr thn_Inr run_simps get_router_run)
  from assms(1,2,4) obtain x where x: "row_find rt_id i (routers s) = Some x" "rt_tenant x = tenant"
    "routers s' = row_put rt_id (x\<lparr>hotspot_network_cidr := Some (show_network t (Net4 n p)),
             hotspot_gateway_ip := Some (show_ipv4 g), hotspot_dns_servers := Some (join '','' dns)\<rparr>) (routers s)"
    by (auto simp: set_network_config_def bnd_Inr thn_Inr run_simps get_router_run update_router_run
        dest!: audit_router_run)
  then have "row_find rt_id i (routers s') = Some (x\<lparr>hotspot_network_cidr := Some (show_network t (Net4 n p)),
             hotspot_gateway_ip := Some (show_ipv4 g), hotspot_dns_servers := Some (join '','' dns)\<rparr>)"
    using row_find_put_same [of rt_id "x\<lparr>hotspot_network_cidr := Some (show_network t (Net4 n p)),
             hotspot_gateway_ip := Some (show_ipv4 g), hotspot_dns_servers := Some (join '','' dns)\<rparr>" "routers s" x]
      row_find_Some [OF x(1)] by simp
  then show "fst (generate_hotspot_config t w' tenant actor' i s') =
      Inr (hotspot_script t (Net4 n p) (V4 (n + 2), V4 ((n OR hostmask p) - 1)) (show_ipv4 g) (join '','' dns))"
    using net assms(3)
    by (simp add: generate_hotspot_config_def get_router_def get_by_id_def comp_defs require_def x(2) truthy_given
        hosts_ends audit_router_def write_audit_log_def del: net_ok.simps show_network.simps)
qed

text \<open>The address pool of the generated hotspot script starts at the second usable host, whatever gateway the tenant
  chose: a gateway other than the network's first host (or its two reserved addresses) lies in the pool handed to
  clients.\<close>

theorem gateway_in_pool:
  assumes "set_network_config t w tenant actor i cidr gateway dns s = (Inr c, s')"
    and "ip_network t cidr = Some (Net4 n p)" "p \<le> 30" "ip_address t gateway = Some (V4 g)"
  shows "\<exists>lo hi. fst (generate_hotspot_config t w' tenant actor' i s') =
      Inr (hotspot_script t (Net4 n p) (V4 lo, V4 hi) (show_ipv4 g) (join '','' dns)) \<and>
      (lo \<le> g \<and> g \<le> hi \<longleftrightarrow> g \<notin> {n, n + 1, n OR hostmask p})"
  by (intro exI conjI)
    (rule configured_hotspot(2) [OF assms],
     rule pool_range [OF ip_network_ok [OF assms(2)] assms(3) configured_hotspot(1) [OF assms]])

text \<open>A tenant with the network 10.5.0.0/24 whose gateway is 10.5.0.254.\<close>

lemma lan_texts: "ip_network no_v6 ''10.5.0.0/24'' = Some (Net4 168099840 24)"
  "ip_address no_v6 ''10.5.0.254'' = Some (V4 168100094)"
  "in_network (V4 168100094) (Net4 168099840 24)"
proof -
  have "map parse_octet (split_on (CHR ''.'') ''10.5.0.0'') = [Some 10, Some 5, Some 0, Some 0]"
    "map parse_octet (split_on (CHR ''.'') ''10.5.0.254'') = [Some 10, Some 5, Some 0, Some 254]" by code_simp+
  then have "parse_ipv4 ''10.5.0.0'' = Some 168099840" and host: "parse_ipv4 ''10.5.0.254'' = Some 168100094"
    by (simp_all add: parse_ipv4_def ip4_value_def)
  moreover have "split_on (CHR ''/'') ''10.5.0.0/24'' = [''10.5.0.0'', ''24'']"
    "parse_prefix 32 ''24'' = Some 24" by code_simp+
  moreover have "168099840 AND netmask 24 = (168099840 :: 32 word)"
    by (simp add: netmask_def hostmask_def mask_eq_exp_minus_1)
  ultimately show "ip_network no_v6 ''10.5.0.0/24'' = Some (Net4 168099840 24)"
    by (simp add: ip_network_def parse_network4_def)
  show "ip_address no_v6 ''10.5.0.254'' = Some (V4 168100094)" by (simp add: ip_address_def host)
  show "in_network (V4 168100094) (Net4 168099840 24)"
    by (simp add: netmask_def hostmask_def mask_eq_exp_minus_1)
qed

lemma lan_configured: "fst (set_network_config no_v6 sample_io 7 3 41 ''10.5.0.0/24'' ''10.5.0.254'' [''1.1.1.1'']
    two_routers_db) = Inr \<lparr>nc_network_cidr = show_network no_v6 (Net4 168099840 24),
      nc_gateway_ip = show_ipv4 168100094, nc_dns_servers = [''1.1.1.1'']\<rparr>"
  using lan_texts
  by (simp add: set_network_config_def comp_defs require_def get_router_def get_by_id_def two_routers_db_def
      router_at_def row_find_def update_router_def audit_router_def write_audit_log_def)

theorem gateway_in_pool_witness:
  "\<exists>s'. set_network_config no_v6 sample_io 7 3 41 ''10.5.0.0/24'' ''10.5.0.254'' [''1.1.1.1''] two_routers_db =
      (Inr \<lparr>nc_network_cidr = show_network no_v6 (Net4 168099840 24),
      nc_gateway_ip = show_ipv4 168100094, nc_dns_servers = [''1.1.1.1'']\<rparr>, s') \<and>
    (\<exists>lo hi. fst (generate_hotspot_config no_v6 sample_io 7 3 41 s') =
      Inr (hotspot_script no_v6 (Net4 168099840 24) (V4 lo, V4 hi) (show_ipv4 168100094) ''1.1.1.1'') \<and>
      lo \<le> 168100094 \<and> 168100094 \<le> hi)"
proof -
  obtain s' where s': "set_network_config no_v6 sample_io 7 3 41 ''10.5.0.0/24'' ''10.5.0.254'' [''1.1.1.1'']
      two_routers_db = (Inr \<lparr>nc_network_cidr = show_network no_v6 (Net4 168099840 24),
      nc_gateway_ip = show_ipv4 168100094, nc_dns_servers = [''1.1.1.1'']\<rparr>, s')"
    using lan_configured by (metis prod.collapse)
  from gateway_in_pool [OF s' lan_texts(1) _ lan_texts(2), of sample_io 3] s' show ?thesis
    by (simp add: hostmask_def mask_eq_exp_minus_1)
qed

text \<open>Two computations with the same effect on the database, up to what they return.\<close>

definition same_effect :: "'a op \<Rightarrow> 'a op \<Rightarrow> bool" where
  "same_effect m m' \<longleftrightarrow> (\<forall>s. snd (m s) = snd (m' s) \<and> (isl (fst (m s)) \<longleftrightarrow> isl (fst (m' s))))"

lemma same_effect_intros:
  "same_effect k k"
  "same_effect (ret x) (ret y)"
  "(\<And>x. same_effect (f x) (g x)) \<Longrightarrow> same_effect (bnd m f) (bnd m g)"
  "same_effect n n' \<Longrightarrow> same_effect (thn u n) (thn u n')"
  by (auto simp: same_effect_def comp_defs split: prod.splits sum.splits)

lemma same_effect_commit: "same_effect m m' \<Longrightarrow> snd (commit m s) = snd (commit m' s)"
  by (auto simp: same_effect_def commit_def split: prod.splits sum.splits)
    (metis fst_conv snd_conv isl_def sum.disc)+

text \<open>The router's private key and its RADIUS secret reach the database only encrypted: two runs whose keys and
  secrets differ, but encrypt to the same texts, leave the same database behind, whatever the outcome.\<close>

theorem secrets_only_encrypted:
  assumes "w' = w\<lparr>wireguard_keys := (key, snd (wireguard_keys w)), radius_secret := secret, encrypt_secret := e\<rparr>"
    and "e key = encrypt_secret w (fst (wireguard_keys w))" "e secret = encrypt_secret w (radius_secret w)"
  shows "snd (commit (generate_wireguard_config t w' cfg tenant actor i) s) =
      snd (commit (generate_wireguard_config t w cfg tenant actor i) s) \<and>
    snd (commit (generate_radius_config t w' cfg tenant actor i) s) =
      snd (commit (generate_radius_config t w cfg tenant actor i) s)"
proof -
  have audit: "audit_router w' = audit_router w"
    by (simp add: fun_eq_iff audit_router_def write_audit_log_def assms(1))
  have written: "snd (wireguard_keys w') = snd (wireguard_keys w)"
    "encrypt_secret w' (fst (wireguard_keys w')) = encrypt_secret w (fst (wireguard_keys w))"
    "encrypt_secret w' (radius_secret w') = encrypt_secret w (radius_secret w)"
    using assms by simp_all
  have "same_effect (generate_wireguard_config t w' cfg tenant actor i) (generate_wireguard_config t w cfg tenant actor i)"
    "same_effect (generate_radius_config t w' cfg tenant actor i) (generate_radius_config t w cfg tenant actor i)"
    unfolding generate_wireguard_config_def generate_radius_config_def audit Let_def split_beta written
    by (intro same_effect_intros)+
  then show ?thesis by (simp add: same_effect_commit)
qed

text \<open>Two runs whose cipher hides everything.\<close>

theorem secrets_only_encrypted_witness:
  "snd (commit (generate_wireguard_config no_v6 (sample_io\<lparr>wireguard_keys := (''other'', ''pub''),
        radius_secret := ''hidden'', encrypt_secret := (\<lambda>t. if t = ''other'' then ''gAAAApriv'' else ''gAAAAsecret'')\<rparr>)
      wizard_cfg 7 3 41) two_routers_db) = first_tunnel_db"
proof -
  let ?e = "\<lambda>t. if t = ''other'' then ''gAAAApriv'' else ''gAAAAsecret''"
  have "snd (wireguard_keys sample_io) = ''pub''"
    "?e ''other'' = encrypt_secret sample_io (fst (wireguard_keys sample_io))"
    "?e ''hidden'' = encrypt_secret sample_io (radius_secret sample_io)" by (simp_all add: sample_io_def)
  then show ?thesis
    using secrets_only_encrypted [where w = sample_io and key = "''other''" and secret = "''hidden''" and e = ?e
      and t = no_v6 and cfg = wizard_cfg and tenant = 7 and actor = 3 and i = 41 and s = two_routers_db]
    by (simp add: first_tunnel_db_def)
qed

end
