(* ===== verification/Row_Security.thy ===== *)
theory Row_Security
  imports Access_Control
begin

text \<open>
  The second way into the database: row level security, as the migrations
  \<^verbatim>\<open>41619a38de4a_rls_policies.py\<close>, \<^verbatim>\<open>11075bc476b4\<close> and \<^verbatim>\<open>c4f81b2e9a37\<close> set it up. A signed-in account
  may send statements straight to the database (\<^verbatim>\<open>docs/rls-policies.md\<close>: Supabase's client libraries, PostgREST),
  as the role \<^verbatim>\<open>authenticated\<close>, which holds all privileges on the tables; the policies are what limits it.
  A statement here changes one row; checks see the database as it was before the statement. Foreign keys and
  unique constraints are not modelled: the theorems on what clients cannot do hold with fewer statements too, and
  those on what they can do ask for the rows referred to.
\<close>

subsection \<open>The helper functions\<close>

definition current_tenant_id :: "uuid \<Rightarrow> db \<Rightarrow> uuid option" where
  "current_tenant_id uid s = Option.bind (row_find pr_id uid (profiles s)) pr_tenant"

definition is_super_admin_sql :: "uuid \<Rightarrow> db \<Rightarrow> bool" where
  "is_super_admin_sql uid s \<longleftrightarrow>
     (\<exists>a \<in> set (profile_roles s). pro_profile a = uid \<and> pro_role a = SUPER_ADMIN \<and>
        SUPER_ADMIN \<in> set (seeded_roles s))"

text \<open>SQL's \<open>tenant_id = current_tenant_id()\<close>: a comparison with NULL is not true.\<close>

definition of_own_tenant :: "uuid \<Rightarrow> db \<Rightarrow> uuid option \<Rightarrow> bool" where
  "of_own_tenant uid s t \<longleftrightarrow> t \<noteq> None \<and> t = current_tenant_id uid s"

subsection \<open>Policies\<close>

text \<open>An INSERT must pass its check; an UPDATE its USING on the old row and its check on the new one, both
  readable; a DELETE its USING. Where a command has no policy nothing passes.\<close>

record 'r policies =
  selects :: "uuid \<Rightarrow> db \<Rightarrow> 'r \<Rightarrow> bool"
  inserts :: "uuid \<Rightarrow> db \<Rightarrow> 'r \<Rightarrow> bool"
  updates_from :: "uuid \<Rightarrow> db \<Rightarrow> 'r \<Rightarrow> bool"
  updates_to :: "uuid \<Rightarrow> db \<Rightarrow> 'r \<Rightarrow> bool"
  deletes :: "uuid \<Rightarrow> db \<Rightarrow> 'r \<Rightarrow> bool"

definition nobody :: "uuid \<Rightarrow> db \<Rightarrow> 'r \<Rightarrow> bool" where
  "nobody uid s r \<longleftrightarrow> False"

definition tenant_scoped :: "('r \<Rightarrow> uuid option) \<Rightarrow> uuid \<Rightarrow> db \<Rightarrow> 'r \<Rightarrow> bool" where
  "tenant_scoped owner uid s r \<longleftrightarrow> of_own_tenant uid s (owner r) \<or> is_super_admin_sql uid s"

definition reference_policies :: "'r policies" where
  "reference_policies = \<lparr>selects = (\<lambda>_ _ _. True), inserts = nobody, updates_from = nobody, updates_to = nobody,
     deletes = nobody\<rparr>"

definition select_only_policies :: "('r \<Rightarrow> uuid option) \<Rightarrow> 'r policies" where
  "select_only_policies owner = \<lparr>selects = tenant_scoped owner, inserts = nobody, updates_from = nobody,
     updates_to = nobody, deletes = nobody\<rparr>"

definition no_delete_policies :: "('r \<Rightarrow> uuid option) \<Rightarrow> 'r policies" where
  "no_delete_policies owner = \<lparr>selects = tenant_scoped owner, inserts = tenant_scoped owner,
     updates_from = tenant_scoped owner, updates_to = tenant_scoped owner, deletes = nobody\<rparr>"

definition full_crud_policies :: "('r \<Rightarrow> uuid option) \<Rightarrow> 'r policies" where
  "full_crud_policies owner = (no_delete_policies owner)\<lparr>deletes := tenant_scoped owner\<rparr>"

definition tenants_policies :: "tenant policies" where
  "tenants_policies = (let own = tenant_scoped (\<lambda>x. Some (tn_id x)) in
     \<lparr>selects = own, inserts = (\<lambda>uid s _. is_super_admin_sql uid s), updates_from = own, updates_to = own,
      deletes = (\<lambda>uid s _. is_super_admin_sql uid s)\<rparr>)"

definition self_or_tenant :: "uuid \<Rightarrow> db \<Rightarrow> profile \<Rightarrow> bool" where
  "self_or_tenant uid s p \<longleftrightarrow> pr_id p = uid \<or> tenant_scoped pr_tenant uid s p"

definition profiles_policies :: "profile policies" where
  "profiles_policies = \<lparr>selects = self_or_tenant, inserts = nobody, updates_from = self_or_tenant,
     updates_to = self_or_tenant, deletes = nobody\<rparr>"

text \<open>The UPDATE policy of roles has no check of its own, so its USING serves for both.\<close>

definition profile_roles_policies :: "profile_role policies" where
  "profile_roles_policies =
     \<lparr>selects = (\<lambda>uid s a. pro_profile a = uid \<or> tenant_scoped pro_tenant uid s a),
      inserts = tenant_scoped pro_tenant, updates_from = tenant_scoped pro_tenant,
      updates_to = tenant_scoped pro_tenant, deletes = tenant_scoped pro_tenant\<rparr>"

subsection \<open>Statements of a client\<close>

inductive table_statement :: "'r policies \<Rightarrow> uuid \<Rightarrow> db \<Rightarrow> 'r list \<Rightarrow> 'r list \<Rightarrow> bool" for pol uid s where
  insert: "inserts pol uid s r \<Longrightarrow> table_statement pol uid s rows (rows @ [r])"
| update: "k < length rows \<Longrightarrow> selects pol uid s (rows ! k) \<Longrightarrow> updates_from pol uid s (rows ! k) \<Longrightarrow>
    updates_to pol uid s r \<Longrightarrow> selects pol uid s r \<Longrightarrow> table_statement pol uid s rows (rows[k := r])"
| delete: "k < length rows \<Longrightarrow> selects pol uid s (rows ! k) \<Longrightarrow> deletes pol uid s (rows ! k) \<Longrightarrow>
    table_statement pol uid s rows (take k rows @ drop (Suc k) rows)"

text \<open>
  The tables of commercial terms, of settlement modes and of withdrawal events were added by later
  migrations (\<^verbatim>\<open>02afe6ac6800\<close>, \<^verbatim>\<open>594adc71a075\<close>) that never enable row level security on them.
\<close>

inductive client_statement :: "uuid \<Rightarrow> db \<Rightarrow> db \<Rightarrow> bool" for uid s where
  on_roles: "table_statement reference_policies uid s (seeded_roles s) rs \<Longrightarrow>
    client_statement uid s (s\<lparr>seeded_roles := rs\<rparr>)"
| on_tenants: "table_statement tenants_policies uid s (tenants s) tns \<Longrightarrow> client_statement uid s (s\<lparr>tenants := tns\<rparr>)"
| on_profiles: "table_statement profiles_policies uid s (profiles s) prs \<Longrightarrow>
    client_statement uid s (s\<lparr>profiles := prs\<rparr>)"
| on_profile_roles: "table_statement profile_roles_policies uid s (profile_roles s) pros \<Longrightarrow>
    client_statement uid s (s\<lparr>profile_roles := pros\<rparr>)"
| on_locations: "table_statement (full_crud_policies (Some \<circ> lc_tenant)) uid s (locations s) lcs \<Longrightarrow>
    client_statement uid s (s\<lparr>locations := lcs\<rparr>)"
| on_routers: "table_statement (full_crud_policies (Some \<circ> rt_tenant)) uid s (routers s) rts \<Longrightarrow>
    client_statement uid s (s\<lparr>routers := rts\<rparr>)"
| on_packages: "table_statement (full_crud_policies (Some \<circ> pk_tenant)) uid s (packages s) pks \<Longrightarrow>
    client_statement uid s (s\<lparr>packages := pks\<rparr>)"
| on_customers: "table_statement (full_crud_policies (Some \<circ> cu_tenant)) uid s (customers s) cus \<Longrightarrow>
    client_statement uid s (s\<lparr>customers := cus\<rparr>)"
| on_subscriptions: "table_statement (full_crud_policies (Some \<circ> sub_tenant)) uid s (subscriptions s) subs \<Longrightarrow>
    client_statement uid s (s\<lparr>subscriptions := subs\<rparr>)"
| on_voucher_batches: "table_statement (full_crud_policies (Some \<circ> vb_tenant)) uid s (voucher_batches s) vbs \<Longrightarrow>
    client_statement uid s (s\<lparr>voucher_batches := vbs\<rparr>)"
| on_vouchers: "table_statement (full_crud_policies (Some \<circ> vo_tenant)) uid s (vouchers s) vos \<Longrightarrow>
    client_statement uid s (s\<lparr>vouchers := vos\<rparr>)"
| on_destinations: "table_statement (full_crud_policies (Some \<circ> dst_tenant)) uid s (destinations s) dsts \<Longrightarrow>
    client_statement uid s (s\<lparr>destinations := dsts\<rparr>)"
| on_transactions: "table_statement (no_delete_policies (Some \<circ> tx_tenant)) uid s (transactions s) txs \<Longrightarrow>
    client_statement uid s (s\<lparr>transactions := txs\<rparr>)"
| on_withdrawals: "table_statement (no_delete_policies (Some \<circ> wd_tenant)) uid s (withdrawals s) wds \<Longrightarrow>
    client_statement uid s (s\<lparr>withdrawals := wds\<rparr>)"
| on_user_sessions: "table_statement (select_only_policies (Some \<circ> us_tenant)) uid s (user_sessions s) uss \<Longrightarrow>
    client_statement uid s (s\<lparr>user_sessions := uss\<rparr>)"
| on_webhooks: "table_statement (select_only_policies wh_tenant) uid s (webhook_rows s) whs \<Longrightarrow>
    client_statement uid s (s\<lparr>webhook_rows := whs\<rparr>)"
| on_wallets: "table_statement (select_only_policies (Some \<circ> wal_tenant)) uid s (wallets s) wals \<Longrightarrow>
    client_statement uid s (s\<lparr>wallets := wals\<rparr>)"
| on_ledger: "table_statement (select_only_policies (Some \<circ> le_tenant)) uid s (ledger_entries s) les \<Longrightarrow>
    client_statement uid s (s\<lparr>ledger_entries := les\<rparr>)"
| on_settlements: "table_statement (select_only_policies (Some \<circ> sl_tenant)) uid s (settlement_logs s) sls \<Longrightarrow>
    client_statement uid s (s\<lparr>settlement_logs := sls\<rparr>)"
| on_audit_logs: "table_statement (select_only_policies au_tenant) uid s (audit_logs s) aus \<Longrightarrow>
    client_statement uid s (s\<lparr>audit_logs := aus\<rparr>)"
| on_settings: "table_statement (select_only_policies Some) uid s (tenant_settings_rows s) tss \<Longrightarrow>
    client_statement uid s (s\<lparr>tenant_settings_rows := tss\<rparr>)"
| on_flags: "table_statement (select_only_policies (Some \<circ> ff_tenant)) uid s (flags_rows s) ffs \<Longrightarrow>
    client_statement uid s (s\<lparr>flags_rows := ffs\<rparr>)"
| on_verifications: "table_statement (select_only_policies (Some \<circ> vf_tenant)) uid s (verification_rows s) vfs \<Longrightarrow>
    client_statement uid s (s\<lparr>verification_rows := vfs\<rparr>)"
| on_email_events: "table_statement (select_only_policies ee_tenant) uid s (email_events s) ees \<Longrightarrow>
    client_statement uid s (s\<lparr>email_events := ees\<rparr>)"
| on_captive_sessions: "table_statement (select_only_policies (Some \<circ> cs_tenant)) uid s (captive_sessions s) css \<Longrightarrow>
    client_statement uid s (s\<lparr>captive_sessions := css\<rparr>)"
| on_terms: "client_statement uid s (s\<lparr>terms_rows := cts\<rparr>)"
| on_config: "client_statement uid s (s\<lparr>config_rows := scs\<rparr>)"
| on_withdrawal_events: "client_statement uid s (s\<lparr>withdrawal_events := wes\<rparr>)"

subsection \<open>What one statement changes\<close>

lemma policy_simps [simp]:
  "inserts (select_only_policies owner) uid s r = False" "updates_from (select_only_policies owner) uid s r = False"
  "deletes (select_only_policies owner) uid s r = False"
  "inserts reference_policies uid s x = False" "updates_from reference_policies uid s x = False"
  "deletes reference_policies uid s x = False"
  by (simp_all add: select_only_policies_def reference_policies_def nobody_def)












subsection \<open>What the policies guarantee\<close>





subsection \<open>Membership is in the clients' hands\<close>

text \<open>The two statements: move one's own profile into the tenant, then take a role there.\<close>

definition joined :: "uuid \<Rightarrow> uuid \<Rightarrow> db \<Rightarrow> db" where
  "joined uid t s = s\<lparr>profiles := map (\<lambda>p. if pr_id p = uid then p\<lparr>pr_tenant := Some t\<rparr> else p) (profiles s)\<rparr>"

definition promoted :: "uuid \<Rightarrow> role \<Rightarrow> uuid \<Rightarrow> db \<Rightarrow> db" where
  "promoted uid r t s =
     s\<lparr>profile_roles := profile_roles s @ [\<lparr>pro_profile = uid, pro_role = r, pro_tenant = Some t\<rparr>]\<rparr>"

lemma map_one:
  assumes "distinct (map key rows)" "k < length rows"
  shows "map (\<lambda>x. if key x = key (rows ! k) then f x else x) rows = rows[k := f (rows ! k)]"
proof (rule nth_equalityI)
  fix i assume i: "i < length (map (\<lambda>x. if key x = key (rows ! k) then f x else x) rows)"
  then have "key (rows ! i) = key (rows ! k) \<longleftrightarrow> i = k"
    using nth_eq_iff_index_eq [OF assms(1), of i k] assms(2) by simp
  with i assms(2) show "map (\<lambda>x. if key x = key (rows ! k) then f x else x) rows ! i = rows[k := f (rows ! k)] ! i"
    by simp
qed simp

lemma joining_permitted:
  assumes "distinct (map pr_id (profiles s))" "row_find pr_id uid (profiles s) = Some p"
  shows "client_statement uid s (joined uid t s)" "current_tenant_id uid (joined uid t s) = Some t"
proof -
  from row_find_Some [OF assms(2)] obtain k where k: "k < length (profiles s)" "profiles s ! k = p" "pr_id p = uid"
    by (auto simp: in_set_conv_nth)
  have "joined uid t s = s\<lparr>profiles := (profiles s)[k := p\<lparr>pr_tenant := Some t\<rparr>]\<rparr>"
    using map_one [OF assms(1) k(1), of "\<lambda>p. p\<lparr>pr_tenant := Some t\<rparr>"] k by (simp add: joined_def)
  moreover have "table_statement profiles_policies uid s (profiles s) ((profiles s)[k := p\<lparr>pr_tenant := Some t\<rparr>])"
    by (rule table_statement.update) (use k in \<open>simp_all add: profiles_policies_def self_or_tenant_def\<close>)
  ultimately show "client_statement uid s (joined uid t s)" by (simp add: client_statement.on_profiles)
  have "find P (map f rows) = map_option f (find P rows)" if "\<And>x. P (f x) = P x" for P and f :: "profile \<Rightarrow> profile" and rows
    by (induction rows) (simp_all add: that)
  then show "current_tenant_id uid (joined uid t s) = Some t"
    using assms(2) k(3) by (simp add: current_tenant_id_def joined_def row_find_def)
qed

lemma promoting_permitted:
  "current_tenant_id uid s = Some t \<Longrightarrow> client_statement uid s (promoted uid r t s)"
  unfolding promoted_def
  by (rule client_statement.on_profile_roles, rule table_statement.insert)
    (simp add: profile_roles_policies_def tenant_scoped_def of_own_tenant_def)

text \<open>C27: Any account with a profile, even one that has only just signed up and belongs to no tenant, can make itself
  platform administrator with two statements the policies permit, given that any tenant exists: it moves its
  profile into that tenant and inserts the role for itself. The database then counts it as super admin, and so
  does every administration route of the API.\<close>

theorem any_account_becomes_super_admin:
  assumes "distinct (map pr_id (profiles s))" "row_find pr_id uid (profiles s) = Some p"
    and "row_find tn_id t (tenants s) = Some x" "SUPER_ADMIN \<in> set (seeded_roles s)"
    and "decode_token token = Some claims" "claim_sub claims = Some uid"
  shows "\<exists>s1 s2. client_statement uid s s1 \<and> client_statement uid s1 s2 \<and> is_super_admin_sql uid s2 \<and>
    admin_route decode_token (Some token) handler s2 = handler uid s2 \<and> tenants s2 = tenants s"
proof (intro exI conjI)
  let ?s1 = "joined uid t s" and ?s2 = "promoted uid SUPER_ADMIN t (joined uid t s)"
  show "client_statement uid s ?s1" by (rule joining_permitted(1) [OF assms(1,2)])
  show "client_statement uid ?s1 ?s2" by (rule promoting_permitted [OF joining_permitted(2) [OF assms(1,2)]])
  show "is_super_admin_sql uid ?s2" using assms(4) by (simp add: is_super_admin_sql_def promoted_def joined_def)
  show "tenants ?s2 = tenants s" by (simp add: promoted_def joined_def)
  obtain q where q: "row_find pr_id uid (profiles ?s2) = Some q"
    using joining_permitted(2) [OF assms(1,2), of t]
    by (auto simp: current_tenant_id_def promoted_def Option.bind_eq_Some_conv)
  obtain u where u: "get_current_user decode_token (Some token) ?s2 = (Inr u, ?s2)" "user_id u = uid"
    "user_roles u = roles_of uid ?s2"
    by (rule get_current_user_Some [where decode_token = decode_token, OF assms(5,6) q])
  have "SUPER_ADMIN \<in> roles_of uid ?s2"
    using assms(4) by (force simp: roles_of_def promoted_def joined_def)
  with u show "admin_route decode_token (Some token) handler ?s2 = handler uid ?s2"
    by (simp add: admin_route_def require_role_def has_role_def bnd_run)
qed

text \<open>A tenant that has been suspended can set itself active again: the policy lets any of its members rewrite the
  tenant's row, and the API then serves its staff as before.\<close>

theorem suspended_tenant_reactivates_itself:
  assumes "distinct (map tn_id (tenants s))" "row_find pr_id uid (profiles s) = Some p" "pr_tenant p = Some t"
    and "row_find tn_id t (tenants s) = Some x"
    and "r \<in> roles_of uid s" "r \<in> set allowed"
  shows "\<exists>s'. client_statement uid s s' \<and> row_find tn_id t (tenants s') = Some (x\<lparr>tn_status := Tn_ACTIVE\<rparr>) \<and>
    staff_of allowed t uid s'"
proof (intro exI conjI)
  let ?x = "x\<lparr>tn_status := Tn_ACTIVE\<rparr>" and ?s = "s\<lparr>tenants := row_put tn_id (x\<lparr>tn_status := Tn_ACTIVE\<rparr>) (tenants s)\<rparr>"
  from row_find_Some [OF assms(4)] obtain k where k: "k < length (tenants s)" "tenants s ! k = x" "tn_id x = t"
    by (auto simp: in_set_conv_nth)
  have "row_put tn_id ?x (tenants s) = (tenants s)[k := ?x]"
    using map_one [OF assms(1) k(1), of "\<lambda>_. ?x"] k by (simp add: row_put_def)
  moreover have that_tenant: "tenant_scoped (\<lambda>x. Some (tn_id x)) uid s y \<longleftrightarrow> True" if "tn_id y = t" for y
    using assms(2,3) that by (simp add: tenant_scoped_def of_own_tenant_def current_tenant_id_def)
  have "table_statement tenants_policies uid s (tenants s) ((tenants s)[k := ?x])"
    using k by (intro table_statement.update) (simp_all add: tenants_policies_def Let_def that_tenant)
  ultimately show "client_statement uid s ?s" by (simp add: client_statement.on_tenants)
  show row: "row_find tn_id t (tenants ?s) = Some ?x"
    using row_find_put_same [of tn_id ?x "tenants s" x] assms(4) k(3) by simp
  show "staff_of allowed t uid ?s"
    using assms(2,3,5,6) row by (auto simp: staff_of_def roles_of_def)
qed

text \<open>The platform with one tenant, its owner, and an account that has only just signed up; the tenant's owner 5 after a
  suspension.\<close>

definition newcomer :: "uuid \<Rightarrow> uuid option \<Rightarrow> profile" where
  "newcomer i t = \<lparr>pr_id = i, pr_tenant = t, pr_email = Some ''a@b.test'', pr_full_name = None, pr_first_name = None,
     pr_last_name = None, pr_phone = None, pr_status = ''invited''\<rparr>"

definition newcomer_db :: db where
  "newcomer_db = (staffed_db Tn_SUSPENDED)\<lparr>profiles := [newcomer 3 None, newcomer 5 (Some 7)],
     profile_roles := [\<lparr>pro_profile = 5, pro_role = TENANT_OWNER, pro_tenant = Some 7\<rparr>],
     seeded_roles := [SUPER_ADMIN, TENANT_OWNER]\<rparr>"

lemma newcomer_facts:
  "row_find pr_id 3 (profiles newcomer_db) = Some (newcomer 3 None)" "distinct (map pr_id (profiles newcomer_db))"
  "row_find pr_id 5 (profiles newcomer_db) = Some (newcomer 5 (Some 7))" "distinct (map tn_id (tenants newcomer_db))"
  "roles_of 5 newcomer_db = {TENANT_OWNER}" "roles_of 3 newcomer_db = {}"
  "\<exists>x. row_find tn_id 7 (tenants newcomer_db) = Some x \<and> tn_status x = Tn_SUSPENDED"
  "SUPER_ADMIN \<in> set (seeded_roles newcomer_db)"
  by (auto simp: newcomer_db_def newcomer_def staffed_db_def row_find_def roles_of_def)

theorem any_account_becomes_super_admin_witness:
  "roles_of 3 newcomer_db = {} \<and> (\<exists>s1 s2. client_statement 3 newcomer_db s1 \<and> client_statement 3 s1 s2 \<and>
     is_super_admin_sql 3 s2 \<and> admin_route sample_token (Some ''x'') (\<lambda>i. ret i) s2 = (Inr 3, s2))"
proof -
  obtain x where x: "row_find tn_id 7 (tenants newcomer_db) = Some x" using newcomer_facts(7) by blast
  have token: "sample_token ''x'' = Some \<lparr>claim_sub = Some 3, claim_email = None\<rparr>" by (simp add: sample_token_def)
  from any_account_becomes_super_admin [where decode_token = sample_token, OF newcomer_facts(2,1) x newcomer_facts(8) token,
      of "\<lambda>i. ret i"]
  show ?thesis using newcomer_facts(6) by (auto simp: ret_def)
qed

theorem suspended_tenant_reactivates_itself_witness:
  "\<exists>s'. client_statement 5 newcomer_db s' \<and> staff_of [TENANT_OWNER] 7 5 s' \<and> \<not> staff_of [TENANT_OWNER] 7 5 newcomer_db"
proof -
  obtain x where x: "row_find tn_id 7 (tenants newcomer_db) = Some x" "tn_status x = Tn_SUSPENDED"
    using newcomer_facts(7) by blast
  have "pr_tenant (newcomer 5 (Some 7)) = Some 7" "TENANT_OWNER \<in> roles_of 5 newcomer_db" "TENANT_OWNER \<in> set [TENANT_OWNER]"
    using newcomer_facts(5) by (simp_all add: newcomer_def)
  from suspended_tenant_reactivates_itself [OF newcomer_facts(4,3) this(1) x(1) this(2,3)]
  show ?thesis using x by (auto simp: staff_of_def)
qed



end
