(* ===== verification/Dashboards.thy ===== *)
theory Dashboards
  imports Worker_Sweeps
begin

text \<open>
  What the dashboards show: \<^verbatim>\<open>services/dashboard.py\<close> (a tenant's landing page), \<^verbatim>\<open>services/super_admin_dashboard.py\<close>
  (the platform's) and \<^verbatim>\<open>services/reports.py\<close>. Every figure is a fold over the rows its query selects. The
  operating time zone is a fixed offset from UTC (\<^verbatim>\<open>Africa/Dar_es_Salaam\<close> has no summer time), a date the number
  of its day.
\<close>

subsection \<open>Days\<close>

definition day :: time where
  "day = seconds 86400"

definition local_date :: "time \<Rightarrow> time \<Rightarrow> int" where
  "local_date tz t = (t + tz) div day"

definition local_midnight :: "time \<Rightarrow> int \<Rightarrow> time" where
  "local_midnight tz d = d * day - tz"

definition trailing_local_dates :: "nat \<Rightarrow> time \<Rightarrow> time \<Rightarrow> int list" where
  "trailing_local_dates days tz t = map (\<lambda>offset. local_date tz t - int offset) (rev [0..<days])"

definition today_start :: "time \<Rightarrow> time \<Rightarrow> time" where
  "today_start tz t = local_midnight tz (local_date tz t)"

definition count_rows :: "('r \<Rightarrow> bool) \<Rightarrow> 'r list \<Rightarrow> nat" where
  "count_rows P rows = length (filter P rows)"

text \<open>\<open>GROUP BY\<close> the local day, as the dict the service makes of it, and the points of the chart: nothing at
  all without a row in the window, else one point per day. Zero days raise an \<open>IndexError\<close>.\<close>

definition by_day :: "time \<Rightarrow> ('r \<Rightarrow> time) \<Rightarrow> ('r list \<Rightarrow> 'v) \<Rightarrow> 'r list \<Rightarrow> (int \<times> 'v) list" where
  "by_day tz moment agg rows =
     map (\<lambda>d. (d, agg (filter (\<lambda>r. local_date tz (moment r) = d) rows)))
       (remdups (map (\<lambda>r. local_date tz (moment r)) rows))"

definition trend :: "nat \<Rightarrow> time \<Rightarrow> time \<Rightarrow> ('r \<Rightarrow> time) \<Rightarrow> ('r list \<Rightarrow> 'v) \<Rightarrow> 'v \<Rightarrow> 'r list \<Rightarrow> (int \<times> 'v) list option" where
  "trend days tz t moment agg zero rows =
     (case trailing_local_dates days tz t of
        [] \<Rightarrow> None
      | d0 # ds \<Rightarrow>
          let totals = by_day tz moment agg (filter (\<lambda>r. moment r \<ge> local_midnight tz d0) rows) in
          Some (if totals = [] then []
            else map (\<lambda>d. (d, case map_of totals d of None \<Rightarrow> zero | Some v \<Rightarrow> v)) (d0 # ds)))"

definition amounts :: "ledger_entry list \<Rightarrow> rat" where
  "amounts es = sum_list (map le_amount es)"

definition is_collection :: "ledger_entry \<Rightarrow> bool" where
  "is_collection e \<longleftrightarrow> le_type e = L_COLLECTION"

subsection \<open>The tenant's dashboard\<close>

definition FAILED_TRANSACTION_STATUSES :: "collection_status list" where
  "FAILED_TRANSACTION_STATUSES = filter (\<lambda>st. st \<noteq> C_COMPLETED) COLLECTION_TERMINAL_STATUSES"

record dashboard_summary =
  online_users :: nat
  today_collections_tzs :: rat
  active_vouchers :: nat
  routers_online :: nat
  routers_total :: nat
  failed_transactions :: nat
  available_wallet_balance_tzs :: rat

definition summary :: "time \<Rightarrow> time \<Rightarrow> uuid \<Rightarrow> db \<Rightarrow> dashboard_summary" where
  "summary tz t tenant s =
     \<lparr>online_users = count_rows (\<lambda>x. us_tenant x = tenant \<and> us_status x = ''active'') (user_sessions s),
      today_collections_tzs = amounts (filter (\<lambda>e. le_tenant e = tenant \<and> is_collection e \<and>
        le_created_at e \<ge> today_start tz t) (ledger_entries s)),
      active_vouchers = count_rows (\<lambda>v. vo_tenant v = tenant \<and> vo_status v = V_UNUSED) (vouchers s),
      routers_online = count_rows (\<lambda>x. rt_tenant x = tenant \<and> rt_status x = ''online'') (routers s),
      routers_total = count_rows (\<lambda>x. rt_tenant x = tenant) (routers s),
      failed_transactions = count_rows (\<lambda>x. tx_tenant x = tenant \<and>
        tx_status x \<in> set FAILED_TRANSACTION_STATUSES \<and> tx_created_at x \<ge> today_start tz t) (transactions s),
      available_wallet_balance_tzs = (case find (\<lambda>x. wal_tenant x = tenant) (wallets s) of
        None \<Rightarrow> 0 | Some x \<Rightarrow> available_balance_tzs x)\<rparr>"

definition collections_trend :: "nat \<Rightarrow> time \<Rightarrow> time \<Rightarrow> uuid \<Rightarrow> db \<Rightarrow> (int \<times> rat) list option" where
  "collections_trend days tz t tenant s =
     trend days tz t le_created_at amounts 0
       (filter (\<lambda>e. le_tenant e = tenant \<and> is_collection e) (ledger_entries s))"

definition session_moment :: "user_session \<Rightarrow> time" where
  "session_moment x = (case us_started_at x of Some t \<Rightarrow> t | None \<Rightarrow> us_created_at x)"

definition session_trend :: "nat \<Rightarrow> time \<Rightarrow> time \<Rightarrow> uuid \<Rightarrow> db \<Rightarrow> (int \<times> nat) list option" where
  "session_trend days tz t tenant s =
     trend days tz t session_moment length 0 (filter (\<lambda>x. us_tenant x = tenant) (user_sessions s))"

record package_performance_row =
  pp_package :: uuid
  pp_name :: string
  pp_total_subscriptions :: nat
  pp_active_subscriptions :: nat
  pp_revenue_tzs :: rat

text \<open>The outer joins: a subscription without a payment appears once, with several payments several times.\<close>

definition package_subscriptions :: "package \<Rightarrow> db \<Rightarrow> subscription list" where
  "package_subscriptions p s =
     filter (\<lambda>y. sub_package y = pk_id p \<and> sub_tenant y = pk_tenant p) (subscriptions s)"

definition subscription_payments :: "package \<Rightarrow> subscription \<Rightarrow> db \<Rightarrow> transaction list" where
  "subscription_payments p y s =
     filter (\<lambda>x. tx_subscription x = Some (sub_id y) \<and> tx_tenant x = pk_tenant p) (transactions s)"

definition joined_rows :: "package \<Rightarrow> db \<Rightarrow> (subscription \<times> transaction option) list" where
  "joined_rows p s =
     concat (map (\<lambda>y. case subscription_payments p y s of
         [] \<Rightarrow> [(y, None)] | xs \<Rightarrow> map (\<lambda>x. (y, Some x)) xs) (package_subscriptions p s))"

definition revenue_of :: "transaction option \<Rightarrow> rat" where
  "revenue_of x = (case x of Some x \<Rightarrow> if tx_status x = C_COMPLETED then tx_amount x else 0 | None \<Rightarrow> 0)"

definition performance_row :: "db \<Rightarrow> package \<Rightarrow> package_performance_row" where
  "performance_row s p =
     \<lparr>pp_package = pk_id p, pp_name = pk_name p, pp_total_subscriptions = length (joined_rows p s),
      pp_active_subscriptions = count_rows (\<lambda>(y, x). sub_status y = Sub_ACTIVE) (joined_rows p s),
      pp_revenue_tzs = sum_list (map (\<lambda>(y, x). revenue_of x) (joined_rows p s))\<rparr>"

definition package_performance :: "uuid \<Rightarrow> db \<Rightarrow> package_performance_row list" where
  "package_performance tenant s =
     (let rows = sort_key (\<lambda>r. - pp_revenue_tzs r)
        (map (performance_row s) (filter (\<lambda>p. pk_tenant p = tenant) (packages s))) in
      if sum_list (map pp_total_subscriptions rows) = 0 then [] else rows)"

subsection \<open>Reports\<close>

record tenant_summary =
  ts_customers_total :: nat
  ts_routers_total :: nat
  ts_routers_online :: nat
  ts_active_subscriptions :: nat
  ts_transactions_total :: nat
  ts_wallet_balance :: string

definition tenant_summary :: "io \<Rightarrow> uuid \<Rightarrow> db \<Rightarrow> tenant_summary" where
  "tenant_summary w tenant s =
     \<lparr>ts_customers_total = count_rows (\<lambda>x. cu_tenant x = tenant) (customers s),
      ts_routers_total = count_rows (\<lambda>x. rt_tenant x = tenant) (routers s),
      ts_routers_online = count_rows (\<lambda>x. rt_tenant x = tenant \<and> rt_status x = ''online'') (routers s),
      ts_active_subscriptions = count_rows (\<lambda>x. sub_tenant x = tenant \<and> sub_status x = Sub_ACTIVE) (subscriptions s),
      ts_transactions_total = count_rows (\<lambda>x. tx_tenant x = tenant) (transactions s),
      ts_wallet_balance = (case find (\<lambda>x. wal_tenant x = tenant) (wallets s) of
        None \<Rightarrow> ''0.00''
      | Some x \<Rightarrow> decimal_text w (available_balance_tzs x + pending_balance_tzs x + reserved_balance_tzs x +
          frozen_balance_tzs x))\<rparr>"

subsection \<open>The platform's dashboard\<close>

definition PENDING_WITHDRAWAL_STATUSES :: "withdrawal_status list" where
  "PENDING_WITHDRAWAL_STATUSES = [W_PENDING_APPROVAL, W_APPROVED]"

definition pending_withdrawals :: "db \<Rightarrow> withdrawal list" where
  "pending_withdrawals s = filter (\<lambda>x. wd_status x \<in> set PENDING_WITHDRAWAL_STATUSES) (withdrawals s)"

record super_admin_summary =
  sa_active_tenants :: nat
  sa_suspended_tenants :: nat
  sa_routers_total :: nat
  sa_routers_online :: nat
  sa_radius_active_sessions :: nat
  sa_collections_today_tzs :: rat
  sa_pending_payouts :: nat
  sa_pending_payouts_amount_tzs :: rat
  sa_failed_webhooks :: nat

definition platform_summary :: "time \<Rightarrow> time \<Rightarrow> db \<Rightarrow> super_admin_summary" where
  "platform_summary tz t s =
     \<lparr>sa_active_tenants = count_rows (\<lambda>x. tn_status x = Tn_ACTIVE) (tenants s),
      sa_suspended_tenants = count_rows (\<lambda>x. tn_status x = Tn_SUSPENDED) (tenants s),
      sa_routers_total = length (routers s),
      sa_routers_online = count_rows (\<lambda>x. rt_status x = ''online'') (routers s),
      sa_radius_active_sessions = count_rows (\<lambda>x. us_status x = ''active'') (user_sessions s),
      sa_collections_today_tzs = amounts (filter (\<lambda>e. is_collection e \<and> le_created_at e \<ge> today_start tz t)
        (ledger_entries s)),
      sa_pending_payouts = length (pending_withdrawals s),
      sa_pending_payouts_amount_tzs = sum_list (map wd_amount (pending_withdrawals s)),
      sa_failed_webhooks = count_rows (\<lambda>x. \<not> wh_verified x \<and> wh_processed x) (webhook_rows s)\<rparr>"

definition platform_collections_trend :: "nat \<Rightarrow> time \<Rightarrow> time \<Rightarrow> db \<Rightarrow> (int \<times> rat) list option" where
  "platform_collections_trend days tz t s =
     trend days tz t le_created_at amounts 0 (filter is_collection (ledger_entries s))"

definition tenant_growth_trend :: "nat \<Rightarrow> time \<Rightarrow> time \<Rightarrow> db \<Rightarrow> (int \<times> nat) list option" where
  "tenant_growth_trend days tz t s = trend days tz t tn_created_at length 0 (tenants s)"

record pending_payout_row =
  pq_withdrawal :: uuid
  pq_tenant_name :: string
  pq_amount :: rat
  pq_status :: withdrawal_status
  pq_requested_at :: time

definition pending_payouts_queue :: "nat \<Rightarrow> db \<Rightarrow> pending_payout_row list" where
  "pending_payouts_queue limit s =
     take limit (sort_key pq_requested_at
       (concat (map (\<lambda>x. map (\<lambda>tn. \<lparr>pq_withdrawal = wd_id x, pq_tenant_name = tn_name tn, pq_amount = wd_amount x,
            pq_status = wd_status x, pq_requested_at = wd_created_at x\<rparr>)
          (filter (\<lambda>tn. tn_id tn = wd_tenant x) (tenants s))) (pending_withdrawals s))))"

record reconciliation_health =
  last_run_at :: "time option"
  minutes_since_last_run :: "rat option"
  last_scanned :: "meta option"
  last_resolved :: "meta option"
  last_still_pending :: "meta option"
  last_failed :: "meta option"
  last_alerted :: "meta option"
  currently_processing :: nat
  currently_ambiguous :: nat

definition swept_entries :: "db \<Rightarrow> audit_log list" where
  "swept_entries s = filter (\<lambda>a. au_action a = ''withdrawal.reconciliation_swept'') (audit_logs s)"

definition reconciliation_health :: "time \<Rightarrow> db \<Rightarrow> reconciliation_health" where
  "reconciliation_health t s =
     (let found = (case sort_key (\<lambda>a. - au_created_at a) (swept_entries s) of [] \<Rightarrow> None | a # _ \<Rightarrow> Some a);
          field = (\<lambda>name. case found of None \<Rightarrow> None | Some a \<Rightarrow> map_of (au_metadata a) name) in
      \<lparr>last_run_at = map_option au_created_at found,
       minutes_since_last_run = map_option (\<lambda>a. of_int (t - au_created_at a) / of_int (minutes 1)) found,
       last_scanned = field ''scanned'', last_resolved = field ''resolved'',
       last_still_pending = field ''still_pending'', last_failed = field ''failed'', last_alerted = field ''alerted'',
       currently_processing = count_rows (\<lambda>x. wd_status x = W_PROCESSING) (withdrawals s),
       currently_ambiguous = count_rows (\<lambda>x. wd_status x = W_AMBIGUOUS) (withdrawals s)\<rparr>)"

subsection \<open>Trends add up\<close>

lemma day_pos [simp]: "0 < day"
  by (simp add: day_def seconds_def)

lemma le_div_iff: "0 < k \<Longrightarrow> d \<le> x div k \<longleftrightarrow> d * k \<le> (x :: int)"
proof
  assume k: "0 < k" and "d \<le> x div k"
  then have "d * k \<le> x div k * k" by (simp add: mult_right_mono)
  also have "\<dots> \<le> x" using k pos_mod_sign [of k x] div_mult_mod_eq [of x k] by linarith
  finally show "d * k \<le> x" .
next
  assume k: "0 < k" and "d * k \<le> x"
  then show "d \<le> x div k" using zdiv_mono1 [of "d * k" x k] by simp
qed

lemma local_date_ge: "d \<le> local_date tz t \<longleftrightarrow> local_midnight tz d \<le> t"
  by (auto simp: local_date_def local_midnight_def le_div_iff)

lemma trailing_dates:
  "set (trailing_local_dates days tz t) = {local_date tz t - int days <.. local_date tz t}"
  "length (trailing_local_dates days tz t) = days" "distinct (trailing_local_dates days tz t)"
proof -
  show "set (trailing_local_dates days tz t) = {local_date tz t - int days <.. local_date tz t}"
  proof (intro set_eqI iffI)
    fix d assume "d \<in> {local_date tz t - int days <.. local_date tz t}"
    then have "d = local_date tz t - int (nat (local_date tz t - d))" "nat (local_date tz t - d) < days" by auto
    then show "d \<in> set (trailing_local_dates days tz t)"
      unfolding trailing_local_dates_def by (metis atLeastLessThan_iff image_eqI le0 set_map set_rev set_upt)
  qed (auto simp: trailing_local_dates_def)
  show "length (trailing_local_dates days tz t) = days" by (simp add: trailing_local_dates_def)
  show "distinct (trailing_local_dates days tz t)"
    by (auto simp: trailing_local_dates_def distinct_map inj_on_def)
qed

lemma trailing_Cons: "trailing_local_dates (Suc n) tz t = (local_date tz t - int n) # trailing_local_dates n tz t"
  by (simp add: trailing_local_dates_def)

lemma map_of_pairs: "map_of (map (\<lambda>d. (d, f d)) ds) d = (if d \<in> set ds then Some (f d) else None)"
  by (induction ds) auto

lemma map_of_by_day:
  "map_of (by_day tz moment agg rows) d =
    (if d \<in> (\<lambda>r. local_date tz (moment r)) ` set rows
     then Some (agg (filter (\<lambda>r. local_date tz (moment r) = d) rows)) else None)"
  by (simp add: by_day_def map_of_pairs)

text \<open>With a value that is zero for no rows, each point is the value of its day.\<close>

lemma trend_points:
  assumes "agg [] = zero"
  shows "trend (Suc n) tz t moment agg zero rows =
    Some (if \<exists>r \<in> set rows. local_date tz t - int n \<le> local_date tz (moment r)
      then map (\<lambda>d. (d, agg (filter (\<lambda>r. local_date tz (moment r) = d) rows))) (trailing_local_dates (Suc n) tz t)
      else [])"
proof -
  let ?d0 = "local_date tz t - int n"
  let ?rows = "filter (\<lambda>r. moment r \<ge> local_midnight tz ?d0) rows"
  have day: "(case map_of (by_day tz moment agg ?rows) d of None \<Rightarrow> zero | Some v \<Rightarrow> v) =
      agg (filter (\<lambda>r. local_date tz (moment r) = d) rows)" if "d \<in> set (trailing_local_dates (Suc n) tz t)" for d
  proof -
    have d: "?d0 \<le> d" using that by (auto simp: trailing_dates)
    have same: "filter (\<lambda>r. local_date tz (moment r) = d) ?rows = filter (\<lambda>r. local_date tz (moment r) = d) rows"
      using d by (auto simp: local_date_ge [symmetric] intro!: filter_cong)
    show ?thesis
    proof (cases "d \<in> (\<lambda>r. local_date tz (moment r)) ` set ?rows")
      case True
      then show ?thesis by (simp add: map_of_by_day same del: filter_filter)
    next
      case False
      then have "filter (\<lambda>r. local_date tz (moment r) = d) ?rows = []" by (auto simp: filter_empty_conv)
      with False show ?thesis using assms by (simp only: map_of_by_day same) simp
    qed
  qed
  have empty: "by_day tz moment agg ?rows = [] \<longleftrightarrow> \<not> (\<exists>r \<in> set rows. ?d0 \<le> local_date tz (moment r))"
    by (auto simp: by_day_def filter_empty_conv local_date_ge)
  have "map (\<lambda>d. (d, case map_of (by_day tz moment agg ?rows) d of None \<Rightarrow> zero | Some v \<Rightarrow> v))
      (trailing_local_dates (Suc n) tz t) =
    map (\<lambda>d. (d, agg (filter (\<lambda>r. local_date tz (moment r) = d) rows))) (trailing_local_dates (Suc n) tz t)"
    by (intro map_cong refl) (simp only: day)
  then show ?thesis
    unfolding trend_def trailing_Cons list.case Let_def empty by simp
qed

lemma sum_by_key:
  assumes "distinct ds" "\<forall>r \<in> set rows. key r \<in> set ds"
  shows "(\<Sum>d \<leftarrow> ds. \<Sum>r \<leftarrow> filter (\<lambda>r. key r = d) rows. f r) = (\<Sum>r \<leftarrow> rows. (f r :: rat))"
  using assms(2)
proof (induction rows)
  case (Cons r rows)
  have "(\<Sum>d \<leftarrow> ds. if key r = d then f r else 0) = f r"
    using assms(1) Cons.prems by (simp add: sum_list_distinct_conv_sum_set sum.delta)
  moreover have "(\<Sum>d \<leftarrow> ds. \<Sum>r \<leftarrow> filter (\<lambda>r. key r = d) (r # rows). f r) =
      (\<Sum>d \<leftarrow> ds. (if key r = d then f r else 0) + (\<Sum>r \<leftarrow> filter (\<lambda>r. key r = d) rows. f r))"
    by (intro arg_cong [where f = sum_list] map_cong refl) simp
  ultimately show ?case using Cons by (simp add: sum_list_addf)
qed simp

subsection \<open>The charts and the payments\<close>

lemma booked_amounts: "(\<Sum>b \<leftarrow> booked s. snd b) = amounts (filter is_collection (ledger_entries s))"
  by (simp add: booked_def amounts_def is_collection_def [abs_def] comp_def)

lemma booked_total:
  assumes "payments_sound s"
  shows "amounts (filter is_collection (ledger_entries s)) =
    (\<Sum>x \<leftarrow> transactions s. if tx_status x = C_COMPLETED then tx_amount x else 0)"
proof -
  let ?ids = "map (\<lambda>x. Some (tx_id x)) (transactions s)"
  have ids: "distinct ?ids" using assms by (auto simp: payments_sound_def distinct_map inj_on_def)
  have known: "\<forall>b \<in> set (booked s). fst b \<in> set ?ids" using assms by (fastforce simp: payments_sound_def)
  have "(\<Sum>b \<leftarrow> filter (\<lambda>b. fst b = Some (tx_id x)) (booked s). snd b) =
      (if tx_status x = C_COMPLETED then tx_amount x else 0)" if "x \<in> set (transactions s)" for x
  proof -
    have "bookings (tx_id x) s = (if tx_status x = C_COMPLETED then [(Some (tx_id x), tx_amount x)] else [])"
      using assms that by (simp add: payments_sound_def payment_ok_def)
    moreover have "filter (\<lambda>b. fst b = Some (tx_id x)) (booked s) = bookings (tx_id x) s"
      by (auto simp: bookings_def intro!: filter_cong)
    ultimately show ?thesis by simp
  qed
  then have "(\<Sum>x \<leftarrow> transactions s. if tx_status x = C_COMPLETED then tx_amount x else 0) =
      (\<Sum>d \<leftarrow> ?ids. \<Sum>b \<leftarrow> filter (\<lambda>b. fst b = d) (booked s). snd b)"
    by (simp add: comp_def cong: map_cong)
  with sum_by_key [OF ids known, of snd] show ?thesis by (simp add: booked_amounts)
qed

lemma amounts_filter: "amounts (filter P es) = (\<Sum>e \<leftarrow> filter P es. le_amount e)"
  by (simp add: amounts_def)

text \<open>C30: The platform's revenue chart and its payments tell the same: when every credit so far falls into the
  window of the chart, its points add up to exactly the amounts of the payments that completed, and its last
  point is the figure for today.\<close>

theorem revenue_chart_matches_payments:
  assumes "transactions s0 = []" "ledger_entries s0 = []" "payment_step\<^sup>*\<^sup>* s0 s"
    and window: "\<forall>e \<in> set (ledger_entries s). is_collection e \<longrightarrow>
      local_date tz t - int n \<le> local_date tz (le_created_at e) \<and> local_date tz (le_created_at e) \<le> local_date tz t"
  shows "\<exists>points. platform_collections_trend (Suc n) tz t s = Some points \<and>
    sum_list (map snd points) = (\<Sum>x \<leftarrow> transactions s. if tx_status x = C_COMPLETED then tx_amount x else 0) \<and>
    (points \<noteq> [] \<longrightarrow> last points = (local_date tz t, sa_collections_today_tzs (platform_summary tz t s)))"
proof -
  let ?rows = "filter is_collection (ledger_entries s)" and ?ds = "trailing_local_dates (Suc n) tz t"
  let ?date = "\<lambda>e. local_date tz (le_created_at e)"
  have sound: "payments_sound s" using assms(1-3) sound_start(1) by (blast intro: payments_reachable)
  have chart: "platform_collections_trend (Suc n) tz t s =
      Some (if \<exists>r \<in> set ?rows. local_date tz t - int n \<le> ?date r
        then map (\<lambda>d. (d, amounts (filter (\<lambda>r. ?date r = d) ?rows))) ?ds else [])"
    unfolding platform_collections_trend_def by (rule trend_points) (simp add: amounts_def)
  show ?thesis
  proof (cases "?rows = []")
    case True
    then show ?thesis using chart booked_total [OF sound] by (simp add: amounts_def)
  next
    case False
    then obtain r where "r \<in> set ?rows" by (meson last_in_set)
    with window have "\<exists>r \<in> set ?rows. local_date tz t - int n \<le> ?date r" by auto
    with chart have points: "platform_collections_trend (Suc n) tz t s =
        Some (map (\<lambda>d. (d, amounts (filter (\<lambda>r. ?date r = d) ?rows))) ?ds)" by simp
    have "\<forall>r \<in> set ?rows. ?date r \<in> set ?ds" using window by (auto simp: trailing_dates)
    from sum_by_key [OF trailing_dates(3) this, of le_amount] booked_total [OF sound]
    have "(\<Sum>d \<leftarrow> ?ds. amounts (filter (\<lambda>r. ?date r = d) ?rows)) =
        (\<Sum>x \<leftarrow> transactions s. if tx_status x = C_COMPLETED then tx_amount x else 0)"
      by (simp add: amounts_filter [of is_collection] amounts_filter del: filter_filter)
    moreover have "last ?ds = local_date tz t" by (simp add: trailing_local_dates_def last_map last_rev)
    moreover have "filter (\<lambda>r. ?date r = local_date tz t) ?rows =
        filter (\<lambda>e. is_collection e \<and> today_start tz t \<le> le_created_at e) (ledger_entries s)"
      using window by (auto simp: today_start_def local_date_ge [symmetric] intro!: filter_cong)
    moreover have "?ds \<noteq> []" by (simp add: trailing_local_dates_def)
    ultimately show ?thesis
      unfolding points by (simp add: last_map platform_summary_def comp_def conj_commute del: filter_filter)
  qed
qed

lemma settled_books:
  "case commit (issue_session portal_io portal_cfg 41 None) portal_db of (r0, s0) \<Rightarrow>
   case commit (initiate_payment portal_io portal_cfg ''T'' 31 ''0712345678'') s0 of (r1, s1) \<Rightarrow>
   case commit (reconcile_transaction (flow_of paid_io) (flow_of paid_io TT_CAPTIVE_PORTAL) paid_io portal_cfg 7) s1 of
     (r2, s2) \<Rightarrow>
   map (\<lambda>e. (le_amount e, le_created_at e)) (filter is_collection (ledger_entries s2)) = [(40, seconds 600)] \<and>
   map (\<lambda>x. (tx_status x, tx_amount x)) (transactions s2) = [(C_COMPLETED, 40)]"
  by code_simp

lemma settled_facts:
  "map (\<lambda>e. (le_amount e, le_created_at e)) (filter is_collection (ledger_entries settled_db)) = [(40, seconds 600)]"
  "map (\<lambda>x. (tx_status x, tx_amount x)) (transactions settled_db) = [(C_COMPLETED, 40)]"
  using settled_books by (simp_all add: settled_db_def started_db_def visited_db_def case_prod_beta)

text \<open>The chart of the last two weeks after the payment of 40 in the concrete run, ten minutes into the epoch.\<close>

theorem revenue_chart_matches_payments_witness:
  "\<exists>points. platform_collections_trend 14 (minutes 180) (seconds 600) settled_db = Some points \<and>
     sum_list (map snd points) = 40"
proof -
  have "\<forall>e \<in> set (filter is_collection (ledger_entries settled_db)). le_created_at e = seconds 600"
    using arg_cong [OF settled_facts(1), of set] by auto
  then have "\<forall>e \<in> set (ledger_entries settled_db). is_collection e \<longrightarrow>
      local_date (minutes 180) (seconds 600) - int 13 \<le> local_date (minutes 180) (le_created_at e) \<and>
      local_date (minutes 180) (le_created_at e) \<le> local_date (minutes 180) (seconds 600)" by simp
  moreover have "(\<Sum>x \<leftarrow> transactions settled_db. if tx_status x = C_COMPLETED then tx_amount x else 0) = 40"
    using settled_facts(2) by auto
  ultimately show ?thesis
    using revenue_chart_matches_payments [OF portal_start(1,2) reached_here(3)] by (fastforce simp: numeral_eq_Suc)
qed

subsection \<open>Pending payouts and held money\<close>






subsection \<open>The health of the reconciliation\<close>

lemma sweep_counts:
  assumes "\<And>x s. \<not> isl (fst (alert x s))" "sweep_rows expires ask status alert xs n z s = (Some m, s')"
  shows "ty_resolved m + ty_still_pending m + ty_failed m =
    ty_resolved n + ty_still_pending n + ty_failed n + length xs"
  using assms(2)
proof (induction xs arbitrary: n z s)
  case (Cons x xs)
  obtain a u where a: "ask x s = (a, u)" by (cases "ask x s")
  obtain b v where b: "alert x u = (b, v)" by (cases "alert x u")
  with assms(1) [of x u] obtain sent where sent: "b = Inr sent" by (cases b) auto
  show ?case
    using Cons.prems a b sent
    by (cases a) (auto simp: Let_def split: if_splits dest!: Cons.IH)
qed simp

lemma hd_sort_key:
  assumes "e \<in> set xs" "\<forall>x \<in> set xs. x \<noteq> e \<longrightarrow> f e < (f x :: 'k :: linorder)"
  obtains ys where "sort_key f xs = e # ys"
proof -
  obtain y ys where y: "sort_key f xs = y # ys" using assms(1) by (cases "sort_key f xs") (auto dest: arg_cong [where f = set])
  have "sorted (map f (y # ys))" using sorted_sort_key [of f xs] by (simp add: y)
  moreover have "e \<in> set (y # ys)" "y \<in> set xs" using assms(1) by (simp_all flip: y) (metis list.set_intros(1) set_sort y)
  ultimately have "f y \<le> f e" by auto
  with assms(2) \<open>y \<in> set xs\<close> have "y = e" by (meson leD)
  with y that show thesis by blast
qed

definition swept_entry :: "io \<Rightarrow> (string \<times> meta) list \<Rightarrow> audit_log" where
  "swept_entry w md = \<lparr>au_tenant = None, au_actor = None, au_action = ''withdrawal.reconciliation_swept'',
     au_target_type = None, au_target = None, au_metadata = md, au_created_at = now w\<rparr>"

lemma sweep_leaves_entry:
  assumes "reconcile_pending_withdrawals expires k wk web cfg ds wa w s = (Some scanned, s')"
  obtains u md r p f where "audit_logs (fst s') = u @ [swept_entry w md]" "map_of md ''scanned'' = Some (MInt (int scanned))"
    "map_of md ''resolved'' = Some (MInt (int r))" "map_of md ''still_pending'' = Some (MInt (int p))"
    "map_of md ''failed'' = Some (MInt (int f))" "r + p + f = scanned"
proof -
  let ?rows = "list_reconcilable_withdrawals (fst s)"
  have entry: "audit_logs (fst (finish_sweep w ''withdrawal.reconciliation_swept'' md t)) = audit_logs (fst t) @ [swept_entry w md]"
    for md t by (simp add: finish_sweep_def worker_does_def commit_def write_audit_log_def modify_def swept_entry_def)
  show thesis
  proof (cases "client_configured wk")
    case False
    with assms show thesis
      by (intro that [of "audit_logs (fst s)" _ 0 0 scanned])
        (auto simp: reconcile_pending_withdrawals_def Let_def entry sweep_metadata_def no_tally_def)
  next
    case True
    with assms obtain n u where sweep: "sweep_rows expires
        (\<lambda>x. reported (\<lambda>(i, status, reconciled). status) (ask_withdrawal k wk web cfg (ds (wd_id x)) (wd_id x)))
        (\<lambda>x. withdrawal_status_value (wd_status x)) (\<lambda>x. worker_does (maybe_alert_stale (wa (wd_id x)) cfg x))
        ?rows no_tally listed_session s = (Some n, u)" "scanned = length ?rows"
      "s' = finish_sweep w ''withdrawal.reconciliation_swept''
         (sweep_metadata scanned n @ [(''alerted'', MInt (int (ty_alerted n)))]) u"
      by (auto simp: reconcile_pending_withdrawals_def Let_def split: prod.splits option.splits)
    have "ty_resolved n + ty_still_pending n + ty_failed n = scanned"
      using sweep_counts [OF alert_never_fails sweep(1)] sweep(2) by (simp add: no_tally_def)
    then show thesis
      by (intro that [of "audit_logs (fst u)" "sweep_metadata scanned n @ [(''alerted'', MInt (int (ty_alerted n)))]"
            "ty_resolved n" "ty_still_pending n" "ty_failed n"])
        (simp_all add: sweep(3) entry sweep_metadata_def)
  qed
qed

text \<open>A sweep that ends is what the reconciliation health then reports: run just now, with as many withdrawals
  as it listed, each of them counted as resolved, still pending or failed. Earlier sweeps, of which none ended at
  that same moment or later, are not mixed in.\<close>

theorem health_reports_the_sweep:
  assumes "reconcile_pending_withdrawals expires k wk web cfg ds wa w s = (Some scanned, s')"
    and "\<forall>a \<in> set (butlast (audit_logs (fst s'))). au_action a = ''withdrawal.reconciliation_swept'' \<longrightarrow>
      au_created_at a < now w"
  shows "\<exists>h r p f. h = reconciliation_health (now w) (fst s') \<and> last_run_at h = Some (now w) \<and>
    minutes_since_last_run h = Some 0 \<and> last_scanned h = Some (MInt (int scanned)) \<and>
    last_resolved h = Some (MInt (int r)) \<and> last_still_pending h = Some (MInt (int p)) \<and>
    last_failed h = Some (MInt (int f)) \<and> r + p + f = scanned"
proof (rule sweep_leaves_entry [OF assms(1)])
  fix u md r p f
  assume logs: "audit_logs (fst s') = u @ [swept_entry w md]" and fields: "map_of md ''scanned'' = Some (MInt (int scanned))"
    "map_of md ''resolved'' = Some (MInt (int r))" "map_of md ''still_pending'' = Some (MInt (int p))"
    "map_of md ''failed'' = Some (MInt (int f))" "r + p + f = scanned"
  have "swept_entry w md \<in> set (swept_entries (fst s'))" by (simp add: swept_entries_def logs swept_entry_def)
  moreover have "\<forall>a \<in> set (swept_entries (fst s')). a \<noteq> swept_entry w md \<longrightarrow>
      - au_created_at (swept_entry w md) < - au_created_at a"
    using assms(2) by (auto simp: swept_entries_def logs swept_entry_def)
  ultimately obtain ys where "sort_key (\<lambda>a. - au_created_at a) (swept_entries (fst s')) = swept_entry w md # ys"
    by (rule hd_sort_key)
  with fields show ?thesis
    by (intro exI [of _ "reconciliation_health (now w) (fst s')"] exI [of _ r] exI [of _ p] exI [of _ f])
      (simp add: reconciliation_health_def Let_def swept_entry_def)
qed

lemma open_sweep_entries:
  "(case reconcile_pending_withdrawals True sample_crypto internal_cfg internal_cfg payout_cfg
       (deliver paid_out_io Up) (\<lambda>_. sample_io) sample_io (open_db, []) of
     (r, (s, seen)) \<Rightarrow> r = Some 1 \<and>
       filter (\<lambda>a. au_action a = ''withdrawal.reconciliation_swept'') (butlast (audit_logs s)) = [])"
  by code_simp

theorem health_reports_the_sweep_witness:
  "\<exists>s seen h r p f. reconcile_pending_withdrawals True sample_crypto internal_cfg internal_cfg payout_cfg
       (deliver paid_out_io Up) (\<lambda>_. sample_io) sample_io (open_db, []) = (Some 1, (s, seen)) \<and>
     h = reconciliation_health (now sample_io) s \<and> minutes_since_last_run h = Some 0 \<and>
     last_scanned h = Some (MInt 1) \<and> last_resolved h = Some (MInt (int r)) \<and>
     last_still_pending h = Some (MInt (int p)) \<and> last_failed h = Some (MInt (int f)) \<and> r + p + f = 1"
proof -
  obtain r s seen where run: "reconcile_pending_withdrawals True sample_crypto internal_cfg internal_cfg payout_cfg
      (deliver paid_out_io Up) (\<lambda>_. sample_io) sample_io (open_db, []) = (r, (s, seen))"
    by (rule prod_cases3)
  with open_sweep_entries have r: "r = Some 1"
    and none: "filter (\<lambda>a. au_action a = ''withdrawal.reconciliation_swept'') (butlast (audit_logs s)) = []"
    by simp_all
  from none have "\<forall>a \<in> set (butlast (audit_logs (fst (s, seen)))). au_action a = ''withdrawal.reconciliation_swept'' \<longrightarrow>
      au_created_at a < now sample_io" by (simp only: filter_empty_conv fst_conv) blast
  from health_reports_the_sweep [OF run [unfolded r] this] run r show ?thesis by (simp only: fst_conv of_nat_1) blast
qed

end
