(* ===== verification/Operator_Tools.thy ===== *)
theory Operator_Tools
  imports Tenant_Review
begin

text \<open>
  The operator's scripts: \<^verbatim>\<open>scripts/assign_super_admin.py\<close>, which grants the platform role to an account, and
  \<^verbatim>\<open>scripts/integrity_check.py\<close>, which reports where profiles, roles and tenants disagree.
\<close>

subsection \<open>Granting the platform role\<close>

datatype conflict = TenantAssociationConflict "uuid option" "role list"

text \<open>The script ends with an exit status, refuses because of a conflict, or returns.\<close>

datatype assignment = Exited nat | Refused_Conflict conflict | Assigned "role list" bool

definition scoped_roles :: "uuid \<Rightarrow> db \<Rightarrow> profile_role list" where
  "scoped_roles i s =
     filter (\<lambda>a. pro_profile a = i \<and> pro_tenant a \<noteq> None \<and> pro_role a \<in> set (seeded_roles s)) (profile_roles s)"

definition granted_roles :: "uuid \<Rightarrow> db \<Rightarrow> profile_role list" where
  "granted_roles i s =
     filter (\<lambda>a. pro_profile a = i \<and> pro_role a = SUPER_ADMIN \<and> pro_tenant a = None) (profile_roles s)"

text \<open>\<^verbatim>\<open>scalar_one_or_none\<close>: more than one row raises.\<close>

definition one_or_none :: "'r list \<Rightarrow> 'r option op" where
  "one_or_none rows =
     (case rows of [] \<Rightarrow> ret None | [r] \<Rightarrow> ret (Some r) | _ \<Rightarrow> raise (UnhandledError ''MultipleResultsFound''))"

definition audit_profile :: "io \<Rightarrow> string \<Rightarrow> uuid \<Rightarrow> (string \<times> meta) list \<Rightarrow> unit op" where
  "audit_profile w action i metadata = write_audit_log w None None action (Some ''profile'') (Some i) metadata"

definition remove_association :: "io \<Rightarrow> string \<Rightarrow> profile \<Rightarrow> profile_role list \<Rightarrow> unit op" where
  "remove_association w email p scoped =
     thn (modify (\<lambda>s. s\<lparr>profiles := row_put pr_id (p\<lparr>pr_tenant := None\<rparr>) (profiles s),
            profile_roles := filter (\<lambda>a. a \<notin> set scoped) (profile_roles s)\<rparr>))
       (audit_profile w ''SUPER_ADMIN_TENANT_ROLE_CLEANUP'' (pr_id p)
         ([(''email'', MStr email)] @ map (\<lambda>a. (''removed_roles'', MStr (role_value (pro_role a)))) scoped @
          [(''previous_tenant_id'', case pr_tenant p of None \<Rightarrow> MNull | Some t \<Rightarrow> MId t)]))"

definition has_conflict :: "profile \<Rightarrow> profile_role list \<Rightarrow> bool" where
  "has_conflict p scoped \<longleftrightarrow> pr_tenant p \<noteq> None \<or> scoped \<noteq> []"

definition assign :: "io \<Rightarrow> string \<Rightarrow> bool \<Rightarrow> assignment op" where
  "assign w email force =
     bnd (gets (\<lambda>s. filter (\<lambda>p. pr_email p = Some email) (profiles s))) (\<lambda>rows.
     bnd (one_or_none rows) (\<lambda>found. case found of None \<Rightarrow> ret (Exited 1) | Some p \<Rightarrow>
     bnd (gets (\<lambda>s. SUPER_ADMIN \<in> set (seeded_roles s))) (\<lambda>seeded.
     if \<not> seeded then ret (Exited 1) else
     bnd (gets (granted_roles (pr_id p))) (\<lambda>rows.
     bnd (one_or_none rows) (\<lambda>already.
     bnd (gets (scoped_roles (pr_id p))) (\<lambda>scoped.
     let removed = (if has_conflict p scoped then map pro_role scoped else []) in
     if has_conflict p scoped \<and> \<not> force
     then ret (Refused_Conflict (TenantAssociationConflict (pr_tenant p) (map pro_role scoped)))
     else thn (whenever (has_conflict p scoped) (remove_association w email p scoped))
       (thn (whenever (already = None)
          (thn (modify (\<lambda>s. s\<lparr>profile_roles := profile_roles s @
                 [\<lparr>pro_profile = pr_id p, pro_role = SUPER_ADMIN, pro_tenant = None\<rparr>]\<rparr>))
             (audit_profile w ''SUPER_ADMIN_GRANTED'' (pr_id p) [(''email'', MStr email)])))
        (ret (Assigned removed (already = None))))))))))"

text \<open>Every path ends with a commit or with nothing written; an exception rolls back.\<close>

definition assign_super_admin :: "io \<Rightarrow> string \<Rightarrow> bool \<Rightarrow> assignment op" where
  "assign_super_admin w email force = commit (assign w email force)"

text \<open>What the script prints when it returns.\<close>

definition says_nothing_to_do :: "assignment \<Rightarrow> bool" where
  "says_nothing_to_do r \<longleftrightarrow> (\<exists>removed. r = Assigned removed False \<and> removed = [])"

subsection \<open>The integrity report\<close>



definition owner_roles :: "db \<Rightarrow> profile_role list" where
  "owner_roles s = filter (\<lambda>a. pro_role a = TENANT_OWNER \<and> TENANT_OWNER \<in> set (seeded_roles s)) (profile_roles s)"


definition find_active_tenants_without_owner :: "db \<Rightarrow> uuid list" where
  "find_active_tenants_without_owner s =
     map tn_id (filter (\<lambda>x. tn_status x = Tn_ACTIVE \<and> Some (tn_id x) \<notin> pro_tenant ` set (owner_roles s)) (tenants s))"


subsection \<open>What the requests do to memberships\<close>

definition people_same :: "db \<Rightarrow> db \<Rightarrow> bool" where
  "people_same s s' \<longleftrightarrow> profiles s' = profiles s \<and> profile_roles s' = profile_roles s \<and> seeded_roles s' = seeded_roles s \<and>
     map tn_id (tenants s') = map tn_id (tenants s) \<and> next_id s \<le> next_id s'"

lemma people_refl [simp]: "people_same s s"
  by (simp add: people_same_def)

lemma people_mailed: "mailed u s' \<Longrightarrow> people_same s u \<Longrightarrow> people_same s s'"
  by (simp add: people_same_def mailed_same)

lemma people_reviewed [simp]: "people_same s (reviewed x v as s)" "people_same s (switched x a s)"
  by (simp_all add: people_same_def reviewed_def switched_def)

lemma people_decisions:
  "approve w t actor s = (r, s') \<Longrightarrow> people_same s s'"
  "reject w t actor reason s = (r, s') \<Longrightarrow> people_same s s'"
  "request_more_information w t actor message s = (r, s') \<Longrightarrow> people_same s s'"
  "suspend w t actor why s = (r, s') \<Longrightarrow> people_same s s'"
  "reactivate w t actor s = (r, s') \<Longrightarrow> people_same s s'"
  by (auto dest!: approve_run reject_run inquire_run suspend_run reactivate_run elim!: people_mailed)

lemma people_quiet:
  "get_account_status w t owner s = (r1, s') \<Longrightarrow> people_same s s'"
  "set_collection_enabled w t actor enabled s = (r2, s') \<Longrightarrow> people_same s s'"
  "set_payout_enabled w t actor enabled s = (r2, s') \<Longrightarrow> people_same s s'"
  by (auto simp: people_same_def get_account_status_def email_confirmed_def set_collection_enabled_def
      set_payout_enabled_def get_flags_def put_flags_def audit_tenant_def require_def comp_defs commit_def
      write_audit_log_def Let_def split: auth_answer.splits option.splits if_splits)

lemma people_resend: "resend_verification_by_email w email s = (r, s') \<Longrightarrow> people_same s s'"
  by (auto simp: resend_verification_by_email_def run_simps bnd_def gets_def
      split: option.splits dest!: send_verification_email_run elim!: people_mailed)

inductive people_change :: "db \<Rightarrow> db \<Rightarrow> bool" for s where
  same: "people_same s s' \<Longrightarrow> people_change s s'"
| joins: "profiles s' = profiles s @ [p] \<Longrightarrow> pr_id p = next_id s \<Longrightarrow> pr_tenant p = None \<Longrightarrow>
    profile_roles s' = profile_roles s \<Longrightarrow> seeded_roles s' = seeded_roles s \<Longrightarrow> tenants s' = tenants s \<Longrightarrow>
    next_id s < next_id s' \<Longrightarrow> people_change s s'"
| opens: "profiles s' = profiles s @ [p] \<Longrightarrow> pr_id p = next_id s \<Longrightarrow> pr_tenant p = Some (Suc (next_id s)) \<Longrightarrow>
    profile_roles s' = profile_roles s @ [\<lparr>pro_profile = next_id s, pro_role = TENANT_OWNER, pro_tenant = pr_tenant p\<rparr>] \<Longrightarrow>
    seeded_roles s' = seeded_roles s \<Longrightarrow>
    map tn_id (tenants s') = map tn_id (tenants s) @ [Suc (next_id s)] \<Longrightarrow> Suc (next_id s) < next_id s' \<Longrightarrow>
    people_change s s'"

lemma people_register:
  assumes "accounts_below s" "register w cfg p s = (r, s')"
  shows "people_change s s'"
proof -
  from register_outcome [OF assms] consider
      phones where "mailed (opened w p phones s) s'"
    | "s' = s\<lparr>next_id := next_id s'\<rparr>" "next_id s \<le> next_id s'"
    | "s' = signed_up p (next_id s) s\<lparr>next_id := next_id s'\<rparr>" "next_id s < next_id s'"
    by blast
  then show ?thesis
  proof cases
    case 1
    obtain a b c where ph: "phones = (a, b, c)" by (cases phones)
    show ?thesis
      by (rule people_change.opens [where p = "claimed p (Suc (next_id s)) a
            (invited_profile (next_id s) (work_email p) (full_name_of p))"])
        (simp_all add: mailed_same [OF 1] opened_def ph Let_def claimed_def invited_profile_def new_tenant_def)
  next
    case 2
    then obtain n where "s' = s\<lparr>next_id := n\<rparr>" "next_id s \<le> n" by blast
    then have "people_same s s'" by (simp add: people_same_def)
    then show ?thesis by (rule people_change.same)
  next
    case 3
    then obtain n where s': "s' = signed_up p (next_id s) s\<lparr>next_id := n\<rparr>" "next_id s < n" by blast
    show ?thesis
      by (rule people_change.joins [where p = "invited_profile (next_id s) (work_email p) (full_name_of p)"])
        (simp_all add: s' signed_up_def invited_profile_def)
  qed
qed

lemma people_account:
  assumes "account_step s s'" "accounts_below s"
  shows "people_change s s' \<or> unrelated s s'"
  using assms(1)
proof cases
  case (registering w cfg p r)
  then have "s' = s \<or> (\<exists>r. register w cfg p s = (r, s'))"
    by (cases r) (auto simp: register_route_def run_simps)
  with people_register [OF assms(2)] show ?thesis by (auto intro: people_change.same)
next
  case (confirming i)
  then have "people_same s s'" by (simp add: people_same_def confirm_email_def)
  then show ?thesis by (blast intro: people_change.same)
qed (blast intro: people_change.same people_decisions people_quiet people_resend)+

subsection \<open>The report stays empty\<close>

text \<open>
  One request on accounts, which leaves profiles and roles alone unless it is one of those modelled, or
  one run of the script; with \<open>forced\<close> also with \<^verbatim>\<open>--force\<close>.
\<close>

inductive membership_step :: "bool \<Rightarrow> db \<Rightarrow> db \<Rightarrow> bool" for forced where
  request: "account_step s s' \<Longrightarrow> unrelated s s' \<longrightarrow> people_same s s' \<Longrightarrow> membership_step forced s s'"
| granting: "assign_super_admin w email force s = (r, s') \<Longrightarrow> force \<longrightarrow> forced \<Longrightarrow> membership_step forced s s'"

definition owned :: "db \<Rightarrow> uuid list" where
  "owned s = List.map_filter pro_tenant (filter (\<lambda>a. pro_role a = TENANT_OWNER) (profile_roles s))"

definition membership_ok :: "bool \<Rightarrow> db \<Rightarrow> bool" where
  "membership_ok forced s \<longleftrightarrow> SUPER_ADMIN \<in> set (seeded_roles s) \<and> TENANT_OWNER \<in> set (seeded_roles s) \<and>
     distinct (map pr_id (profiles s)) \<and> (\<forall>p \<in> set (profiles s). pr_id p < next_id s) \<and>
     (\<forall>x \<in> set (tenants s). tn_id x < next_id s) \<and>
     (\<forall>a \<in> set (profile_roles s). pro_profile a < next_id s \<and> (\<forall>t. pro_tenant a = Some t \<longrightarrow> t < next_id s) \<and>
        pro_role a \<in> set (seeded_roles s) \<and> (pro_role a = TENANT_OWNER \<longrightarrow> pro_tenant a \<noteq> None) \<and>
        (\<forall>p \<in> set (profiles s). pro_profile a = pr_id p \<longrightarrow> pro_tenant a = None \<or> pro_tenant a = pr_tenant p)) \<and>
     distinct (owned s) \<and> (\<not> forced \<longrightarrow> tn_id ` set (tenants s) \<subseteq> set (owned s))"

lemma set_owned: "t \<in> set (owned s) \<longleftrightarrow>
    (\<exists>a \<in> set (profile_roles s). pro_role a = TENANT_OWNER \<and> pro_tenant a = Some t)"
  by (force simp: owned_def map_filter_def)

lemma ok_same:
  assumes "people_same s s'" "membership_ok forced s"
  shows "membership_ok forced s'"
proof -
  have same: "profiles s' = profiles s" "profile_roles s' = profile_roles s" "seeded_roles s' = seeded_roles s"
    "next_id s \<le> next_id s'" "tn_id ` set (tenants s') = tn_id ` set (tenants s)"
    using assms(1) by (auto simp: people_same_def simp flip: set_map)
  have "\<forall>x \<in> set (tenants s'). tn_id x < next_id s'"
  proof
    fix x assume "x \<in> set (tenants s')"
    then have "tn_id x \<in> tn_id ` set (tenants s)" using same(5) by blast
    with assms(2) same(4) show "tn_id x < next_id s'" by (auto simp: membership_ok_def)
  qed
  moreover have "owned s' = owned s" by (simp add: owned_def same)
  ultimately show ?thesis
    using assms(2) same unfolding membership_ok_def by (simp, fastforce)
qed

lemma ok_joins:
  assumes "membership_ok forced s" "profiles s' = profiles s @ [p]" "pr_id p = next_id s" "pr_tenant p = None"
    "profile_roles s' = profile_roles s" "seeded_roles s' = seeded_roles s" "tenants s' = tenants s" "next_id s < next_id s'"
  shows "membership_ok forced s'"
proof -
  have "owned s' = owned s" by (simp add: owned_def assms)
  then show ?thesis using assms by (fastforce simp: membership_ok_def)
qed

lemma ok_opens:
  assumes ok: "membership_ok forced s"
    and new: "profiles s' = profiles s @ [p]" "pr_id p = next_id s" "pr_tenant p = Some (Suc (next_id s))"
    "profile_roles s' = profile_roles s @ [\<lparr>pro_profile = next_id s, pro_role = TENANT_OWNER, pro_tenant = pr_tenant p\<rparr>]"
    "seeded_roles s' = seeded_roles s"
    "map tn_id (tenants s') = map tn_id (tenants s) @ [Suc (next_id s)]" "Suc (next_id s) < next_id s'"
  shows "membership_ok forced s'"
proof -
  have owned: "owned s' = owned s @ [Suc (next_id s)]" by (simp add: owned_def new map_filter_def)
  have ids: "tn_id ` set (tenants s') = insert (Suc (next_id s)) (tn_id ` set (tenants s))"
    using arg_cong [OF new(6), of set] by simp
  have below: "\<forall>x \<in> set (tenants s'). tn_id x < next_id s'"
  proof
    fix x assume "x \<in> set (tenants s')"
    then have "tn_id x \<in> insert (Suc (next_id s)) (tn_id ` set (tenants s))" using ids by blast
    with ok new(7) show "tn_id x < next_id s'" by (fastforce simp: membership_ok_def)
  qed
  have "Suc (next_id s) \<notin> set (owned s)" using ok by (fastforce simp: set_owned membership_ok_def)
  then have "distinct (owned s')" using ok by (simp add: owned membership_ok_def)
  moreover have "\<not> forced \<longrightarrow> tn_id ` set (tenants s') \<subseteq> set (owned s')"
    using ok by (auto simp: owned ids membership_ok_def)
  moreover have "\<forall>p \<in> set (profiles s'). pr_id p < next_id s'" "distinct (map pr_id (profiles s'))"
    using ok new by (fastforce simp: membership_ok_def)+
  ultimately show ?thesis
    using ok new below by (fastforce simp: membership_ok_def)
qed

lemma one_or_none_run:
  "one_or_none rows s = (Inr x, s') \<longleftrightarrow> s' = s \<and> (x = None \<and> rows = [] \<or> (\<exists>r. x = Some r \<and> rows = [r]))"
  "one_or_none rows s = (Inl e, s') \<Longrightarrow> s' = s"
  by (auto simp: one_or_none_def split: list.splits)

definition association :: "profile \<Rightarrow> db \<Rightarrow> bool" where
  "association p s \<longleftrightarrow> has_conflict p (scoped_roles (pr_id p) s)"

text \<open>What the script writes: the entries, and the state it commits.\<close>

definition assign_entries :: "io \<Rightarrow> string \<Rightarrow> profile \<Rightarrow> db \<Rightarrow> audit_log list" where
  "assign_entries w email p s =
     (let e = (\<lambda>action md. \<lparr>au_tenant = None, au_actor = None, au_action = action, au_target_type = Some ''profile'',
        au_target = Some (pr_id p), au_metadata = md, au_created_at = now w\<rparr>) in
     (if association p s
      then [e ''SUPER_ADMIN_TENANT_ROLE_CLEANUP'' ([(''email'', MStr email)] @
          map (\<lambda>a. (''removed_roles'', MStr (role_value (pro_role a)))) (scoped_roles (pr_id p) s) @
          [(''previous_tenant_id'', case pr_tenant p of None \<Rightarrow> MNull | Some t \<Rightarrow> MId t)])] else []) @
     (if granted_roles (pr_id p) s = [] then [e ''SUPER_ADMIN_GRANTED'' [(''email'', MStr email)]] else []))"

definition assigned :: "io \<Rightarrow> string \<Rightarrow> profile \<Rightarrow> db \<Rightarrow> db" where
  "assigned w email p s =
     s\<lparr>profiles := (if association p s then row_put pr_id (p\<lparr>pr_tenant := None\<rparr>) (profiles s) else profiles s),
       profile_roles := filter (\<lambda>a. a \<notin> set (scoped_roles (pr_id p) s)) (profile_roles s) @
         (if granted_roles (pr_id p) s = [] then [\<lparr>pro_profile = pr_id p, pro_role = SUPER_ADMIN, pro_tenant = None\<rparr>] else []),
       audit_logs := audit_logs s @ assign_entries w email p s\<rparr>"

lemma assign_runs:
  assumes "filter (\<lambda>p. pr_email p = Some email) (profiles s) = [p]" "SUPER_ADMIN \<in> set (seeded_roles s)"
    and "length (granted_roles (pr_id p) s) \<le> 1"
  shows "assign w email force s =
    (if association p s \<and> \<not> force
     then (Inr (Refused_Conflict (TenantAssociationConflict (pr_tenant p) (map pro_role (scoped_roles (pr_id p) s)))), s)
     else (Inr (Assigned (if association p s then map pro_role (scoped_roles (pr_id p) s) else [])
         (granted_roles (pr_id p) s = [])), assigned w email p s))"
proof -
  obtain already where already: "one_or_none (granted_roles (pr_id p) s) s = (Inr already, s)"
    "already = None \<longleftrightarrow> granted_roles (pr_id p) s = []"
    using assms(3) by (cases "granted_roles (pr_id p) s") (auto simp: one_or_none_def ret_def)
  have found: "one_or_none [p] s = (Inr (Some p), s)" by (simp add: one_or_none_def ret_def)
  have none: "\<not> association p s \<Longrightarrow> scoped_roles (pr_id p) s = []" by (simp add: association_def has_conflict_def)
  show ?thesis
    using assms(1,2) already none unfolding association_def assigned_def assign_entries_def
    by (cases "has_conflict p (scoped_roles (pr_id p) s)"; cases "granted_roles (pr_id p) s = []"; cases force)
      (simp_all add: assign_def bnd_def thn_def gets_def modify_def ret_def found whenever_def
        remove_association_def audit_profile_def write_audit_log_def Let_def)
qed

lemma assign_idle:
  assumes "\<not> (\<exists>p. filter (\<lambda>p. pr_email p = Some email) (profiles s) = [p] \<and> SUPER_ADMIN \<in> set (seeded_roles s) \<and>
    length (granted_roles (pr_id p) s) \<le> 1)"
  shows "snd (assign w email force s) = s \<and> (\<forall>removed granted. fst (assign w email force s) \<noteq> Inr (Assigned removed granted))"
proof (cases "filter (\<lambda>p. pr_email p = Some email) (profiles s)")
  case Nil
  then show ?thesis by (simp add: assign_def comp_defs one_or_none_def)
next
  case (Cons p ps)
  with assms have no: "ps \<noteq> [] \<or> SUPER_ADMIN \<notin> set (seeded_roles s) \<or> \<not> length (granted_roles (pr_id p) s) \<le> 1" by auto
  consider "ps \<noteq> []" | "ps = []" "SUPER_ADMIN \<notin> set (seeded_roles s)"
    | "ps = []" "SUPER_ADMIN \<in> set (seeded_roles s)" "\<not> length (granted_roles (pr_id p) s) \<le> 1" using no by blast
  then show ?thesis
  proof cases
    case 1
    then obtain e where "one_or_none (p # ps) s = (Inl e, s)"
      by (cases ps) (auto simp: one_or_none_def raise_def)
    with Cons show ?thesis by (simp add: assign_def comp_defs)
  next
    case 2
    with Cons show ?thesis by (simp add: assign_def comp_defs one_or_none_def)
  next
    case 3
    then obtain g h gs where "granted_roles (pr_id p) s = g # h # gs"
      by (cases "granted_roles (pr_id p) s"; cases "tl (granted_roles (pr_id p) s)") auto
    then obtain e where "one_or_none (granted_roles (pr_id p) s) s = (Inl e, s)"
      by (simp add: one_or_none_def raise_def)
    moreover have "one_or_none [p] s = (Inr (Some p), s)" by (simp add: one_or_none_def ret_def)
    ultimately show ?thesis using 3 Cons by (simp add: assign_def comp_defs)
  qed
qed

lemma distinct_map_filter_filter:
  "distinct (List.map_filter f xs) \<Longrightarrow> distinct (List.map_filter f (filter P xs))"
proof (induction xs)
  case (Cons x xs)
  have "set (List.map_filter f (filter P xs)) \<subseteq> set (List.map_filter f xs)"
    by (auto simp: map_filter_def)
  with Cons show ?case by (auto simp: map_filter_simps split: option.splits)
qed (simp add: map_filter_simps)

lemma sole_profile: "filter (\<lambda>p. pr_email p = Some email) rows = [p] \<Longrightarrow> p \<in> set rows \<and> pr_email p = Some email"
  by (drule arg_cong [where f = set]) auto

lemma assigned_roles:
  assumes "membership_ok forced s" "a \<in> set (profile_roles (assigned w email p s))"
  shows "a = \<lparr>pro_profile = pr_id p, pro_role = SUPER_ADMIN, pro_tenant = None\<rparr> \<or>
    a \<in> set (profile_roles s) \<and> (pro_profile a = pr_id p \<longrightarrow> pro_tenant a = None)"
  using assms by (auto simp: assigned_def scoped_roles_def membership_ok_def split: if_splits)

lemma ok_assigned:
  assumes ok: "membership_ok forced s" and p: "p \<in> set (profiles s)" and forced: "association p s \<longrightarrow> forced"
  shows "membership_ok forced (assigned w email p s)"
proof -
  let ?s = "assigned w email p s"
  have ids: "map pr_id (profiles ?s) = map pr_id (profiles s)" by (simp add: assigned_def)
  have same: "seeded_roles ?s = seeded_roles s" "next_id ?s = next_id s" "tenants ?s = tenants s"
    by (simp_all add: assigned_def)
  have profiles: "q \<in> set (profiles s) \<or> pr_id q = pr_id p \<and> pr_tenant q = None" if "q \<in> set (profiles ?s)" for q
    using that by (auto simp: assigned_def split: if_splits dest!: row_put_set)
  have below: "\<forall>q \<in> set (profiles ?s). pr_id q < next_id ?s"
    using ok p same(2) by (auto simp: membership_ok_def dest!: profiles)
  have roles: "pro_profile a < next_id s \<and> (\<forall>t. pro_tenant a = Some t \<longrightarrow> t < next_id s) \<and>
      pro_role a \<in> set (seeded_roles s) \<and> (pro_role a = TENANT_OWNER \<longrightarrow> pro_tenant a \<noteq> None) \<and>
      (\<forall>q \<in> set (profiles ?s). pro_profile a = pr_id q \<longrightarrow> pro_tenant a = None \<or> pro_tenant a = pr_tenant q)"
    if "a \<in> set (profile_roles ?s)" for a
    using assigned_roles [OF ok that]
  proof
    assume "a = \<lparr>pro_profile = pr_id p, pro_role = SUPER_ADMIN, pro_tenant = None\<rparr>"
    with ok p show ?thesis by (auto simp: membership_ok_def)
  next
    assume "a \<in> set (profile_roles s) \<and> (pro_profile a = pr_id p \<longrightarrow> pro_tenant a = None)"
    with ok show ?thesis by (auto simp: membership_ok_def dest!: profiles)
  qed
  have "filter (\<lambda>a. pro_role a = TENANT_OWNER) (profile_roles ?s) =
      filter (\<lambda>a. a \<notin> set (scoped_roles (pr_id p) s)) (filter (\<lambda>a. pro_role a = TENANT_OWNER) (profile_roles s))"
    by (auto simp: assigned_def intro!: filter_cong)
  then have owned: "owned ?s = List.map_filter pro_tenant
      (filter (\<lambda>a. a \<notin> set (scoped_roles (pr_id p) s)) (filter (\<lambda>a. pro_role a = TENANT_OWNER) (profile_roles s)))"
    unfolding owned_def by (rule arg_cong)
  have distinct: "distinct (owned ?s)"
    unfolding owned by (rule distinct_map_filter_filter) (use ok in \<open>simp add: membership_ok_def owned_def\<close>)
  have covered: "\<not> forced \<longrightarrow> tn_id ` set (tenants s) \<subseteq> set (owned ?s)"
  proof
    assume "\<not> forced"
    then have "scoped_roles (pr_id p) s = []" using forced by (simp add: association_def has_conflict_def)
    then have "owned ?s = owned s" unfolding owned by (simp add: owned_def)
    with ok \<open>\<not> forced\<close> show "tn_id ` set (tenants s) \<subseteq> set (owned ?s)" by (simp add: membership_ok_def)
  qed
  have "SUPER_ADMIN \<in> set (seeded_roles s)" "TENANT_OWNER \<in> set (seeded_roles s)" "distinct (map pr_id (profiles s))"
    "\<forall>x \<in> set (tenants s). tn_id x < next_id s"
    using ok by (simp_all add: membership_ok_def)
  with below roles distinct covered show ?thesis
    unfolding membership_ok_def same ids by (intro conjI) (assumption | (rule ballI, erule roles))+
qed

lemma membership_step_ok:
  assumes "membership_step forced s s'" "membership_ok forced s" "standing_told s"
  shows "membership_ok forced s' \<and> standing_told s'"
  using assms(1)
proof cases
  case request
  have "accounts_below s" using assms(3) by (simp add: standing_told_def)
  from people_account [OF request(1) this] request(2) have "people_change s s'" by (auto intro: people_change.same)
  then have "membership_ok forced s'"
    using assms(2) by cases (auto intro: ok_same ok_joins ok_opens)
  with told_step [OF request(1) assms(3)] show ?thesis by blast
next
  case (granting w email force r)
  show ?thesis
  proof (cases "\<exists>p. filter (\<lambda>p. pr_email p = Some email) (profiles s) = [p] \<and> SUPER_ADMIN \<in> set (seeded_roles s) \<and>
      length (granted_roles (pr_id p) s) \<le> 1")
    case True
    then obtain p where p: "filter (\<lambda>p. pr_email p = Some email) (profiles s) = [p]"
      "SUPER_ADMIN \<in> set (seeded_roles s)" "length (granted_roles (pr_id p) s) \<le> 1" by blast
    from assign_runs [OF this, of w force] granting(1)
    consider "s' = s" | "s' = assigned w email p s" "association p s \<longrightarrow> force"
      by (auto simp: assign_super_admin_def commit_def split: if_splits)
    then show ?thesis
    proof cases
      case 2
      have pm: "p \<in> set (profiles s)" using sole_profile [OF p(1)] by simp
      have "membership_ok forced s'"
        unfolding 2(1) by (rule ok_assigned [OF assms(2) pm]) (use 2(2) granting(2) in blast)
      moreover have "standing_told s'"
      proof (rule quiet_told [OF assms(3), where as = "assign_entries w email p s"])
        have "next_id s' = next_id s" by (simp add: 2(1) assigned_def)
        moreover have "\<forall>q \<in> set (profiles s'). pr_id q < next_id s'" "\<forall>a \<in> set (profile_roles s'). pro_profile a < next_id s'"
          using \<open>membership_ok forced s'\<close> by (auto simp: membership_ok_def)
        ultimately show "accounts_below s'"
          using assms(3) by (simp add: standing_told_def accounts_below_def 2(1) assigned_def)
      qed (auto simp: 2(1) assigned_def assign_entries_def ACCOUNT_ACTIONS_def Let_def)
      ultimately show ?thesis by blast
    qed (use assms in simp)
  next
    case False
    from assign_idle [OF this, of w force] granting(1) have "s' = s"
      by (auto simp: assign_super_admin_def commit_def split: prod.splits sum.splits)
    with assms show ?thesis by simp
  qed
qed

lemma membership_reachable:
  "(membership_step forced)\<^sup>*\<^sup>* s0 s \<Longrightarrow> membership_ok forced s0 \<Longrightarrow> standing_told s0 \<Longrightarrow>
     membership_ok forced s \<and> standing_told s"
  by (induction rule: rtranclp_induct) (auto dest: membership_step_ok)




definition empty_platform :: "db \<Rightarrow> bool" where
  "empty_platform s \<longleftrightarrow> tenants s = [] \<and> verification_rows s = [] \<and> flags_rows s = [] \<and> profile_roles s = [] \<and>
     distinct (map pr_id (profiles s)) \<and> accounts_below s \<and>
     SUPER_ADMIN \<in> set (seeded_roles s) \<and> TENANT_OWNER \<in> set (seeded_roles s)"

lemma empty_platform_ok: "empty_platform s \<Longrightarrow> membership_ok forced s" "empty_platform s \<Longrightarrow> standing_told s"
  by (simp_all add: empty_platform_def membership_ok_def standing_told_def told_def owned_def map_filter_def
      accounts_below_def)


lemma converted_profile:
  assumes "distinct (map pr_id rows)" "filter (\<lambda>p. pr_email p = Some email) rows = [p]" "pr_id p' = pr_id p" "pr_email p' = Some email"
  shows "filter (\<lambda>p. pr_email p = Some email) (row_put pr_id p' rows) = [p']"
    and "filter (\<lambda>q. pr_id q \<noteq> pr_id p) (row_put pr_id p' rows) = filter (\<lambda>q. pr_id q \<noteq> pr_id p) rows"
proof -
  let ?f = "\<lambda>q. if pr_id q = pr_id p' then p' else q"
  have p: "p \<in> set rows" "pr_email p = Some email" using sole_profile [OF assms(2)] by auto
  have same: "q = p" if "q \<in> set rows" "pr_id q = pr_id p" for q
    using inj_onD [of pr_id "set rows" q p] assms(1) that p(1) by (simp add: distinct_map)
  have "filter (\<lambda>q. pr_email q = Some email) (map ?f rows) = map ?f (filter (\<lambda>q. pr_email (?f q) = Some email) rows)"
    by (simp add: filter_map comp_def)
  also have "filter (\<lambda>q. pr_email (?f q) = Some email) rows = filter (\<lambda>q. pr_email q = Some email) rows"
    using same p(2) assms(3,4) by (auto intro!: filter_cong)
  finally show "filter (\<lambda>p. pr_email p = Some email) (row_put pr_id p' rows) = [p']"
    by (simp add: row_put_def assms(2,3))
  show "filter (\<lambda>q. pr_id q \<noteq> pr_id p) (row_put pr_id p' rows) = filter (\<lambda>q. pr_id q \<noteq> pr_id p) rows"
    unfolding row_put_def by (induction rows) (simp_all add: assms(3))
qed

lemma converted:
  fixes w :: io
  assumes ok: "membership_ok forced s"
    and p: "filter (\<lambda>p. pr_email p = Some email) (profiles s) = [p]" "SUPER_ADMIN \<in> set (seeded_roles s)"
    and once: "length (granted_roles (pr_id p) s) \<le> 1"
  defines "i \<equiv> pr_id p" and "s' \<equiv> assigned w email p s"
  shows "Some email \<in> pr_email ` {q \<in> set (profiles s'). pr_id q = i}" "SUPER_ADMIN \<in> roles_of i s'"
    and "\<not> staff_of allowed t i s'"
    and "filter (\<lambda>q. pr_id q \<noteq> i) (profiles s') = filter (\<lambda>q. pr_id q \<noteq> i) (profiles s)"
    and "filter (\<lambda>a. pro_profile a \<noteq> i) (profile_roles s') = filter (\<lambda>a. pro_profile a \<noteq> i) (profile_roles s)"
    and "assign w' email force' s' = (Inr (Assigned [] False), s')"
proof -
  let ?p = "p\<lparr>pr_tenant := None\<rparr>"
  have d: "distinct (map pr_id (profiles s))" using ok by (simp add: membership_ok_def)
  have pm: "p \<in> set (profiles s)" "pr_email p = Some email" using sole_profile [OF p(1)] by auto
  have sole: "filter (\<lambda>p. pr_email p = Some email) (profiles s') = [?p]"
  proof (cases "association p s")
    case True
    then show ?thesis using converted_profile(1) [OF d p(1), of ?p] pm by (simp add: s'_def assigned_def)
  next
    case False
    then have "?p = p" by (simp add: association_def has_conflict_def)
    with False p(1) show ?thesis by (simp add: s'_def assigned_def)
  qed
  have new: "?p \<in> set (profiles s')" using sole_profile [OF sole] by simp
  then show "Some email \<in> pr_email ` {q \<in> set (profiles s'). pr_id q = i}" using pm(2) by (force simp: i_def)
  have d': "distinct (map pr_id (profiles s'))" using d by (simp add: s'_def assigned_def)
  have kept: "filter (\<lambda>a. pro_profile a = i \<and> pro_role a = SUPER_ADMIN \<and> pro_tenant a = None)
      (filter (\<lambda>a. a \<notin> set (scoped_roles i s)) (profile_roles s)) = granted_roles i s"
    by (auto simp: granted_roles_def scoped_roles_def intro!: filter_cong)
  have roles': "profile_roles s' = filter (\<lambda>a. a \<notin> set (scoped_roles i s)) (profile_roles s) @
      (if granted_roles i s = [] then [\<lparr>pro_profile = i, pro_role = SUPER_ADMIN, pro_tenant = None\<rparr>] else [])"
    by (simp add: s'_def assigned_def i_def)
  have gr: "granted_roles i s' = granted_roles i s @
      (if granted_roles i s = [] then [\<lparr>pro_profile = i, pro_role = SUPER_ADMIN, pro_tenant = None\<rparr>] else [])"
    unfolding granted_roles_def [of i s'] roles' filter_append kept by simp
  with once have "length (granted_roles i s') = 1" by (cases "granted_roles i s") (auto simp: i_def)
  then obtain g where g: "granted_roles i s' = [g]" by (auto simp: length_Suc_conv)
  then have "g \<in> set (profile_roles s')" "pro_profile g = i" "pro_role g = SUPER_ADMIN"
    by (auto simp: granted_roles_def dest!: arg_cong [where f = set])
  moreover have seeded: "seeded_roles s' = seeded_roles s" by (simp add: s'_def assigned_def)
  ultimately show "SUPER_ADMIN \<in> roles_of i s'" using p(2) by (force simp: roles_of_def)
  have only: "q = ?p" if "q \<in> set (profiles s')" "pr_id q = i" for q
    using inj_onD [of pr_id "set (profiles s')" q ?p] d' that new by (simp add: distinct_map i_def)
  have "pr_tenant q = None" if "row_find pr_id i (profiles s') = Some q" for q
    using only [of q] row_find_Some [OF that] by simp
  then show "\<not> staff_of allowed t i s'" by (fastforce simp: staff_of_def)
  show "filter (\<lambda>q. pr_id q \<noteq> i) (profiles s') = filter (\<lambda>q. pr_id q \<noteq> i) (profiles s)"
    using converted_profile(2) [OF d p(1), of ?p] pm by (simp add: s'_def assigned_def i_def)
  show "filter (\<lambda>a. pro_profile a \<noteq> i) (profile_roles s') = filter (\<lambda>a. pro_profile a \<noteq> i) (profile_roles s)"
    by (auto simp: s'_def assigned_def i_def scoped_roles_def intro!: filter_cong)
  have none: "scoped_roles i s' = []"
    using assigned_roles [OF ok] by (fastforce simp: scoped_roles_def filter_empty_conv s'_def i_def)
  then have calm: "\<not> association ?p s'" by (simp add: association_def has_conflict_def i_def)
  have "assign w' email force' s' = (Inr (Assigned [] False), assigned w' email ?p s')"
    using assign_runs [OF sole, of w' force'] p(2) seeded g calm by (simp add: i_def)
  also have "assigned w' email ?p s' = s'"
    using calm none g by (simp add: assigned_def assign_entries_def i_def)
  finally show "assign w' email force' s' = (Inr (Assigned [] False), s')" .
qed

text \<open>After the script returns, the account of that address belongs to no tenant, no tenant's route serves it and
  it holds the platform role; nobody else's profile or roles changed; and a second run, forced or not, reports
  nothing to do and changes nothing.\<close>

theorem conversion_complete_and_idempotent:
  assumes "assign_super_admin w email force s = (Inr (Assigned removed granted), s')"
    and "(membership_step forced)\<^sup>*\<^sup>* s0 s" "empty_platform s0"
  shows "\<exists>i. Some email \<in> pr_email ` {p \<in> set (profiles s'). pr_id p = i} \<and> SUPER_ADMIN \<in> roles_of i s' \<and>
    (\<forall>allowed t. \<not> staff_of allowed t i s') \<and>
    filter (\<lambda>p. pr_id p \<noteq> i) (profiles s') = filter (\<lambda>p. pr_id p \<noteq> i) (profiles s) \<and>
    filter (\<lambda>a. pro_profile a \<noteq> i) (profile_roles s') = filter (\<lambda>a. pro_profile a \<noteq> i) (profile_roles s) \<and>
    (\<forall>w' force'. assign_super_admin w' email force' s' = (Inr (Assigned [] False), s'))"
proof -
  have ok: "membership_ok forced s" using membership_reachable [OF assms(2) empty_platform_ok [OF assms(3)]] by blast
  obtain p where p: "filter (\<lambda>p. pr_email p = Some email) (profiles s) = [p]"
    "SUPER_ADMIN \<in> set (seeded_roles s)" "length (granted_roles (pr_id p) s) \<le> 1"
  proof -
    have run: "assign w email force s = (Inr (Assigned removed granted), s')"
      using assms(1) by (simp add: assign_super_admin_def commit_Inr)
    show thesis
    proof (rule ccontr)
      assume "\<not> thesis"
      with that have no: "\<not> (\<exists>p. filter (\<lambda>p. pr_email p = Some email) (profiles s) = [p] \<and>
        SUPER_ADMIN \<in> set (seeded_roles s) \<and> length (granted_roles (pr_id p) s) \<le> 1)" by blast
      from assign_idle [OF no, of w force] have "fst (assign w email force s) \<noteq> Inr (Assigned removed granted)" by blast
      with run show False by simp
    qed
  qed
  from assign_runs [OF p, of w force] assms(1) have s': "s' = assigned w email p s"
    by (simp add: assign_super_admin_def commit_Inr split: if_splits)
  have "assign_super_admin w' email force' s' = (Inr (Assigned [] False), s')" for w' force'
    using converted(6) [where w = w and w' = w' and force' = force', OF ok p] by (simp add: s' assign_super_admin_def commit_Inr)
  with converted(1-5) [where w = w, OF ok p, folded s'] show ?thesis by (intro exI [of _ "pr_id p"] conjI allI)
qed

text \<open>The sample tenant's owner is made platform administrator by force: the tenant, active by then, has no owner left.\<close>

definition conversion_run :: "bool \<Rightarrow> ((err + assignment) \<times> db) option" where
  "conversion_run force =
     (case register_route sample_io payout_cfg sample_registration (empty_db\<lparr>next_id := 1\<rparr>) of
        (Inl _, _) \<Rightarrow> None
      | (Inr _, s1) \<Rightarrow> (case approve sample_io 2 9 s1 of
            (Inl _, _) \<Rightarrow> None
          | (Inr _, s2) \<Rightarrow> Some (assign_super_admin sample_io (work_email sample_registration) force s2)))"

lemma conversion_run_ok:
  "case conversion_run True of Some (Inr r, s) \<Rightarrow> r = Assigned [TENANT_OWNER] True \<and>
     find_active_tenants_without_owner s = [2] \<and> map pr_tenant (profiles s) = [None] | _ \<Rightarrow> False"
  "case conversion_run False of Some (Inr r, s) \<Rightarrow>
     r = Refused_Conflict (TenantAssociationConflict (Some 2) [TENANT_OWNER]) \<and> length (tenants s) = 1 | _ \<Rightarrow> False"
  by code_simp+

lemma first_steps_ok:
  "case register_route sample_io payout_cfg sample_registration (empty_db\<lparr>next_id := 1\<rparr>) of (r1, s1) \<Rightarrow>
     \<not> isl r1 \<and> map tn_id (tenants s1) = [2] \<and> \<not> isl (fst (approve sample_io 2 9 s1))"
  by code_simp

lemma conversion_run_steps:
  "\<exists>s s' r. conversion_run force = Some (r, s') \<and> (membership_step force)\<^sup>*\<^sup>* (empty_db\<lparr>next_id := 1\<rparr>) s \<and>
    assign_super_admin sample_io (work_email sample_registration) force s = (r, s')"
proof -
  obtain r1 s1 where 1: "register_route sample_io payout_cfg sample_registration (empty_db\<lparr>next_id := 1\<rparr>) = (r1, s1)"
    by fastforce
  obtain r2 s2 where 2: "approve sample_io 2 9 s1 = (r2, s2)" by fastforce
  obtain r3 s3 where 3: "assign_super_admin sample_io (work_email sample_registration) force s2 = (r3, s3)" by fastforce
  have run: "conversion_run force = (case r1 of Inl _ \<Rightarrow> None | Inr _ \<Rightarrow> (case r2 of Inl _ \<Rightarrow> None | Inr _ \<Rightarrow> Some (r3, s3)))"
    by (simp only: conversion_run_def 1 2 3 prod.case split: sum.split)
  have ok: "map tn_id (tenants s1) = [2]" "\<not> isl r1" "\<not> isl r2"
    using first_steps_ok [unfolded 1 prod.case 2 fst_conv] by simp_all
  from ok(1) have "\<not> unrelated (empty_db\<lparr>next_id := 1\<rparr>) s1" by (auto simp: unrelated_def empty_db_def)
  then have "membership_step force (empty_db\<lparr>next_id := 1\<rparr>) s1" using registering [OF 1] by (blast intro: request)
  moreover have "membership_step force s1 s2" using approving [OF 2] people_decisions(1) [OF 2] by (blast intro: request)
  ultimately have "(membership_step force)\<^sup>*\<^sup>* (empty_db\<lparr>next_id := 1\<rparr>) s2" by (meson rtranclp.intros)
  moreover have "conversion_run force = Some (r3, s3)"
    using ok(2,3) run by (cases r1; cases r2) auto
  ultimately show ?thesis using 3 by blast
qed

lemma start_empty: "empty_platform (empty_db\<lparr>next_id := 1\<rparr>)"
  using sample_below(1) by (simp add: empty_platform_def) (simp add: empty_db_def)


theorem conversion_complete_and_idempotent_witness:
  "\<exists>s s'. assign_super_admin sample_io (work_email sample_registration) True s = (Inr (Assigned [TENANT_OWNER] True), s') \<and>
     assign_super_admin sample_io (work_email sample_registration) True s' = (Inr (Assigned [] False), s')"
proof -
  obtain s s' r where run: "conversion_run True = Some (r, s')" "(membership_step True)\<^sup>*\<^sup>* (empty_db\<lparr>next_id := 1\<rparr>) s"
    "assign_super_admin sample_io (work_email sample_registration) True s = (r, s')"
    using conversion_run_steps by blast
  have "r = Inr (Assigned [TENANT_OWNER] True)" using conversion_run_ok(1) run(1) by (cases r) auto
  with run(3) have "assign_super_admin sample_io (work_email sample_registration) True s = (Inr (Assigned [TENANT_OWNER] True), s')"
    by simp
  with conversion_complete_and_idempotent [OF this run(2) start_empty] show ?thesis by blast
qed

end
