(* ===== verification/Payout_Callbacks.thy ===== *)
theory Payout_Callbacks
  imports Dashboards Operator_Tools
begin

text \<open>
  The two public routes for payout callbacks (\<^verbatim>\<open>api/v1/webhooks.py\<close>), which anyone can call: that of the payout
  provider in use, whose message is only a reason to ask the provider, and that of the earlier integration
  (\<^verbatim>\<open>integrations/selcom/\<close>), which cannot verify anything yet. What the platform's dashboard makes of them.
\<close>

subsection \<open>The routes\<close>

text \<open>The body of a callback: \<open>None\<close> when it is JSON but not an object, else the value of its
  \<^verbatim>\<open>reference_id\<close> if that is a string.\<close>

type_synonym callback_body = "string option option"

datatype callback_answer = CB_Malformed | CB_Unknown_Reference | CB_Acknowledged

definition create_webhook :: "string \<Rightarrow> payment_webhook op" where
  "create_webhook provider =
     bnd fresh (\<lambda>i.
     let row = \<lparr>wh_id = i, wh_tenant = None, wh_provider = provider, wh_verified = False, wh_processed = False\<rparr> in
     thn (modify (\<lambda>s. s\<lparr>webhook_rows := webhook_rows s @ [row]\<rparr>)) (ret row))"

definition update_webhook :: "payment_webhook \<Rightarrow> unit op" where
  "update_webhook row = modify (\<lambda>s. s\<lparr>webhook_rows := row_put wh_id row (webhook_rows s)\<rparr>)"

definition get_by_idempotency_key :: "string \<Rightarrow> withdrawal option op" where
  "get_by_idempotency_key key = bnd (gets (\<lambda>s. filter (\<lambda>x. idempotency_key x = key) (withdrawals s))) one_or_none"

definition get_by_provider_reference :: "string \<Rightarrow> withdrawal option op" where
  "get_by_provider_reference reference =
     bnd (gets (\<lambda>s. filter (\<lambda>x. wd_provider_reference x = Some reference) (withdrawals s))) one_or_none"

text \<open>\<^verbatim>\<open>contextlib.suppress(NotFoundError)\<close>: what was done before the exception stays.\<close>

definition suppress_not_found :: "'a op \<Rightarrow> unit op" where
  "suppress_not_found m =
     except (bnd m (\<lambda>_. ret ())) (\<lambda>e. case e of NotFoundError _ \<Rightarrow> ret () | _ \<Rightarrow> raise e)"

definition handle_disbursement_callback :: "io \<Rightarrow> settings \<Rightarrow> callback_body \<Rightarrow> callback_answer op" where
  "handle_disbursement_callback w cfg body =
     bnd (create_webhook ''selcom_business_disbursement'') (\<lambda>row.
     case body of
       None \<Rightarrow> raise (UnhandledError ''AttributeError'')
     | Some reference \<Rightarrow>
         if \<not> truthy reference then thn (update_webhook (row\<lparr>wh_processed := True\<rparr>)) (ret CB_Malformed)
         else bnd (get_by_idempotency_key (the reference)) (\<lambda>own.
           bnd (if own = None then get_by_provider_reference (the reference) else ret own) (\<lambda>found.
           case found of
             None \<Rightarrow> thn (update_webhook (row\<lparr>wh_processed := True\<rparr>)) (ret CB_Unknown_Reference)
           | Some x \<Rightarrow>
               let row' = row\<lparr>wh_tenant := Some (wd_tenant x)\<rparr> in
               thn (update_webhook row')
               (thn (suppress_not_found (reconcile_withdrawal w cfg (wd_id x)))
               (thn (update_webhook (row'\<lparr>wh_processed := True\<rparr>)) (ret CB_Acknowledged))))))"

definition selcom_business_disbursement_webhook :: "io \<Rightarrow> settings \<Rightarrow> callback_body \<Rightarrow> callback_answer op" where
  "selcom_business_disbursement_webhook w cfg body = commit (handle_disbursement_callback w cfg body)"

subsection \<open>The earlier integration\<close>

record selcom_config =
  lg_api_base_url :: "string option"
  lg_api_key :: "string option"
  lg_api_secret :: "string option"
  lg_merchant_id :: "string option"

definition legacy_is_configured :: "selcom_config \<Rightarrow> bool" where
  "legacy_is_configured c \<longleftrightarrow> list_all truthy [lg_api_base_url c, lg_api_key c, lg_api_secret c, lg_merchant_id c]"

datatype selcom_error = SelcomNotConfiguredError | SelcomNotImplementedError

text \<open>Neither the signature nor the fields of a callback are documented, so these always raise.\<close>

definition verify_webhook_signature :: "selcom_config \<Rightarrow> (string \<times> string) list \<Rightarrow> string \<Rightarrow> selcom_error + bool" where
  "verify_webhook_signature c headers body =
     (if \<not> legacy_is_configured c then Inl SelcomNotConfiguredError else Inl SelcomNotImplementedError)"

definition extract_provider_reference :: "string \<Rightarrow> selcom_error + string" where
  "extract_provider_reference payload = Inl SelcomNotImplementedError"

definition extract_status :: "string \<Rightarrow> selcom_error + bool" where
  "extract_status payload = Inl SelcomNotImplementedError"

definition unhandled :: "selcom_error + 'a \<Rightarrow> 'a op" where
  "unhandled q = (case q of
     Inr x \<Rightarrow> ret x
   | Inl SelcomNotConfiguredError \<Rightarrow> raise (UnhandledError ''SelcomNotConfiguredError'')
   | Inl SelcomNotImplementedError \<Rightarrow> raise (UnhandledError ''SelcomNotImplementedError''))"

datatype callback_outcome = CO_Unverified | CO_Not_Found | CO_Duplicate | CO_Processed

definition process_callback ::
    "io \<Rightarrow> selcom_config \<Rightarrow> (string \<times> string) list \<Rightarrow> string \<Rightarrow> callback_outcome op" where
  "process_callback w c headers body =
     bnd (create_webhook ''selcom_disbursement'') (\<lambda>row.
     case verify_webhook_signature c headers body of
       Inl _ \<Rightarrow> ret CO_Unverified
     | Inr verified \<Rightarrow>
         if \<not> verified then thn (update_webhook (row\<lparr>wh_processed := True\<rparr>)) (ret CO_Unverified)
         else let row1 = row\<lparr>wh_verified := True\<rparr> in
           thn (update_webhook row1)
           (bnd (unhandled (extract_provider_reference body)) (\<lambda>reference.
            bnd (unhandled (extract_status body)) (\<lambda>succeeded.
            bnd (get_by_provider_reference reference) (\<lambda>found.
            case found of
              None \<Rightarrow> thn (update_webhook (row1\<lparr>wh_processed := True\<rparr>)) (ret CO_Not_Found)
            | Some x \<Rightarrow>
                let row2 = row1\<lparr>wh_tenant := Some (wd_tenant x)\<rparr> in
                thn (update_webhook row2)
                (if wd_status x \<noteq> W_PROCESSING
                 then thn (update_webhook (row2\<lparr>wh_processed := True\<rparr>)) (ret CO_Duplicate)
                 else bnd (apply_disbursement_result w (wd_id x) succeeded reference
                        (if succeeded then None else Some body)) (\<lambda>_.
                   thn (update_webhook (row2\<lparr>wh_processed := True\<rparr>)) (ret CO_Processed))))))))"

definition selcom_disbursement_webhook ::
    "io \<Rightarrow> selcom_config \<Rightarrow> (string \<times> string) list \<Rightarrow> string \<Rightarrow> callback_outcome op" where
  "selcom_disbursement_webhook w c headers body = commit (process_callback w c headers body)"

text \<open>A callback of the earlier integration never moves anything: whatever is sent, configured or not, it is
  recorded as one unverified, unprocessed message, and every other table stays as it was.\<close>

theorem legacy_callback_only_records:
  "selcom_disbursement_webhook w c headers body s =
     (Inr CO_Unverified, s\<lparr>next_id := next_id s + 1, webhook_rows := webhook_rows s @
        [\<lparr>wh_id = next_id s, wh_tenant = None, wh_provider = ''selcom_disbursement'', wh_verified = False,
          wh_processed = False\<rparr>]\<rparr>)"
  by (simp add: selcom_disbursement_webhook_def process_callback_def create_webhook_def fresh_def
      verify_webhook_signature_def commit_def comp_defs Let_def)

subsection \<open>A callback is a reason to ask\<close>












text \<open>The rows of callbacks belong to these routes alone.\<close>

definition same_webhooks :: "db \<Rightarrow> db \<Rightarrow> bool" where
  "same_webhooks s s' \<longleftrightarrow> webhook_rows s' = webhook_rows s"

interpretation same_webhooks: stable_relation same_webhooks
  by unfold_locales (auto simp: same_webhooks_def)

lemma webhooks_frame: "keeps wallet_frame m \<Longrightarrow> keeps same_webhooks m"
  by (rule keepsI) (auto simp: same_webhooks_def wallet_frame_def dest!: keepsD)

lemma webhooks_update: "keeps same_webhooks (update_withdrawal f x)"
  by (rule keepsI) (auto simp: same_webhooks_def update_withdrawal_def run_simps)

lemma webhooks_modify: "(\<And>s. webhook_rows (f s) = webhook_rows s) \<Longrightarrow> keeps same_webhooks (modify f)"
  by (rule same_webhooks.keeps_modify) (simp add: same_webhooks_def)

lemmas webhooks_basic = same_webhooks.keeps_rules webhooks_update webhooks_modify
  webhooks_frame [OF release.run_frame] webhooks_frame [OF disburse.run_frame]

lemma webhooks_transition: "keeps same_webhooks (transition w x b actor reason md)"
  by (auto simp: transition_def create_event_def write_audit_log_def intro!: webhooks_basic)

lemma webhooks_apply: "keeps same_webhooks (apply_provider_result w x rc m a c t r actor)"
  by (auto simp: apply_provider_result_def note_result_def fail_withdrawal_def Let_def
      split: selcom_outcome.split option.split intro!: webhooks_basic webhooks_transition)

lemma webhooks_query: "keeps same_webhooks (transaction_query w c key)"
  by (rule keepsI) (auto simp: transaction_query_def same_webhooks_def dest!: call_state)

lemma webhooks_config: "keeps same_webhooks (business_config_from_settings cfg)"
  by (auto simp: business_config_from_settings_def uncaught_def split: option.split intro!: webhooks_basic)

lemma webhooks_reconcile: "keeps same_webhooks (reconcile_withdrawal w cfg i)"
  by (auto simp: reconcile_withdrawal_def reconcile_locked_def find_withdrawal_def Let_def split: sum.split
      intro!: webhooks_basic webhooks_config webhooks_query webhooks_apply)

subsection \<open>What a callback can do\<close>


lemma create_webhook_run [run_simps]:
  "create_webhook provider s = (r, s') \<longleftrightarrow>
     r = Inr \<lparr>wh_id = next_id s, wh_tenant = None, wh_provider = provider, wh_verified = False, wh_processed = False\<rparr> \<and>
     s' = s\<lparr>next_id := next_id s + 1, webhook_rows := webhook_rows s @
       [\<lparr>wh_id = next_id s, wh_tenant = None, wh_provider = provider, wh_verified = False, wh_processed = False\<rparr>]\<rparr>"
  by (auto simp: create_webhook_def fresh_def comp_defs Let_def)

lemma update_webhook_run [run_simps]:
  "update_webhook row s = (r, s') \<longleftrightarrow>
     r = Inr () \<and> s' = s\<lparr>webhook_rows := row_put wh_id row (webhook_rows s)\<rparr>"
  by (auto simp: update_webhook_def run_simps)

lemma lookups_keep:
  assumes "stable_relation R"
  shows "keeps R (get_by_idempotency_key k)" "keeps R (get_by_provider_reference k)"
proof -
  have "keeps R (one_or_none rows)" for rows :: "withdrawal list"
    using assms by (auto simp: one_or_none_def split: list.split intro: stable_relation.keeps_rules)
  then show "keeps R (get_by_idempotency_key k)" "keeps R (get_by_provider_reference k)"
    by (auto simp: get_by_idempotency_key_def get_by_provider_reference_def
        intro!: stable_relation.keeps_bnd [OF assms] stable_relation.keeps_gets [OF assms])
qed

lemma suppress_keep: "stable_relation R \<Longrightarrow> keeps R m \<Longrightarrow> keeps R (suppress_not_found m)"
  unfolding suppress_not_found_def
  by (intro stable_relation.keeps_except stable_relation.keeps_bnd stable_relation.keeps_ret)
    (auto split: err.split intro: stable_relation.keeps_ret stable_relation.keeps_raise)







lemma webhook_put_last: "\<forall>x \<in> set rows. wh_id x \<noteq> wh_id row \<Longrightarrow> wh_id old = wh_id row \<Longrightarrow>
    row_put wh_id row (rows @ [old]) = rows @ [row]"
  by (auto simp: row_put_def intro!: map_idI)

lemma callback_row:
  assumes "handle_disbursement_callback w cfg body s = (Inr a, s')" "\<forall>x \<in> set (webhook_rows s). wh_id x < next_id s"
  shows "\<exists>tn. webhook_rows s' = webhook_rows s @
    [\<lparr>wh_id = next_id s, wh_tenant = tn, wh_provider = ''selcom_business_disbursement'', wh_verified = False,
      wh_processed = True\<rparr>]"
proof -
  have old: "\<forall>x \<in> set (webhook_rows s). wh_id x \<noteq> next_id s" using assms(2) by auto
  have looks: "get_by_idempotency_key k u = (q, v) \<Longrightarrow> webhook_rows v = webhook_rows u"
    "get_by_provider_reference k u = (q', v) \<Longrightarrow> webhook_rows v = webhook_rows u" for k u q q' v
    using lookups_keep [OF same_webhooks.stable_relation_axioms, of k] by (auto simp: same_webhooks_def dest: keepsD)
  have asks: "suppress_not_found (reconcile_withdrawal w cfg i) u = (q, v) \<Longrightarrow> webhook_rows v = webhook_rows u" for i u q v
    using keepsD [OF suppress_keep [OF same_webhooks.stable_relation_axioms webhooks_reconcile]]
    by (simp add: same_webhooks_def)
  show ?thesis
    using assms(1) old
    by (auto simp: handle_disbursement_callback_def run_simps Let_def bnd_Inr thn_def webhook_put_last
        split: option.splits if_splits dest!: looks asks)
qed

text \<open>The dashboard counts every payout callback that was handled as a failed one, also those that
  were acknowledged and settled their withdrawal: none of them is ever marked as verified.\<close>

theorem handled_callbacks_count_as_failed:
  assumes "selcom_business_disbursement_webhook w cfg body s = (Inr a, s')"
    and "\<forall>x \<in> set (webhook_rows s). wh_id x < next_id s"
  shows "sa_failed_webhooks (platform_summary tz t s') = Suc (sa_failed_webhooks (platform_summary tz t s))"
proof -
  from assms(1) have "handle_disbursement_callback w cfg body s = (Inr a, s')"
    by (simp add: selcom_business_disbursement_webhook_def commit_Inr)
  from callback_row [OF this assms(2)] show ?thesis
    by (auto simp: platform_summary_def count_rows_def)
qed

lemma callback_run:
  "(case selcom_business_disbursement_webhook paid_out_io payout_cfg (Some (Some ''101'')) open_db of
     (r, s) \<Rightarrow> r = Inr CB_Acknowledged \<and> map wd_status (withdrawals s) = [W_SUCCESS] \<and>
       balance B_TOTAL_DISBURSED 7 s = 40)"
  by code_simp


theorem handled_callbacks_count_as_failed_witness:
  "\<exists>s. selcom_business_disbursement_webhook paid_out_io payout_cfg (Some (Some ''101'')) open_db = (Inr CB_Acknowledged, s) \<and>
     map wd_status (withdrawals s) = [W_SUCCESS] \<and> sa_failed_webhooks (platform_summary (minutes 180) 0 s) = 1"
proof -
  obtain r s where run: "selcom_business_disbursement_webhook paid_out_io payout_cfg (Some (Some ''101'')) open_db = (r, s)"
    by (rule prod.exhaust)
  with callback_run have r: "r = Inr CB_Acknowledged" and paid: "map wd_status (withdrawals s) = [W_SUCCESS]"
    by simp_all
  have "webhook_rows open_db = []" by (simp add: open_db_def draft_db_def payout_db_def funded_db_def empty_db_def)
  with handled_callbacks_count_as_failed [OF run [unfolded r], of "minutes 180" 0] run r paid
  show ?thesis by (auto simp: platform_summary_def count_rows_def)
qed

end
