(* ===== verification/Agent_Gate.thy ===== *)
theory Agent_Gate
  imports Ip_Address Request_Signing
begin

text \<open>
  The network agent's front door and its access to the routers: the list of allowed source addresses
  (\<^verbatim>\<open>core/ip_allowlist.py\<close>), the registry of routers (\<^verbatim>\<open>core/router_registry.py\<close>), the RouterOS client
  (\<^verbatim>\<open>services/mikrotik_client.py\<close>) and its routes (\<^verbatim>\<open>routers/mikrotik.py\<close>). What a router answers is a parameter: the
  rows of the printed resource, or the text of a connection, API or socket error. The connections that were opened
  are part of the result of a route.
\<close>

subsection \<open>Allowed source addresses\<close>

record agent_call =
  ac_client :: "string option"
  ac_forwarded_for :: "string option"
  ac_request :: signed_request

definition client_ip :: "agent_call \<Rightarrow> string option" where
  "client_ip q =
     (if ac_client q \<in> {Some ''127.0.0.1'', Some ''::1''} \<and> truthy (ac_forwarded_for q)
      then Some (strip (hd (split_on (CHR '','') (the (ac_forwarded_for q)))))
      else ac_client q)"

definition entry_matches :: "v6_text \<Rightarrow> ip_addr \<Rightarrow> string \<Rightarrow> bool" where
  "entry_matches t a entry =
     (if CHR ''/'' \<in> set entry
      then (case ip_network t entry of None \<Rightarrow> False | Some n \<Rightarrow> in_network a n)
      else ip_address t entry = Some a)"

definition is_allowed :: "v6_text \<Rightarrow> string option \<Rightarrow> string list \<Rightarrow> bool" where
  "is_allowed t client allowed =
     (case client of
        None \<Rightarrow> False
      | Some c \<Rightarrow> (case ip_address t c of None \<Rightarrow> False | Some a \<Rightarrow> list_ex (entry_matches t a) allowed))"

text \<open>\<open>Passed True\<close>: with a warning in the log.\<close>

datatype gate = Passed bool | Source_Not_Allowed

definition ip_allowlist :: "v6_text \<Rightarrow> string \<Rightarrow> string list \<Rightarrow> agent_call \<Rightarrow> gate" where
  "ip_allowlist t environment allowed q =
     (if starts_with ''/health'' (rq_path (ac_request q)) then Passed False
      else if allowed = [] then Passed (environment = ''production'')
      else if is_allowed t (client_ip q) allowed then Passed False
      else Source_Not_Allowed)"

text \<open>The setting is a list separated by commas.\<close>

definition split_csv :: "string \<Rightarrow> string list" where
  "split_csv value = filter (\<lambda>ip. ip \<noteq> []) (map strip (split_on (CHR '','') value))"

subsection \<open>The registry and connections\<close>







subsection \<open>Reading a router's answers\<close>

type_synonym ros_row = "string \<rightharpoonup> string"



definition shown :: "ros_row \<Rightarrow> string \<Rightarrow> string \<Rightarrow> string" where
  "shown row name default_text = (case row name of None \<Rightarrow> default_text | Some v \<Rightarrow> v)"

text \<open>\<^verbatim>\<open>str(None)\<close> is a text too.\<close>

definition as_text :: "string option \<Rightarrow> string" where
  "as_text v = (case v of None \<Rightarrow> ''None'' | Some s \<Rightarrow> s)"


definition as_int :: "string option \<Rightarrow> int" where
  "as_int v = (case int_parse (as_text v) of Some i \<Rightarrow> i | None \<Rightarrow> 0)"



record hotspot_session =
  hs_session :: string
  hs_user :: string
  hs_address :: "string option"
  hs_mac_address :: "string option"
  hs_uptime :: "string option"
  bytes_in :: "int option"
  bytes_out :: "int option"




text \<open>Older versions report one field \<open>in/out\<close>.\<close>

definition session_bytes :: "ros_row \<Rightarrow> string option \<times> string option" where
  "session_bytes row =
     (case (row ''bytes-in'', row ''bytes-out'', row ''bytes'') of
        (None, None, Some both) \<Rightarrow>
          (case split_on (CHR ''/'') both of [i, out] \<Rightarrow> (Some i, Some out) | _ \<Rightarrow> (None, None))
      | (i, out, _) \<Rightarrow> (i, out))"

definition active_session :: "ros_row \<Rightarrow> hotspot_session" where
  "active_session row =
     (let (i, out) = session_bytes row in
      \<lparr>hs_session = shown row ''.id'' [], hs_user = shown row ''user'' [], hs_address = row ''address'',
       hs_mac_address = row ''mac-address'', hs_uptime = row ''uptime'',
       bytes_in = (if i = None then None else Some (as_int i)),
       bytes_out = (if out = None then None else Some (as_int out))\<rparr>)"



subsection \<open>The routes\<close>









subsection \<open>Who reaches which router\<close>


text \<open>A proxy that appends its peer to the header the peer sent.\<close>

definition through_appending :: "string \<Rightarrow> 32 word \<Rightarrow> signed_request \<Rightarrow> agent_call" where
  "through_appending sent peer q =
     \<lparr>ac_client = Some ''127.0.0.1'', ac_forwarded_for = Some (sent @ '', '' @ show_ipv4 peer), ac_request = q\<rparr>"

lemma show_ipv4_chars:
  assumes "x \<in> set (show_ipv4 a)"
  shows "x = CHR ''.'' \<or> is_digit x"
proof -
  have "set (join ''.'' ws) \<subseteq> insert (CHR ''.'') (\<Union> (set ` set ws))" for ws
    by (induction "''.''" ws rule: join.induct) auto
  then have "set (show_ipv4 a) \<subseteq> insert (CHR ''.'') (\<Union> (set ` set (map nat_str (octets a))))"
    unfolding show_ipv4_def .
  with assms nat_str_all_digits show ?thesis by (fastforce simp: list_all_iff)
qed

lemma show_ipv4_plain: "CHR '','' \<notin> set (show_ipv4 a)" "strip (show_ipv4 a) = show_ipv4 a"
proof -
  have "\<not> is_digit (CHR '','')" "\<not> is_space (CHR ''.'')" by code_simp+
  with show_ipv4_chars [of _ a] digit_not_space show "CHR '','' \<notin> set (show_ipv4 a)" "strip (show_ipv4 a) = show_ipv4 a"
    by (auto intro!: strip_none)
qed


text \<open>Had the proxy appended, as the middleware's comment has it, a caller would have chosen the address it is
  checked for.\<close>

theorem appended_header_is_callers:
  "client_ip (through_appending (show_ipv4 claimed) peer q) = Some (show_ipv4 claimed)"
  by (simp add: client_ip_def through_appending_def split_on_append show_ipv4_plain)

text \<open>An empty list lets every source through in production too; it is only logged.\<close>

theorem empty_allowlist_is_open: "ip_allowlist t environment [] q \<noteq> Source_Not_Allowed"
  by (simp add: ip_allowlist_def)


text \<open>The older report of a session's traffic is read as the newer one.\<close>

lemma older_report_same:
  assumes "row ''bytes-in'' = None" "row ''bytes-out'' = None" "row ''bytes'' = Some (nat_str i @ ''/'' @ nat_str out)"
  shows "active_session row = active_session (row(''bytes-in'' \<mapsto> nat_str i, ''bytes-out'' \<mapsto> nat_str out))"
    "bytes_in (active_session row) = Some (int i)" "bytes_out (active_session row) = Some (int out)"
proof -
  have parts: "split_on (CHR ''/'') (nat_str i @ ''/'' @ nat_str out) = [nat_str i, nat_str out]"
    using split_on_append [OF nat_str_no_dot(2)] split_on_plain [OF nat_str_no_dot(2)] by simp
  show "active_session row = active_session (row(''bytes-in'' \<mapsto> nat_str i, ''bytes-out'' \<mapsto> nat_str out))"
    using assms parts by (simp add: active_session_def session_bytes_def shown_def)
  show "bytes_in (active_session row) = Some (int i)" "bytes_out (active_session row) = Some (int out)"
    using assms parts by (simp_all add: active_session_def session_bytes_def as_int_def as_text_def int_parse_nat_str)
qed










end
