(* ===== verification/Spec2Isabelle.thy ===== *)
theory Spec2Isabelle
  imports Payout_Hazards Provider_Rules Rate_Limits Payment_Refs Request_Signing Tenant_Gates Worker_Sweeps Router_Setup Row_Security Payout_Callbacks Agent_Gate
begin

text \<open>
  A verification of the money and access paths of Infinity Radius, the backend of a Wi-Fi billing
  service: \<^verbatim>\<open>apps/api\<close> (FastAPI, SQLAlchemy, Celery) and the part of \<^verbatim>\<open>apps/network-agent\<close> that
  writes the RADIUS tables. A tenant (an ISP) sells packages; customers pay by mobile money through a
  captive portal or are billed by the tenant, the payment is credited to the tenant's wallet less a
  commission, access is provisioned in RADIUS, and the tenant pays its balance out. Vouchers are the
  offline way to the same subscriptions.

  How the program is modelled. One record \<open>db\<close> (\<open>Service_State\<close>) holds every table as the list of its
  rows in insertion order, with the columns the modelled services use; next to it stand what a
  database rollback does not undo: the requests sent to the payment providers, the rows of the RADIUS
  tables, the Redis counters and the supply of identifiers. A request is a function
  \<open>db \<Rightarrow> (err + 'a) \<times> db\<close>; \<open>bnd\<close>, \<open>thn\<close>, \<open>guard\<close>, \<open>require\<close> are its sequencing and early exits, \<open>except\<close>
  its \<^verbatim>\<open>try\<close>, and \<open>commit\<close> the end of a request: kept when it returns, rolled back when it raises. What a request
  obtains from outside (the time, random numbers, HMAC, the provider's replies, whether RADIUS or
  Redis is reachable) is the record \<open>io\<close>, universally quantified in every theorem. Amounts are
  rationals, rounded where a NUMERIC(14,2) column stores them; money columns are bounded as the
  database bounds them. Row locks are the atomicity of a step; the steps below interleave requests in
  any order. Error messages are cut to their leading phrase, since no code branches on them.

  Theories, and the files under \<^verbatim>\<open>apps/api/app\<close> they model:
  \<^item> \<open>Prelude\<close>, \<open>Py_Text\<close>: tables, the calculus \<open>keeps\<close> of what an operation leaves alone, stable
    relations (a locale), Python's string operations.
  \<^item> \<open>Enums\<close> (\<^verbatim>\<open>core/enums.py\<close>), \<open>Money\<close> (\<^verbatim>\<open>core/money.py\<close> and the column types), \<open>Phone\<close> (\<^verbatim>\<open>core/phone.py\<close>),
    \<open>Service_State\<close> (\<^verbatim>\<open>models/\<close>, \<^verbatim>\<open>core/errors.py\<close>, \<^verbatim>\<open>core/config.py\<close>, \<^verbatim>\<open>services/audit.py\<close>), \<open>Samples\<close>: concrete
    inputs for the examples.
  \<^item> \<open>Tenant_Finance\<close> (\<^verbatim>\<open>services/commercial_terms.py\<close>, \<^verbatim>\<open>services/settlement_config.py\<close>), \<open>Wallet\<close>
    (\<^verbatim>\<open>services/wallet.py\<close>): rates and modes are versioned; every wallet request keeps every balance
    non-negative, exact and within its column; a collection is split without loss; holding and
    releasing are inverse.
  \<^item> \<open>Two_Factor\<close>, \<open>Selcom_Business\<close>, \<open>Payouts\<close> (\<^verbatim>\<open>services/two_factor.py\<close>, \<^verbatim>\<open>integrations/selcom_business\<close>,
    \<^verbatim>\<open>services/payouts.py\<close>): the payout service. \<open>Payout_Spec\<close> states an abstract payout machine,
    \<open>Payout_System\<close> proves that the service refines it and what follows for all reachable states,
    \<open>Payout_Rules\<close> the single operations, \<open>Payout_Hazards\<close> what goes wrong when a reply cannot be
    interpreted, \<open>Provider_Rules\<close> where requests go and what is signed.
  \<^item> \<open>Selcom_Collection\<close>, \<open>Payment_Provider\<close>, \<open>Collections\<close> (\<^verbatim>\<open>integrations/selcom_collection\<close>,
    \<^verbatim>\<open>services/selcom_payment_provider.py\<close>, \<^verbatim>\<open>services/collections.py\<close>): one order-status machine for two payment
    flows; the contract of a flow's finalizer is the locale \<open>payment_finalizer\<close>, interpreted on both.
  \<^item> \<open>Subscriptions\<close>, \<open>Voucher_Rules\<close> (\<^verbatim>\<open>services/customers.py\<close>, \<^verbatim>\<open>subscriptions.py\<close>, \<^verbatim>\<open>vouchers.py\<close>).
  \<^item> \<open>Radius\<close> (\<^verbatim>\<open>services/radius_sync.py\<close>, \<^verbatim>\<open>services/radius_provisioning.py\<close>,
    \<^verbatim>\<open>integrations/network_agent/client.py\<close>, and the agent's \<^verbatim>\<open>services/radius_provisioning.py\<close>): both
    transports, equal row by row, converging under retries.
  \<^item> \<open>Captive\<close>, \<open>Activation\<close> (\<^verbatim>\<open>services/captive_session.py\<close>, \<^verbatim>\<open>captive_rate_limit.py\<close>, \<^verbatim>\<open>captive_portal.py\<close>,
    \<^verbatim>\<open>captive_activation.py\<close>, \<^verbatim>\<open>tasks/captive_activation.py\<close>).
  \<^item> \<open>Payment_Rules\<close>, \<open>Payment_System\<close>, \<open>Payments\<close>: what each payment request does, all of them as one
    step relation with its invariants, and the properties: credited exactly once, one attempt per
    session, priced by the server, webhooks only trigger, access follows money.
  \<^item> \<open>Rate_Limits\<close>: how many payment prompts one phone, session or router can receive in a window.
    \<open>Payment_Refs\<close>: every payment stays well-formed and its references stay within its tenant.
  \<^item> \<open>Request_Signing\<close> (\<^verbatim>\<open>core/internal_auth.py\<close>, \<^verbatim>\<open>integrations/network_agent/signing.py\<close>, the agent's
    \<^verbatim>\<open>core/security.py\<close> and \<^verbatim>\<open>core/nonce_cache.py\<close>): signed internal requests and their replay protection, the
    locale \<open>replay_guard\<close> interpreted on both verifiers.
  \<^item> \<open>Access_Control\<close> (\<^verbatim>\<open>core/roles.py\<close>, \<^verbatim>\<open>core/security.py\<close>, \<^verbatim>\<open>core/context.py\<close>): who is served. \<open>Onboarding\<close>
    (\<^verbatim>\<open>services/onboarding.py\<close>, \<^verbatim>\<open>core/supabase_admin.py\<close>): registration across two systems. \<open>Tenant_Review\<close>
    (\<^verbatim>\<open>services/admin_tenants.py\<close>): the review of tenants; the locale \<open>told_column\<close>, interpreted on four columns,
    shows that the audit trail decides a tenant's standing. \<open>Tenant_Gates\<close>: which requests depend on it.
  \<^item> \<open>Worker_Sweeps\<close> (\<^verbatim>\<open>integrations/internal_web/client.py\<close>, \<^verbatim>\<open>api/v1/internal_disbursements.py\<close>,
    \<^verbatim>\<open>api/v1/internal_collections.py\<close>, \<^verbatim>\<open>tasks/reconciliation.py\<close>, \<^verbatim>\<open>tasks/collections.py\<close>): the worker's sweeps, its
    signed requests with one retry, and the routes they reach. A sweep is a run of the payout machine, or a sequence
    of payment requests; the locale \<open>stable_relation\<close>, interpreted on both, carries that through the loop.
  \<^item> \<open>Ip_Address\<close>: the part of Python's \<^verbatim>\<open>ipaddress\<close> the code uses. \<open>Router_Setup\<close> (\<^verbatim>\<open>services/router_provisioning.py\<close>,
    \<^verbatim>\<open>services/network_routers.py\<close>, \<^verbatim>\<open>services/locations.py\<close>, \<^verbatim>\<open>repositories/network.py\<close>): the Add Router wizard with the
    texts it generates; tunnel addresses, secrets, the hotspot's address pool.
  \<^item> \<open>Row_Security\<close> (\<^verbatim>\<open>alembic/versions/41619a38de4a_rls_policies.py\<close> and its additions): what a signed-in account can do by
    sending statements to the database itself: the books stay closed to it, its tenant does not contain it.
  \<^item> \<open>Operator_Tools\<close> (\<^verbatim>\<open>scripts/assign_super_admin.py\<close>, \<^verbatim>\<open>scripts/integrity_check.py\<close>): the requests and the script keep the
    integrity report empty; a forced conversion is complete and idempotent.
  \<^item> \<open>Dashboards\<close> (\<^verbatim>\<open>services/dashboard.py\<close>, \<^verbatim>\<open>services/super_admin_dashboard.py\<close>, \<^verbatim>\<open>services/reports.py\<close>): every figure shown;
    the revenue chart agrees with the payments, pending payouts are covered, the health row is the last sweep.
    \<open>Payout_Callbacks\<close> (\<^verbatim>\<open>api/v1/webhooks.py\<close>, \<^verbatim>\<open>integrations/selcom/\<close>): the public callback routes of the payouts; a
    callback only makes the service ask the provider, or is only recorded.
  \<^item> \<open>Agent_Gate\<close> (the agent's \<^verbatim>\<open>core/ip_allowlist.py\<close>, \<^verbatim>\<open>core/router_registry.py\<close>, \<^verbatim>\<open>services/mikrotik_client.py\<close>,
    \<^verbatim>\<open>routers/mikrotik.py\<close>): who may make the agent connect to which router.
  Bounds. The voucher generator draws at most five codes per voucher and twenty more, as the code
  does; \<open>batch_succeeds_iff\<close> shows exactly when that is enough. No fuel is used anywhere else: every other
  loop is a recursion over a list.

  Not modelled, and why: the network, JSON and cryptography (parameters of the model); the plain listing and
  editing of packages, customers, sessions and settings; the mail client; FastAPI routes and
  middleware beyond the commit they perform, except the callback routes; the table definitions of the migrations
  beyond the columns and policies used here; local set-up scripts and tests; the web frontend. The components
  without a theory are listed in the manifest.
\<close>

end
